(* ===== verification/Go_Base.thy ===== *)
theory Go_Base
  imports Main "HOL-Library.Word"
begin

text \<open>
  The prelude of the development: the Go types the sources use, the result type in which a
  run-time panic is a value (and so is \<open>Blocked\<close>, an operation on a channel that does not return), the loops of the language (a range loop whose body can panic, a
  map built from a slice, a linear search that returns a pointer), byte slices and their
  big-endian reading, and the list and word lemmas the components share.

  Fixed-size byte arrays are words of the same number of bits (an array \<^verbatim>\<open>[20]byte\<close> has the
  same values and the same equality as a 160-bit word), and a \<^verbatim>\<open>uint256.Int\<close> is a 256-bit word
  with wrap-around arithmetic and division by zero giving zero. \<^verbatim>\<open>int64\<close> is a 64-bit word read
  by \<^term>\<open>sint\<close> and compared by the signed comparisons.
  A pointer into a slice of structs (\<^verbatim>\<open>[]*T\<close>) is the position of the struct in the slice.
\<close>

section \<open>Types\<close>

type_synonym byte = "8 word"
type_synonym bytes = "byte list"
type_synonym uint32 = "32 word"
type_synonym uint64 = "64 word"
type_synonym int64 = "64 word"
type_synonym address = "160 word"
type_synonym bytes32 = "256 word"
type_synonym u256 = "256 word"

datatype panic =
    NilDeref
  | OutOfBounds
  | PanicMsg string
  | PanicErr
  | Blocked

type_synonym 'a go = "panic + 'a"

named_theorems go_simps \<open>unfolding of the result monad and its loops\<close>
named_theorems word_nat \<open>reading word arithmetic as arithmetic on natural numbers\<close>

section \<open>Results and loops\<close>

definition bindG :: "'e + 'a \<Rightarrow> ('a \<Rightarrow> 'e + 'b) \<Rightarrow> 'e + 'b" where
  "bindG m f = (case m of Inl e \<Rightarrow> Inl e | Inr x \<Rightarrow> f x)"

primrec foldG :: "('s \<Rightarrow> 'a \<Rightarrow> 'e + 's) \<Rightarrow> 's \<Rightarrow> 'a list \<Rightarrow> 'e + 's" where
  "foldG f s [] = Inr s"
| "foldG f s (x # xs) = bindG (f s x) (\<lambda>s'. foldG f s' xs)"

fun find_idx :: "('a \<Rightarrow> bool) \<Rightarrow> 'a list \<Rightarrow> nat option" where
  "find_idx P [] = None"
| "find_idx P (x # xs) = (if P x then Some 0 else map_option Suc (find_idx P xs))"

text \<open>
  The Go loop \<^verbatim>\<open>for _, x := range xs { if P(x) { res[key(x)] = x } }\<close> over a slice of pointers:
  a later element with the same key overwrites an earlier one.
\<close>

definition index_map :: "('a \<Rightarrow> bool) \<Rightarrow> ('a \<Rightarrow> 'k) \<Rightarrow> 'a list \<Rightarrow> ('k \<rightharpoonup> nat)" where
  "index_map P key xs =
     foldl (\<lambda>m (i, x). if P x then m(key x \<mapsto> i) else m) Map.empty (enumerate 0 xs)"

section \<open>Byte slices\<close>

definition str_bytes :: "string \<Rightarrow> bytes" where
  "str_bytes s = map of_char s"

definition be_nat :: "bytes \<Rightarrow> nat" where
  "be_nat bs = foldl (\<lambda>a b. a * 256 + unat b) 0 bs"

primrec nat_be :: "nat \<Rightarrow> nat \<Rightarrow> bytes" where
  "nat_be 0 k = []"
| "nat_be (Suc n) k = nat_be n (k div 256) @ [of_nat (k mod 256)]"

definition be_word :: "bytes \<Rightarrow> 'a::len word" where
  "be_word bs = of_nat (be_nat bs)"

definition be_bytes :: "nat \<Rightarrow> 'a::len word \<Rightarrow> bytes" where
  "be_bytes n w = nat_be n (unat w)"

text \<open>\<^verbatim>\<open>copy(dst[:], src)\<close> for an array of \<open>n\<close> bytes: what the source is too short for stays.\<close>

definition copy_array :: "nat \<Rightarrow> 'a::len word \<Rightarrow> bytes \<Rightarrow> 'a word" where
  "copy_array n dst src = be_word (take n src @ drop (length src) (be_bytes n dst))"

section \<open>Lemmas on results and loops\<close>

lemma bindG_simps [simp, go_simps]:
  "bindG (Inl e) f = Inl e"
  "bindG (Inr x) f = f x"
  by (simp_all add: bindG_def)

lemma bindG_Inr_iff: "bindG m f = Inr y \<longleftrightarrow> (\<exists>x. m = Inr x \<and> f x = Inr y)"
  by (cases m) auto

lemma bindG_Inl_iff: "bindG m f = Inl e \<longleftrightarrow> m = Inl e \<or> (\<exists>x. m = Inr x \<and> f x = Inl e)"
  by (cases m) auto

lemma bindG_assoc: "bindG (bindG m f) g = bindG m (\<lambda>x. bindG (f x) g)"
  by (cases m) auto

lemma bindG_InrE [elim!]:
  assumes "bindG m f = Inr y"
  obtains x where "m = Inr x" and "f x = Inr y"
  using assms by (auto simp: bindG_Inr_iff)

lemma foldG_append: "foldG f s (xs @ ys) = bindG (foldG f s xs) (\<lambda>s'. foldG f s' ys)"
  by (induction xs arbitrary: s) (simp_all add: bindG_assoc)

lemma foldG_invariant:
  assumes "foldG f s xs = Inr s'" and "I s"
    and "\<And>t x t'. x \<in> set xs \<Longrightarrow> I t \<Longrightarrow> f t x = Inr t' \<Longrightarrow> I t'"
  shows "I s'"
  using assms
proof (induction xs arbitrary: s)
  case Nil
  then show ?case by simp
next
  case (Cons x xs)
  from Cons.prems(1) obtain t where t: "f s x = Inr t" "foldG f t xs = Inr s'" by auto
  from Cons.prems(2,3) t(1) have "I t" by (meson list.set_intros(1))
  with t(2) Cons.prems(3) show ?case by (blast intro: Cons.IH list.set_intros(2))
qed

lemma foldG_total:
  assumes "I s"
    and "\<And>t x. x \<in> set xs \<Longrightarrow> I t \<Longrightarrow> \<exists>t'. f t x = Inr t' \<and> I t'"
  shows "\<exists>s'. foldG f s xs = Inr s' \<and> I s'"
  using assms
proof (induction xs arbitrary: s)
  case Nil
  then show ?case by simp
next
  case (Cons x xs)
  then obtain t where "f s x = Inr t" "I t" by (meson list.set_intros(1))
  with Cons show ?case by (metis bindG_simps(2) foldG.simps(2) list.set_intros(2))
qed

lemma foldG_Inr_foldl:
  assumes "\<And>t x. x \<in> set xs \<Longrightarrow> f t x = Inr (g t x)"
  shows "foldG f s xs = Inr (foldl g s xs)"
  using assms by (induction xs arbitrary: s) auto

lemma find_idx_Some:
  "find_idx P xs = Some i \<longleftrightarrow> i < length xs \<and> P (xs ! i) \<and> (\<forall>j < i. \<not> P (xs ! j))"
proof (induction xs arbitrary: i)
  case Nil
  then show ?case by simp
next
  case (Cons x xs)
  show ?case
    by (cases i) (auto simp: Cons.IH less_Suc_eq_0_disj nth_Cons')
qed

lemma find_idx_None: "find_idx P xs = None \<longleftrightarrow> (\<forall>x \<in> set xs. \<not> P x)"
  by (induction xs) auto

lemma index_map_snoc:
  "index_map P key (xs @ [x]) =
     (if P x then (index_map P key xs)(key x \<mapsto> length xs) else index_map P key xs)"
  by (simp add: index_map_def enumerate_append_eq)

lemma index_map_Nil [simp]: "index_map P key [] = Map.empty"
  by (simp add: index_map_def)

lemma index_map_SomeD:
  "index_map P key xs k = Some i \<Longrightarrow> i < length xs \<and> P (xs ! i) \<and> key (xs ! i) = k"
proof (induction xs arbitrary: i rule: rev_induct)
  case Nil
  then show ?case by simp
next
  case (snoc x xs)
  then show ?case
    by (fastforce simp: index_map_snoc nth_append split: if_splits)
qed

lemma index_map_None:
  "index_map P key xs k = None \<longleftrightarrow> (\<forall>x \<in> set xs. P x \<longrightarrow> key x \<noteq> k)"
  by (induction xs rule: rev_induct) (auto simp: index_map_snoc)

lemma index_map_distinct:
  assumes "distinct (map key xs)"
  shows "index_map P key xs k = Some i \<longleftrightarrow> i < length xs \<and> P (xs ! i) \<and> key (xs ! i) = k"
proof
  assume "index_map P key xs k = Some i"
  then show "i < length xs \<and> P (xs ! i) \<and> key (xs ! i) = k" by (rule index_map_SomeD)
next
  assume i: "i < length xs \<and> P (xs ! i) \<and> key (xs ! i) = k"
  then obtain j where j: "index_map P key xs k = Some j"
    using index_map_None [of P key xs k] by fastforce
  from index_map_SomeD [OF this] i assms have "j = i"
    by (metis length_map nth_eq_iff_index_eq nth_map)
  with j show "index_map P key xs k = Some i" by simp
qed

section \<open>Machines\<close>

text \<open>
  A component that is driven by a sequence of inputs, each of which changes its state or panics:
  an invariant of the steps is an invariant of every run.
\<close>

locale machine =
  fixes step :: "'s \<Rightarrow> 'i \<Rightarrow> 's go"
    and allowed :: "'i \<Rightarrow> bool"
    and invar :: "'s \<Rightarrow> bool"
  assumes step_invar: "invar s \<Longrightarrow> allowed i \<Longrightarrow> step s i = Inr s' \<Longrightarrow> invar s'"
begin

lemma run_invar:
  assumes "foldG step s is = Inr s'" and "invar s" and "list_all allowed is"
  shows "invar s'"
  using assms(1,2)
  by (rule foldG_invariant) (use assms(3) in \<open>auto simp: list_all_iff intro: step_invar\<close>)

lemma run_prefix_invar:
  assumes "foldG step s (is @ js) = Inr s'" and "invar s" and "list_all allowed is"
  shows "\<exists>t. foldG step s is = Inr t \<and> invar t \<and> foldG step t js = Inr s'"
  using assms by (auto simp: foldG_append intro: run_invar)

end

section \<open>Lemmas on byte slices\<close>

lemma be_nat_snoc: "be_nat (bs @ [b]) = be_nat bs * 256 + unat b"
  by (simp add: be_nat_def)

lemma be_nat_append: "be_nat (xs @ ys) = be_nat xs * 256 ^ length ys + be_nat ys"
proof (induction ys rule: rev_induct)
  case Nil
  then show ?case by (simp add: be_nat_def)
next
  case (snoc b ys)
  have "be_nat (xs @ ys @ [b]) = be_nat ((xs @ ys) @ [b])" by simp
  also note be_nat_snoc
  finally show ?case by (simp add: snoc be_nat_snoc algebra_simps)
qed

lemma be_nat_zeros [simp]: "be_nat (replicate n 0) = 0"
  by (induction n) (simp_all add: be_nat_def)

lemma nat_be_zeros [simp]: "nat_be n 0 = replicate n 0"
  by (induction n) (simp_all add: replicate_append_same)

lemma be_nat_less: "be_nat bs < 256 ^ length bs"
proof (induction bs rule: rev_induct)
  case Nil
  then show ?case by (simp add: be_nat_def)
next
  case (snoc b bs)
  have "unat b < 2 ^ LENGTH(8)" by (rule unsigned_less)
  then have "unat b < 256" by simp
  with snoc show ?case by (simp add: be_nat_snoc)
qed

lemma length_nat_be [simp]: "length (nat_be n k) = n"
  by (induction n arbitrary: k) auto

lemma be_nat_nat_be: "be_nat (nat_be n k) = k mod 256 ^ n"
proof (induction n arbitrary: k)
  case 0
  then show ?case by (simp add: be_nat_def)
next
  case (Suc n)
  have "k mod 256 ^ Suc n = (k div 256) mod 256 ^ n * 256 + k mod 256"
    by (metis add.commute mod_mult2_eq mult.commute power_Suc)
  with Suc show ?case by (simp add: be_nat_snoc unat_of_nat)
qed

lemma nat_be_be_nat: "nat_be (length bs) (be_nat bs) = bs"
proof (induction bs rule: rev_induct)
  case Nil
  then show ?case by simp
next
  case (snoc b bs)
  have "unat b < 2 ^ LENGTH(8)" by (rule unsigned_less)
  then have "unat b < 256" by simp
  with snoc show ?case by (simp add: be_nat_snoc)
qed

lemma length_be_bytes [simp]: "length (be_bytes n w) = n"
  by (simp add: be_bytes_def)

lemma be_word_be_bytes:
  fixes w :: "'a::len word"
  assumes "LENGTH('a) \<le> 8 * n"
  shows "be_word (be_bytes n w) = w"
proof -
  have "unat w < 2 ^ LENGTH('a)" by (rule unsigned_less)
  also have "\<dots> \<le> 2 ^ (8 * n)" using assms by simp
  also have "\<dots> = 256 ^ n" by (simp add: power_mult)
  finally show ?thesis by (simp add: be_word_def be_bytes_def be_nat_nat_be)
qed

lemma be_bytes_be_word:
  assumes "length bs = n" and "8 * n \<le> LENGTH('a::len)"
  shows "be_bytes n (be_word bs :: 'a word) = bs"
proof -
  have "be_nat bs < 256 ^ n" using be_nat_less [of bs] assms(1) by simp
  also have "(256::nat) ^ n = 2 ^ (8 * n)" by (simp add: power_mult)
  also have "\<dots> \<le> 2 ^ LENGTH('a)" using assms(2) by simp
  finally have "unat (of_nat (be_nat bs) :: 'a word) = be_nat bs"
    by (simp add: unat_of_nat)
  then show ?thesis using nat_be_be_nat [of bs] assms(1) by (simp add: be_word_def be_bytes_def)
qed

lemma copy_array_full: "n \<le> length src \<Longrightarrow> copy_array n dst src = be_word (take n src)"
  by (simp add: copy_array_def)

lemma copy_array_be_bytes:
  fixes w dst :: "'a::len word"
  assumes "LENGTH('a) \<le> 8 * n"
  shows "copy_array n dst (be_bytes n w) = w"
  by (simp add: copy_array_full be_word_be_bytes [OF assms])

section \<open>Lemmas on words\<close>

lemma unat_add_le: "unat (a + b :: 'a::len word) \<le> unat a + unat b"
  by (simp add: unat_word_ariths mod_less_eq_dividend)

lemma unat_add_no_overflow [word_nat]:
  fixes a b :: "'a::len word"
  assumes "unat a + unat b < 2 ^ LENGTH('a)"
  shows "unat (a + b) = unat a + unat b"
  using assms by (simp add: unat_word_ariths)

lemma unat_diff_le [word_nat]:
  fixes a b :: "'a::len word"
  assumes "b \<le> a"
  shows "unat (a - b) = unat a - unat b"
  using assms by (rule unat_sub)

lemma sint_inject [simp]: "sint a = sint b \<longleftrightarrow> a = (b :: 'a::len word)"
proof
  assume "sint a = sint b"
  then have "(word_of_int (sint a) :: 'a word) = word_of_int (sint b)" by simp
  then show "a = b" by simp
qed simp

lemma sum_list_update_word:
  fixes f :: "'a \<Rightarrow> 'b::ab_group_add"
  assumes "i < length xs"
  shows "(\<Sum>x\<leftarrow>xs[i := y]. f x) = (\<Sum>x\<leftarrow>xs. f x) + f y - f (xs ! i)"
  using assms
proof (induction xs arbitrary: i)
  case Nil
  then show ?case by simp
next
  case (Cons x xs)
  then show ?case by (cases i) (simp_all add: algebra_simps)
qed

section \<open>Lemmas on int64\<close>

lemma sint_word_of_int64:
  assumes "- (2 ^ 63) \<le> k" and "k < 2 ^ 63"
  shows "sint (word_of_int k :: int64) = k"
  using assms by (simp add: signed_of_int signed_take_bit_int_eq_self)

lemma sint_add64:
  fixes a b :: int64
  assumes "- (2 ^ 63) \<le> sint a + sint b" and "sint a + sint b < 2 ^ 63"
  shows "sint (a + b) = sint a + sint b"
proof -
  have "a + b = word_of_int (sint a + sint b)" by simp
  then show ?thesis using sint_word_of_int64 [OF assms] by simp
qed

lemma sint_diff64:
  fixes a b :: int64
  assumes "- (2 ^ 63) \<le> sint a - sint b" and "sint a - sint b < 2 ^ 63"
  shows "sint (a - b) = sint a - sint b"
proof -
  have "a - b = word_of_int (sint a - sint b)" by simp
  then show ?thesis using sint_word_of_int64 [OF assms] by simp
qed

lemma sint_range64: "- (2 ^ 63) \<le> sint (a :: int64)" "sint (a :: int64) < 2 ^ 63"
  using sint_ge [of a] sint_lt [of a] by simp_all

lemma sint_add_one:
  fixes i j :: int64
  assumes "sint i < sint j"
  shows "sint (i + 1) = sint i + 1"
  using sint_add64 [of i 1] sint_range64 [of i] sint_range64 [of j] assms by simp

text \<open>The \<open>n\<close> numbers from \<open>i\<close> on.\<close>

definition heights :: "int64 \<Rightarrow> nat \<Rightarrow> int64 list" where
  "heights i n = map (\<lambda>k. i + of_nat k) [0..<n]"

lemma heights_Suc: "heights i (Suc n) = i # heights (i + 1) n"
proof -
  have "heights i (Suc n) = map (\<lambda>k. i + of_nat k) (0 # map Suc [0..<n])"
    unfolding heights_def by (simp only: upt_conv_Cons map_Suc_upt zero_less_Suc)
  then show ?thesis by (simp add: heights_def comp_def add.assoc)
qed

lemma set_heights:
  assumes "sint i + int n \<le> 2 ^ 63" and "x \<in> set (heights i n)"
  shows "sint i \<le> sint x" and "sint x < sint i + int n"
proof -
  from assms(2) obtain k where k: "k < n" and x: "x = i + of_nat k" by (auto simp: heights_def)
  have "x = word_of_int (sint i + int k)" using x by simp
  moreover have "- (2 ^ 63) \<le> sint i + int k" "sint i + int k < 2 ^ 63"
    using assms(1) k sint_range64 [of i] by linarith+
  ultimately have "sint x = sint i + int k" by (simp only: sint_word_of_int64)
  with k show "sint i \<le> sint x" "sint x < sint i + int n" by simp_all
qed

end
