(* ===== verification/Staking_Types.thy ===== *)
theory Staking_Types
  imports Go_Base "HOL-Library.Multiset" "HOL-Library.Sublist"
begin

text \<open>
  The data of \<^verbatim>\<open>staking/types/types.go\<close> and its operations: the staking information kept in
  the world state (validators and pending rewards), the BCH blocks and epochs the watcher
  produces, and the queries and updates that all the staking operations are made of.
  A map that is only looked up is a partial function; a map the code iterates over is the list
  of its entries, with distinct keys.
\<close>

section \<open>Data\<close>

definition MaxActiveValidatorNum :: nat where
  "MaxActiveValidatorNum = 30"

record Nomination =
  Nom_Pubkey :: bytes32
  NominatedCount :: int64

record BCHBlock =
  Height :: int64
  Timestamp :: int64
  HashId :: bytes32
  ParentBlk :: bytes32
  Nominations :: "Nomination list"

definition BCHBlock_Equal :: "BCHBlock \<Rightarrow> BCHBlock \<Rightarrow> bool" where
  "BCHBlock_Equal b b' \<longleftrightarrow> Height b = Height b' \<and> Timestamp b = Timestamp b' \<and>
     HashId b = HashId b' \<and> ParentBlk b = ParentBlk b'"

record Epoch =
  StartHeight :: int64
  EndTime :: int64
  Duration :: int64
  ValMapByPubkey :: "(bytes32 \<times> Nomination) list"

record Validator =
  Address :: address
  Pubkey :: bytes32
  RewardTo :: address
  VotingPower :: int64
  Introduction :: bytes
  StakedCoins :: bytes32
  IsRetiring :: bool

record PendingReward =
  PR_Address :: address
  EpochNum :: int64
  Amount :: bytes32

record StakingInfo =
  CurrEpochNum :: int64
  Validators :: "Validator list"
  PendingRewards :: "PendingReward list"

datatype staking_error =
    CreateValidatorCoinLtInitAmount
  | ValidatorAddressAlreadyExists
  | ValidatorPubkeyAlreadyExists
  | InvalidCallData
  | BalanceNotEnough
  | NoSuchValidator
  | MinGasPriceTooBig
  | MinGasPriceTooSmall
  | MinGasPriceExceedBlockChangeDelta
  | OperatorNotValidator
  | InvalidArgument

section \<open>Operations\<close>

definition GetValMapByPubkey :: "StakingInfo \<Rightarrow> (bytes32 \<rightharpoonup> nat)" where
  "GetValMapByPubkey si = index_map (\<lambda>_. True) Pubkey (Validators si)"

definition GetValMapByAddr :: "StakingInfo \<Rightarrow> (address \<rightharpoonup> nat)" where
  "GetValMapByAddr si = index_map (\<lambda>_. True) Address (Validators si)"

definition GetCurrRewardMapByAddr :: "StakingInfo \<Rightarrow> (address \<rightharpoonup> nat)" where
  "GetCurrRewardMapByAddr si =
     index_map (\<lambda>pr. EpochNum pr = CurrEpochNum si) PR_Address (PendingRewards si)"

fun addValidator_conflict :: "address \<Rightarrow> bytes32 \<Rightarrow> Validator list \<Rightarrow> staking_error option" where
  "addValidator_conflict addr pubkey [] = None"
| "addValidator_conflict addr pubkey (val # vals) =
     (if addr = Address val then Some ValidatorAddressAlreadyExists
      else if pubkey = Pubkey val then Some ValidatorPubkeyAlreadyExists
      else addValidator_conflict addr pubkey vals)"

definition AddValidator ::
  "StakingInfo \<Rightarrow> address \<Rightarrow> bytes32 \<Rightarrow> bytes \<Rightarrow> bytes32 \<Rightarrow> address \<Rightarrow> staking_error + StakingInfo" where
  "AddValidator si addr pubkey intro stakedCoins rewardTo =
     (case addValidator_conflict addr pubkey (Validators si) of
        Some err \<Rightarrow> Inl err
      | None \<Rightarrow>
          Inr (si\<lparr>Validators := Validators si @
            [\<lparr>Address = addr, Pubkey = pubkey, RewardTo = rewardTo, VotingPower = 0,
              Introduction = intro, StakedCoins = stakedCoins, IsRetiring = False\<rparr>]\<rparr>))"

definition GetValidatorByAddr :: "StakingInfo \<Rightarrow> address \<Rightarrow> nat option" where
  "GetValidatorByAddr si addr = find_idx (\<lambda>val. addr = Address val) (Validators si)"

definition GetValidatorByPubkey :: "StakingInfo \<Rightarrow> bytes32 \<Rightarrow> nat option" where
  "GetValidatorByPubkey si pubkey = find_idx (\<lambda>val. pubkey = Pubkey val) (Validators si)"

definition GetUselessValidators :: "StakingInfo \<Rightarrow> address list" where
  "GetUselessValidators si =
     foldl (\<lambda>res pr. removeAll (PR_Address pr) res)
       (foldl (\<lambda>res val. if VotingPower val = 0 then List.insert (Address val) res else res)
          [] (Validators si))
       (PendingRewards si)"

definition ClearRewardsOf :: "StakingInfo \<Rightarrow> address \<Rightarrow> u256 \<times> StakingInfo" where
  "ClearRewardsOf si addr =
     (let (totalCleared, rwdList) =
        foldl (\<lambda>(totalCleared, rwdList) rwd.
          if PR_Address rwd = addr then
            (totalCleared + Amount rwd,
             if EpochNum rwd = CurrEpochNum si then rwdList @ [rwd\<lparr>Amount := 0\<rparr>] else rwdList)
          else (totalCleared, rwdList @ [rwd]))
          (0, []) (PendingRewards si)
      in (totalCleared, si\<lparr>PendingRewards := rwdList\<rparr>))"

definition eligible :: "u256 \<Rightarrow> Validator \<Rightarrow> bool" where
  "eligible minStakedCoins val \<longleftrightarrow>
     minStakedCoins \<le> StakedCoins val \<and> \<not> IsRetiring val \<and> 0 <s VotingPower val"

definition GetActiveValidators :: "StakingInfo \<Rightarrow> u256 \<Rightarrow> Validator list" where
  "GetActiveValidators si minStakedCoins =
     (let res = filter (eligible minStakedCoins) (Validators si);
          res = sort_key (\<lambda>val. - sint (VotingPower val)) res
      in if MaxActiveValidatorNum < length res then take MaxActiveValidatorNum res else res)"

section \<open>The well-formedness invariant and the coins the contract owes\<close>

definition wf_info :: "StakingInfo \<Rightarrow> bool" where
  "wf_info si \<longleftrightarrow> distinct (map Address (Validators si)) \<and> distinct (map Pubkey (Validators si)) \<and>
     PR_Address ` set (PendingRewards si) \<subseteq> Address ` set (Validators si)"

definition staked_total :: "StakingInfo \<Rightarrow> nat" where
  "staked_total si = (\<Sum>v\<leftarrow>Validators si. unat (StakedCoins v))"

definition pending_total :: "StakingInfo \<Rightarrow> nat" where
  "pending_total si = (\<Sum>p\<leftarrow>PendingRewards si. unat (Amount p))"

definition owed :: "StakingInfo \<Rightarrow> nat" where
  "owed si = staked_total si + pending_total si"

lemma wf_infoD:
  assumes "wf_info si"
  shows "distinct (map Address (Validators si))" and "distinct (map Pubkey (Validators si))"
    and "\<And>pr. pr \<in> set (PendingRewards si) \<Longrightarrow> \<exists>v \<in> set (Validators si). Address v = PR_Address pr"
  using assms by (auto simp: wf_info_def, force)

section \<open>Queries\<close>

lemma GetValMapByPubkey_wf:
  assumes "wf_info si"
  shows "GetValMapByPubkey si pk = Some i \<longleftrightarrow>
           i < length (Validators si) \<and> Pubkey (Validators si ! i) = pk"
  using wf_infoD(2) [OF assms] by (simp add: GetValMapByPubkey_def index_map_distinct)

lemma GetValMapByAddr_wf:
  assumes "wf_info si"
  shows "GetValMapByAddr si a = Some i \<longleftrightarrow>
           i < length (Validators si) \<and> Address (Validators si ! i) = a"
  using wf_infoD(1) [OF assms] by (simp add: GetValMapByAddr_def index_map_distinct)

lemma GetValMapByAddr_None:
  "GetValMapByAddr si a = None \<longleftrightarrow> (\<forall>v \<in> set (Validators si). Address v \<noteq> a)"
  by (simp add: GetValMapByAddr_def index_map_None)

lemma GetValidatorByAddr_Some:
  "GetValidatorByAddr si a = Some i \<Longrightarrow> i < length (Validators si) \<and> Address (Validators si ! i) = a"
  by (simp add: GetValidatorByAddr_def find_idx_Some)

lemma GetValidatorByPubkey_Some:
  "GetValidatorByPubkey si p = Some i \<Longrightarrow> i < length (Validators si) \<and> Pubkey (Validators si ! i) = p"
  by (simp add: GetValidatorByPubkey_def find_idx_Some)

lemma GetCurrRewardMapByAddr_SomeD:
  assumes "GetCurrRewardMapByAddr si a = Some i"
  shows "i < length (PendingRewards si)" and "PR_Address (PendingRewards si ! i) = a"
    and "EpochNum (PendingRewards si ! i) = CurrEpochNum si"
  using index_map_SomeD [OF assms [unfolded GetCurrRewardMapByAddr_def]] by auto

section \<open>Adding a validator\<close>

lemma addValidator_conflict_None:
  "addValidator_conflict a p vs = None \<longleftrightarrow> (\<forall>v \<in> set vs. Address v \<noteq> a \<and> Pubkey v \<noteq> p)"
  by (induction vs) auto

lemma addValidator_conflict_Some:
  "addValidator_conflict a p vs = Some e \<Longrightarrow>
     (e = ValidatorAddressAlreadyExists \<and> a \<in> Address ` set vs) \<or>
     (e = ValidatorPubkeyAlreadyExists \<and> p \<in> Pubkey ` set vs)"
  by (induction vs) (auto split: if_splits)

lemma AddValidator_InrD:
  assumes "AddValidator si a p intro coins rew = Inr si'"
  shows "a \<notin> Address ` set (Validators si)" and "p \<notin> Pubkey ` set (Validators si)"
    and "si' = si\<lparr>Validators := Validators si @ [\<lparr>Address = a, Pubkey = p, RewardTo = rew,
           VotingPower = 0, Introduction = intro, StakedCoins = coins, IsRetiring = False\<rparr>]\<rparr>"
  using assms by (auto simp: AddValidator_def addValidator_conflict_None split: option.splits)

lemma AddValidator_wf:
  "wf_info si \<Longrightarrow> AddValidator si a p intro coins rew = Inr si' \<Longrightarrow> wf_info si'"
  by (frule AddValidator_InrD(1), frule AddValidator_InrD(2), drule AddValidator_InrD(3))
    (auto simp: wf_info_def)

lemma AddValidator_owed:
  "AddValidator si a p intro coins rew = Inr si' \<Longrightarrow> owed si' = owed si + unat coins"
  by (drule AddValidator_InrD(3)) (simp add: owed_def staked_total_def pending_total_def)

lemma staked_total_update:
  assumes "i < length (Validators si)"
  shows "staked_total (si\<lparr>Validators := (Validators si)[i := v]\<rparr>) + unat (StakedCoins (Validators si ! i))
       = staked_total si + unat (StakedCoins v)"
proof -
  have "(\<Sum>v\<leftarrow>xs[i := y]. unat (StakedCoins v)) + unat (StakedCoins (xs ! i)) =
        (\<Sum>v\<leftarrow>xs. unat (StakedCoins v)) + unat (StakedCoins y)" if "i < length xs" for xs y i
    using that
  proof (induction xs arbitrary: i)
    case (Cons a xs)
    then show ?case by (cases i) (auto simp: algebra_simps)
  qed simp
  from this [OF assms] show ?thesis by (simp add: staked_total_def)
qed

section \<open>Useless validators\<close>

lemma set_foldl_insert:
  "set (foldl (\<lambda>res v. if P v then List.insert (f v) res else res) acc vs) =
     set acc \<union> f ` {v \<in> set vs. P v}"
  by (induction vs arbitrary: acc) auto

lemma distinct_foldl_insert:
  "distinct acc \<Longrightarrow> distinct (foldl (\<lambda>res v. if P v then List.insert (f v) res else res) acc vs)"
  by (induction vs arbitrary: acc) (auto simp: distinct_insert)

lemma set_foldl_removeAll:
  "set (foldl (\<lambda>res x. removeAll (f x) res) acc xs) = set acc - f ` set xs"
  by (induction xs arbitrary: acc) auto

lemma distinct_foldl_removeAll:
  "distinct acc \<Longrightarrow> distinct (foldl (\<lambda>res x. removeAll (f x) res) acc xs)"
  by (induction xs arbitrary: acc) (auto simp: distinct_removeAll)

lemma set_GetUselessValidators:
  "set (GetUselessValidators si) =
     Address ` {v \<in> set (Validators si). VotingPower v = 0} - PR_Address ` set (PendingRewards si)"
  by (simp add: GetUselessValidators_def set_foldl_insert set_foldl_removeAll)

lemma distinct_GetUselessValidators: "distinct (GetUselessValidators si)"
  by (simp add: GetUselessValidators_def distinct_foldl_insert distinct_foldl_removeAll)

section \<open>Clearing rewards\<close>

lemma ClearRewardsOf_loop:
  fixes a :: address and e :: int64
  defines "body \<equiv> (\<lambda>(t, l) r. if PR_Address r = a then
            (t + Amount r, if EpochNum r = e then l @ [r\<lparr>Amount := 0\<rparr>] else l) else (t, l @ [r]))"
  shows "foldl body (t, l) rs =
    (t + (\<Sum>r\<leftarrow>filter (\<lambda>r. PR_Address r = a) rs. Amount r),
     l @ map (\<lambda>r. if PR_Address r = a then r\<lparr>Amount := 0\<rparr> else r)
           (filter (\<lambda>r. PR_Address r = a \<longrightarrow> EpochNum r = e) rs))"
  unfolding body_def by (induction rs arbitrary: t l) (auto simp: algebra_simps)

lemma ClearRewardsOf_eq:
  "ClearRewardsOf si a =
    ((\<Sum>r\<leftarrow>filter (\<lambda>r. PR_Address r = a) (PendingRewards si). Amount r),
     si\<lparr>PendingRewards := map (\<lambda>r. if PR_Address r = a then r\<lparr>Amount := 0\<rparr> else r)
           (filter (\<lambda>r. PR_Address r = a \<longrightarrow> EpochNum r = CurrEpochNum si) (PendingRewards si))\<rparr>)"
  unfolding ClearRewardsOf_def ClearRewardsOf_loop by simp

lemma ClearRewardsOf_wf:
  "wf_info si \<Longrightarrow> wf_info (snd (ClearRewardsOf si a))"
  by (force simp add: wf_info_def ClearRewardsOf_eq image_subset_iff simp del: if_image_distrib)

lemma sum_list_filter_split:
  fixes f :: "'a \<Rightarrow> nat"
  shows "(\<Sum>x\<leftarrow>xs. f x) = (\<Sum>x\<leftarrow>filter P xs. f x) + (\<Sum>x\<leftarrow>filter (\<lambda>x. \<not> P x) xs. f x)"
  by (induction xs) auto

lemma unat_sum_list_words:
  fixes f :: "'a \<Rightarrow> 'b::len word"
  assumes "(\<Sum>x\<leftarrow>xs. unat (f x)) < 2 ^ LENGTH('b)"
  shows "unat (\<Sum>x\<leftarrow>xs. f x) = (\<Sum>x\<leftarrow>xs. unat (f x))"
  using assms
proof (induction xs)
  case (Cons x xs)
  then have "unat (\<Sum>x\<leftarrow>xs. f x) = (\<Sum>x\<leftarrow>xs. unat (f x))" by simp
  with Cons.prems show ?case by (simp add: unat_add_no_overflow)
qed simp

lemma ClearRewardsOf_kept:
  "(\<Sum>p\<leftarrow>PendingRewards (snd (ClearRewardsOf si a)). unat (Amount p)) =
   (\<Sum>p\<leftarrow>filter (\<lambda>r. PR_Address r \<noteq> a) (PendingRewards si). unat (Amount p))"
proof -
  have "(\<Sum>p\<leftarrow>map (\<lambda>r. if PR_Address r = a then r\<lparr>Amount := 0\<rparr> else r)
           (filter (\<lambda>r. PR_Address r = a \<longrightarrow> EpochNum r = e) rs). unat (Amount p)) =
        (\<Sum>p\<leftarrow>filter (\<lambda>r. PR_Address r \<noteq> a) rs. unat (Amount p))" for rs e
    by (induction rs) auto
  then show ?thesis by (simp add: ClearRewardsOf_eq)
qed

section \<open>Properties\<close>

subsection \<open>Active validators\<close>

lemma filter_take_prefix: "prefix (filter P (take n xs)) (filter P xs)"
  by (metis append_take_drop_id filter_append prefixI)

lemma sorted_key_take_max:
  assumes "sorted (map f xs)" and "x \<in> set xs" and "x \<notin> set (take n xs)" and "y \<in> set (take n xs)"
  shows "f y \<le> f x"
proof -
  from assms(2,3) have "x \<in> set (drop n xs)"
    by (metis Un_iff append_take_drop_id set_append)
  moreover from assms(1) have "sorted (map f (take n xs) @ map f (drop n xs))"
    by (metis append_take_drop_id map_append)
  ultimately show ?thesis using assms(4) by (auto simp: sorted_append)
qed

text \<open>
  (C22) The active validators are at most \<^const>\<open>MaxActiveValidatorNum\<close>, all of them eligible
  (enough coins staked, not retiring, positive voting power), in descending order of voting
  power with ties in the order of creation, and no eligible validator that is left out has
  more voting power than one that is taken, which happens only when the limit is reached.
\<close>

theorem GetActiveValidators_correct:
  fixes si :: StakingInfo and minCoins :: u256
  defines "act \<equiv> GetActiveValidators si minCoins"
  shows "length act \<le> MaxActiveValidatorNum \<and>
    sorted_wrt (\<lambda>a b. VotingPower b \<le>s VotingPower a) act \<and>
    set act \<subseteq> {v \<in> set (Validators si). eligible minCoins v} \<and>
    (\<forall>p. prefix (filter (\<lambda>v. VotingPower v = p) act)
           (filter (\<lambda>v. VotingPower v = p) (filter (eligible minCoins) (Validators si)))) \<and>
    (\<forall>v \<in> set (Validators si). eligible minCoins v \<and> v \<notin> set act \<longrightarrow>
       length act = MaxActiveValidatorNum \<and> (\<forall>a \<in> set act. VotingPower v \<le>s VotingPower a))"
proof -
  let ?el = "filter (eligible minCoins) (Validators si)"
  let ?key = "\<lambda>val. - sint (VotingPower val)"
  let ?srt = "sort_key ?key ?el"
  let ?m = MaxActiveValidatorNum
  have act: "act = take ?m ?srt"
    by (simp add: act_def GetActiveValidators_def Let_def)
  have len: "length act \<le> ?m" by (simp add: act)
  have "sorted (map ?key act)"
    by (metis act sorted_sort_key sorted_wrt_take take_map)
  then have "sorted_wrt (\<lambda>a b. VotingPower b \<le>s VotingPower a) act"
    by (simp add: sorted_map word_sle_eq)
  moreover have "set act \<subseteq> {v \<in> set (Validators si). eligible minCoins v}"
    using set_take_subset [of ?m ?srt] by (auto simp: act)
  moreover have "prefix (filter (\<lambda>v. VotingPower v = p) act) (filter (\<lambda>v. VotingPower v = p) ?el)" for p
  proof -
    have eq: "(VotingPower v = p) \<longleftrightarrow> (?key v = - sint p)" for v :: Validator by simp
    have "filter (\<lambda>v. VotingPower v = p) ?srt = filter (\<lambda>v. VotingPower v = p) ?el"
      unfolding eq by (rule sort_key_stable)
    then show ?thesis unfolding act by (metis filter_take_prefix)
  qed
  moreover have "length act = ?m \<and> (\<forall>a \<in> set act. VotingPower v \<le>s VotingPower a)"
    if v: "v \<in> set (Validators si)" "eligible minCoins v" "v \<notin> set act" for v
  proof -
    from v have v': "v \<in> set ?srt" "v \<notin> set (take ?m ?srt)" by (auto simp: act)
    then have "?m < length ?srt" by (metis not_less take_all)
    then have "length act = ?m" by (simp add: act)
    moreover have "VotingPower v \<le>s VotingPower a" if "a \<in> set act" for a
      using sorted_key_take_max [OF sorted_sort_key v', of a] that
      by (simp add: act word_sle_eq)
    ultimately show ?thesis by blast
  qed
  ultimately show ?thesis using len by blast
qed

definition witness_validator :: "address \<Rightarrow> bytes32 \<Rightarrow> int64 \<Rightarrow> u256 \<Rightarrow> Validator" where
  "witness_validator a p vp coins =
     \<lparr>Address = a, Pubkey = p, RewardTo = a + 1000, VotingPower = vp, Introduction = [],
      StakedCoins = coins, IsRetiring = False\<rparr>"

definition witness_info :: StakingInfo where
  "witness_info = \<lparr>CurrEpochNum = 5,
     Validators = [witness_validator 1 101 3 1000, witness_validator 2 102 7 1000,
                   witness_validator 3 103 0 1000],
     PendingRewards = [\<lparr>PR_Address = 1, EpochNum = 5, Amount = 40\<rparr>,
                       \<lparr>PR_Address = 1, EpochNum = 4, Amount = 2\<rparr>]\<rparr>"

lemma wf_witness_info: "wf_info witness_info"
  by (simp add: wf_info_def witness_info_def witness_validator_def)

theorem GetActiveValidators_correct_witness:
  "GetActiveValidators witness_info 800 =
     [witness_validator 2 102 7 1000, witness_validator 1 101 3 1000] \<and>
   length (GetActiveValidators witness_info 800) \<le> MaxActiveValidatorNum"
  using GetActiveValidators_correct [of witness_info 800]
  by (simp add: GetActiveValidators_def witness_info_def witness_validator_def eligible_def
      MaxActiveValidatorNum_def word_sless_alt)

subsection \<open>Adding a validator\<close>

text \<open>
  \<^verbatim>\<open>AddValidator\<close> appends one validator with no voting power and keeps every other entry
  exactly when neither the address nor the public key is taken; otherwise it returns the error
  that names the field that is taken. So it keeps the addresses and the public keys of a
  well-formed information unique.
\<close>

lemma AddValidator_correct:
  assumes "wf_info si"
  shows "(case AddValidator si addr pubkey intro coins rewardTo of
      Inl e \<Rightarrow> (e = ValidatorAddressAlreadyExists \<and> addr \<in> Address ` set (Validators si)) \<or>
               (e = ValidatorPubkeyAlreadyExists \<and> pubkey \<in> Pubkey ` set (Validators si))
    | Inr si' \<Rightarrow> addr \<notin> Address ` set (Validators si) \<and> pubkey \<notin> Pubkey ` set (Validators si) \<and>
        wf_info si' \<and> owed si' = owed si + unat coins \<and>
        GetValidatorByAddr si' addr = Some (length (Validators si)) \<and>
        take (length (Validators si)) (Validators si') = Validators si \<and>
        PendingRewards si' = PendingRewards si)"
proof (cases "AddValidator si addr pubkey intro coins rewardTo")
  case (Inl e)
  then show ?thesis
    using addValidator_conflict_Some [of addr pubkey "Validators si" e]
    by (auto simp: AddValidator_def split: option.splits)
next
  case (Inr si')
  note d = AddValidator_InrD [OF Inr]
  have "GetValidatorByAddr si' addr = Some (length (Validators si))"
    using d(1) by (auto simp: d(3) GetValidatorByAddr_def find_idx_Some nth_append)
  with d AddValidator_wf [OF assms Inr] AddValidator_owed [OF Inr] Inr show ?thesis
    by simp
qed

lemma AddValidator_correct_witness:
  "\<exists>si'. AddValidator witness_info 9 109 [] 77 9 = Inr si' \<and> wf_info si' \<and>
     AddValidator witness_info 2 109 [] 77 9 = Inl ValidatorAddressAlreadyExists"
  using AddValidator_correct [OF wf_witness_info, where addr = 9 and pubkey = 109 and intro = "[]" and coins = 77
    and rewardTo = 9]
  by (simp add: AddValidator_def witness_info_def witness_validator_def)

subsection \<open>Useless validators and cleared rewards\<close>

text \<open>
  \<^verbatim>\<open>ClearRewardsOf\<close> takes exactly the rewards of one address: what it returns and what
  is still pending afterwards add up to what was pending before, the entries of all the other
  addresses stay as they were and in order, and the entry of the current epoch is kept with
  amount zero (as long as the pending rewards do not exceed the width of a \<^verbatim>\<open>uint256\<close>).
\<close>

lemma ClearRewardsOf_conserves:
  assumes "pending_total si < 2 ^ 256"
  shows "unat (fst (ClearRewardsOf si a)) + pending_total (snd (ClearRewardsOf si a)) = pending_total si \<and>
    filter (\<lambda>r. PR_Address r \<noteq> a) (PendingRewards (snd (ClearRewardsOf si a))) =
      filter (\<lambda>r. PR_Address r \<noteq> a) (PendingRewards si) \<and>
    (\<forall>r \<in> set (PendingRewards (snd (ClearRewardsOf si a))). PR_Address r = a \<longrightarrow>
       Amount r = 0 \<and> EpochNum r = CurrEpochNum si) \<and>
    Validators (snd (ClearRewardsOf si a)) = Validators si"
proof -
  let ?mine = "filter (\<lambda>r. PR_Address r = a) (PendingRewards si)"
  have split: "pending_total si = (\<Sum>r\<leftarrow>?mine. unat (Amount r)) +
      pending_total (snd (ClearRewardsOf si a))"
    unfolding pending_total_def ClearRewardsOf_kept by (rule sum_list_filter_split)
  with assms have "unat (\<Sum>r\<leftarrow>?mine. Amount r) = (\<Sum>r\<leftarrow>?mine. unat (Amount r))"
    by (intro unat_sum_list_words) simp
  with split have total: "unat (fst (ClearRewardsOf si a)) + pending_total (snd (ClearRewardsOf si a)) =
      pending_total si"
    by (simp add: ClearRewardsOf_eq)
  have "filter (\<lambda>r. PR_Address r \<noteq> a)
      (map (\<lambda>r. if PR_Address r = a then r\<lparr>Amount := 0\<rparr> else r)
        (filter (\<lambda>r. PR_Address r = a \<longrightarrow> EpochNum r = e) rs)) =
      filter (\<lambda>r. PR_Address r \<noteq> a) rs" for rs e
    by (induction rs) auto
  then have others: "filter (\<lambda>r. PR_Address r \<noteq> a) (PendingRewards (snd (ClearRewardsOf si a))) =
      filter (\<lambda>r. PR_Address r \<noteq> a) (PendingRewards si)"
    by (simp add: ClearRewardsOf_eq)
  have mine: "\<forall>r \<in> set (PendingRewards (snd (ClearRewardsOf si a))). PR_Address r = a \<longrightarrow>
       Amount r = 0 \<and> EpochNum r = CurrEpochNum si"
    by (simp add: ClearRewardsOf_eq del: if_image_distrib)
  have "Validators (snd (ClearRewardsOf si a)) = Validators si"
    by (simp add: ClearRewardsOf_eq)
  with total others mine show ?thesis by blast
qed

lemma ClearRewardsOf_conserves_witness:
  "fst (ClearRewardsOf witness_info 1) = 42 \<and>
   unat (fst (ClearRewardsOf witness_info 1)) + pending_total (snd (ClearRewardsOf witness_info 1)) = 42"
proof -
  have p: "pending_total witness_info = 42" by (simp add: pending_total_def witness_info_def)
  then have "pending_total witness_info < 2 ^ 256" by simp
  from ClearRewardsOf_conserves [OF this, of 1] p
  have "unat (fst (ClearRewardsOf witness_info 1)) + pending_total (snd (ClearRewardsOf witness_info 1)) = 42"
    by (simp only:)
  moreover have "fst (ClearRewardsOf witness_info 1) = 42"
    by (simp add: ClearRewardsOf_def witness_info_def)
  ultimately show ?thesis by (simp only: simp_thms)
qed

end
