(* ===== verification/Watcher.thy ===== *)
theory Watcher
  imports Staking_Types "HOL-Library.AList"
begin

text \<open>
  The watcher of the BCH main chain (\<^verbatim>\<open>staking/watcher.go\<close>): it collects blocks, finalizes a block
  when it has ten confirmations, and emits an epoch of nominations for every
  \<^verbatim>\<open>NumBlocksInEpoch\<close> finalized blocks. Its two maps are partial functions. The channel the epochs are
  sent to has a buffer for one epoch: it is modelled by all the epochs sent so far and the number of
  those that the application has received, so that the buffer holds the epochs after the received
  ones, and a send on a full buffer is the outcome \<open>Blocked\<close>. Neither the main chain's client nor the
  application is part of the model's state: an iteration of the loop of \<^verbatim>\<open>Run\<close> takes the answers of
  the client as functions and the number of epochs the application takes from the channel before
  the iteration sends one, and they may differ from one iteration to the next.
\<close>

section \<open>State\<close>

definition NumBlocksInEpoch :: int64 where "NumBlocksInEpoch = 2016"
definition NumBlocksToClearMemory :: int64 where "NumBlocksToClearMemory = 100000"

text \<open>\<open>EpochChan\<close> holds every epoch sent so far, \<open>EpochsReceived\<close> says how many of them have been received.\<close>

record Watcher =
  lastEpochEndHeight :: int64
  latestFinalizedHeight :: int64
  hashToBlock :: "bytes32 \<rightharpoonup> BCHBlock"
  heightToFinalizedBlock :: "int64 \<rightharpoonup> BCHBlock"
  epochList :: "Epoch list"
  EpochChan :: "Epoch list"
  EpochsReceived :: nat

text \<open>The capacity of the channel, \<^verbatim>\<open>make(chan *types.Epoch, 1)\<close>.\<close>

definition EpochChanCap :: nat where "EpochChanCap = 1"

definition NewWatcher :: "int64 \<Rightarrow> Watcher" where
  "NewWatcher lastHeight = \<lparr>lastEpochEndHeight = lastHeight, latestFinalizedHeight = lastHeight,
     hashToBlock = Map.empty, heightToFinalizedBlock = Map.empty, epochList = [], EpochChan = [],
     EpochsReceived = 0\<rparr>"

definition pending :: "Watcher \<Rightarrow> Epoch list" where
  "pending w = drop (EpochsReceived w) (EpochChan w)"

text \<open>
  \<^verbatim>\<open>watcher.EpochChan <- epoch\<close>, which does not return while the buffer is full, and what the
  application does to the channel when it receives up to \<open>n\<close> epochs.
\<close>

definition send_epoch :: "Epoch \<Rightarrow> Watcher \<Rightarrow> Watcher go" where
  "send_epoch epoch w =
     (if length (pending w) < EpochChanCap then Inr (w\<lparr>EpochChan := EpochChan w @ [epoch]\<rparr>) else Inl Blocked)"

definition receive_epochs :: "nat \<Rightarrow> Watcher \<Rightarrow> Watcher" where
  "receive_epochs n w = w\<lparr>EpochsReceived := EpochsReceived w + min n (length (pending w))\<rparr>"

section \<open>Clearing old data\<close>

function clear_heights ::
  "int64 \<Rightarrow> (int64 \<rightharpoonup> BCHBlock) \<Rightarrow> (bytes32 \<rightharpoonup> BCHBlock) \<Rightarrow> (int64 \<rightharpoonup> BCHBlock) \<times> (bytes32 \<rightharpoonup> BCHBlock)" where
  "clear_heights height fin hashes =
     (case fin height of
        None \<Rightarrow> (fin, hashes)
      | Some blk \<Rightarrow> clear_heights (height - 1) (fin(height := None)) (hashes(HashId blk := None)))"
  by pat_completeness auto
termination
proof (relation "measure (\<lambda>(height, fin, hashes). card (dom fin))")
  fix height :: int64 and fin :: "int64 \<rightharpoonup> BCHBlock" and hashes :: "bytes32 \<rightharpoonup> BCHBlock" and blk
  assume "fin height = Some blk"
  then have "height \<in> dom fin" by blast
  moreover have "finite (dom fin)" by simp
  ultimately have "card (dom fin - {height}) < card (dom fin)" by (rule card_Diff1_less [rotated])
  then show "((height - 1, fin(height := None), hashes(HashId blk := None)), (height, fin, hashes))
      \<in> measure (\<lambda>(height, fin, hashes). card (dom fin))" by simp
qed simp

declare clear_heights.simps [simp del]

definition ClearOldData :: "Watcher \<Rightarrow> Watcher" where
  "ClearOldData w =
     (let elLen = length (epochList w) in
      if elLen = 0 then w
      else
        let height = StartHeight (last (epochList w)) - 5 * NumBlocksInEpoch;
            (fin, hashes) = clear_heights height (heightToFinalizedBlock w) (hashToBlock w);
            w = w\<lparr>heightToFinalizedBlock := fin, hashToBlock := hashes\<rparr>
        in if 5 < elLen then w\<lparr>epochList := drop (elLen - 5) (epochList w)\<rparr> else w)"

section \<open>Generating an epoch\<close>

text \<open>
  The map of nominations holds pointers. \<^verbatim>\<open>&nomination\<close> is the address of the variable of the
  range loop, one for each execution of the loop over the nominations of a block (the module is
  Go 1.16): \<open>cells\<close> are these variables, and the map holds positions in \<open>cells\<close>.
\<close>

definition count_nomination ::
  "nat \<Rightarrow> Nomination list \<times> (bytes32 \<times> nat) list \<Rightarrow> Nomination \<Rightarrow> Nomination list \<times> (bytes32 \<times> nat) list" where
  "count_nomination c = (\<lambda>(cells, vm) nomination.
     let cells = cells[c := nomination];
         vm = (case map_of vm (Nom_Pubkey nomination) of
                 None \<Rightarrow> AList.update (Nom_Pubkey nomination) c vm
               | Some _ \<Rightarrow> vm);
         p = the (map_of vm (Nom_Pubkey nomination))
     in (cells[p := (cells ! p)\<lparr>NominatedCount := NominatedCount (cells ! p) + 1\<rparr>], vm))"

definition count_block ::
  "Nomination list \<times> (bytes32 \<times> nat) list \<Rightarrow> BCHBlock \<Rightarrow> Nomination list \<times> (bytes32 \<times> nat) list" where
  "count_block = (\<lambda>(cells, vm) blk.
     foldl (count_nomination (length cells))
       (cells @ [\<lparr>Nom_Pubkey = 0, NominatedCount = 0\<rparr>], vm) (Nominations blk))"

record epoch_scan =
  sc_end :: int64
  sc_start :: int64
  sc_noms :: "Nomination list \<times> (bytes32 \<times> nat) list"

definition scan_block :: "epoch_scan \<Rightarrow> BCHBlock \<Rightarrow> epoch_scan" where
  "scan_block s blk = \<lparr>
     sc_end = (if sc_end s <s Timestamp blk then Timestamp blk else sc_end s),
     sc_start = (if Timestamp blk <s sc_start s then Timestamp blk else sc_start s),
     sc_noms = count_block (sc_noms s) blk\<rparr>"

text \<open>
  The loop over the heights of the epoch. A loop whose last height is the greatest
  \<^verbatim>\<open>int64\<close> would go on past it; here the loop ends after its last height.
\<close>

function scan_heights ::
  "(int64 \<rightharpoonup> BCHBlock) \<Rightarrow> int64 \<Rightarrow> int64 \<Rightarrow> epoch_scan \<Rightarrow> epoch_scan go" where
  "scan_heights fin i final s =
     (if i \<le>s final then
        (case fin i of
           None \<Rightarrow> Inl (PanicMsg ''Missing Block'')
         | Some blk \<Rightarrow>
             if i = final then Inr (scan_block s blk) else scan_heights fin (i + 1) final (scan_block s blk))
      else Inr s)"
  by pat_completeness auto

termination
proof (relation "measure (\<lambda>(fin, i, final, s). nat (sint final - sint i))")
  fix fin :: "int64 \<rightharpoonup> BCHBlock" and i final :: int64 and s blk
  assume "i \<le>s final" and "i \<noteq> final"
  then have "sint i < sint final" by (simp add: word_sle_eq order_less_le)
  with sint_add_one [OF this]
  show "((fin, i + 1, final, scan_block s blk), (fin, i, final, s)) \<in> measure (\<lambda>(fin, i, final, s). nat (sint final - sint i))"
    by simp
qed simp

declare scan_heights.simps [simp del]

definition generateNewEpoch :: "Watcher \<Rightarrow> Watcher go" where
  "generateNewEpoch w =
     (let start = lastEpochEndHeight w + 1 in
      bindG (scan_heights (heightToFinalizedBlock w) start (latestFinalizedHeight w)
               \<lparr>sc_end = 0, sc_start = 0x4000000000000000, sc_noms = ([], [])\<rparr>) (\<lambda>s.
      let (cells, vm) = sc_noms s;
          duration = (if epochList w \<noteq> [] then sc_end s - EndTime (last (epochList w)) else sc_end s - sc_start s);
          epoch = \<lparr>StartHeight = start, EndTime = sc_end s, Duration = duration,
                   ValMapByPubkey = map (\<lambda>(k, p). (k, cells ! p)) vm\<rparr>;
          w = w\<lparr>epochList := epochList w @ [epoch]\<rparr>
      in bindG (send_epoch epoch w) (\<lambda>w.
      let w = w\<lparr>lastEpochEndHeight := latestFinalizedHeight w\<rparr>
      in Inr (ClearOldData w))))"

section \<open>Adding a block\<close>

text \<open>
  The walk to the ancestors: the ancestor after \<open>n\<close> more steps, or the hash of a missing parent
  (none when the walk reaches the initial block).
\<close>

primrec confirm :: "(bytes32 \<rightharpoonup> BCHBlock) \<Rightarrow> nat \<Rightarrow> BCHBlock \<Rightarrow> bytes32 option + BCHBlock" where
  "confirm hashes 0 parent = Inr parent"
| "confirm hashes (Suc n) parent =
     (case hashes (ParentBlk parent) of
        None \<Rightarrow> Inl (if ParentBlk parent = 0 then None else Some (ParentBlk parent))
      | Some grandpa \<Rightarrow> confirm hashes n grandpa)"

definition finalize :: "Watcher \<Rightarrow> BCHBlock \<Rightarrow> Watcher go" where
  "finalize w parent =
     (case heightToFinalizedBlock w (Height parent) of
        Some finalizedBlk \<Rightarrow>
          if BCHBlock_Equal finalizedBlk parent then Inr w else Inl (PanicMsg ''Deep Reorganization'')
      | None \<Rightarrow>
          let w = w\<lparr>heightToFinalizedBlock := (heightToFinalizedBlock w)(Height parent \<mapsto> parent)\<rparr> in
          if latestFinalizedHeight w + 1 \<noteq> Height parent then Inl (PanicMsg ''Height Skipped'')
          else
            let w = w\<lparr>latestFinalizedHeight := latestFinalizedHeight w + 1\<rparr> in
            if latestFinalizedHeight w - lastEpochEndHeight w = NumBlocksInEpoch then generateNewEpoch w
            else Inr w)"

definition addBlock :: "Watcher \<Rightarrow> BCHBlock option \<Rightarrow> (Watcher \<times> bytes32 option) go" where
  "addBlock w b =
     (case b of
        None \<Rightarrow> Inl NilDeref
      | Some blk \<Rightarrow>
          let w = w\<lparr>hashToBlock := (hashToBlock w)(HashId blk \<mapsto> blk)\<rparr> in
          (case hashToBlock w (ParentBlk blk) of
             None \<Rightarrow> Inr (w, if ParentBlk blk = 0 then None else Some (ParentBlk blk))
           | Some parent \<Rightarrow>
               (case confirm (hashToBlock w) 9 parent of
                  Inl missingBlockHash \<Rightarrow> Inr (w, missingBlockHash)
                | Inr parent \<Rightarrow> bindG (finalize w parent) (\<lambda>w. Inr (w, None)))))"

section \<open>The loop\<close>

text \<open>What surrounds an iteration: the client's answers and the receiver of the epochs.\<close>

record client =
  GetBlockByHeight :: "int64 \<Rightarrow> BCHBlock option"
  GetBlockByHash :: "bytes32 \<Rightarrow> BCHBlock option"
  EpochsTaken :: nat

primrec trace_back :: "client \<Rightarrow> nat \<Rightarrow> Watcher \<Rightarrow> bytes32 option \<Rightarrow> Watcher go" where
  "trace_back cl 0 w missingBlockHash = Inr w"
| "trace_back cl (Suc i) w missingBlockHash =
     (case missingBlockHash of
        None \<Rightarrow> Inr w
      | Some h \<Rightarrow>
          (case GetBlockByHash cl h of
             None \<Rightarrow> Inl (PanicMsg ''BCH mainnet tip should has its parent block'')
           | Some blk \<Rightarrow> bindG (addBlock w (Some blk)) (\<lambda>(w, m). trace_back cl i w m)))"

definition run_step :: "Watcher \<times> int64 \<Rightarrow> client \<Rightarrow> (Watcher \<times> int64) go" where
  "run_step = (\<lambda>(w, height) cl.
     let w = receive_epochs (EpochsTaken cl) w;
         height = height + 1;
         blk = GetBlockByHeight cl height
     in
     bindG (addBlock w blk) (\<lambda>(w, missingBlockHash).
     let (w, height) =
           (if missingBlockHash \<noteq> None then (w, height - 1)
            else if sint height mod sint NumBlocksToClearMemory = 0 then (w\<lparr>hashToBlock := Map.empty\<rparr>, height)
            else (w, height))
     in bindG (trace_back cl 10 w missingBlockHash) (\<lambda>w. Inr (w, height))))"

text \<open>\<^verbatim>\<open>Run\<close> loops for ever; \<open>watch\<close> is its state after the iterations with the given clients.\<close>

definition watch :: "int64 \<Rightarrow> client list \<Rightarrow> (Watcher \<times> int64) go" where
  "watch lastHeight cls = foldG run_step (NewWatcher lastHeight, lastHeight) cls"

section \<open>The loops\<close>

lemma clear_heights_le:
  "fst (clear_heights h fin hashes) \<subseteq>\<^sub>m fin \<and> snd (clear_heights h fin hashes) \<subseteq>\<^sub>m hashes"
proof (induction h fin hashes rule: clear_heights.induct)
  case (1 h fin hashes)
  show ?case
  proof (cases "fin h")
    case None
    then show ?thesis by (simp add: clear_heights.simps [of h])
  next
    case (Some blk)
    then have eq: "clear_heights h fin hashes =
        clear_heights (h - 1) (fin(h := None)) (hashes(HashId blk := None))"
      by (simp add: clear_heights.simps [of h fin])
    have "fin(h := None) \<subseteq>\<^sub>m fin" "hashes(HashId blk := None) \<subseteq>\<^sub>m hashes"
      by (auto simp: map_le_def)
    with 1 [OF Some] show ?thesis unfolding eq by (blast intro: map_le_trans)
  qed
qed

lemma scan_heights_eq:
  assumes "sint final = sint i + int n" and "\<And>h. sint i \<le> sint h \<Longrightarrow> sint h \<le> sint final \<Longrightarrow> fin h \<noteq> None"
  shows "scan_heights fin i final s = Inr (foldl scan_block s (map (\<lambda>h. the (fin h)) (heights i (Suc n))))"
  using assms
proof (induction n arbitrary: i s)
  case 0
  then have "i = final" by simp
  moreover have "fin i \<noteq> None" using 0 by simp
  ultimately show ?case
    by (subst scan_heights.simps) (auto simp: word_sle_eq heights_def)
next
  case (Suc n)
  have lt: "sint i < sint final" using Suc.prems(1) by simp
  note i1 = sint_add_one [OF lt]
  have "fin i \<noteq> None" using Suc.prems(2) [of i] lt by simp
  moreover have "scan_heights fin (i + 1) final (scan_block s (the (fin i))) =
      Inr (foldl scan_block (scan_block s (the (fin i))) (map (\<lambda>h. the (fin h)) (heights (i + 1) (Suc n))))"
    by (rule Suc.IH) (use Suc.prems i1 in auto)
  ultimately show ?case
    using lt by (subst scan_heights.simps) (auto simp: word_sle_eq heights_Suc [of i])
qed

section \<open>The invariant\<close>

text \<open>
  The epochs sent so far start at consecutive multiples of the epoch length after the initial
  height; every block of the epoch under way is there, at its own height; heights stay far from
  the limits of \<^verbatim>\<open>int64\<close>.
\<close>

definition block_ok :: "BCHBlock \<Rightarrow> bool" where
  "block_ok b \<longleftrightarrow> sint (Height b) < 2 ^ 62"

definition epochs_ok :: "int64 \<Rightarrow> Watcher \<Rightarrow> bool" where
  "epochs_ok h0 w \<longleftrightarrow>
     sint (lastEpochEndHeight w) = sint h0 + 2016 * int (length (EpochChan w)) \<and>
     (\<forall>n < length (EpochChan w). sint (StartHeight (EpochChan w ! n)) = sint h0 + 1 + 2016 * int n) \<and>
     epochList w = drop (length (EpochChan w) - 5) (EpochChan w)"

definition blocks_ok :: "Watcher \<Rightarrow> bool" where
  "blocks_ok w \<longleftrightarrow>
     (\<forall>h b. heightToFinalizedBlock w h = Some b \<longrightarrow> Height b = h) \<and>
     (\<forall>k b. hashToBlock w k = Some b \<longrightarrow> HashId b = k \<and> block_ok b)"

definition window_ok :: "Watcher \<Rightarrow> bool" where
  "window_ok w \<longleftrightarrow> sint (lastEpochEndHeight w) \<le> sint (latestFinalizedHeight w) \<and>
     sint (latestFinalizedHeight w) < 2 ^ 62 \<and>
     (\<forall>h. sint (lastEpochEndHeight w) < sint h \<and> sint h \<le> sint (latestFinalizedHeight w) \<longrightarrow>
        heightToFinalizedBlock w h \<noteq> None)"

definition chan_ok :: "Watcher \<Rightarrow> bool" where
  "chan_ok w \<longleftrightarrow> EpochsReceived w \<le> length (EpochChan w) \<and> length (EpochChan w) \<le> EpochsReceived w + EpochChanCap"

definition watch_inv :: "int64 \<Rightarrow> Watcher \<Rightarrow> bool" where
  "watch_inv h0 w \<longleftrightarrow> epochs_ok h0 w \<and> blocks_ok w \<and> window_ok w \<and> chan_ok w \<and>
     sint (latestFinalizedHeight w) < sint (lastEpochEndHeight w) + 2016"

lemma blocks_ok_submap:
  assumes "blocks_ok w" and "fin \<subseteq>\<^sub>m heightToFinalizedBlock w" and "hashes \<subseteq>\<^sub>m hashToBlock w"
  shows "blocks_ok (w\<lparr>heightToFinalizedBlock := fin, hashToBlock := hashes, epochList := l\<rparr>)"
  using assms unfolding blocks_ok_def map_le_def
  by (simp add: dom_def) (metis option.distinct(1))

lemma ClearOldData_eq:
  "\<exists>fin hashes. fin \<subseteq>\<^sub>m heightToFinalizedBlock w \<and> hashes \<subseteq>\<^sub>m hashToBlock w \<and>
     ClearOldData w = w\<lparr>heightToFinalizedBlock := fin, hashToBlock := hashes,
       epochList := drop (length (epochList w) - 5) (epochList w)\<rparr>"
proof (cases "epochList w = []")
  case True
  then show ?thesis
    by (intro exI [of _ "heightToFinalizedBlock w"] exI [of _ "hashToBlock w"]) (simp add: ClearOldData_def)
next
  case False
  let ?h = "StartHeight (last (epochList w)) - 5 * NumBlocksInEpoch"
  let ?c = "clear_heights ?h (heightToFinalizedBlock w) (hashToBlock w)"
  have "ClearOldData w = w\<lparr>heightToFinalizedBlock := fst ?c, hashToBlock := snd ?c,
      epochList := drop (length (epochList w) - 5) (epochList w)\<rparr>"
    using False by (simp add: ClearOldData_def Let_def split: prod.split)
  with clear_heights_le [of ?h "heightToFinalizedBlock w" "hashToBlock w"] show ?thesis by blast
qed

lemma send_epoch_eq:
  "send_epoch e w = (if pending w = [] then Inr (w\<lparr>EpochChan := EpochChan w @ [e]\<rparr>) else Inl Blocked)"
  by (simp add: send_epoch_def EpochChanCap_def)

lemma pending_update [simp]:
  "pending (w\<lparr>epochList := l\<rparr>) = pending w" "pending (w\<lparr>hashToBlock := hs\<rparr>) = pending w"
  "pending (w\<lparr>heightToFinalizedBlock := fin\<rparr>) = pending w" "pending (w\<lparr>latestFinalizedHeight := h\<rparr>) = pending w"
  by (simp_all add: pending_def)

definition empty_scan :: epoch_scan where
  "empty_scan = \<lparr>sc_end = 0, sc_start = 0x4000000000000000, sc_noms = ([], [])\<rparr>"

text \<open>The blocks of the epoch that is generated, in the order of their heights.\<close>

definition epoch_blocks :: "Watcher \<Rightarrow> BCHBlock list" where
  "epoch_blocks w = map (\<lambda>h. the (heightToFinalizedBlock w h)) (heights (lastEpochEndHeight w + 1) 2016)"

definition new_epoch :: "Watcher \<Rightarrow> Epoch" where
  "new_epoch w = (let s = foldl scan_block empty_scan (epoch_blocks w) in
     \<lparr>StartHeight = lastEpochEndHeight w + 1, EndTime = sc_end s,
      Duration = (if epochList w \<noteq> [] then sc_end s - EndTime (last (epochList w)) else sc_end s - sc_start s),
      ValMapByPubkey = map (\<lambda>(k, p). (k, fst (sc_noms s) ! p)) (snd (sc_noms s))\<rparr>)"

lemma generateNewEpoch_eq:
  assumes "window_ok w" and "sint (latestFinalizedHeight w) = sint (lastEpochEndHeight w) + 2016"
  shows "generateNewEpoch w =
     (if pending w = [] then Inr (ClearOldData (w\<lparr>epochList := epochList w @ [new_epoch w],
        EpochChan := EpochChan w @ [new_epoch w], lastEpochEndHeight := latestFinalizedHeight w\<rparr>))
      else Inl Blocked)"
proof -
  let ?i = "lastEpochEndHeight w + 1"
  have "sint (lastEpochEndHeight w) < sint (latestFinalizedHeight w)" using assms(2) by simp
  note i = sint_add_one [OF this]
  have "scan_heights (heightToFinalizedBlock w) ?i (latestFinalizedHeight w) empty_scan =
      Inr (foldl scan_block empty_scan (map (\<lambda>h. the (heightToFinalizedBlock w h)) (heights ?i (Suc 2015))))"
    by (rule scan_heights_eq) (use assms i in \<open>auto simp: window_ok_def\<close>)
  then have "scan_heights (heightToFinalizedBlock w) ?i (latestFinalizedHeight w) empty_scan =
      Inr (foldl scan_block empty_scan (epoch_blocks w))" by (simp add: epoch_blocks_def numeral_eq_Suc)
  then show ?thesis
    by (simp add: generateNewEpoch_def new_epoch_def empty_scan_def [symmetric] Let_def send_epoch_eq split: prod.split)
qed

section \<open>Every step keeps the invariant\<close>

lemma generated_inv:
  assumes "epochs_ok h0 w" and "blocks_ok w" and "window_ok w"
    and "sint (latestFinalizedHeight w) = sint (lastEpochEndHeight w) + 2016" and "chan_ok w" and "pending w = []"
  shows "\<exists>w'. generateNewEpoch w = Inr w' \<and> watch_inv h0 w' \<and>
    latestFinalizedHeight w' = latestFinalizedHeight w \<and> EpochChan w' = EpochChan w @ [new_epoch w] \<and>
    EpochsReceived w' = EpochsReceived w \<and>
    heightToFinalizedBlock w' \<subseteq>\<^sub>m heightToFinalizedBlock w \<and> hashToBlock w' \<subseteq>\<^sub>m hashToBlock w"
proof -
  let ?e = "new_epoch w"
  let ?w = "w\<lparr>epochList := epochList w @ [?e], EpochChan := EpochChan w @ [?e],
      lastEpochEndHeight := latestFinalizedHeight w\<rparr>"
  from ClearOldData_eq [of ?w] obtain fin hashes where sub: "fin \<subseteq>\<^sub>m heightToFinalizedBlock w"
    "hashes \<subseteq>\<^sub>m hashToBlock w" and cl: "ClearOldData ?w = ?w\<lparr>heightToFinalizedBlock := fin, hashToBlock := hashes,
      epochList := drop (length (epochList ?w) - 5) (epochList ?w)\<rparr>" by auto
  let ?w' = "?w\<lparr>heightToFinalizedBlock := fin, hashToBlock := hashes,
      epochList := drop (length (EpochChan w @ [?e]) - 5) (EpochChan w @ [?e])\<rparr>"
  from assms(1) have el: "epochList w = drop (length (EpochChan w) - 5) (EpochChan w)" by (simp add: epochs_ok_def)
  have "drop (length (epochList ?w) - 5) (epochList ?w) = drop (length (EpochChan w @ [?e]) - 5) (EpochChan w @ [?e])"
  proof (cases "5 \<le> length (EpochChan w)")
    case True
    then have "Suc (length (EpochChan w) - 5) = length (EpochChan w) - 4" by arith
    with True show ?thesis by (simp add: el)
  qed (simp add: el)
  with cl have gen: "generateNewEpoch w = Inr ?w'"
    using generateNewEpoch_eq [OF assms(3,4)] assms(6) by simp
  have "sint (lastEpochEndHeight w) < sint (latestFinalizedHeight w)" using assms(4) by simp
  from sint_add_one [OF this] have start: "sint (StartHeight ?e) = sint (lastEpochEndHeight w) + 1"
    by (simp add: new_epoch_def Let_def)
  have "epochs_ok h0 ?w'"
    using assms(1,4) start by (auto simp: epochs_ok_def nth_append less_Suc_eq)
  moreover have "blocks_ok ?w'"
    using blocks_ok_submap [OF assms(2) sub] by (simp add: blocks_ok_def)
  moreover have "window_ok ?w'"
    using assms(3) by (auto simp: window_ok_def)
  moreover have "chan_ok ?w'"
    using assms(5,6) by (simp add: chan_ok_def pending_def EpochChanCap_def)
  ultimately have "watch_inv h0 ?w'" by (simp add: watch_inv_def)
  with gen sub show ?thesis by simp
qed

text \<open>The watcher with the next finalized block, before an epoch is generated.\<close>

definition extended :: "Watcher \<Rightarrow> BCHBlock \<Rightarrow> Watcher" where
  "extended w b = w\<lparr>heightToFinalizedBlock := (heightToFinalizedBlock w)(Height b \<mapsto> b),
     latestFinalizedHeight := latestFinalizedHeight w + 1\<rparr>"

lemma extended_inv:
  assumes "watch_inv h0 w" and "block_ok b" and h: "latestFinalizedHeight w + 1 = Height b"
  shows "epochs_ok h0 (extended w b)" and "blocks_ok (extended w b)" and "window_ok (extended w b)" and "chan_ok (extended w b)"
    and "latestFinalizedHeight (extended w b) - lastEpochEndHeight (extended w b) = NumBlocksInEpoch \<longleftrightarrow>
         sint (latestFinalizedHeight (extended w b)) = sint (lastEpochEndHeight (extended w b)) + 2016"
    and "sint (latestFinalizedHeight (extended w b)) \<le> sint (lastEpochEndHeight (extended w b)) + 2016"
proof -
  from assms(1) have eo: "epochs_ok h0 w" and bo: "blocks_ok w" and wo: "window_ok w"
    and lt: "sint (latestFinalizedHeight w) < sint (lastEpochEndHeight w) + 2016" by (simp_all add: watch_inv_def)
  have "sint (latestFinalizedHeight w) < sint (2 ^ 62 :: int64)" using wo by (simp add: window_ok_def)
  from sint_add_one [OF this] have l': "sint (latestFinalizedHeight w + 1) = sint (latestFinalizedHeight w) + 1" .
  show "epochs_ok h0 (extended w b)" using eo by (simp add: epochs_ok_def extended_def)
  show "blocks_ok (extended w b)" using bo by (auto simp: blocks_ok_def extended_def)
  show "chan_ok (extended w b)" using assms(1) by (simp add: watch_inv_def chan_ok_def extended_def)
  have "k = Height b \<or> sint k \<le> sint (latestFinalizedHeight w)"
    if "sint k \<le> sint (latestFinalizedHeight w + 1)" for k
  proof -
    from that l' have "sint k = sint (latestFinalizedHeight w + 1) \<or> sint k \<le> sint (latestFinalizedHeight w)"
      by linarith
    then show ?thesis using h by simp
  qed
  then have "\<forall>k. sint (lastEpochEndHeight w) < sint k \<and> sint k \<le> sint (latestFinalizedHeight w + 1) \<longrightarrow>
      k = Height b \<or> heightToFinalizedBlock w k \<noteq> None"
    using wo unfolding window_ok_def by blast
  moreover have "sint (latestFinalizedHeight w + 1) < 2 ^ 62" using assms(2) by (simp add: h block_ok_def)
  ultimately show "window_ok (extended w b)"
    using wo l' by (auto simp: window_ok_def extended_def)
  have d: "sint (latestFinalizedHeight w + 1 - lastEpochEndHeight w) =
      sint (latestFinalizedHeight w) + 1 - sint (lastEpochEndHeight w)"
    using sint_diff64 [of "latestFinalizedHeight w + 1" "lastEpochEndHeight w"] l' lt wo
    by (simp add: window_ok_def)
  have "sint NumBlocksInEpoch = 2016" by (simp add: NumBlocksInEpoch_def)
  then have "latestFinalizedHeight w + 1 - lastEpochEndHeight w = NumBlocksInEpoch \<longleftrightarrow>
      sint (latestFinalizedHeight w + 1 - lastEpochEndHeight w) = 2016"
    using sint_inject by metis
  with d l' show "latestFinalizedHeight (extended w b) - lastEpochEndHeight (extended w b) = NumBlocksInEpoch \<longleftrightarrow>
      sint (latestFinalizedHeight (extended w b)) = sint (lastEpochEndHeight (extended w b)) + 2016"
    by (simp add: extended_def) linarith
  show "sint (latestFinalizedHeight (extended w b)) \<le> sint (lastEpochEndHeight (extended w b)) + 2016"
    using lt l' by (simp add: extended_def)
qed

lemma finalize_eq:
  "finalize w b = (case heightToFinalizedBlock w (Height b) of
     Some f \<Rightarrow> if BCHBlock_Equal f b then Inr w else Inl (PanicMsg ''Deep Reorganization'')
   | None \<Rightarrow>
       if latestFinalizedHeight w + 1 \<noteq> Height b then Inl (PanicMsg ''Height Skipped'')
       else if latestFinalizedHeight (extended w b) - lastEpochEndHeight (extended w b) = NumBlocksInEpoch
       then generateNewEpoch (extended w b) else Inr (extended w b))"
proof -
  have "w\<lparr>heightToFinalizedBlock := m, latestFinalizedHeight := latestFinalizedHeight (w\<lparr>heightToFinalizedBlock := m\<rparr>) + 1\<rparr> =
      w\<lparr>heightToFinalizedBlock := m, latestFinalizedHeight := latestFinalizedHeight w + 1\<rparr>" for m
    by simp
  moreover have "latestFinalizedHeight (w\<lparr>heightToFinalizedBlock := m\<rparr>) = latestFinalizedHeight w" for m by simp
  ultimately show ?thesis unfolding finalize_def extended_def Let_def by (simp only:)
qed

text \<open>
  On a watcher in order, the only panics of a step are a deep reorganization and a skipped height; and
  it hangs when an epoch is due while the last one is still in the channel.
\<close>

lemma finalize_outcome:
  assumes "watch_inv h0 w" and "block_ok b"
  shows "finalize w b = Inl (PanicMsg ''Deep Reorganization'') \<or> finalize w b = Inl (PanicMsg ''Height Skipped'') \<or>
    finalize w b = Inl Blocked \<and> pending w \<noteq> [] \<or> (\<exists>w'. finalize w b = Inr w' \<and> watch_inv h0 w')"
proof (cases "heightToFinalizedBlock w (Height b)")
  case (Some f)
  with assms show ?thesis by (simp add: finalize_eq)
next
  case None
  show ?thesis
  proof (cases "latestFinalizedHeight w + 1 = Height b")
    case False
    with None show ?thesis by (simp add: finalize_eq)
  next
    case True
    note ext = extended_inv [OF assms True]
    show ?thesis
    proof (cases "sint (latestFinalizedHeight (extended w b)) = sint (lastEpochEndHeight (extended w b)) + 2016")
      case full: True
      have pend: "pending (extended w b) = pending w" by (simp add: extended_def)
      from full None True ext(5) have eq: "finalize w b = generateNewEpoch (extended w b)" by (simp add: finalize_eq)
      show ?thesis
      proof (cases "pending w = []")
        case empty: True
        then have "pending (extended w b) = []" by (simp add: pend)
        from generated_inv [OF ext(1-3) full ext(4) this] eq show ?thesis by auto
      qed (use generateNewEpoch_eq [OF ext(3) full] eq pend in simp)
    next
      case False
      with ext have "watch_inv h0 (extended w b)" by (simp add: watch_inv_def)
      with False ext(5) None True show ?thesis by (simp add: finalize_eq)
    qed
  qed
qed

lemma finalize_inv:
  "watch_inv h0 w \<Longrightarrow> block_ok b \<Longrightarrow> finalize w b = Inr w' \<Longrightarrow> watch_inv h0 w'"
  using finalize_outcome [of h0 w b] by auto

lemma confirm_block_ok:
  assumes "\<And>k b. hashes k = Some b \<Longrightarrow> block_ok b" and "confirm hashes n p = Inr b" and "block_ok p"
  shows "block_ok b"
  using assms(2,3) by (induction n arbitrary: p) (auto split: option.splits intro: assms(1))

lemma added_inv:
  assumes "watch_inv h0 w" and "block_ok blk"
  shows "watch_inv h0 (w\<lparr>hashToBlock := (hashToBlock w)(HashId blk \<mapsto> blk)\<rparr>)" (is "watch_inv h0 ?w")
proof -
  have "blocks_ok ?w" using assms(1,2) by (simp add: watch_inv_def blocks_ok_def)
  moreover have "epochs_ok h0 ?w" "window_ok ?w"
    using assms(1) by (simp_all add: watch_inv_def epochs_ok_def window_ok_def)
  ultimately show ?thesis using assms(1) by (simp add: watch_inv_def chan_ok_def)
qed

lemma addBlock_inv:
  assumes "watch_inv h0 w" and "block_ok blk" and "addBlock w (Some blk) = Inr (w', m)"
  shows "watch_inv h0 w'"
proof -
  let ?w = "w\<lparr>hashToBlock := (hashToBlock w)(HashId blk \<mapsto> blk)\<rparr>"
  have inv: "watch_inv h0 ?w" by (rule added_inv [OF assms(1,2)])
  have ok: "block_ok b" if "hashToBlock ?w k = Some b" for k b
    using inv that unfolding watch_inv_def blocks_ok_def by blast
  show ?thesis
  proof (cases "hashToBlock ?w (ParentBlk blk)")
    case None
    with assms(3) inv show ?thesis by (auto simp: addBlock_def Let_def)
  next
    case (Some p)
    show ?thesis
    proof (cases "confirm (hashToBlock ?w) 9 p")
      case (Inl r)
      with Some assms(3) inv show ?thesis by (auto simp: addBlock_def Let_def)
    next
      case (Inr b)
      with Some assms(3) have fin: "finalize ?w b = Inr w'" by (auto simp: addBlock_def Let_def)
      have "block_ok b" by (rule confirm_block_ok [OF ok Inr ok [OF Some]])
      from finalize_inv [OF inv this fin] show ?thesis .
    qed
  qed
qed

definition client_ok :: "client \<Rightarrow> bool" where
  "client_ok cl \<longleftrightarrow> (\<forall>h b. GetBlockByHeight cl h = Some b \<longrightarrow> block_ok b) \<and>
     (\<forall>k b. GetBlockByHash cl k = Some b \<longrightarrow> block_ok b)"

lemma trace_back_inv:
  assumes "client_ok cl" and "watch_inv h0 w" and "trace_back cl n w m = Inr w'"
  shows "watch_inv h0 w'"
  using assms(2,3)
proof (induction n arbitrary: w m)
  case 0
  then show ?case by simp
next
  case (Suc n)
  show ?case
  proof (cases m)
    case None
    with Suc.prems show ?thesis by simp
  next
    case (Some h)
    with Suc.prems(2) obtain blk w1 m1 where blk: "GetBlockByHash cl h = Some blk"
      and add: "addBlock w (Some blk) = Inr (w1, m1)" and rest: "trace_back cl n w1 m1 = Inr w'"
      by (auto split: option.splits)
    from assms(1) blk have "block_ok blk" by (auto simp: client_ok_def)
    from Suc.IH [OF addBlock_inv [OF Suc.prems(1) this add] rest] show ?thesis .
  qed
qed

lemma receive_inv: "watch_inv h0 w \<Longrightarrow> watch_inv h0 (receive_epochs n w)"
  by (auto simp: watch_inv_def epochs_ok_def blocks_ok_def window_ok_def chan_ok_def receive_epochs_def pending_def)

lemma receive_epochs_fields [simp]:
  "lastEpochEndHeight (receive_epochs n w) = lastEpochEndHeight w"
  "latestFinalizedHeight (receive_epochs n w) = latestFinalizedHeight w"
  "hashToBlock (receive_epochs n w) = hashToBlock w"
  "heightToFinalizedBlock (receive_epochs n w) = heightToFinalizedBlock w"
  "epochList (receive_epochs n w) = epochList w" "EpochChan (receive_epochs n w) = EpochChan w"
  "pending (receive_epochs n w) = drop n (pending w)"
  by (auto simp: receive_epochs_def pending_def min_def add.commute)

lemma run_step_inv:
  assumes "client_ok cl" and "watch_inv h0 w" and "run_step (w, h) cl = Inr (w', h')"
  shows "watch_inv h0 w'"
proof -
  from assms(3) obtain w1 m where
    add: "addBlock (receive_epochs (EpochsTaken cl) w) (GetBlockByHeight cl (h + 1)) = Inr (w1, m)"
    by (auto simp: run_step_def Let_def)
  then obtain blk where blk: "GetBlockByHeight cl (h + 1) = Some blk"
    by (cases "GetBlockByHeight cl (h + 1)") (auto simp: addBlock_def)
  from assms(1) blk have "block_ok blk" by (auto simp: client_ok_def)
  from addBlock_inv [OF receive_inv [OF assms(2)] this] add blk have i1: "watch_inv h0 w1" by simp
  then have i2: "watch_inv h0 (w1\<lparr>hashToBlock := Map.empty\<rparr>)"
    by (simp add: watch_inv_def epochs_ok_def blocks_ok_def window_ok_def chan_ok_def)
  from assms(3) add obtain w2 where "w2 = w1 \<or> w2 = w1\<lparr>hashToBlock := Map.empty\<rparr>"
    and "trace_back cl 10 w2 m = Inr w'"
    by (auto simp: run_step_def Let_def split: if_splits)
  with trace_back_inv [OF assms(1)] i1 i2 show ?thesis by blast
qed

interpretation watcher: machine run_step client_ok "\<lambda>(w, h). watch_inv h0 w" for h0
proof
  fix s i s'
  assume "case s of (w, h) \<Rightarrow> watch_inv h0 w" and "client_ok i" and "run_step s i = Inr s'"
  then show "case s' of (w, h) \<Rightarrow> watch_inv h0 w"
    by (cases s, cases s') (auto dest: run_step_inv)
qed

section \<open>Finalized blocks\<close>

lemma map_leD: "m \<subseteq>\<^sub>m m' \<Longrightarrow> m k = Some v \<Longrightarrow> m' k = Some v"
  by (metis domI map_le_def)

primrec ancestor :: "(bytes32 \<rightharpoonup> BCHBlock) \<Rightarrow> nat \<Rightarrow> BCHBlock \<Rightarrow> BCHBlock option" where
  "ancestor hashes 0 b = Some b"
| "ancestor hashes (Suc n) b = (case hashes (ParentBlk b) of None \<Rightarrow> None | Some p \<Rightarrow> ancestor hashes n p)"

lemma confirm_ancestor: "confirm hashes n p = Inr b \<longleftrightarrow> ancestor hashes n p = Some b"
  by (induction n arbitrary: p) (auto split: option.splits)

lemma generateNewEpoch_keeps:
  assumes "generateNewEpoch w = Inr w'"
  shows "latestFinalizedHeight w' = latestFinalizedHeight w"
    and "heightToFinalizedBlock w' \<subseteq>\<^sub>m heightToFinalizedBlock w"
proof -
  from assms obtain v where w': "w' = ClearOldData v" and v: "latestFinalizedHeight v = latestFinalizedHeight w"
    "heightToFinalizedBlock v = heightToFinalizedBlock w"
    by (auto simp: generateNewEpoch_def Let_def send_epoch_eq split: prod.splits if_splits)
  from ClearOldData_eq [of v] v show "latestFinalizedHeight w' = latestFinalizedHeight w"
    and "heightToFinalizedBlock w' \<subseteq>\<^sub>m heightToFinalizedBlock w"
    by (auto simp: w')
qed

lemma finalize_cases:
  assumes "finalize w b = Inr w'"
  obtains (known) "w' = w"
  | (new) "heightToFinalizedBlock w (Height b) = None" and "Height b = latestFinalizedHeight w + 1"
      "latestFinalizedHeight w' = latestFinalizedHeight w + 1"
      "heightToFinalizedBlock w' \<subseteq>\<^sub>m (heightToFinalizedBlock w)(Height b \<mapsto> b)"
proof (cases "heightToFinalizedBlock w (Height b)")
  case (Some f)
  with assms known show thesis by (auto simp: finalize_def split: if_splits)
next
  case None
  let ?w = "w\<lparr>heightToFinalizedBlock := (heightToFinalizedBlock w)(Height b \<mapsto> b),
      latestFinalizedHeight := latestFinalizedHeight w + 1\<rparr>"
  from None assms have h: "Height b = latestFinalizedHeight w + 1"
    and res: "generateNewEpoch ?w = Inr w' \<or> w' = ?w"
    by (auto simp: finalize_def Let_def split: if_splits)
  from res have "latestFinalizedHeight w' = latestFinalizedHeight w + 1 \<and>
      heightToFinalizedBlock w' \<subseteq>\<^sub>m (heightToFinalizedBlock w)(Height b \<mapsto> b)"
    using generateNewEpoch_keeps [of ?w w'] by auto
  with new None h show thesis by blast
qed

section \<open>Properties\<close>

text \<open>
  (C25) What is finalized stays finalized: adding a block never replaces a finalized block, and it
  finalizes at most one more, which is at the next height and has ten confirmations: the block
  that was added is its tenth descendant in the blocks the watcher has.
\<close>

theorem addBlock_finalizes:
  assumes "addBlock w (Some blk) = Inr (w', m)"
  shows "(\<forall>h b. heightToFinalizedBlock w' h = Some b \<longrightarrow> heightToFinalizedBlock w h = Some b \<or>
      (heightToFinalizedBlock w h = None \<and> h = latestFinalizedHeight w + 1 \<and> Height b = h \<and>
       ancestor ((hashToBlock w)(HashId blk \<mapsto> blk)) 10 blk = Some b)) \<and>
    (latestFinalizedHeight w' = latestFinalizedHeight w \<or>
     latestFinalizedHeight w' = latestFinalizedHeight w + 1 \<and>
     (\<exists>b. ancestor ((hashToBlock w)(HashId blk \<mapsto> blk)) 10 blk = Some b \<and> Height b = latestFinalizedHeight w + 1))"
proof -
  let ?hs = "(hashToBlock w)(HashId blk \<mapsto> blk)"
  let ?w = "w\<lparr>hashToBlock := ?hs\<rparr>"
  consider "w' = ?w" | p b where "?hs (ParentBlk blk) = Some p" "confirm ?hs 9 p = Inr b" "finalize ?w b = Inr w'"
    using assms by (auto simp: addBlock_def Let_def split: option.splits sum.splits)
  then show ?thesis
  proof cases
    case 1
    then show ?thesis by simp
  next
    case (2 p b)
    have "ancestor ?hs (Suc 9) blk = ancestor ?hs 9 p" unfolding ancestor.simps 2(1) by (rule option.case)
    moreover have "ancestor ?hs 9 p = Some b" using 2(2) unfolding confirm_ancestor .
    moreover have "(10 :: nat) = Suc 9" by simp
    ultimately have anc: "ancestor ?hs 10 blk = Some b" by (simp only:)
    from 2(3) show ?thesis
    proof (cases rule: finalize_cases)
      case known
      then show ?thesis by simp
    next
      case new
      have "heightToFinalizedBlock w h = Some c \<or> h = Height b \<and> c = b" if "heightToFinalizedBlock w' h = Some c" for h c
        using map_leD [OF new(4) that] by (auto split: if_splits)
      then show ?thesis using new(1-3) anc by auto
    qed
  qed
qed

lemma new_watcher_inv: "sint h0 < 2 ^ 62 \<Longrightarrow> watch_inv h0 (NewWatcher h0)"
  by (auto simp: watch_inv_def epochs_ok_def blocks_ok_def window_ok_def chan_ok_def NewWatcher_def)

text \<open>
  (C26) The epochs of a watcher are consecutive: whatever blocks the client answers with (below
  height \<open>2 ^ 62\<close>), forks included, as long as the watcher neither panics nor hangs, the epochs it has
  sent start at the initial height plus one and then every 2016 blocks, the last five are kept, at
  most one of them has not been received by the application, the finalized height is less than one epoch ahead, and the finalized block of every height since
  the end of the last epoch is there.
\<close>

theorem watch_epochs_consecutive:
  assumes "watch h0 cls = Inr (w, h)" and "list_all client_ok cls" and "sint h0 < 2 ^ 62"
  shows "(\<forall>n < length (EpochChan w). sint (StartHeight (EpochChan w ! n)) = sint h0 + 1 + 2016 * int n) \<and>
    sint (lastEpochEndHeight w) = sint h0 + 2016 * int (length (EpochChan w)) \<and>
    epochList w = drop (length (EpochChan w) - 5) (EpochChan w) \<and>
    EpochsReceived w \<le> length (EpochChan w) \<and> length (EpochChan w) \<le> EpochsReceived w + 1 \<and>
    sint (lastEpochEndHeight w) \<le> sint (latestFinalizedHeight w) \<and>
    sint (latestFinalizedHeight w) < sint (lastEpochEndHeight w) + 2016 \<and>
    (\<forall>k. sint (lastEpochEndHeight w) < sint k \<and> sint k \<le> sint (latestFinalizedHeight w) \<longrightarrow>
       (\<exists>b. heightToFinalizedBlock w k = Some b \<and> Height b = k))"
proof -
  have "watch_inv h0 (NewWatcher h0)" by (rule new_watcher_inv [OF assms(3)])
  with watcher.run_invar [OF assms(1) [unfolded watch_def] _ assms(2), of h0]
  have inv: "watch_inv h0 w" by simp
  then have e: "epochs_ok h0 w" and b: "blocks_ok w" and o: "window_ok w"
    and c: "EpochsReceived w \<le> length (EpochChan w) \<and> length (EpochChan w) \<le> EpochsReceived w + 1"
    and lt: "sint (latestFinalizedHeight w) < sint (lastEpochEndHeight w) + 2016"
    by (simp_all add: watch_inv_def chan_ok_def EpochChanCap_def)
  have "\<exists>b. heightToFinalizedBlock w k = Some b \<and> Height b = k"
    if "sint (lastEpochEndHeight w) < sint k" "sint k \<le> sint (latestFinalizedHeight w)" for k
    using that o b unfolding window_ok_def blocks_ok_def by (metis not_None_eq)
  with e o lt c show ?thesis unfolding epochs_ok_def window_ok_def by blast
qed

definition witness_block :: BCHBlock where
  "witness_block = \<lparr>Height = 1, Timestamp = 600, HashId = 11, ParentBlk = 0, Nominations = []\<rparr>"

definition witness_client :: client where
  "witness_client = \<lparr>GetBlockByHeight = (\<lambda>h. if h = 1 then Some witness_block else None),
     GetBlockByHash = (\<lambda>_. None), EpochsTaken = 0\<rparr>"

lemma receive_nothing [simp]: "receive_epochs 0 w = w"
  by (simp add: receive_epochs_def)

lemma trace_back_None: "trace_back cl n w None = Inr w"
  by (cases n) simp_all

lemma witness_block_add:
  "addBlock (NewWatcher 0) (Some witness_block) =
     Inr ((NewWatcher 0)\<lparr>hashToBlock := [11 \<mapsto> witness_block]\<rparr>, None)"
  by (simp add: addBlock_def witness_block_def NewWatcher_def)

theorem watch_epochs_consecutive_witness:
  "\<exists>w h. watch 0 [witness_client] = Inr (w, h) \<and> hashToBlock w 11 = Some witness_block \<and>
     sint (lastEpochEndHeight w) = 2016 * int (length (EpochChan w))"
proof -
  have "\<exists>w h. watch 0 [witness_client] = Inr (w, h) \<and> hashToBlock w 11 = Some witness_block"
    by (simp add: watch_def run_step_def witness_client_def trace_back_None witness_block_add
        NumBlocksToClearMemory_def)
  then obtain w h where w: "watch 0 [witness_client] = Inr (w, h)" "hashToBlock w 11 = Some witness_block" by blast
  have "list_all client_ok [witness_client]"
    by (simp add: client_ok_def witness_client_def witness_block_def block_ok_def)
  with watch_epochs_consecutive [OF w(1)] w show ?thesis by auto
qed

theorem addBlock_finalizes_witness:
  "\<exists>w' m. addBlock (NewWatcher 0) (Some witness_block) = Inr (w', m) \<and> latestFinalizedHeight w' \<in> {0, 1}"
proof -
  have "latestFinalizedHeight (NewWatcher 0) = 0" by (simp add: NewWatcher_def)
  with addBlock_finalizes [OF witness_block_add] witness_block_add show ?thesis by auto
qed

subsection \<open>The contents of an epoch\<close>

text \<open>
  The count of a public key in a list of nominations: what the first of its nominations says, plus
  the number of its nominations.
\<close>

definition tally :: "bytes32 \<Rightarrow> Nomination list \<Rightarrow> Nomination option" where
  "tally pk noms = (case filter (\<lambda>n. Nom_Pubkey n = pk) noms of
       [] \<Rightarrow> None
     | n # ns \<Rightarrow> Some (n\<lparr>NominatedCount := NominatedCount n + of_nat (length (n # ns))\<rparr>))"

definition tallied :: "Nomination list \<Rightarrow> Nomination list \<times> (bytes32 \<times> nat) list \<Rightarrow> bool" where
  "tallied noms = (\<lambda>(cells, vm). distinct (map fst vm) \<and>
     (\<forall>pk. map_of vm pk = None \<longleftrightarrow> tally pk noms = None) \<and>
     (\<forall>pk p. map_of vm pk = Some p \<longrightarrow> p < length cells \<and> tally pk noms = Some (cells ! p)))"

lemma tally_pubkey: "tally pk noms = Some n \<Longrightarrow> Nom_Pubkey n = pk"
proof -
  assume t: "tally pk noms = Some n"
  show ?thesis
  proof (cases "filter (\<lambda>n. Nom_Pubkey n = pk) noms")
    case Nil
    with t show ?thesis by (simp add: tally_def)
  next
    case (Cons m ms)
    then have "m \<in> set (filter (\<lambda>n. Nom_Pubkey n = pk) noms)" by simp
    then have "Nom_Pubkey m = pk" by simp
    with t Cons show ?thesis by (auto simp: tally_def)
  qed
qed

lemma tally_snoc:
  "tally pk (noms @ [n]) = (if Nom_Pubkey n \<noteq> pk then tally pk noms
     else case tally pk noms of
       None \<Rightarrow> Some (n\<lparr>NominatedCount := NominatedCount n + 1\<rparr>)
     | Some m \<Rightarrow> Some (m\<lparr>NominatedCount := NominatedCount m + 1\<rparr>))"
  by (auto simp: tally_def ac_simps split: list.splits)

lemma count_block_tallied:
  assumes "tallied noms (cells, vm)" and "length (Nominations blk) \<le> 1"
  shows "tallied (noms @ Nominations blk) (count_block (cells, vm) blk)"
proof -
  from assms(2) consider "Nominations blk = []" | n where "Nominations blk = [n]"
    by (cases "Nominations blk") auto
  then show ?thesis
  proof cases
    case 1
    with assms(1) show ?thesis by (auto simp: count_block_def tallied_def nth_append less_Suc_eq)
  next
    case (2 n)
    let ?pk = "Nom_Pubkey n" and ?c = "length cells"
    show ?thesis
    proof (cases "map_of vm ?pk")
      case None
      let ?n = "n\<lparr>NominatedCount := NominatedCount n + 1\<rparr>"
      have res: "count_block (cells, vm) blk = (cells @ [?n], AList.update ?pk ?c vm)"
        using None 2 by (simp add: count_block_def count_nomination_def Let_def update_conv)
      from None assms(1) have t: "tally ?pk noms = None" by (auto simp: tallied_def)
      show ?thesis
        using assms(1) t
        by (auto simp: tallied_def res 2 tally_snoc update_conv distinct_update nth_append
            split: if_splits intro: less_SucI)
    next
      case (Some p)
      with assms(1) have p: "p < ?c" "tally ?pk noms = Some (cells ! p)" by (auto simp: tallied_def)
      let ?m = "(cells ! p)\<lparr>NominatedCount := NominatedCount (cells ! p) + 1\<rparr>"
      have res: "count_block (cells, vm) blk = (cells[p := ?m] @ [n], vm)"
        using Some 2 p(1) by (simp add: count_block_def count_nomination_def Let_def nth_append list_update_append)
      have other: "q \<noteq> p" if "map_of vm pk = Some q" "pk \<noteq> ?pk" for pk q
        using that assms(1) p(2) tally_pubkey by (auto simp: tallied_def) (metis that(2) tally_pubkey)
      show ?thesis
        using assms(1) p Some other
        by (auto simp: tallied_def res 2 tally_snoc nth_append nth_list_update less_Suc_eq
            simp del: map_of_eq_Some_iff split: option.splits)
    qed
  qed
qed

lemma count_blocks_tallied:
  assumes "list_all (\<lambda>b. length (Nominations b) \<le> 1) blks"
  shows "tallied (concat (map Nominations blks)) (foldl count_block ([], []) blks)"
  using assms
proof (induction blks rule: rev_induct)
  case Nil
  then show ?case by (simp add: tallied_def tally_def)
next
  case (snoc b blks)
  obtain cells vm where c: "foldl count_block ([], []) blks = (cells, vm)" by fastforce
  with snoc count_block_tallied [of "concat (map Nominations blks)" cells vm b] show ?case by simp
qed

lemma scan_noms: "sc_noms (foldl scan_block s blks) = foldl count_block (sc_noms s) blks"
  by (induction blks arbitrary: s) (simp_all add: scan_block_def)

lemma scan_end: "sint (sc_end (foldl scan_block s blks)) = foldl (\<lambda>m b. max m (sint (Timestamp b))) (sint (sc_end s)) blks"
  by (induction blks arbitrary: s) (simp_all add: scan_block_def word_sless_alt max_def)

text \<open>
  When an epoch of 2016 finalized blocks is complete, each block with at most one
  nomination, and the channel is empty, \<^verbatim>\<open>generateNewEpoch\<close> returns and sends one epoch, which starts after the
  last one, ends at the latest time of its blocks, and has for every nominated public key the count
  its first nomination came with plus one for every block that nominates it. The nominations a
  client makes come with count one, so every key has one vote more than it has blocks.
\<close>

lemma generateNewEpoch_counts:
  assumes "window_ok w" and "sint (latestFinalizedHeight w) = sint (lastEpochEndHeight w) + 2016"
    and "list_all (\<lambda>b. length (Nominations b) \<le> 1) (epoch_blocks w)" and "pending w = []"
  shows "\<exists>w' e. generateNewEpoch w = Inr w' \<and> EpochChan w' = EpochChan w @ [e] \<and>
    StartHeight e = lastEpochEndHeight w + 1 \<and> lastEpochEndHeight w' = latestFinalizedHeight w \<and>
    sint (EndTime e) = foldl (\<lambda>m b. max m (sint (Timestamp b))) 0 (epoch_blocks w) \<and>
    distinct (map fst (ValMapByPubkey e)) \<and>
    (\<forall>pk. map_of (ValMapByPubkey e) pk = tally pk (concat (map Nominations (epoch_blocks w))))"
proof -
  let ?w = "w\<lparr>epochList := epochList w @ [new_epoch w], EpochChan := EpochChan w @ [new_epoch w],
      lastEpochEndHeight := latestFinalizedHeight w\<rparr>"
  have "generateNewEpoch w = Inr (ClearOldData ?w)" using generateNewEpoch_eq [OF assms(1,2)] assms(4) by simp
  moreover from ClearOldData_eq [of ?w] have "EpochChan (ClearOldData ?w) = EpochChan w @ [new_epoch w]"
    "lastEpochEndHeight (ClearOldData ?w) = latestFinalizedHeight w" by auto
  moreover have "StartHeight (new_epoch w) = lastEpochEndHeight w + 1" by (simp add: new_epoch_def Let_def)
  moreover have "sint (EndTime (new_epoch w)) = foldl (\<lambda>m b. max m (sint (Timestamp b))) 0 (epoch_blocks w)"
    by (simp add: new_epoch_def Let_def scan_end empty_scan_def)
  moreover obtain cells vm where cv: "foldl count_block ([], []) (epoch_blocks w) = (cells, vm)" by fastforce
  then have "sc_noms (foldl scan_block empty_scan (epoch_blocks w)) = (cells, vm)"
    by (simp add: scan_noms empty_scan_def)
  then have val: "ValMapByPubkey (new_epoch w) = map (\<lambda>(k, p). (k, cells ! p)) vm"
    by (simp add: new_epoch_def Let_def)
  have t: "tallied (concat (map Nominations (epoch_blocks w))) (cells, vm)"
    using count_blocks_tallied [OF assms(3)] cv by simp
  have "map_of (ValMapByPubkey (new_epoch w)) pk = tally pk (concat (map Nominations (epoch_blocks w)))" for pk
    using t by (cases "map_of vm pk") (auto simp: val map_of_map tallied_def)
  moreover have "distinct (map fst (ValMapByPubkey (new_epoch w)))"
    using t by (simp add: val tallied_def comp_def case_prod_beta)
  ultimately show ?thesis by blast
qed

definition witness_nomination :: Nomination where
  "witness_nomination = \<lparr>Nom_Pubkey = 5, NominatedCount = 1\<rparr>"

definition witness_watcher :: Watcher where
  "witness_watcher = (NewWatcher 0)\<lparr>latestFinalizedHeight := 2016,
     heightToFinalizedBlock := (\<lambda>h. Some \<lparr>Height = h, Timestamp = 600, HashId = ucast h, ParentBlk = ucast (h - 1),
       Nominations = [witness_nomination]\<rparr>)\<rparr>"

lemma witness_watcher_blocks:
  "concat (map Nominations (epoch_blocks witness_watcher)) = replicate 2016 witness_nomination"
proof -
  have "concat (map Nominations (map (\<lambda>h. the (heightToFinalizedBlock witness_watcher h)) hs)) =
      replicate (length hs) witness_nomination" for hs
    by (induction hs) (simp_all add: witness_watcher_def)
  then show ?thesis by (simp add: epoch_blocks_def heights_def del: map_map)
qed

lemma generateNewEpoch_counts_witness:
  "\<exists>w' e. generateNewEpoch witness_watcher = Inr w' \<and> EpochChan w' = [e] \<and>
     map_of (ValMapByPubkey e) 5 = Some \<lparr>Nom_Pubkey = 5, NominatedCount = 2017\<rparr>"
proof -
  have "window_ok witness_watcher" "sint (latestFinalizedHeight witness_watcher) =
      sint (lastEpochEndHeight witness_watcher) + 2016"
    "list_all (\<lambda>b. length (Nominations b) \<le> 1) (epoch_blocks witness_watcher)" "EpochChan witness_watcher = []"
    "pending witness_watcher = []"
    by (simp_all add: pending_def window_ok_def witness_watcher_def NewWatcher_def epoch_blocks_def list_all_iff)
  moreover have "tally 5 (replicate (Suc 2015) witness_nomination) = Some \<lparr>Nom_Pubkey = 5, NominatedCount = 2017\<rparr>"
    by (simp only: tally_def replicate_Suc filter.simps) (simp add: witness_nomination_def)
  then have "tally 5 (concat (map Nominations (epoch_blocks witness_watcher))) =
      Some \<lparr>Nom_Pubkey = 5, NominatedCount = 2017\<rparr>" by (simp add: witness_watcher_blocks del: replicate_Suc)
  ultimately show ?thesis using generateNewEpoch_counts [of witness_watcher] by auto
qed

text \<open>
  With two nominations in one block, which the type of a block allows, the epoch is wrong: the
  pointer to the variable of the loop is stored for the first key, and the variable is
  overwritten by the second nomination, so that the first key is mapped to a nomination of the
  second key.
\<close>

lemma count_block_aliases:
  assumes "Nominations blk = [a, b]" and "Nom_Pubkey a \<noteq> Nom_Pubkey b"
    and "count_block ([], []) blk = (cells, vm)"
  shows "map_of (map (\<lambda>(k, p). (k, cells ! p)) vm) (Nom_Pubkey a) =
           Some (b\<lparr>NominatedCount := NominatedCount b + 1\<rparr>) \<and>
         map_of (map (\<lambda>(k, p). (k, cells ! p)) vm) (Nom_Pubkey b) =
           Some (b\<lparr>NominatedCount := NominatedCount b + 1\<rparr>)"
  using assms by (auto simp: count_block_def count_nomination_def Let_def)

lemma count_block_aliases_witness:
  "map_of (map (\<lambda>(k, p). (k, fst (count_block ([], []) (witness_block\<lparr>Nominations :=
       [\<lparr>Nom_Pubkey = 1, NominatedCount = 1\<rparr>, \<lparr>Nom_Pubkey = 2, NominatedCount = 1\<rparr>]\<rparr>)) ! p))
     (snd (count_block ([], []) (witness_block\<lparr>Nominations :=
       [\<lparr>Nom_Pubkey = 1, NominatedCount = 1\<rparr>, \<lparr>Nom_Pubkey = 2, NominatedCount = 1\<rparr>]\<rparr>)))) 1 =
   Some \<lparr>Nom_Pubkey = 2, NominatedCount = 2\<rparr>"
  using count_block_aliases [of "witness_block\<lparr>Nominations :=
       [\<lparr>Nom_Pubkey = 1, NominatedCount = 1\<rparr>, \<lparr>Nom_Pubkey = 2, NominatedCount = 1\<rparr>]\<rparr>"
       "\<lparr>Nom_Pubkey = 1, NominatedCount = 1\<rparr>" "\<lparr>Nom_Pubkey = 2, NominatedCount = 1\<rparr>",
       OF _ _ surjective_pairing]
  by simp

subsection \<open>Panics\<close>

lemma addBlock_panics:
  assumes "watch_inv h0 w" and "block_ok blk" and "addBlock w (Some blk) = Inl e"
  shows "e \<in> {PanicMsg ''Deep Reorganization'', PanicMsg ''Height Skipped'', Blocked}"
proof -
  let ?w = "w\<lparr>hashToBlock := (hashToBlock w)(HashId blk \<mapsto> blk)\<rparr>"
  from assms(3) obtain p b where p: "hashToBlock ?w (ParentBlk blk) = Some p"
    and c: "confirm (hashToBlock ?w) 9 p = Inr b" and f: "finalize ?w b = Inl e"
    by (auto simp: addBlock_def Let_def bindG_Inl_iff split: option.splits sum.splits)
  have inv: "watch_inv h0 ?w" by (rule added_inv [OF assms(1,2)])
  have ok: "block_ok b" if "hashToBlock ?w k = Some b" for k b
    using inv that unfolding watch_inv_def blocks_ok_def by blast
  from finalize_outcome [OF inv confirm_block_ok [OF ok c ok [OF p]]] f show ?thesis by auto
qed

lemma trace_back_panics:
  assumes "client_ok cl" and "watch_inv h0 w" and "trace_back cl n w m = Inl e"
  shows "e \<in> {PanicMsg ''Deep Reorganization'', PanicMsg ''Height Skipped'', Blocked,
           PanicMsg ''BCH mainnet tip should has its parent block''}"
  using assms(2,3)
proof (induction n arbitrary: w m)
  case 0
  then show ?case by simp
next
  case (Suc n)
  then obtain h where m: "m = Some h" by (cases m) auto
  show ?case
  proof (cases "GetBlockByHash cl h")
    case None
    with Suc.prems(2) m show ?thesis by simp
  next
    case (Some blk)
    with assms(1) have ok: "block_ok blk" by (auto simp: client_ok_def)
    show ?thesis
    proof (cases "addBlock w (Some blk)")
      case (Inl e')
      with Suc.prems(2) m Some have "e' = e" by simp
      with addBlock_panics [OF Suc.prems(1) ok Inl] show ?thesis by auto
    next
      case (Inr r)
      obtain w1 m1 where r: "r = (w1, m1)" by fastforce
      with Suc.prems(2) m Some Inr have "trace_back cl n w1 m1 = Inl e" by simp
      from Suc.IH [OF addBlock_inv [OF Suc.prems(1) ok Inr [unfolded r]] this] show ?thesis .
    qed
  qed
qed

text \<open>
  How the watcher stops: on a watcher in order, an iteration of the loop panics only when the
  main chain reorganizes deeper than ten blocks, when a height is skipped, when the client does not
  know the parent of its tip, or, always, when the client has no block at the next height, since
  the loop goes on with the nil block after it has waited; and it hangs when the application has
  not received the last epoch. It never misses a block of an epoch.
\<close>

lemma run_step_panics:
  assumes "watch_inv h0 w" and "client_ok cl"
  shows "(run_step (w, h) cl = Inl NilDeref \<longleftrightarrow> GetBlockByHeight cl (h + 1) = None) \<and>
    (\<forall>e. run_step (w, h) cl = Inl e \<longrightarrow>
       e \<in> {NilDeref, PanicMsg ''Deep Reorganization'', PanicMsg ''Height Skipped'', Blocked,
            PanicMsg ''BCH mainnet tip should has its parent block''})"
proof (cases "GetBlockByHeight cl (h + 1)")
  case None
  then show ?thesis by (simp add: run_step_def addBlock_def Let_def)
next
  case (Some blk)
  with assms(2) have ok: "block_ok blk" by (auto simp: client_ok_def)
  let ?w = "receive_epochs (EpochsTaken cl) w"
  have inv: "watch_inv h0 ?w" by (rule receive_inv [OF assms(1)])
  show ?thesis
  proof (cases "addBlock ?w (Some blk)")
    case (Inl e)
    with addBlock_panics [OF inv ok Inl] Some show ?thesis by (auto simp: run_step_def Let_def)
  next
    case (Inr r)
    obtain w1 m where r: "r = (w1, m)" by fastforce
    have i1: "watch_inv h0 w1" by (rule addBlock_inv [OF inv ok Inr [unfolded r]])
    let ?w2 = "if m = None \<and> sint (h + 1) mod sint NumBlocksToClearMemory = 0
      then w1\<lparr>hashToBlock := Map.empty\<rparr> else w1"
    have i2: "watch_inv h0 ?w2"
      using i1 by (simp add: watch_inv_def epochs_ok_def blocks_ok_def window_ok_def chan_ok_def)
    have "run_step (w, h) cl = Inl e \<Longrightarrow> trace_back cl 10 ?w2 m = Inl e" for e
      using Some Inr r by (auto simp: run_step_def Let_def bindG_Inl_iff split: if_splits)
    with trace_back_panics [OF assms(2) i2] Some show ?thesis by fastforce
  qed
qed

lemma run_step_panics_witness:
  "run_step (NewWatcher 0, 0) \<lparr>GetBlockByHeight = (\<lambda>_. None), GetBlockByHash = (\<lambda>_. None), EpochsTaken = 0\<rparr> = Inl NilDeref"
  using run_step_panics [OF new_watcher_inv [of 0], of "\<lparr>GetBlockByHeight = (\<lambda>_. None), GetBlockByHash = (\<lambda>_. None), EpochsTaken = 0\<rparr>" 0]
  by (simp add: client_ok_def)

end
