(* ===== verification/Watcher_Progress.thy ===== *)
theory Watcher_Progress
  imports Watcher
begin

text \<open>
  The progress of the watcher of \<^verbatim>\<open>staking/watcher.go\<close>: fed with the blocks of one chain it never
  panics, finalizes one block in every iteration once ten confirmations are there, and sends an
  epoch for every 2016 finalized blocks, as long as the application has received the last epoch
  when the next one is due; otherwise the send does not return, and the watcher hangs. The loop
  clears its memory at every height that is a multiple of 100000; the chains here are shorter.
\<close>

section \<open>Chains\<close>

text \<open>The blocks of heights one to \<open>N\<close> of a chain, linked by their hashes, which are different.\<close>

definition chain :: "nat \<Rightarrow> (nat \<Rightarrow> BCHBlock) \<Rightarrow> bool" where
  "chain N ch \<longleftrightarrow> N < 100000 \<and> inj_on (\<lambda>i. HashId (ch i)) {1..N} \<and> ParentBlk (ch 1) = 0 \<and>
     (\<forall>i \<in> {1..N}. Height (ch i) = of_nat i \<and> HashId (ch i) \<noteq> 0) \<and>
     (\<forall>i \<in> {1..<N}. ParentBlk (ch (Suc i)) = HashId (ch i))"

definition serves :: "nat \<Rightarrow> (nat \<Rightarrow> BCHBlock) \<Rightarrow> client \<Rightarrow> bool" where
  "serves N ch cl \<longleftrightarrow> client_ok cl \<and> (\<forall>i \<in> {1..N}. GetBlockByHeight cl (of_nat i) = Some (ch i))"

lemma chainD:
  assumes "chain N ch" and "1 \<le> i" and "i \<le> N"
  shows "Height (ch i) = of_nat i" and "HashId (ch i) \<noteq> 0" and "i < N \<Longrightarrow> ParentBlk (ch (Suc i)) = HashId (ch i)"
    and "1 \<le> j \<Longrightarrow> j \<le> N \<Longrightarrow> HashId (ch i) = HashId (ch j) \<longleftrightarrow> i = j" and "N < 100000"
  using assms by (auto simp: chain_def dest: inj_onD)

lemma sint_height: "n < 100000 \<Longrightarrow> sint (of_nat n :: int64) = int n"
  by (simp add: signed_of_nat signed_take_bit_int_eq_self)

lemma height_inj: "i < 100000 \<Longrightarrow> j < 100000 \<Longrightarrow> (of_nat i :: int64) = of_nat j \<longleftrightarrow> i = j"
  using sint_height [of i] sint_height [of j] by (metis of_nat_eq_iff)

lemma chain_block_ok:
  assumes "chain N ch" and "1 \<le> i" and "i \<le> N"
  shows "block_ok (ch i)"
  using chainD [OF assms] assms(3) by (simp add: block_ok_def sint_height)

section \<open>What the iterations keep\<close>

text \<open>
  After \<open>n\<close> iterations the watcher has blocks of the chain only, among them the last ten, and
  has finalized heights up to \<open>n - 10\<close>.
\<close>

definition follows :: "nat \<Rightarrow> (nat \<Rightarrow> BCHBlock) \<Rightarrow> nat \<Rightarrow> Watcher \<Rightarrow> bool" where
  "follows N ch n w \<longleftrightarrow> watch_inv 0 w \<and> latestFinalizedHeight w = of_nat (n - 10) \<and>
     (\<forall>k b. hashToBlock w k = Some b \<longrightarrow> (\<exists>i \<in> {1..n}. k = HashId (ch i))) \<and>
     (\<forall>i. 1 \<le> i \<and> i \<le> n \<and> n < i + 10 \<longrightarrow> hashToBlock w (HashId (ch i)) = Some (ch i)) \<and>
     (\<forall>h b. heightToFinalizedBlock w h = Some b \<longrightarrow> (\<exists>i \<in> {1..n - 10}. h = of_nat i \<and> b = ch i))"

lemma clear_heights_hash:
  assumes "\<And>h b. fin h = Some b \<Longrightarrow> HashId b \<noteq> x"
  shows "snd (clear_heights h fin hashes) x = hashes x"
  using assms
proof (induction h fin hashes rule: clear_heights.induct)
  case (1 h fin hashes)
  show ?case
  proof (cases "fin h")
    case None
    then show ?thesis by (simp add: clear_heights.simps [of h])
  next
    case (Some blk)
    have "snd (clear_heights (h - 1) (fin(h := None)) (hashes(HashId blk := None))) x =
        (hashes(HashId blk := None)) x"
      by (rule 1(1) [OF Some]) (use "1.prems" in \<open>auto split: if_splits\<close>)
    with "1.prems" [OF Some] Some show ?thesis by (simp add: clear_heights.simps [of h fin])
  qed
qed

lemma ClearOldData_hash:
  assumes "\<And>h b. heightToFinalizedBlock w h = Some b \<Longrightarrow> HashId b \<noteq> x"
  shows "hashToBlock (ClearOldData w) x = hashToBlock w x"
proof -
  have "snd (clear_heights h (heightToFinalizedBlock w) (hashToBlock w)) x = hashToBlock w x" for h
    by (rule clear_heights_hash [OF assms])
  then show ?thesis by (simp add: ClearOldData_def Let_def split: prod.split) (metis snd_conv)
qed

lemma finalize_next:
  assumes "watch_inv h0 w" and "block_ok b" and "latestFinalizedHeight w + 1 = Height b"
    and "heightToFinalizedBlock w (Height b) = None"
    and "sint (Height b) = sint (lastEpochEndHeight w) + 2016 \<Longrightarrow> pending w = []"
  shows "\<exists>w'. finalize w b = Inr w' \<and> watch_inv h0 w' \<and> latestFinalizedHeight w' = latestFinalizedHeight w + 1 \<and>
    EpochsReceived w' = EpochsReceived w \<and>
    heightToFinalizedBlock w' \<subseteq>\<^sub>m (heightToFinalizedBlock w)(Height b \<mapsto> b) \<and> hashToBlock w' \<subseteq>\<^sub>m hashToBlock w \<and>
    (\<forall>x. (\<forall>h c. ((heightToFinalizedBlock w)(Height b \<mapsto> b)) h = Some c \<longrightarrow> HashId c \<noteq> x) \<longrightarrow>
       hashToBlock w' x = hashToBlock w x)"
proof -
  let ?x = "extended w b"
  note ext = extended_inv [OF assms(1-3)]
  have x: "heightToFinalizedBlock ?x = (heightToFinalizedBlock w)(Height b \<mapsto> b)" "hashToBlock ?x = hashToBlock w"
    "latestFinalizedHeight ?x = latestFinalizedHeight w + 1" "EpochsReceived ?x = EpochsReceived w"
    "lastEpochEndHeight ?x = lastEpochEndHeight w" "pending ?x = pending w" by (simp_all add: extended_def)
  show ?thesis
  proof (cases "sint (latestFinalizedHeight ?x) = sint (lastEpochEndHeight ?x) + 2016")
    case True
    then have "pending ?x = []" using assms(3,5) x by simp
    from generated_inv [OF ext(1-3) True ext(4) this] obtain w' where w': "generateNewEpoch ?x = Inr w'" "watch_inv h0 w'"
      "latestFinalizedHeight w' = latestFinalizedHeight ?x" "heightToFinalizedBlock w' \<subseteq>\<^sub>m heightToFinalizedBlock ?x"
      "hashToBlock w' \<subseteq>\<^sub>m hashToBlock ?x" "EpochsReceived w' = EpochsReceived ?x" by blast
    from generateNewEpoch_eq [OF ext(3) True] w'(1) \<open>pending ?x = []\<close>
    have cl: "w' = ClearOldData (?x\<lparr>epochList := epochList ?x @ [new_epoch ?x],
       EpochChan := EpochChan ?x @ [new_epoch ?x], lastEpochEndHeight := latestFinalizedHeight ?x\<rparr>)" by simp
    have "hashToBlock w' k = hashToBlock w k"
      if "\<forall>h c. ((heightToFinalizedBlock w)(Height b \<mapsto> b)) h = Some c \<longrightarrow> HashId c \<noteq> k" for k
      unfolding cl by (subst ClearOldData_hash) (use that x in auto)
    moreover have "finalize w b = Inr w'" using True ext(5) assms(3,4) w'(1) by (simp add: finalize_eq)
    ultimately show ?thesis using w' x by auto
  next
    case False
    then have "finalize w b = Inr ?x" using ext(5) assms(3,4) by (simp add: finalize_eq)
    moreover have "watch_inv h0 ?x" using False ext by (simp add: watch_inv_def)
    ultimately show ?thesis using x by auto
  qed
qed

lemma finalize_blocked:
  assumes "watch_inv h0 w" and "block_ok b" and "latestFinalizedHeight w + 1 = Height b"
    and "heightToFinalizedBlock w (Height b) = None"
    and "sint (Height b) = sint (lastEpochEndHeight w) + 2016" and "pending w \<noteq> []"
  shows "finalize w b = Inl Blocked"
proof -
  let ?x = "extended w b"
  note ext = extended_inv [OF assms(1-3)]
  have "sint (latestFinalizedHeight ?x) = sint (lastEpochEndHeight ?x) + 2016" "pending ?x = pending w"
    using assms(3,5) by (simp_all add: extended_def)
  with generateNewEpoch_eq [OF ext(3)] ext(5) assms(3,4,6) show ?thesis by (simp add: finalize_eq)
qed

text \<open>The walk to the ancestors on a chain.\<close>

lemma confirm_chain:
  assumes "chain N ch" and "hashes 0 = None" and "1 \<le> j" and "j \<le> N"
    and "\<And>i. 1 \<le> i \<Longrightarrow> i \<le> j \<Longrightarrow> j \<le> i + m \<Longrightarrow> hashes (HashId (ch i)) = Some (ch i)"
  shows "confirm hashes m (ch j) = (if m < j then Inr (ch (j - m)) else Inl None)"
  using assms(3-5)
proof (induction m arbitrary: j)
  case 0
  then show ?case by simp
next
  case (Suc m)
  show ?case
  proof (cases "j = 1")
    case True
    then show ?thesis using assms(1,2) by (simp add: chain_def)
  next
    case False
    then obtain i where j: "j = Suc i" "1 \<le> i" using Suc.prems(1) by (cases j) auto
    then have "ParentBlk (ch j) = HashId (ch i)" using chainD(3) [OF assms(1)] Suc.prems(2) by simp
    moreover have "hashes (HashId (ch i)) = Some (ch i)" using Suc.prems(3) [of i] j by simp
    moreover have "confirm hashes m (ch i) = (if m < i then Inr (ch (i - m)) else Inl None)"
      by (rule Suc.IH) (use Suc.prems j in auto)
    ultimately show ?thesis using j by simp
  qed
qed

definition with_block :: "Watcher \<Rightarrow> BCHBlock \<Rightarrow> Watcher" where
  "with_block w b = w\<lparr>hashToBlock := (hashToBlock w)(HashId b \<mapsto> b)\<rparr>"

lemma followsD:
  assumes "follows N ch n w"
  shows "watch_inv 0 w" and "latestFinalizedHeight w = of_nat (n - 10)"
    and "hashToBlock w k = Some b \<Longrightarrow> \<exists>i \<in> {1..n}. k = HashId (ch i)"
    and "1 \<le> i \<Longrightarrow> i \<le> n \<Longrightarrow> n < i + 10 \<Longrightarrow> hashToBlock w (HashId (ch i)) = Some (ch i)"
    and "heightToFinalizedBlock w h = Some b \<Longrightarrow> \<exists>i \<in> {1..n - 10}. h = of_nat i \<and> b = ch i"
  using assms unfolding follows_def by blast+

lemma with_block_chain:
  assumes "chain N ch" and "follows N ch n w" and "n < N"
  defines "hs \<equiv> hashToBlock (with_block w (ch (Suc n)))"
  shows "watch_inv 0 (with_block w (ch (Suc n)))" and "hs 0 = None"
    and "hs k = Some b \<Longrightarrow> \<exists>i \<in> {1..Suc n}. k = HashId (ch i)"
    and "1 \<le> i \<Longrightarrow> i \<le> Suc n \<Longrightarrow> n < i + 10 \<Longrightarrow> hs (HashId (ch i)) = Some (ch i)"
proof -
  have "block_ok (ch (Suc n))" by (rule chain_block_ok [OF assms(1)]) (use assms(3) in auto)
  from added_inv [OF followsD(1) [OF assms(2)] this] show "watch_inv 0 (with_block w (ch (Suc n)))"
    by (simp add: with_block_def)
  have "hashToBlock w 0 = None"
    using followsD(3) [OF assms(2), of 0] chainD(2) [OF assms(1)] assms(3) by (cases "hashToBlock w 0") force+
  moreover have "HashId (ch (Suc n)) \<noteq> 0" using chainD(2) [OF assms(1), of "Suc n"] assms(3) by simp
  ultimately show "hs 0 = None" by (simp add: hs_def with_block_def)
  show "\<exists>i \<in> {1..Suc n}. k = HashId (ch i)" if "hs k = Some b"
    using that followsD(3) [OF assms(2), of k b] by (auto simp: hs_def with_block_def split: if_splits)
  show "hs (HashId (ch i)) = Some (ch i)" if "1 \<le> i" "i \<le> Suc n" "n < i + 10"
    using that followsD(4) [OF assms(2), of i] chainD(4) [OF assms(1), of i "Suc n"] assms(3)
    by (auto simp: hs_def with_block_def le_Suc_eq)
qed

text \<open>The first ten blocks finalize nothing; each one after them finalizes one block.\<close>

lemma addBlock_early:
  assumes "chain N ch" and "follows N ch n w" and "n < N" and "n < 10"
  shows "addBlock w (Some (ch (Suc n))) = Inr (with_block w (ch (Suc n)), None)"
    and "follows N ch (Suc n) (with_block w (ch (Suc n)))"
proof -
  let ?b = "ch (Suc n)" and ?w = "with_block w (ch (Suc n))"
  note wb = with_block_chain [OF assms(1-3)]
  have eq: "w\<lparr>hashToBlock := (hashToBlock w)(HashId ?b \<mapsto> ?b)\<rparr> = ?w" by (simp add: with_block_def)
  show "addBlock w (Some ?b) = Inr (?w, None)"
  proof (cases "n = 0")
    case True
    then have "ParentBlk ?b = 0" using assms(1) by (simp add: chain_def)
    with wb(2) show ?thesis by (simp add: addBlock_def eq)
  next
    case False
    then have "hashToBlock ?w (ParentBlk ?b) = Some (ch n)"
      using wb(4) [of n] chainD(3) [OF assms(1), of n] assms(3) by simp
    moreover have "confirm (hashToBlock ?w) 9 (ch n) = Inl None"
      using confirm_chain [OF assms(1), of "hashToBlock ?w" n 9] wb(2) wb(4) False assms(3,4) by simp
    ultimately show ?thesis by (simp add: addBlock_def eq)
  qed
  have "latestFinalizedHeight ?w = of_nat (Suc n - 10)" using followsD(2) [OF assms(2)] assms(4)
    by (simp add: with_block_def)
  moreover have "\<exists>i \<in> {1..Suc n - 10}. h = of_nat i \<and> b = ch i" if "heightToFinalizedBlock ?w h = Some b" for h b
    using that followsD(5) [OF assms(2), of h b] assms(4) by (auto simp: with_block_def)
  ultimately show "follows N ch (Suc n) ?w" using wb unfolding follows_def by simp
qed

text \<open>The block that the next iteration finalizes, and whether an epoch is due with it.\<close>

definition due :: "nat \<Rightarrow> bool" where
  "due n \<longleftrightarrow> 10 < n \<and> (n - 10) mod 2016 = 0"

lemma follows_sent:
  assumes "chain N ch" and "follows N ch n w" and "n \<le> N"
  shows "length (EpochChan w) = (n - 10) div 2016" and "sint (lastEpochEndHeight w) = 2016 * int ((n - 10) div 2016)"
proof -
  have "n < 100000" using assms(1,3) by (simp add: chain_def)
  then have "sint (latestFinalizedHeight w) = int (n - 10)" by (simp add: followsD(2) [OF assms(2)] sint_height)
  with followsD(1) [OF assms(2)] have "2016 * int (length (EpochChan w)) \<le> int (n - 10)"
    "int (n - 10) < 2016 * int (length (EpochChan w)) + 2016"
    and e: "sint (lastEpochEndHeight w) = 2016 * int (length (EpochChan w))"
    by (simp_all add: watch_inv_def epochs_ok_def window_ok_def)
  then show "length (EpochChan w) = (n - 10) div 2016" by linarith
  with e show "sint (lastEpochEndHeight w) = 2016 * int ((n - 10) div 2016)" by simp
qed

lemma next_multiple: "int (Suc m) = 2016 * int (m div 2016) + 2016 \<longleftrightarrow> Suc m mod 2016 = 0"
proof -
  define q r where "q = m div 2016" and "r = m mod 2016"
  have m: "m = 2016 * q + r" "r < 2016" by (simp_all add: q_def r_def)
  have "Suc m mod 2016 = 0 \<longleftrightarrow> Suc r = 2016" by (simp add: mod_Suc r_def)
  moreover have "int (Suc m) = 2016 * int q + 2016 \<longleftrightarrow> Suc r = 2016" using m by linarith
  ultimately show ?thesis by (simp only: q_def)
qed

lemma follows_receive: "follows N ch n w \<Longrightarrow> follows N ch n (receive_epochs k w)"
  by (simp add: follows_def receive_inv)

lemma finalized_block:
  assumes "chain N ch" and "follows N ch n w" and "n < N" and "10 \<le> n"
  defines "v \<equiv> with_block w (ch (Suc n))"
  shows "watch_inv 0 v" and "block_ok (ch (n - 9))" and "latestFinalizedHeight v + 1 = Height (ch (n - 9))"
    and "heightToFinalizedBlock v (Height (ch (n - 9))) = None"
    and "sint (Height (ch (n - 9))) = sint (lastEpochEndHeight v) + 2016 \<longleftrightarrow> due (Suc n)"
proof -
  let ?f = "ch (n - 9)"
  have same: "heightToFinalizedBlock v = heightToFinalizedBlock w" "latestFinalizedHeight v = latestFinalizedHeight w"
    "lastEpochEndHeight v = lastEpochEndHeight w"
    by (simp_all add: v_def with_block_def)
  have N: "N < 100000" using assms(1) by (simp add: chain_def)
  have hf: "Height ?f = of_nat (n - 9)" using chainD(1) [OF assms(1), of "n - 9"] assms(3,4) by simp
  have n9: "n - 9 = Suc (n - 10)" using assms(4) by arith
  show "watch_inv 0 v" using with_block_chain(1) [OF assms(1-3)] by (simp add: v_def)
  show "latestFinalizedHeight v + 1 = Height ?f" using hf by (simp add: same followsD(2) [OF assms(2)] n9)
  show "block_ok ?f" by (rule chain_block_ok [OF assms(1)]) (use assms(3,4) in auto)
  show "heightToFinalizedBlock v (Height ?f) = None"
  proof (rule ccontr)
    assume "heightToFinalizedBlock v (Height ?f) \<noteq> None"
    then obtain c where "heightToFinalizedBlock w (of_nat (n - 9)) = Some c" by (auto simp: hf same)
    from followsD(5) [OF assms(2) this] obtain i where "i \<le> n - 10" "(of_nat (n - 9) :: int64) = of_nat i" by auto
    moreover have "n - 9 < 100000" "i < 100000" using N assms(3) \<open>i \<le> n - 10\<close> by linarith+
    ultimately show False using height_inj [of "n - 9" i] assms(4) by linarith
  qed
  have "sint (Height ?f) = int (n - 9)" using hf N assms(3) sint_height [of "n - 9"] by simp
  moreover have "sint (lastEpochEndHeight v) = 2016 * int ((n - 10) div 2016)"
    using follows_sent(2) [OF assms(1,2)] assms(3) by (simp add: same)
  moreover have "int (n - 9) = 2016 * int ((n - 10) div 2016) + 2016 \<longleftrightarrow> (n - 9) mod 2016 = 0"
    unfolding n9 by (rule next_multiple)
  ultimately show "sint (Height ?f) = sint (lastEpochEndHeight v) + 2016 \<longleftrightarrow> due (Suc n)"
    using assms(4) n9 by (simp only: due_def Suc_diff_le) auto
qed

lemma finalize_chain:
  assumes "chain N ch" and "follows N ch n w" and "n < N" and "10 \<le> n" and "due (Suc n) \<Longrightarrow> pending w = []"
  shows "\<exists>w'. finalize (with_block w (ch (Suc n))) (ch (n - 9)) = Inr w' \<and> follows N ch (Suc n) w' \<and>
    EpochsReceived w' = EpochsReceived w"
proof -
  let ?w = "with_block w (ch (Suc n))" and ?f = "ch (n - 9)"
  note wb = with_block_chain [OF assms(1-3)]
  let ?fin = "(heightToFinalizedBlock w)(Height ?f \<mapsto> ?f)"
  have same: "heightToFinalizedBlock ?w = heightToFinalizedBlock w" "latestFinalizedHeight ?w = latestFinalizedHeight w"
    by (simp_all add: with_block_def)
  note fb = finalized_block [OF assms(1-4)]
  have hf: "Height ?f = of_nat (n - 9)" using chainD(1) [OF assms(1), of "n - 9"] assms(3,4) by simp
  have n9: "n - 9 = Suc (n - 10)" using assms(4) by arith
  have pend: "pending ?w = []" if "sint (Height ?f) = sint (lastEpochEndHeight ?w) + 2016"
    using that fb(5) assms(5) by (simp add: with_block_def)
  have fin: "\<exists>i \<in> {1..Suc n - 10}. h = of_nat i \<and> c = ch i" if "?fin h = Some c" for h c
  proof (cases "h = Height ?f")
    case True
    with that hf assms(4) show ?thesis by (intro bexI [of _ "n - 9"]) auto
  next
    case False
    with that have "heightToFinalizedBlock w h = Some c" by simp
    from followsD(5) [OF assms(2) this] obtain i where "i \<in> {1..n - 10}" "h = of_nat i" "c = ch i" by blast
    then show ?thesis by (intro bexI [of _ i]) auto
  qed
  from finalize_next [OF fb(1-4) pend, unfolded same] obtain w' where w': "finalize ?w ?f = Inr w'" "watch_inv 0 w'"
    "latestFinalizedHeight w' = latestFinalizedHeight w + 1" "heightToFinalizedBlock w' \<subseteq>\<^sub>m ?fin"
    "hashToBlock w' \<subseteq>\<^sub>m hashToBlock ?w" "EpochsReceived w' = EpochsReceived ?w"
    and kept: "\<And>x. (\<And>h c. ?fin h = Some c \<Longrightarrow> HashId c \<noteq> x) \<Longrightarrow> hashToBlock w' x = hashToBlock ?w x" by blast
  have "hashToBlock w' (HashId (ch i)) = Some (ch i)" if "1 \<le> i" "i \<le> Suc n" "Suc n < i + 10" for i
  proof -
    have "HashId c \<noteq> HashId (ch i)" if c: "?fin h = Some c" for h c
      using fin [OF c] chainD(4) [OF assms(1) \<open>1 \<le> i\<close>] \<open>i \<le> Suc n\<close> \<open>Suc n < i + 10\<close> assms(3) by force
    from kept [OF this] wb(4) [of i] that show ?thesis by simp
  qed
  moreover have "\<exists>i \<in> {1..Suc n}. k = HashId (ch i)" if "hashToBlock w' k = Some b" for k b
    using wb(3) [OF map_leD [OF w'(5) that]] .
  moreover have "\<exists>i \<in> {1..Suc n - 10}. h = of_nat i \<and> b = ch i" if "heightToFinalizedBlock w' h = Some b" for h b
    using fin [OF map_leD [OF w'(4) that]] .
  moreover have "latestFinalizedHeight w' = of_nat (Suc n - 10)"
    using w'(3) fb(3) hf n9 by (simp add: same)
  moreover have "EpochsReceived w' = EpochsReceived w" using w'(6) by (simp add: with_block_def)
  ultimately show ?thesis using w'(1,2) unfolding follows_def by (intro exI [of _ w']) simp
qed

lemma addBlock_late:
  assumes "chain N ch" and "follows N ch n w" and "n < N" and "10 \<le> n"
  shows "addBlock w (Some (ch (Suc n))) = bindG (finalize (with_block w (ch (Suc n))) (ch (n - 9))) (\<lambda>w. Inr (w, None))"
proof -
  let ?w = "with_block w (ch (Suc n))"
  note wb = with_block_chain [OF assms(1-3)]
  have "hashToBlock ?w (ParentBlk (ch (Suc n))) = Some (ch n)"
    using wb(4) [of n] chainD(3) [OF assms(1), of n] assms(3,4) by simp
  moreover have "confirm (hashToBlock ?w) 9 (ch n) = Inr (ch (n - 9))"
    using confirm_chain [OF assms(1), of "hashToBlock ?w" n 9] wb(2) wb(4) assms(3,4) by simp
  ultimately show ?thesis by (simp add: addBlock_def with_block_def)
qed

lemma addBlock_chain:
  assumes "chain N ch" and "follows N ch n w" and "n < N"
  shows "due (Suc n) \<Longrightarrow> pending w \<noteq> [] \<Longrightarrow> addBlock w (Some (ch (Suc n))) = Inl Blocked"
    and "(due (Suc n) \<Longrightarrow> pending w = []) \<Longrightarrow>
      \<exists>w'. addBlock w (Some (ch (Suc n))) = Inr (w', None) \<and> follows N ch (Suc n) w' \<and> EpochsReceived w' = EpochsReceived w"
proof -
  show "addBlock w (Some (ch (Suc n))) = Inl Blocked" if "due (Suc n)" "pending w \<noteq> []"
  proof -
    have n: "10 \<le> n" using that(1) by (simp add: due_def)
    note fb = finalized_block [OF assms n]
    have "pending (with_block w (ch (Suc n))) \<noteq> []" using that(2) by (simp add: with_block_def)
    from finalize_blocked [OF fb(1-4) _ this] fb(5) that(1) show ?thesis by (simp add: addBlock_late [OF assms n])
  qed
  show "\<exists>w'. addBlock w (Some (ch (Suc n))) = Inr (w', None) \<and> follows N ch (Suc n) w' \<and> EpochsReceived w' = EpochsReceived w"
    if "due (Suc n) \<Longrightarrow> pending w = []"
  proof (cases "n < 10")
    case True
    from addBlock_early [OF assms this] show ?thesis by (simp add: with_block_def)
  next
    case False
    then have n: "10 \<le> n" by simp
    from finalize_chain [OF assms n that] addBlock_late [OF assms n] show ?thesis by fastforce
  qed
qed

lemma run_step_chain:
  assumes "chain N ch" and "serves N ch cl" and "follows N ch n w" and "n < N"
  shows "due (Suc n) \<Longrightarrow> drop (EpochsTaken cl) (pending w) \<noteq> [] \<Longrightarrow> run_step (w, of_nat n) cl = Inl Blocked"
    and "(due (Suc n) \<Longrightarrow> drop (EpochsTaken cl) (pending w) = []) \<Longrightarrow>
      \<exists>w'. run_step (w, of_nat n) cl = Inr (w', of_nat (Suc n)) \<and> follows N ch (Suc n) w' \<and>
        EpochsReceived w' = EpochsReceived (receive_epochs (EpochsTaken cl) w)"
proof -
  note add = addBlock_chain [OF assms(1) follows_receive [OF assms(3), of "EpochsTaken cl"] assms(4)]
  have blk: "GetBlockByHeight cl (of_nat (Suc n)) = Some (ch (Suc n))"
    using assms(2,4) unfolding serves_def by (metis Suc_le_eq atLeastAtMost_iff le_add1 plus_1_eq_Suc)
  have mem: "sint (of_nat (Suc n) :: int64) mod sint NumBlocksToClearMemory \<noteq> 0"
    using chainD(5) [OF assms(1), of 1] assms(1,4) sint_height [of "Suc n"]
    by (simp add: NumBlocksToClearMemory_def chain_def)
  show "run_step (w, of_nat n) cl = Inl Blocked" if "due (Suc n)" "drop (EpochsTaken cl) (pending w) \<noteq> []"
    using add(1) that blk by (simp add: run_step_def Let_def add.commute)
  show "\<exists>w'. run_step (w, of_nat n) cl = Inr (w', of_nat (Suc n)) \<and> follows N ch (Suc n) w' \<and>
      EpochsReceived w' = EpochsReceived (receive_epochs (EpochsTaken cl) w)"
    if d: "due (Suc n) \<Longrightarrow> drop (EpochsTaken cl) (pending w) = []"
  proof -
    from add(2) d obtain w' where "addBlock (receive_epochs (EpochsTaken cl) w) (Some (ch (Suc n))) = Inr (w', None)"
      "follows N ch (Suc n) w'" "EpochsReceived w' = EpochsReceived (receive_epochs (EpochsTaken cl) w)" by auto
    with blk mem show ?thesis by (simp add: run_step_def Let_def trace_back_None add.commute)
  qed
qed

section \<open>The receiver\<close>

text \<open>
  The epoch of number \<open>k\<close> is sent in the iteration of number \<open>2016 * k + 10\<close>. The application keeps
  up if it receives an epoch between any two of them, and the last epoch has been received if it
  has received one since then. Iterations are counted from one, positions in the list from zero.
\<close>

definition keeps_up :: "client list \<Rightarrow> bool" where
  "keeps_up cls \<longleftrightarrow> (\<forall>k \<ge> 2. 2016 * k + 10 \<le> length cls \<longrightarrow>
     (\<exists>i \<in> {2016 * (k - 1) + 10..<2016 * k + 10}. 0 < EpochsTaken (cls ! i)))"

definition received_last :: "client list \<Rightarrow> bool" where
  "received_last cls \<longleftrightarrow> (let k = (length cls - 10) div 2016 in
     k = 0 \<or> (\<exists>i \<in> {2016 * k + 10..<length cls}. 0 < EpochsTaken (cls ! i)))"

lemma due_iff: "due n \<longleftrightarrow> (\<exists>k \<ge> 1. n = 2016 * k + 10)"
proof
  assume n: "due n"
  then have "n - 10 = 2016 * ((n - 10) div 2016)" using div_mult_mod_eq [of "n - 10" 2016] by (simp add: due_def)
  with n show "\<exists>k \<ge> 1. n = 2016 * k + 10"
    by (intro exI [of _ "(n - 10) div 2016"]) (simp only: due_def, linarith)
qed (auto simp: due_def)

lemma dueD:
  assumes "due (Suc n)"
  obtains k where "1 \<le> k" and "Suc n = 2016 * k + 10" and "(n - 10) div 2016 = k - 1" and "(Suc n - 10) div 2016 = k"
proof -
  from assms obtain j where n: "Suc n = 2016 * Suc j + 10" unfolding due_iff by (metis Suc_le_D One_nat_def)
  then have "n - 10 = 2015 + j * 2016" "Suc n - 10 = Suc j * 2016" by simp_all
  moreover have "(2015 + j * 2016) div 2016 = j" "Suc j * 2016 div 2016 = Suc j" by simp_all
  ultimately show thesis using that [of "Suc j"] n by simp
qed

lemma not_due_div: "\<not> due (Suc n) \<Longrightarrow> (Suc n - 10) div 2016 = (n - 10) div 2016"
proof (cases "10 \<le> n")
  case True
  assume "\<not> due (Suc n)"
  moreover have "Suc n - 10 = Suc (n - 10)" using True by simp
  ultimately have "Suc (n - 10) mod 2016 \<noteq> 0" using True unfolding due_def by auto
  with \<open>Suc n - 10 = _\<close> show ?thesis by (simp only: div_Suc) simp
qed simp

lemma keeps_up_snoc:
  "keeps_up (cls @ [cl]) \<longleftrightarrow> keeps_up cls \<and> (due (Suc (length cls)) \<longrightarrow> received_last cls \<or> 0 < EpochsTaken cl)"
proof -
  let ?n = "length cls" and ?took = "\<lambda>l k. \<exists>i \<in> {2016 * (k - 1) + 10..<2016 * k + 10}. 0 < EpochsTaken (l ! i)"
  have same: "?took (cls @ [cl]) k \<longleftrightarrow> ?took cls k" if "2016 * k + 10 \<le> ?n" for k
    using that by (auto simp: nth_append)
  show ?thesis
  proof (cases "due (Suc ?n)")
    case False
    have "2016 * k + 10 \<le> Suc ?n \<longleftrightarrow> 2016 * k + 10 \<le> ?n" if "2 \<le> k" for k
    proof -
      have "2016 * k + 10 \<noteq> Suc ?n" using False that unfolding due_iff by (metis One_nat_def Suc_1 Suc_leD)
      then show ?thesis by linarith
    qed
    with False same show ?thesis by (auto simp: keeps_up_def)
  next
    case True
    then obtain k where k: "1 \<le> k" "Suc ?n = 2016 * k + 10" "(?n - 10) div 2016 = k - 1" by (rule dueD)
    have le: "2016 * j + 10 \<le> Suc ?n \<longleftrightarrow> j = k \<or> 2016 * j + 10 \<le> ?n" for j using k(2) by linarith
    have "keeps_up (cls @ [cl]) \<longleftrightarrow> keeps_up cls \<and> (2 \<le> k \<longrightarrow> ?took (cls @ [cl]) k)"
      unfolding keeps_up_def length_append_singleton le using same by blast
    moreover have "?took (cls @ [cl]) k \<longleftrightarrow> (\<exists>i \<in> {2016 * (k - 1) + 10..<?n}. 0 < EpochsTaken (cls ! i)) \<or> 0 < EpochsTaken cl"
    proof -
      have "{2016 * (k - 1) + 10..<2016 * k + 10} = insert ?n {2016 * (k - 1) + 10..<?n}" using k(1,2) by auto
      then show ?thesis by (auto simp: nth_append)
    qed
    moreover have "2 \<le> k \<longleftrightarrow> k - 1 \<noteq> 0" using k(1) by auto
    ultimately have "keeps_up (cls @ [cl]) \<longleftrightarrow> keeps_up cls \<and>
        (k - 1 \<noteq> 0 \<longrightarrow> (\<exists>i \<in> {2016 * (k - 1) + 10..<?n}. 0 < EpochsTaken (cls ! i)) \<or> 0 < EpochsTaken cl)" by (simp only:)
    with True show ?thesis unfolding received_last_def k(3) Let_def by (simp only: simp_thms imp_conv_disj not_not disj_assoc)
  qed
qed

lemma received_last_snoc:
  "received_last (cls @ [cl]) \<longleftrightarrow> \<not> due (Suc (length cls)) \<and> (received_last cls \<or> 0 < EpochsTaken cl)"
proof (cases "due (Suc (length cls))")
  case True
  then obtain k where "1 \<le> k" "Suc (length cls) = 2016 * k + 10" "(Suc (length cls) - 10) div 2016 = k" by (rule dueD)
  then show ?thesis using True unfolding received_last_def by simp
next
  case False
  let ?n = "length cls" and ?k = "(length cls - 10) div 2016"
  have "2016 * ?k \<le> ?n - 10" by simp
  then have "2016 * ?k + 10 \<le> ?n" if "?k \<noteq> 0" using that by (cases "10 \<le> ?n") auto
  then have "{2016 * ?k + 10..<Suc ?n} = insert ?n {2016 * ?k + 10..<?n}" if "?k \<noteq> 0" using that by auto
  then have "?k = 0 \<or> (\<exists>i \<in> {2016 * ?k + 10..<Suc ?n}. 0 < EpochsTaken ((cls @ [cl]) ! i)) \<longleftrightarrow>
      ?k = 0 \<or> (\<exists>i \<in> {2016 * ?k + 10..<?n}. 0 < EpochsTaken (cls ! i)) \<or> 0 < EpochsTaken cl"
    by (cases "?k = 0") (auto simp: nth_append)
  with False show ?thesis unfolding received_last_def Let_def length_append_singleton not_due_div [OF False]
    by (simp only: simp_thms disj_assoc)
qed

lemma bindG_return: "bindG m Inr = m"
  by (cases m) simp_all

lemma foldG_snoc: "foldG f s (xs @ [x]) = bindG (foldG f s xs) (\<lambda>s. f s x)"
  by (simp add: foldG_append bindG_return)

lemma watch_snoc:
  assumes "chain N ch" and "serves N ch cl" and "length cls < N"
    and w: "watch 0 cls = Inr (w, of_nat (length cls))" "follows N ch (length cls) w" "pending w = [] \<longleftrightarrow> received_last cls"
  shows "\<not> (due (Suc (length cls)) \<longrightarrow> received_last cls \<or> 0 < EpochsTaken cl) \<Longrightarrow> watch 0 (cls @ [cl]) = Inl Blocked"
    and "(due (Suc (length cls)) \<longrightarrow> received_last cls \<or> 0 < EpochsTaken cl) \<Longrightarrow>
      \<exists>w'. watch 0 (cls @ [cl]) = Inr (w', of_nat (Suc (length cls))) \<and> follows N ch (Suc (length cls)) w' \<and>
        (pending w' = [] \<longleftrightarrow> received_last (cls @ [cl]))"
proof -
  let ?n = "length cls"
  have run: "watch 0 (cls @ [cl]) = run_step (w, of_nat ?n) cl" using w(1) by (simp add: watch_def foldG_snoc)
  note step = run_step_chain [OF assms(1,2) w(2) assms(3)]
  have c: "EpochsReceived w \<le> length (EpochChan w)" "length (EpochChan w) \<le> EpochsReceived w + 1"
    using followsD(1) [OF w(2)] by (simp_all add: watch_inv_def chan_ok_def EpochChanCap_def)
  then have taken: "drop (EpochsTaken cl) (pending w) = [] \<longleftrightarrow> received_last cls \<or> 0 < EpochsTaken cl"
    unfolding w(3) [symmetric] by (auto simp: pending_def)
  show "watch 0 (cls @ [cl]) = Inl Blocked" if "\<not> (due (Suc ?n) \<longrightarrow> received_last cls \<or> 0 < EpochsTaken cl)"
    using step(1) that taken run by metis
  show "\<exists>w'. watch 0 (cls @ [cl]) = Inr (w', of_nat (Suc ?n)) \<and> follows N ch (Suc ?n) w' \<and>
      (pending w' = [] \<longleftrightarrow> received_last (cls @ [cl]))"
    if ok: "due (Suc ?n) \<longrightarrow> received_last cls \<or> 0 < EpochsTaken cl"
  proof -
    from step(2) ok taken obtain w' where w': "run_step (w, of_nat ?n) cl = Inr (w', of_nat (Suc ?n))"
      "follows N ch (Suc ?n) w'" "EpochsReceived w' = EpochsReceived (receive_epochs (EpochsTaken cl) w)" by blast
    have rcv: "EpochsReceived w' = EpochsReceived w + min (EpochsTaken cl) (length (pending w))"
      using w'(3) by (simp add: receive_epochs_def)
    have len: "length (EpochChan w') = (Suc ?n - 10) div 2016" "length (EpochChan w) = (?n - 10) div 2016"
      using follows_sent(1) [OF assms(1) w'(2)] follows_sent(1) [OF assms(1) w(2)] assms(3) by simp_all
    have "pending w' = [] \<longleftrightarrow> received_last (cls @ [cl])"
    proof (cases "due (Suc ?n)")
      case True
      then obtain k where "1 \<le> k" "(?n - 10) div 2016 = k - 1" "(Suc ?n - 10) div 2016 = k" by (rule dueD)
      with True rcv len c show ?thesis by (auto simp: received_last_snoc pending_def)
    next
      case False
      then have "length (EpochChan w') = length (EpochChan w)" using len not_due_div by simp
      then have "pending w' = [] \<longleftrightarrow> drop (EpochsTaken cl) (pending w) = []"
        using rcv c by (auto simp: pending_def)
      with False taken show ?thesis by (simp add: received_last_snoc)
    qed
    with run w'(1,2) show ?thesis by auto
  qed
qed

lemma watch_chain:
  assumes "chain N ch" and "list_all (serves N ch) cls" and "length cls \<le> N"
  shows "if keeps_up cls
    then \<exists>w. watch 0 cls = Inr (w, of_nat (length cls)) \<and> follows N ch (length cls) w \<and> (pending w = [] \<longleftrightarrow> received_last cls)
    else watch 0 cls = Inl Blocked"
  using assms(2,3)
proof (induction cls rule: rev_induct)
  case Nil
  have "follows N ch 0 (NewWatcher 0)"
    using new_watcher_inv [of 0] by (simp add: follows_def NewWatcher_def)
  then show ?case by (simp add: watch_def keeps_up_def received_last_def pending_def NewWatcher_def)
next
  case (snoc cl cls)
  have cl: "serves N ch cl" "length cls < N" using snoc.prems by simp_all
  show ?case
  proof (cases "keeps_up cls")
    case False
    with snoc have "watch 0 cls = Inl Blocked" by simp
    with False show ?thesis by (simp add: keeps_up_snoc watch_def foldG_snoc)
  next
    case True
    with snoc obtain w where w: "watch 0 cls = Inr (w, of_nat (length cls))" "follows N ch (length cls) w"
      "pending w = [] \<longleftrightarrow> received_last cls" by auto
    from watch_snoc [OF assms(1) cl w] True show ?thesis by (simp add: keeps_up_snoc)
  qed
qed

section \<open>Properties\<close>

text \<open>
  (C6) The watcher makes progress exactly as long as the application receives its epochs: on a chain
  of fewer than 100000 main chain blocks (the loop first clears its memory at that height) that the
  client serves, if the application receives every epoch before the next one is sent, then every
  iteration returns, and after \<open>n\<close> iterations the watcher is at height \<open>n\<close>, has finalized all but the
  last ten blocks, and has sent one epoch for every 2016 finalized blocks, of which the last may be
  in the channel still. If it does not, the watcher hangs in the send of an epoch, since the
  channel has room for one.
\<close>

theorem watch_makes_progress:
  assumes "chain N ch" and "list_all (serves N ch) cls" and "length cls \<le> N"
  shows "if keeps_up cls
    then \<exists>w. watch 0 cls = Inr (w, of_nat (length cls)) \<and> latestFinalizedHeight w = of_nat (length cls - 10) \<and>
      length (EpochChan w) = (length cls - 10) div 2016 \<and> (pending w = [] \<longleftrightarrow> received_last cls)
    else watch 0 cls = Inl Blocked"
  using watch_chain [OF assms] followsD(2) follows_sent(1) [OF assms(1) _ assms(3)] by (simp split: if_splits) blast

definition witness_chain :: "nat \<Rightarrow> BCHBlock" where
  "witness_chain i = \<lparr>Height = of_nat i, Timestamp = 600 * of_nat i, HashId = of_nat i, ParentBlk = of_nat (i - 1),
     Nominations = []\<rparr>"

definition chain_client :: "nat \<Rightarrow> (nat \<Rightarrow> BCHBlock) \<Rightarrow> client" where
  "chain_client N ch = \<lparr>GetBlockByHeight = (\<lambda>h. if 1 \<le> unat h \<and> unat h \<le> N then Some (ch (unat h)) else None),
     GetBlockByHash = (\<lambda>_. None), EpochsTaken = 0\<rparr>"

lemma witness_chain_ok: "N < 100000 \<Longrightarrow> chain N witness_chain"
proof -
  assume N: "N < 100000"
  have "(of_nat i :: bytes32) = of_nat j \<longleftrightarrow> i = j" if "i < 100000" "j < 100000" for i j
    using that by (simp add: of_nat_inverse word_of_nat_eq_iff take_bit_nat_eq_self)
  from this [of _ 0] this N show ?thesis
    by (auto simp: chain_def witness_chain_def inj_on_def)
qed

lemma chain_client_serves:
  assumes "chain N ch"
  shows "serves N ch (chain_client N ch)"
proof -
  have "unat (of_nat i :: int64) = i" if "i \<le> N" for i
    using that assms by (simp add: chain_def unat_of_nat take_bit_nat_eq_self)
  then show ?thesis
    using chain_block_ok [OF assms] by (auto simp: serves_def client_ok_def chain_client_def split: if_splits)
qed

lemma serves_taken: "serves N ch (cl\<lparr>EpochsTaken := k\<rparr>) \<longleftrightarrow> serves N ch cl"
  by (simp add: serves_def client_ok_def)

text \<open>Two epochs: an application that receives one in every iteration, and one that receives none.\<close>

theorem watch_makes_progress_witness:
  "(\<exists>w. watch 0 (replicate 4042 ((chain_client 4042 witness_chain)\<lparr>EpochsTaken := 1\<rparr>)) = Inr (w, 4042) \<and>
      length (EpochChan w) = 2) \<and>
   watch 0 (replicate 4042 (chain_client 4042 witness_chain)) = Inl Blocked"
proof
  let ?cl = "chain_client 4042 witness_chain"
  have ch: "chain 4042 witness_chain" by (rule witness_chain_ok) simp
  have s: "list_all (serves 4042 witness_chain) (replicate 4042 ?cl)"
    "list_all (serves 4042 witness_chain) (replicate 4042 (?cl\<lparr>EpochsTaken := 1\<rparr>))"
    using chain_client_serves [OF ch] by (simp_all add: list_all_iff serves_taken)
  have "keeps_up (replicate 4042 (?cl\<lparr>EpochsTaken := 1\<rparr>))"
    by (auto simp: keeps_up_def intro!: bexI [of _ "2016 * (k - 1) + 10" for k])
  with watch_makes_progress [OF ch s(2)]
  show "\<exists>w. watch 0 (replicate 4042 (?cl\<lparr>EpochsTaken := 1\<rparr>)) = Inr (w, 4042) \<and> length (EpochChan w) = 2" by auto
  have "\<not> keeps_up (replicate 4042 ?cl)"
    by (auto simp: keeps_up_def chain_client_def intro!: exI [of _ 2])
  with watch_makes_progress [OF ch s(1)] show "watch 0 (replicate 4042 ?cl) = Inl Blocked" by simp
qed

end
