(* ===== verification/Bch_Rpc.thy ===== *)
theory Bch_Rpc
  imports Watcher
begin

text \<open>
  The client of the Bitcoin Cash node (\<^verbatim>\<open>staking/rpcclient.go\<close>): JSON-RPC requests over HTTP, and
  the translation of the node's answers to the blocks and nominations the watcher uses.
  The node, the HTTP transport and the JSON decoder are the fields of the record \<open>node\<close>, the
  argument of the operations: what a request is answered with during one call of the client.
  The text of an error of a library is a string; a \<^verbatim>\<open>float64\<close> the code never computes with is its
  bit pattern, and \<^verbatim>\<open>int\<close> is 64 bits wide. Hexadecimal text and decimal printing are modelled.
\<close>

section \<open>Text\<close>

definition hex_digit :: "nat \<Rightarrow> char" where
  "hex_digit n = char_of (if n < 10 then 48 + n else 87 + n)"

definition fromHexChar :: "char \<Rightarrow> nat option" where
  "fromHexChar c = (let k = of_char c :: nat in
     if 48 \<le> k \<and> k \<le> 57 then Some (k - 48)
     else if 97 \<le> k \<and> k \<le> 102 then Some (k - 87)
     else if 65 \<le> k \<and> k \<le> 70 then Some (k - 55)
     else None)"

datatype go_error = InvalidByteError char | ErrLength | LibError string

definition hex_EncodeToString :: "bytes \<Rightarrow> string" where
  "hex_EncodeToString bs = concat (map (\<lambda>b. [hex_digit (unat b div 16), hex_digit (unat b mod 16)]) bs)"

fun hex_DecodeString :: "string \<Rightarrow> bytes \<times> go_error option" where
  "hex_DecodeString [] = ([], None)"
| "hex_DecodeString [c] = ([], Some (if fromHexChar c = None then InvalidByteError c else ErrLength))"
| "hex_DecodeString (c # d # s) =
     (case fromHexChar c of
        None \<Rightarrow> ([], Some (InvalidByteError c))
      | Some x \<Rightarrow>
          (case fromHexChar d of
             None \<Rightarrow> ([], Some (InvalidByteError d))
           | Some y \<Rightarrow> (case hex_DecodeString s of (bz, err) \<Rightarrow> (of_nat (x * 16 + y) # bz, err))))"

fun show_nat :: "nat \<Rightarrow> string" where
  "show_nat n = (if n < 10 then [char_of (48 + n)] else show_nat (n div 10) @ [char_of (48 + n mod 10)])"

declare show_nat.simps [simp del]

definition show_int64 :: "int64 \<Rightarrow> string" where
  "show_int64 i = (if sint i < 0 then ''-'' @ show_nat (nat (- sint i)) else show_nat (nat (sint i)))"

section \<open>Requests and answers\<close>

definition ReqStrBlockCount :: string where
  \<open>ReqStrBlockCount = ''{"jsonrpc": "1.0", "id":"smartbch", "method": "getblockcount", "params": [] }''\<close>

definition ReqStrBlockHash :: "int64 \<Rightarrow> string" where
  \<open>ReqStrBlockHash height =
     ''{"jsonrpc": "1.0", "id":"smartbch", "method": "getblockhash", "params": ['' @ show_int64 height @ ''] }''\<close>

definition ReqStrBlock :: "string \<Rightarrow> string" where
  \<open>ReqStrBlock hash =
     ''{"jsonrpc": "1.0", "id":"smartbch", "method": "getblock", "params": ["'' @ hash @ ''"] }''\<close>

definition ReqStrTx :: "string \<Rightarrow> string" where
  \<open>ReqStrTx hash =
     ''{"jsonrpc": "1.0", "id":"smartbch", "method": "getrawtransaction", "params": ["'' @ hash @ ''", true] }''\<close>

definition Identifier :: string where "Identifier = ''73424348''"
definition Version :: string where "Version = ''00''"

datatype json =
    JNull
  | JBool bool
  | JNumber uint64
  | JString string
  | JArray "json list"
  | JObject "(string \<times> json) list"

record JsonRpcError =
  Code :: int64
  Message :: int64

record BlockCountResp =
  BCR_Result :: int64
  BCR_Error :: "JsonRpcError option"
  BCR_Id :: string

record BlockHashResp =
  BHR_Result :: string
  BHR_Error :: "JsonRpcError option"
  BHR_Id :: string

record BlockInfo =
  BI_Hash :: string
  BI_Confirmations :: int64
  BI_Size :: int64
  BI_Height :: int64
  BI_Version :: int64
  BI_VersionHex :: string
  BI_Merkleroot :: string
  BI_Tx :: "string list"
  BI_Time :: int64
  BI_MedianTime :: int64
  BI_Nonce :: int64
  BI_Bits :: string
  BI_Difficulty :: uint64
  BI_Chainwork :: string
  BI_NumTx :: int64
  PreviousBlockhash :: string

record BlockInfoResp =
  BIR_Result :: BlockInfo
  BIR_Error :: "JsonRpcError option"
  BIR_Id :: string

record Vout =
  Vout_Value :: uint64
  Vout_N :: int64
  ScriptPubKey :: "string \<rightharpoonup> json"

record TxInfo =
  TxID :: string
  Tx_Hash :: string
  Tx_Version :: int64
  Tx_Size :: int64
  Locktime :: int64
  VinList :: "(string \<rightharpoonup> json) list"
  VoutList :: "Vout list"
  Tx_Hex :: string
  Blockhash :: string
  Tx_Confirmations :: int64
  Tx_Time :: int64
  BlockTime :: int64

record TxInfoResp =
  TIR_Result :: TxInfo
  TIR_Error :: "JsonRpcError option"
  TIR_Id :: string

record Request =
  req_Method :: string
  req_URL :: string
  req_Body :: string
  req_BasicAuth :: "(string \<times> string) option"
  req_Header :: "(string \<times> string) list"

record 'r node =
  Do :: "Request \<Rightarrow> string + 'r"
  ReadAll :: "'r \<Rightarrow> string + bytes"
  Unmarshal_BlockCountResp :: "bytes \<Rightarrow> string + BlockCountResp"
  Unmarshal_BlockHashResp :: "bytes \<Rightarrow> string + BlockHashResp"
  Unmarshal_BlockInfoResp :: "bytes \<Rightarrow> string + BlockInfoResp"
  Unmarshal_TxInfoResp :: "bytes \<Rightarrow> string + TxInfoResp"

section \<open>The nomination of a coinbase transaction\<close>

definition nomination_prefix :: string where
  "nomination_prefix = ''OP_RETURN '' @ Identifier @ Version"

text \<open>The bytes an output's script nominates, if it nominates any.\<close>

definition vout_nomination :: "Vout \<Rightarrow> bytes option" where
  "vout_nomination vout =
     (case ScriptPubKey vout ''asm'' of
        Some (JString script) \<Rightarrow>
          if take (length nomination_prefix) script \<noteq> nomination_prefix then None
          else
            let script = drop (length nomination_prefix) script in
            if length script \<noteq> 64 then None
            else (case hex_DecodeString script of
                    (bz, None) \<Rightarrow> Some bz
                  | (bz, Some err) \<Rightarrow> None)
      | _ \<Rightarrow> None)"

fun scan_vouts :: "Vout list \<Rightarrow> bytes32 \<Rightarrow> bytes32" where
  "scan_vouts [] pubKey = pubKey"
| "scan_vouts (vout # vouts) pubKey =
     (case vout_nomination vout of
        None \<Rightarrow> scan_vouts vouts pubKey
      | Some bz \<Rightarrow> copy_array 32 pubKey bz)"

text \<open>
  Inside the loop \<^verbatim>\<open>asm, ok := ...\<close> declares a new variable \<^verbatim>\<open>ok\<close>: the result \<^verbatim>\<open>ok\<close> keeps the value
  it was created with.
\<close>

definition GetValidatorPubKey :: "TxInfo \<Rightarrow> bytes32 \<times> bool" where
  "GetValidatorPubKey ti = (let ok = False in (scan_vouts (VoutList ti) 0, ok))"

section \<open>The client\<close>

record RpcClient =
  url :: string
  user :: string
  password :: string
  err :: "go_error option"

definition NewRpcClient :: "string \<Rightarrow> string \<Rightarrow> string \<Rightarrow> RpcClient" where
  "NewRpcClient u us pw = \<lparr>url = u, user = us, password = pw, err = None\<rparr>"

text \<open>With the constant method and URL of \<^verbatim>\<open>sendRequest\<close>, \<^verbatim>\<open>http.NewRequest\<close> returns no error.\<close>

definition http_NewRequest :: "string \<Rightarrow> string \<Rightarrow> string \<Rightarrow> Request" where
  "http_NewRequest method u body =
     \<lparr>req_Method = method, req_URL = u, req_Body = body, req_BasicAuth = None, req_Header = []\<rparr>"

definition sendRequest :: "'r node \<Rightarrow> RpcClient \<Rightarrow> string \<Rightarrow> string + bytes" where
  "sendRequest N client reqStr =
     (let req = http_NewRequest ''POST'' ''http://127.0.0.1:8332/'' reqStr;
          req = req\<lparr>req_BasicAuth := Some (user client, password client)\<rparr>;
          req = req\<lparr>req_Header := [(''Content-Type'', ''text/plain;'')]\<rparr>
      in bindG (Do N req) (\<lambda>resp. bindG (ReadAll N resp) (\<lambda>respData. Inr respData)))"

definition getCurrHeight :: "'r node \<Rightarrow> RpcClient \<Rightarrow> int64 \<times> string option" where
  "getCurrHeight N client =
     (case sendRequest N client ReqStrBlockCount of
        Inl e \<Rightarrow> (- 1, Some e)
      | Inr respData \<Rightarrow>
          (case Unmarshal_BlockCountResp N respData of
             Inl e \<Rightarrow> (- 1, Some e)
           | Inr blockCountResp \<Rightarrow> (BCR_Result blockCountResp, None)))"

definition getBlockHashOfHeight :: "'r node \<Rightarrow> RpcClient \<Rightarrow> int64 \<Rightarrow> string + string" where
  "getBlockHashOfHeight N client height =
     bindG (sendRequest N client (ReqStrBlockHash height)) (\<lambda>respData.
     bindG (Unmarshal_BlockHashResp N respData) (\<lambda>blockHashResp. Inr (BHR_Result blockHashResp)))"

definition getBlock :: "'r node \<Rightarrow> RpcClient \<Rightarrow> string \<Rightarrow> string + BlockInfo" where
  "getBlock N client hash =
     bindG (sendRequest N client (ReqStrBlock hash)) (\<lambda>respData.
     bindG (Unmarshal_BlockInfoResp N respData) (\<lambda>blockInfoResp. Inr (BIR_Result blockInfoResp)))"

definition getTx :: "'r node \<Rightarrow> RpcClient \<Rightarrow> string \<Rightarrow> string + TxInfo" where
  "getTx N client hash =
     bindG (sendRequest N client (ReqStrTx hash)) (\<lambda>respData.
     bindG (Unmarshal_TxInfoResp N respData) (\<lambda>txInfoResp. Inr (TIR_Result txInfoResp)))"

definition getBCHBlock :: "'r node \<Rightarrow> RpcClient \<Rightarrow> string \<Rightarrow> (BCHBlock option \<times> RpcClient) go" where
  "getBCHBlock N client hash =
     (case getBlock N client hash of
        Inl e \<Rightarrow> Inr (None, client\<lparr>err := Some (LibError e)\<rparr>)
      | Inr bi \<Rightarrow>
          let bchBlock = \<lparr>Height = BI_Height bi, Timestamp = BI_Time bi, HashId = 0, ParentBlk = 0,
                          Nominations = []\<rparr>;
              (bz, e) = hex_DecodeString (BI_Hash bi);
              client = client\<lparr>err := e\<rparr>;
              bchBlock = bchBlock\<lparr>HashId := copy_array 32 (HashId bchBlock) bz\<rparr>
          in
          if e \<noteq> None then Inr (None, client)
          else
            let (bz, e) = hex_DecodeString (PreviousBlockhash bi);
                client = client\<lparr>err := e\<rparr>;
                bchBlock = bchBlock\<lparr>ParentBlk := copy_array 32 (ParentBlk bchBlock) bz\<rparr>
            in
            if e \<noteq> None then Inr (None, client)
            else
              (case BI_Tx bi of
                 [] \<Rightarrow> Inl OutOfBounds
               | tx0 # _ \<Rightarrow>
                   (case getTx N client tx0 of
                      Inl e \<Rightarrow> Inr (None, client\<lparr>err := Some (LibError e)\<rparr>)
                    | Inr coinbase \<Rightarrow>
                        let client = client\<lparr>err := None\<rparr>;
                            (pubKey, ok) = GetValidatorPubKey coinbase;
                            bchBlock =
                              (if ok then bchBlock\<lparr>Nominations := Nominations bchBlock @
                                 [\<lparr>Nom_Pubkey = pubKey, NominatedCount = 1\<rparr>]\<rparr>
                               else bchBlock)
                        in Inr (Some bchBlock, client))))"

definition GetLatestHeight :: "'r node \<Rightarrow> RpcClient \<Rightarrow> int64 \<times> RpcClient" where
  "GetLatestHeight N client =
     (case getCurrHeight N client of (height, e) \<Rightarrow> (height, client\<lparr>err := map_option LibError e\<rparr>))"

definition RpcClient_GetBlockByHeight ::
  "'r node \<Rightarrow> RpcClient \<Rightarrow> int64 \<Rightarrow> (BCHBlock option \<times> RpcClient) go" where
  "RpcClient_GetBlockByHeight N client height =
     (case getBlockHashOfHeight N client height of
        Inl e \<Rightarrow> Inr (None, client\<lparr>err := Some (LibError e)\<rparr>)
      | Inr hash \<Rightarrow> getBCHBlock N (client\<lparr>err := None\<rparr>) hash)"

definition RpcClient_GetBlockByHash ::
  "'r node \<Rightarrow> RpcClient \<Rightarrow> bytes32 \<Rightarrow> (BCHBlock option \<times> RpcClient) go" where
  "RpcClient_GetBlockByHash N client hash = getBCHBlock N client (hex_EncodeToString (be_bytes 32 hash))"

text \<open>What \<^verbatim>\<open>PrintAllOpReturn\<close> prints, line by line.\<close>

definition op_return_line :: "Vout \<Rightarrow> string list" where
  "op_return_line vout =
     (case ScriptPubKey vout ''asm'' of
        Some (JString script) \<Rightarrow> if take 9 script = ''OP_RETURN'' then [script] else []
      | _ \<Rightarrow> [])"

definition print_height :: "'r node \<Rightarrow> RpcClient \<Rightarrow> int64 \<Rightarrow> string list" where
  "print_height N client h =
     (''Height: '' @ show_int64 h) #
     (case getBlockHashOfHeight N client h of
        Inl e \<Rightarrow> [''Error when getBlockHashOfHeight '' @ show_int64 h @ '' '' @ e]
      | Inr hash \<Rightarrow>
          (case getBlock N client hash of
             Inl e \<Rightarrow> [''Error when getBlock '' @ show_int64 h @ '' '' @ e]
           | Inr bi \<Rightarrow>
               concat (map (\<lambda>txid.
                 case getTx N client txid of
                   Inl e \<Rightarrow> [''Error when getTx '' @ txid @ '' '' @ e]
                 | Inr tx \<Rightarrow> concat (map op_return_line (VoutList tx))) (BI_Tx bi))))"

function PrintAllOpReturn :: "'r node \<Rightarrow> RpcClient \<Rightarrow> int64 \<Rightarrow> int64 \<Rightarrow> string list" where
  "PrintAllOpReturn N client h endHeight =
     (if h <s endHeight then print_height N client h @ PrintAllOpReturn N client (h + 1) endHeight else [])"
  by pat_completeness auto
termination
proof (relation "measure (\<lambda>(N, client, h, endHeight). nat (sint endHeight - sint h))")
  fix N :: "'r node" and client and h endHeight :: int64
  assume "h <s endHeight"
  then have lt: "sint h < sint endHeight" by (simp add: word_sless_alt)
  with sint_add_one [OF lt]
  show "((N, client, h + 1, endHeight), (N, client, h, endHeight)) \<in>
      measure (\<lambda>(N, client, h, endHeight). nat (sint endHeight - sint h))" by simp
qed simp

declare PrintAllOpReturn.simps [simp del]

section \<open>Hexadecimal text\<close>

lemma of_char_hex_digit:
  assumes "n < 16"
  shows "(of_char (hex_digit n) :: nat) = (if n < 10 then 48 + n else 87 + n)"
  using assms by (simp add: hex_digit_def)

lemma fromHexChar_hex_digit: "n < 16 \<Longrightarrow> fromHexChar (hex_digit n) = Some n"
  by (simp add: fromHexChar_def of_char_hex_digit Let_def)

lemma byte_halves: "of_nat (unat b div 16 * 16 + unat b mod 16) = (b :: byte)"
  by simp

lemma unat_byte: "unat (b :: byte) < 256"
  using unsigned_less [of b] by simp

lemma hex_decode_encode: "hex_DecodeString (hex_EncodeToString bs) = (bs, None)"
proof (induction bs)
  case Nil
  then show ?case by (simp add: hex_EncodeToString_def)
next
  case (Cons b bs)
  have "unat b div 16 < 16" and "unat b mod 16 < 16" using unat_byte [of b] by simp_all
  with Cons show ?case
    by (simp add: hex_EncodeToString_def fromHexChar_hex_digit byte_halves del: of_nat_add of_nat_mult)
qed

lemma length_hex_encode [simp]: "length (hex_EncodeToString bs) = 2 * length bs"
  by (induction bs) (simp_all add: hex_EncodeToString_def)

section \<open>Lemmas\<close>

lemma request_err [simp]:
  "sendRequest N (c\<lparr>err := e\<rparr>) r = sendRequest N c r"
  "getBlockHashOfHeight N (c\<lparr>err := e\<rparr>) h = getBlockHashOfHeight N c h"
  "getBlock N (c\<lparr>err := e\<rparr>) s = getBlock N c s"
  "getTx N (c\<lparr>err := e\<rparr>) s = getTx N c s"
  by (simp_all add: sendRequest_def getBlockHashOfHeight_def getBlock_def getTx_def)

lemma vout_nomination_encoded:
  assumes "ScriptPubKey v ''asm'' = Some (JString (nomination_prefix @ hex_EncodeToString (be_bytes 32 key)))"
  shows "vout_nomination v = Some (be_bytes 32 (key :: bytes32))"
  using assms by (simp add: vout_nomination_def hex_decode_encode)

lemma scan_vouts_append:
  "\<forall>u \<in> set pre. vout_nomination u = None \<Longrightarrow> scan_vouts (pre @ vouts) k = scan_vouts vouts k"
  by (induction pre) simp_all

lemma getBCHBlock_cases:
  assumes "getBCHBlock N c s = Inr (Some b, c')"
  shows "Nominations b = []"
  using assms
  by (auto simp: getBCHBlock_def GetValidatorPubKey_def Let_def split: sum.splits prod.splits if_splits list.splits)

lemma GetBlock_no_nominations:
  "RpcClient_GetBlockByHeight N c h = Inr (Some b, c') \<Longrightarrow> Nominations b = []"
  "RpcClient_GetBlockByHash N c k = Inr (Some b, c') \<Longrightarrow> Nominations b = []"
  by (auto simp: RpcClient_GetBlockByHeight_def RpcClient_GetBlockByHash_def dest: getBCHBlock_cases
      split: sum.splits)

definition zero_BlockInfo :: BlockInfo where
  "zero_BlockInfo = \<lparr>BI_Hash = [], BI_Confirmations = 0, BI_Size = 0, BI_Height = 0, BI_Version = 0,
     BI_VersionHex = [], BI_Merkleroot = [], BI_Tx = [], BI_Time = 0, BI_MedianTime = 0, BI_Nonce = 0,
     BI_Bits = [], BI_Difficulty = 0, BI_Chainwork = [], BI_NumTx = 0, PreviousBlockhash = []\<rparr>"

section \<open>A node for the witnesses\<close>

definition witness_key :: bytes32 where
  "witness_key = 0xabcd"

definition witness_vout :: Vout where
  "witness_vout = \<lparr>Vout_Value = 0, Vout_N = 1,
     ScriptPubKey = [''asm'' \<mapsto> JString (nomination_prefix @ hex_EncodeToString (be_bytes 32 witness_key))]\<rparr>"

definition witness_coinbase :: TxInfo where
  "witness_coinbase = \<lparr>TxID = ''t'', Tx_Hash = ''t'', Tx_Version = 1, Tx_Size = 1, Locktime = 0, VinList = [],
     VoutList = [\<lparr>Vout_Value = 0, Vout_N = 0, ScriptPubKey = Map.empty\<rparr>, witness_vout],
     Tx_Hex = [], Blockhash = [], Tx_Confirmations = 1, Tx_Time = 600, BlockTime = 600\<rparr>"

definition witness_info :: BlockInfo where
  "witness_info = zero_BlockInfo\<lparr>BI_Hash := hex_EncodeToString (be_bytes 32 (7 :: bytes32)),
     PreviousBlockhash := hex_EncodeToString (be_bytes 32 (6 :: bytes32)), BI_Height := 5, BI_Time := 600,
     BI_Tx := [''t'']\<rparr>"

text \<open>A node that has one block; asked for any other height, it answers with an error.\<close>

definition witness_node :: "string node" where
  "witness_node = \<lparr>Do = (\<lambda>req. Inr (req_Body req)), ReadAll = (\<lambda>s. Inr (str_bytes s)),
     Unmarshal_BlockCountResp = (\<lambda>_. Inr \<lparr>BCR_Result = 5, BCR_Error = None, BCR_Id = ''smartbch''\<rparr>),
     Unmarshal_BlockHashResp = (\<lambda>d.
       if d = str_bytes (ReqStrBlockHash 5)
       then Inr \<lparr>BHR_Result = ''b5'', BHR_Error = None, BHR_Id = ''smartbch''\<rparr>
       else Inr \<lparr>BHR_Result = [], BHR_Error = Some \<lparr>Code = - 8, Message = 0\<rparr>, BHR_Id = ''smartbch''\<rparr>),
     Unmarshal_BlockInfoResp = (\<lambda>d.
       if d = str_bytes (ReqStrBlock ''b5'')
       then Inr \<lparr>BIR_Result = witness_info, BIR_Error = None, BIR_Id = ''smartbch''\<rparr>
       else Inr \<lparr>BIR_Result = zero_BlockInfo, BIR_Error = Some \<lparr>Code = - 8, Message = 0\<rparr>, BIR_Id = ''smartbch''\<rparr>),
     Unmarshal_TxInfoResp = (\<lambda>_. Inr \<lparr>TIR_Result = witness_coinbase, TIR_Error = None, TIR_Id = ''smartbch''\<rparr>)\<rparr>"

definition witness_client :: RpcClient where
  "witness_client = NewRpcClient ''http://node:8332/'' ''user'' ''secret''"

lemma witness_requests:
  "sendRequest witness_node witness_client r = Inr (str_bytes r)"
  by (simp add: sendRequest_def witness_node_def http_NewRequest_def)

section \<open>Properties\<close>

text \<open>
  The first output whose script is the nomination prefix followed by the hexadecimal text of
  a key decides: that key is found, whatever comes before it and after it. But the second
  result, which tells the caller that there is a nomination, is false.
\<close>

lemma GetValidatorPubKey_denies:
  assumes "VoutList ti = pre @ v # post" and "\<forall>u \<in> set pre. vout_nomination u = None"
    and "ScriptPubKey v ''asm'' = Some (JString (nomination_prefix @ hex_EncodeToString (be_bytes 32 key)))"
  shows "GetValidatorPubKey ti = (key, False)"
proof -
  have "copy_array 32 0 (be_bytes 32 key) = key" by (rule copy_array_be_bytes) simp
  with assms show ?thesis
    by (simp add: GetValidatorPubKey_def scan_vouts_append vout_nomination_encoded)
qed

lemma GetValidatorPubKey_denies_witness:
  "GetValidatorPubKey witness_coinbase = (witness_key, False)"
  by (rule GetValidatorPubKey_denies
      [of witness_coinbase "[\<lparr>Vout_Value = 0, Vout_N = 0, ScriptPubKey = Map.empty\<rparr>]" witness_vout "[]" witness_key])
    (simp_all add: witness_coinbase_def witness_vout_def vout_nomination_def)

text \<open>
  A block of the node becomes a block of the watcher: the hash and the parent's hash are
  decoded, height and time are copied, and no error is left in the client. Its nominations are
  empty, whatever the coinbase transaction says.
\<close>

lemma GetBlockByHeight_block:
  assumes "getBlockHashOfHeight N c h = Inr s" and "getBlock N c s = Inr bi"
    and "BI_Hash bi = hex_EncodeToString (be_bytes 32 k)"
    and "PreviousBlockhash bi = hex_EncodeToString (be_bytes 32 p)"
    and "BI_Tx bi = t # ts" and "getTx N c t = Inr coinbase"
  shows "RpcClient_GetBlockByHeight N c h =
    Inr (Some \<lparr>Height = BI_Height bi, Timestamp = BI_Time bi, HashId = k, ParentBlk = p, Nominations = []\<rparr>,
         c\<lparr>err := None\<rparr>)"
proof -
  have copied: "copy_array 32 0 (be_bytes 32 x) = x" for x :: bytes32 by (rule copy_array_be_bytes) simp
  with assms show ?thesis
    by (simp add: RpcClient_GetBlockByHeight_def getBCHBlock_def hex_decode_encode GetValidatorPubKey_def Let_def)
qed

lemma GetBlockByHeight_block_witness:
  "\<exists>b. RpcClient_GetBlockByHeight witness_node witness_client 5 = Inr (Some b, witness_client\<lparr>err := None\<rparr>) \<and>
     HashId b = 7 \<and> ParentBlk b = 6 \<and> Nominations b = [] \<and>
     fst (GetValidatorPubKey witness_coinbase) = witness_key"
proof -
  have "getBlockHashOfHeight witness_node witness_client 5 = Inr ''b5''"
    by (simp add: getBlockHashOfHeight_def witness_requests) (simp add: witness_node_def)
  moreover have "getBlock witness_node witness_client ''b5'' = Inr witness_info"
    by (simp add: getBlock_def witness_requests) (simp add: witness_node_def)
  moreover have "getTx witness_node witness_client ''t'' = Inr witness_coinbase"
    by (simp add: getTx_def witness_requests) (simp add: witness_node_def)
  moreover have "fst (GetValidatorPubKey witness_coinbase) = witness_key"
    by (simp add: GetValidatorPubKey_def witness_coinbase_def witness_vout_def vout_nomination_def
        hex_decode_encode copy_array_be_bytes)
  ultimately show ?thesis
    using GetBlockByHeight_block [of witness_node witness_client 5 "''b5''" witness_info 7 6 "''t''" "[]" witness_coinbase]
    by (simp add: witness_info_def)
qed

text \<open>
  When the node has no block at a height, it answers both requests with a JSON-RPC error and
  no result, which decodes to an empty hash and an empty block. The client looks at neither
  error: instead of returning nil, on which the watcher would wait, it panics on the first
  transaction of the empty block.
\<close>

lemma GetBlockByHeight_panics_past_tip:
  assumes "sendRequest N c (ReqStrBlockHash h) = Inr d" and "Unmarshal_BlockHashResp N d = Inr r"
    and "BHR_Error r = Some e" and "BHR_Result r = []"
    and "sendRequest N c (ReqStrBlock []) = Inr d'" and "Unmarshal_BlockInfoResp N d' = Inr r'"
    and "BIR_Error r' = Some e'" and "BIR_Result r' = zero_BlockInfo"
  shows "RpcClient_GetBlockByHeight N c h = Inl OutOfBounds"
  using assms
  by (simp add: RpcClient_GetBlockByHeight_def getBlockHashOfHeight_def getBlock_def getBCHBlock_def
      zero_BlockInfo_def)

lemma GetBlockByHeight_panics_past_tip_witness:
  "RpcClient_GetBlockByHeight witness_node witness_client 6 = Inl OutOfBounds"
proof -
  have ne: "str_bytes (ReqStrBlockHash 6) \<noteq> str_bytes (ReqStrBlockHash 5)"
    by (simp add: str_bytes_def ReqStrBlockHash_def show_int64_def show_nat.simps char_of_def)
  have ne': "str_bytes (ReqStrBlock []) \<noteq> str_bytes (ReqStrBlock ''b5'')"
    by (simp add: str_bytes_def ReqStrBlock_def)
  let ?e = "\<lparr>Code = - 8, Message = 0\<rparr>"
  show ?thesis
    by (rule GetBlockByHeight_panics_past_tip [of _ _ _ _ "\<lparr>BHR_Result = [], BHR_Error = Some ?e, BHR_Id = ''smartbch''\<rparr>" ?e
          _ "\<lparr>BIR_Result = zero_BlockInfo, BIR_Error = Some ?e, BIR_Id = ''smartbch''\<rparr>" ?e, OF witness_requests _ _ _ witness_requests])
      (use ne ne' in \<open>simp_all add: witness_node_def\<close>)
qed

end
