(* ===== verification/Chain_Types.thy ===== *)
theory Chain_Types
  imports Go_Base
begin

text \<open>
  The data of the chain that the application writes and the RPC services read: blocks, headers
  and transactions of \<^verbatim>\<open>moeingevm/types\<close> and logs of go-ethereum. The libraries are not part of the
  repository; the records have the fields the code reads or sets. The logs inside a stored
  transaction are of a type the code only hands on, a parameter.
\<close>

type_synonym Bloom = "2048 word"

record Log =
  log_Address :: address
  log_Topics :: "bytes32 list"
  log_BlockNumber :: uint64
  log_TxHash :: bytes32

record Header =
  hdr_Number :: uint64
  hdr_BlockHash :: bytes32
  hdr_Bloom :: Bloom

record Block =
  blk_Number :: int64
  blk_Hash :: bytes32
  blk_ParentHash :: bytes32
  blk_LogsBloom :: Bloom
  blk_TransactionsRoot :: bytes32
  blk_StateRoot :: bytes32
  blk_Miner :: address
  blk_Size :: int64
  blk_GasUsed :: uint64
  blk_Timestamp :: int64
  blk_Transactions :: "bytes32 list"

record 'l Transaction =
  tx_Hash :: bytes32
  tx_BlockHash :: bytes32
  tx_BlockNumber :: int64
  tx_TransactionIndex :: int64
  tx_From :: address
  tx_To :: address
  tx_Logs :: "'l list"
  txd_Nonce :: uint64
  txd_Value :: bytes32
  txd_GasPrice :: bytes32
  txd_Gas :: uint64
  txd_Input :: bytes
  txd_CumulativeGasUsed :: uint64
  txd_GasUsed :: uint64
  txd_ContractAddress :: address
  txd_Status :: uint64
  txd_StatusStr :: string
  txd_LogsBloom :: Bloom

end
