(* ===== verification/Log_Filters.thy ===== *)
theory Log_Filters
  imports Chain_Types
begin

text \<open>
  Searching the chain for logs (\<^verbatim>\<open>rpc/api/filters/geth_filter.go\<close>). A filter asks the service behind
  it (\<^verbatim>\<open>FilterService\<close> of \<^verbatim>\<open>api/service.go\<close>) for headers and logs; the service is a record of functions,
  so that every implementation of the interface is an instance. The Bloom filters and the
  matcher of go-ethereum are the fields of \<open>geth\<close>. An error is its text; a slice that may be nil is
  a list, nil being the empty list.
\<close>

section \<open>Data\<close>

record FilterService =
  HeaderByNumber :: "int64 \<Rightarrow> (Header option \<times> string option) go"
  HeaderByHash :: "bytes32 \<Rightarrow> (Header option \<times> string option) go"
  GetReceipts :: "bytes32 \<Rightarrow> string + Log list list"
  GetLogs :: "bytes32 \<Rightarrow> string + Log list list"
  BloomStatus :: "uint64 \<times> uint64"
  ServiceFilter :: "unit go"

text \<open>
  A session of the matcher of go-ethereum: the error of its start, or the numbers it sends on the
  channel until it closes it and the error it has then.
\<close>

record geth =
  BloomLookup :: "Bloom \<Rightarrow> bytes \<Rightarrow> bool"
  Matcher_Start :: "uint64 \<times> bytes list list \<Rightarrow> uint64 \<Rightarrow> uint64 \<Rightarrow> string + (uint64 list \<times> string option)"

record Filter =
  flt_addresses :: "address list"
  flt_topics :: "bytes32 list list"
  flt_block :: bytes32
  flt_begin :: int64
  flt_end :: int64
  flt_matcher :: "(uint64 \<times> bytes list list) option"

definition LatestBlockNumber :: int64 where "LatestBlockNumber = - 1"

text \<open>\<^verbatim>\<open>big.Int.Int64\<close> and \<^verbatim>\<open>big.Int.Uint64\<close>: the low 64 bits, of the number and of its absolute value.\<close>

definition big_Int64 :: "int \<Rightarrow> int64" where "big_Int64 x = word_of_int x"
definition big_Uint64 :: "int \<Rightarrow> uint64" where "big_Uint64 x = word_of_int \<bar>x\<bar>"

section \<open>Constructors\<close>

definition newFilter :: "address list \<Rightarrow> bytes32 list list \<Rightarrow> Filter" where
  "newFilter addresses topics = \<lparr>flt_addresses = addresses, flt_topics = topics, flt_block = 0,
     flt_begin = 0, flt_end = 0, flt_matcher = None\<rparr>"

definition NewRangeFilter :: "FilterService \<Rightarrow> int64 \<Rightarrow> int64 \<Rightarrow> address list \<Rightarrow> bytes32 list list \<Rightarrow> Filter" where
  "NewRangeFilter S from to addresses topics =
     (let filters = (if 0 < length addresses then [map (be_bytes 20) addresses] else []);
          filters = foldl (\<lambda>filters topicList. filters @ [map (be_bytes 32) topicList]) filters topics;
          (sz, _) = BloomStatus S;
          filter = newFilter addresses topics
      in filter\<lparr>flt_matcher := Some (sz, filters), flt_begin := from, flt_end := to\<rparr>)"

definition NewBlockFilter :: "bytes32 \<Rightarrow> address list \<Rightarrow> bytes32 list list \<Rightarrow> Filter" where
  "NewBlockFilter block addresses topics = (newFilter addresses topics)\<lparr>flt_block := block\<rparr>"

section \<open>Matching\<close>

fun includes_addr :: "address list \<Rightarrow> address \<Rightarrow> bool" where
  "includes_addr [] a = False"
| "includes_addr (addr # addresses) a = (if addr = a then True else includes_addr addresses a)"

fun sub_match :: "bytes32 list \<Rightarrow> bytes32 \<Rightarrow> bool" where
  "sub_match [] t = False"
| "sub_match (topic # sub) t = (if t = topic then True else sub_match sub t)"

fun topics_match :: "nat \<Rightarrow> bytes32 list list \<Rightarrow> bytes32 list \<Rightarrow> bool" where
  "topics_match i [] lt = True"
| "topics_match i (sub # topics) lt =
     (if length sub = 0 \<or> sub_match sub (lt ! i) then topics_match (i + 1) topics lt else False)"

definition log_selected ::
  "int option \<Rightarrow> int option \<Rightarrow> address list \<Rightarrow> bytes32 list list \<Rightarrow> Log \<Rightarrow> bool" where
  "log_selected fromBlock toBlock addresses topics log =
     (if (case fromBlock of None \<Rightarrow> False
          | Some f \<Rightarrow> 0 \<le>s big_Int64 f \<and> log_BlockNumber log < big_Uint64 f) then False
      else if (case toBlock of None \<Rightarrow> False
          | Some t \<Rightarrow> 0 \<le>s big_Int64 t \<and> big_Uint64 t < log_BlockNumber log) then False
      else if 0 < length addresses \<and> \<not> includes_addr addresses (log_Address log) then False
      else if length (log_Topics log) < length topics then False
      else topics_match 0 topics (log_Topics log))"

definition filterLogs ::
  "Log list \<Rightarrow> int option \<Rightarrow> int option \<Rightarrow> address list \<Rightarrow> bytes32 list list \<Rightarrow> Log list" where
  "filterLogs logs fromBlock toBlock addresses topics =
     foldl (\<lambda>ret log. if log_selected fromBlock toBlock addresses topics log then ret @ [log] else ret) [] logs"

fun any_lookup :: "('a \<Rightarrow> bool) \<Rightarrow> 'a list \<Rightarrow> bool" where
  "any_lookup P [] = False"
| "any_lookup P (x # xs) = (if P x then True else any_lookup P xs)"

definition bloomFilter :: "geth \<Rightarrow> Bloom \<Rightarrow> address list \<Rightarrow> bytes32 list list \<Rightarrow> bool" where
  "bloomFilter G bloom addresses topics =
     (if 0 < length addresses \<and> \<not> any_lookup (\<lambda>addr. BloomLookup G bloom (be_bytes 20 addr)) addresses then False
      else list_all (\<lambda>sub. length sub = 0 \<or> any_lookup (\<lambda>topic. BloomLookup G bloom (be_bytes 32 topic)) sub) topics)"

section \<open>Searching\<close>

definition checkMatches :: "FilterService \<Rightarrow> Filter \<Rightarrow> Header \<Rightarrow> string + Log list" where
  "checkMatches S f header =
     bindG (GetLogs S (hdr_BlockHash header)) (\<lambda>logsList.
       let unfiltered = concat logsList;
           logs = filterLogs unfiltered None None (flt_addresses f) (flt_topics f)
       in case logs of
            [] \<Rightarrow> Inr []
          | l # _ \<Rightarrow>
              if log_TxHash l = 0 then
                bindG (GetReceipts S (hdr_BlockHash header)) (\<lambda>receipts.
                  Inr (filterLogs (concat receipts) None None (flt_addresses f) (flt_topics f)))
              else Inr logs)"

definition blockLogs :: "geth \<Rightarrow> FilterService \<Rightarrow> Filter \<Rightarrow> Header \<Rightarrow> string + Log list" where
  "blockLogs G S f header =
     (if bloomFilter G (hdr_Bloom header) (flt_addresses f) (flt_topics f) then checkMatches S f header
      else Inr [])"

type_synonym search = "Filter \<times> Log list \<times> string option"

text \<open>The loop ends when a header is missing or past the end; \<open>None\<close> stands for a loop that does not end.\<close>

partial_function (option) unindexed_loop ::
  "geth \<Rightarrow> FilterService \<Rightarrow> int64 \<Rightarrow> Filter \<Rightarrow> Log list \<Rightarrow> search go option" where
  "unindexed_loop G S endN f logs =
     (if flt_begin f \<le>s endN then
        (case HeaderByNumber S (flt_begin f) of
           Inl p \<Rightarrow> Some (Inl p)
         | Inr (header, err) \<Rightarrow>
             if header = None \<or> err \<noteq> None then Some (Inr (f, logs, err))
             else
               (case blockLogs G S f (the header) of
                  Inl e \<Rightarrow> Some (Inr (f, logs, Some e))
                | Inr found \<Rightarrow> unindexed_loop G S endN (f\<lparr>flt_begin := flt_begin f + 1\<rparr>) (logs @ found)))
      else Some (Inr (f, logs, None)))"

definition unindexedLogs :: "geth \<Rightarrow> FilterService \<Rightarrow> Filter \<Rightarrow> uint64 \<Rightarrow> search go option" where
  "unindexedLogs G S f endN = unindexed_loop G S endN f []"

fun indexed_loop ::
  "FilterService \<Rightarrow> uint64 \<Rightarrow> string option \<Rightarrow> Filter \<Rightarrow> Log list \<Rightarrow> uint64 list \<Rightarrow> search go" where
  "indexed_loop S endN serr f logs [] =
     (if serr = None then Inr (f\<lparr>flt_begin := endN + 1\<rparr>, logs, None) else Inr (f, logs, serr))"
| "indexed_loop S endN serr f logs (number # matches) =
     (let f = f\<lparr>flt_begin := number + 1\<rparr> in
      bindG (HeaderByNumber S number) (\<lambda>(header, err).
        if header = None \<or> err \<noteq> None then Inr (f, logs, err)
        else
          (case checkMatches S f (the header) of
             Inl e \<Rightarrow> Inr (f, logs, Some e)
           | Inr found \<Rightarrow> indexed_loop S endN serr f (logs @ found) matches)))"

definition indexedLogs :: "geth \<Rightarrow> FilterService \<Rightarrow> Filter \<Rightarrow> uint64 \<Rightarrow> search go" where
  "indexedLogs G S f endN =
     (case flt_matcher f of
        None \<Rightarrow> Inl NilDeref
      | Some m \<Rightarrow>
          (case Matcher_Start G m (flt_begin f) endN of
             Inl e \<Rightarrow> Inr (f, [], Some e)
           | Inr (matches, serr) \<Rightarrow>
               bindG (ServiceFilter S) (\<lambda>_. indexed_loop S endN serr f [] matches)))"

definition Filter_Logs :: "geth \<Rightarrow> FilterService \<Rightarrow> Filter \<Rightarrow> search go option" where
  "Filter_Logs G S f =
     (if flt_block f \<noteq> 0 then
        Some (bindG (HeaderByHash S (flt_block f)) (\<lambda>(header, err).
          case err of
            Some e \<Rightarrow> Inr (f, [], Some e)
          | None \<Rightarrow>
              (case header of
                 None \<Rightarrow> Inr (f, [], Some ''unknown block'')
               | Some h \<Rightarrow>
                   (case blockLogs G S f h of
                      Inl e \<Rightarrow> Inr (f, [], Some e)
                    | Inr logs \<Rightarrow> Inr (f, logs, None)))))
      else
        (case HeaderByNumber S LatestBlockNumber of
           Inl p \<Rightarrow> Some (Inl p)
         | Inr (None, _) \<Rightarrow> Some (Inr (f, [], None))
         | Inr (Some header, _) \<Rightarrow>
             let head = hdr_Number header;
                 f = (if flt_begin f = - 1 then f\<lparr>flt_begin := head\<rparr> else f);
                 endN = (if flt_end f = - 1 then head else flt_end f);
                 (sz, sections) = BloomStatus S;
                 indexed = sections * sz
             in
             (case (if flt_begin f < indexed
                    then indexedLogs G S f (if endN < indexed then endN else indexed - 1)
                    else Inr (f, [], None)) of
                Inl p \<Rightarrow> Some (Inl p)
              | Inr (f, logs, Some e) \<Rightarrow> Some (Inr (f, logs, Some e))
              | Inr (f, logs, None) \<Rightarrow>
                  (case unindexedLogs G S f endN of
                     None \<Rightarrow> None
                   | Some (Inl p) \<Rightarrow> Some (Inl p)
                   | Some (Inr (f, rest, err)) \<Rightarrow> Some (Inr (f, logs @ rest, err))))))"

section \<open>What is selected\<close>

text \<open>The criteria of a filter, without the order in which the code tests them.\<close>

definition criteria_ok :: "address list \<Rightarrow> bytes32 list list \<Rightarrow> Log \<Rightarrow> bool" where
  "criteria_ok addresses topics l \<longleftrightarrow>
     (addresses = [] \<or> log_Address l \<in> set addresses) \<and> length topics \<le> length (log_Topics l) \<and>
     (\<forall>i < length topics. topics ! i = [] \<or> log_Topics l ! i \<in> set (topics ! i))"

lemma includes_addr_iff [simp]: "includes_addr addresses a \<longleftrightarrow> a \<in> set addresses"
  by (induction addresses) auto

lemma sub_match_iff [simp]: "sub_match sub t \<longleftrightarrow> t \<in> set sub"
  by (induction sub) auto

lemma any_lookup_iff [simp]: "any_lookup P xs \<longleftrightarrow> (\<exists>x \<in> set xs. P x)"
  by (induction xs) auto

lemma topics_match_iff:
  "topics_match i topics lt \<longleftrightarrow> (\<forall>j < length topics. topics ! j = [] \<or> lt ! (i + j) \<in> set (topics ! j))"
proof (induction topics arbitrary: i)
  case Nil
  then show ?case by simp
next
  case (Cons sub topics)
  show ?case by (simp add: Cons.IH All_less_Suc2)
qed

lemma log_selected_any [simp]: "log_selected None None addresses topics = criteria_ok addresses topics"
  by (rule ext) (auto simp: log_selected_def criteria_ok_def topics_match_iff)

lemma foldl_filter: "foldl (\<lambda>ret x. if P x then ret @ [x] else ret) acc xs = acc @ filter P xs"
  by (induction xs arbitrary: acc) auto

lemma filterLogs_eq: "filterLogs logs fr to addresses topics = filter (log_selected fr to addresses topics) logs"
  by (simp add: filterLogs_def foldl_filter)

lemma filterLogs_concat:
  "filterLogs (concat (map f xs)) fr to addresses topics =
     concat (map (\<lambda>x. filterLogs (f x) fr to addresses topics) xs)"
  by (induction xs) (simp_all add: filterLogs_eq)

lemma block_bound:
  assumes "0 \<le> x" and "x < 2 ^ 63"
  shows "0 \<le>s big_Int64 x" and "uint (big_Uint64 x) = x"
proof -
  have "sint (big_Int64 x) = x" unfolding big_Int64_def by (rule sint_word_of_int64) (use assms in simp_all)
  then show "0 \<le>s big_Int64 x" using assms by (simp add: word_sle_eq)
  show "uint (big_Uint64 x) = x" using assms by (simp add: big_Uint64_def unsigned_of_int take_bit_int_eq_self)
qed

section \<open>Bloom filters\<close>

definition bloom_covers :: "geth \<Rightarrow> Bloom \<Rightarrow> Log list \<Rightarrow> bool" where
  "bloom_covers G bloom logs \<longleftrightarrow> (\<forall>l \<in> set logs. BloomLookup G bloom (be_bytes 20 (log_Address l)) \<and>
     (\<forall>t \<in> set (log_Topics l). BloomLookup G bloom (be_bytes 32 t)))"

text \<open>A Bloom filter that covers the logs of a block never rejects a block with a matching log.\<close>

lemma bloomFilter_complete:
  assumes "bloom_covers G bloom logs" and "l \<in> set logs" and "criteria_ok addresses topics l"
  shows "bloomFilter G bloom addresses topics"
proof -
  from assms(1,2) have a: "BloomLookup G bloom (be_bytes 20 (log_Address l))"
    and t: "\<And>t. t \<in> set (log_Topics l) \<Longrightarrow> BloomLookup G bloom (be_bytes 32 t)" by (auto simp: bloom_covers_def)
  have "sub = [] \<or> (\<exists>t \<in> set sub. BloomLookup G bloom (be_bytes 32 t))" if "sub \<in> set topics" for sub
  proof -
    from that obtain i where i: "i < length topics" "sub = topics ! i" by (auto simp: in_set_conv_nth)
    with assms(3) have "sub = [] \<or> log_Topics l ! i \<in> set sub" "i < length (log_Topics l)"
      by (auto simp: criteria_ok_def)
    then show ?thesis using t by (meson nth_mem)
  qed
  moreover from assms(3) a have "addresses = [] \<or> (\<exists>x \<in> set addresses. BloomLookup G bloom (be_bytes 20 x))"
    by (auto simp: criteria_ok_def)
  ultimately show ?thesis by (auto simp: bloomFilter_def list_all_iff)
qed

text \<open>What a search finds in a block with the given Bloom filter and logs.\<close>

definition admitted :: "geth \<Rightarrow> address list \<Rightarrow> bytes32 list list \<Rightarrow> Bloom \<Rightarrow> Log list \<Rightarrow> Log list" where
  "admitted G addresses topics bloom logs =
     (if bloomFilter G bloom addresses topics then filterLogs logs None None addresses topics else [])"

lemma admitted_covered:
  assumes "bloom_covers G bloom logs"
  shows "admitted G addresses topics bloom logs = filterLogs logs None None addresses topics"
proof (cases "bloomFilter G bloom addresses topics")
  case False
  with bloomFilter_complete [OF assms] have "filter (criteria_ok addresses topics) logs = []"
    unfolding filter_empty_conv by blast
  with False show ?thesis by (simp add: admitted_def filterLogs_eq)
qed (simp add: admitted_def)

lemma admitted_empty_bloom:
  assumes "\<And>x. \<not> BloomLookup G bloom x"
  shows "admitted G addresses topics bloom logs =
    (if addresses = [] \<and> (\<forall>sub \<in> set topics. sub = []) then filterLogs logs None None addresses topics else [])"
  using assms by (auto simp: admitted_def bloomFilter_def list_all_iff)

lemma blockLogs_eq:
  assumes "GetLogs S (hdr_BlockHash h) = Inr lss" and "\<forall>l \<in> set (concat lss). log_TxHash l \<noteq> 0"
  shows "blockLogs G S f h = Inr (admitted G (flt_addresses f) (flt_topics f) (hdr_Bloom h) (concat lss))"
proof -
  let ?logs = "filter (criteria_ok (flt_addresses f) (flt_topics f)) (concat lss)"
  have "checkMatches S f h = Inr ?logs"
  proof (cases ?logs)
    case Nil
    then show ?thesis by (simp add: checkMatches_def assms(1) filterLogs_eq Let_def)
  next
    case (Cons l ls)
    then have "l \<in> set ?logs" by simp
    then have "log_TxHash l \<noteq> 0" using assms(2) by auto
    with Cons show ?thesis by (simp add: checkMatches_def assms(1) filterLogs_eq Let_def)
  qed
  then show ?thesis by (simp add: blockLogs_def admitted_def filterLogs_eq)
qed

section \<open>Range searches over a service that keeps its promises\<close>

text \<open>
  What a filter relies on: the header of every block in a range can be had, with the block's Bloom
  filter, the logs of the block know their transaction, nothing is indexed, and the latest header can be had.
  Nothing is assumed of the Bloom filters.
\<close>

locale log_service =
  fixes G :: geth and S :: FilterService and lo hi :: int and logs_at :: "int64 \<Rightarrow> Log list"
    and bloom_at :: "int64 \<Rightarrow> Bloom" and ok :: bool
  assumes stored: "ok \<Longrightarrow> lo \<le> sint n \<Longrightarrow> sint n \<le> hi \<Longrightarrow> \<exists>h lss.
      HeaderByNumber S n = Inr (Some h, None) \<and> GetLogs S (hdr_BlockHash h) = Inr lss \<and> concat lss = logs_at n \<and>
      hdr_Bloom h = bloom_at n \<and> (\<forall>l \<in> set (concat lss). log_TxHash l \<noteq> 0)"
    and not_indexed: "ok \<Longrightarrow> snd (BloomStatus S) = 0"
    and head: "ok \<Longrightarrow> \<exists>h e. HeaderByNumber S LatestBlockNumber = Inr (Some h, e)"
begin

definition found_at :: "address list \<Rightarrow> bytes32 list list \<Rightarrow> int64 \<Rightarrow> Log list" where
  "found_at addresses topics n = admitted G addresses topics (bloom_at n) (logs_at n)"

lemma block_search:
  assumes ok "lo \<le> sint n" and "sint n \<le> hi"
  shows "\<exists>h. HeaderByNumber S n = Inr (Some h, None) \<and>
    blockLogs G S f h = Inr (found_at (flt_addresses f) (flt_topics f) n)"
  using stored [OF assms] blockLogs_eq unfolding found_at_def by metis

lemma loop_search:
  assumes ok "lo \<le> sint (flt_begin f)" and "sint e \<le> hi" and "sint e = sint (flt_begin f) + int n - 1"
    and "sint e < 2 ^ 63 - 1"
  shows "unindexed_loop G S e f logs = Some (Inr (f\<lparr>flt_begin := e + 1\<rparr>,
    logs @ concat (map (found_at (flt_addresses f) (flt_topics f)) (heights (flt_begin f) n)), None))"
  using assms(2,4)
proof (induction n arbitrary: f logs)
  case 0
  have "sint (e + 1) = sint e + 1" using sint_add64 [of e 1] assms(5) sint_range64 [of e] by simp
  with 0 have "flt_begin f = e + 1" using sint_inject [of "flt_begin f" "e + 1"] by simp
  then have "f\<lparr>flt_begin := e + 1\<rparr> = f" by simp
  moreover have "\<not> flt_begin f \<le>s e" using 0 by (simp add: word_sle_eq)
  ultimately show ?case by (subst unindexed_loop.simps) (simp add: heights_def filterLogs_eq)
next
  case (Suc n)
  let ?f = "f\<lparr>flt_begin := flt_begin f + 1\<rparr>"
  have le: "flt_begin f \<le>s e" using Suc.prems by (simp add: word_sle_eq)
  have b1: "sint (flt_begin f + 1) = sint (flt_begin f) + 1"
    using sint_add64 [of "flt_begin f" 1] Suc.prems assms(5) sint_range64 [of "flt_begin f"] by simp
  have "sint (flt_begin f) \<le> hi" using Suc.prems assms(3) by simp
  from block_search [OF assms(1) Suc.prems(1) this, of f] obtain h where
    h: "HeaderByNumber S (flt_begin f) = Inr (Some h, None)"
    "blockLogs G S f h = Inr (found_at (flt_addresses f) (flt_topics f) (flt_begin f))" by blast
  have "unindexed_loop G S e f logs =
      unindexed_loop G S e ?f (logs @ found_at (flt_addresses f) (flt_topics f) (flt_begin f))"
    using le h by (subst unindexed_loop.simps) simp
  also have "\<dots> = Some (Inr (?f\<lparr>flt_begin := e + 1\<rparr>, (logs @ found_at (flt_addresses f) (flt_topics f) (flt_begin f)) @
      concat (map (found_at (flt_addresses ?f) (flt_topics ?f)) (heights (flt_begin ?f) n)), None))"
    by (rule Suc.IH) (use Suc.prems b1 in simp_all)
  finally show ?case by (simp add: heights_Suc filterLogs_eq)
qed

lemma range_search:
  assumes ok "lo \<le> sint a" and "0 \<le> sint a" and "0 \<le> sint b" and "sint b \<le> hi"
    and "sint b < 2 ^ 63 - 1" and "sint b = sint a + int n - 1"
  shows "Filter_Logs G S (NewRangeFilter S a b addresses topics) =
    Some (Inr ((NewRangeFilter S a b addresses topics)\<lparr>flt_begin := b + 1\<rparr>,
      concat (map (found_at addresses topics) (heights a n)), None))"
proof -
  let ?f = "NewRangeFilter S a b addresses topics"
  have f: "flt_block ?f = 0" "flt_begin ?f = a" "flt_end ?f = b" "flt_addresses ?f = addresses" "flt_topics ?f = topics"
    by (simp_all add: NewRangeFilter_def newFilter_def Let_def split: prod.split)
  have neg: "sint (- 1 :: int64) = - 1" by simp
  have "a \<noteq> - 1" "b \<noteq> - 1" using assms(3,4) neg by force+
  from not_indexed [OF assms(1)] obtain sz where "BloomStatus S = (sz, 0)" by (cases "BloomStatus S") simp
  moreover from head [OF assms(1)] obtain h e where "HeaderByNumber S LatestBlockNumber = Inr (Some h, e)" by blast
  moreover from loop_search [OF assms(1), of ?f b n "[]"] assms
  have "unindexedLogs G S ?f b = Some (Inr (?f\<lparr>flt_begin := b + 1\<rparr>,
      concat (map (found_at addresses topics) (heights a n)), None))"
    by (simp add: unindexedLogs_def f)
  ultimately show ?thesis
    using \<open>a \<noteq> - 1\<close> \<open>b \<noteq> - 1\<close> by (simp add: Filter_Logs_def f Let_def)
qed

end

section \<open>Properties\<close>

text \<open>
  Filtering logs keeps, in order, exactly the logs that meet the criteria: the block number
  within the bounds that are given (a bound that is absent does not restrict), an address of the
  list or any if the list is empty, and at every position of the topic list one of the topics
  there or any if there are none.
\<close>

lemma filterLogs_correct:
  assumes "0 \<le> f" "f < 2 ^ 63" and "0 \<le> t" "t < 2 ^ 63"
  shows "filterLogs logs (Some f) (Some t) addresses topics =
      filter (\<lambda>l. f \<le> uint (log_BlockNumber l) \<and> uint (log_BlockNumber l) \<le> t \<and> criteria_ok addresses topics l) logs \<and>
    filterLogs logs None None addresses topics = filter (criteria_ok addresses topics) logs"
proof -
  have "log_selected (Some f) (Some t) addresses topics = (\<lambda>l.
      f \<le> uint (log_BlockNumber l) \<and> uint (log_BlockNumber l) \<le> t \<and> log_selected None None addresses topics l)"
    using block_bound [OF assms(1,2)] block_bound [OF assms(3,4)]
    by (intro ext) (auto simp: log_selected_def word_less_def simp del: log_selected_any)
  then show ?thesis unfolding filterLogs_eq by simp
qed

lemma filterLogs_correct_witness:
  "filterLogs [\<lparr>log_Address = 1, log_Topics = [7, 8], log_BlockNumber = 3, log_TxHash = 5\<rparr>,
      \<lparr>log_Address = 1, log_Topics = [7], log_BlockNumber = 9, log_TxHash = 6\<rparr>] (Some 2) (Some 4) [1] [[], [8]] =
    [\<lparr>log_Address = 1, log_Topics = [7, 8], log_BlockNumber = 3, log_TxHash = 5\<rparr>]"
  using filterLogs_correct [of 2 4] by (simp add: criteria_ok_def nth_Cons' All_less_Suc2 less_Suc_eq)

end
