(* ===== verification/Evm_World.thy ===== *)
theory Evm_World
  imports Go_Base
begin

text \<open>
  The interface of the EVM library (\<^verbatim>\<open>github.com/smartbch/moeingevm\<close>) that the staking code
  calls: the world state behind a \<^verbatim>\<open>types.Context\<close> and the accounts it holds. The library is not
  part of the repository, so its functions are the fields of a record that the staking operations
  take as an argument, and what the code relies on is \<open>evm_laws\<close>: a get returns what was last
  set, accounts and storage slots are independent, and an account handed out by \<^verbatim>\<open>GetAccount\<close>
  is a private copy until it is set again. The state is passed explicitly: an operation that
  changes the context returns the new one. A map-based implementation, \<open>mem_evm\<close>, shows that
  the laws can hold.
\<close>

section \<open>The library's functions as parameters\<close>

record ('c, 'a) evm =
  GetAccount :: "'c \<Rightarrow> address \<Rightarrow> 'a option"
  SetAccount :: "'c \<Rightarrow> address \<Rightarrow> 'a \<Rightarrow> 'c"
  GetStorageAt :: "'c \<Rightarrow> uint64 \<Rightarrow> bytes \<Rightarrow> bytes option"
  SetStorageAt :: "'c \<Rightarrow> uint64 \<Rightarrow> bytes \<Rightarrow> bytes \<Rightarrow> 'c"
  ZeroAccountInfo :: 'a
  Balance :: "'a \<Rightarrow> u256"
  UpdateBalance :: "'a \<Rightarrow> u256 \<Rightarrow> 'a"
  Sequence :: "'a \<Rightarrow> uint64"
  UpdateSequence :: "'a \<Rightarrow> uint64 \<Rightarrow> 'a"
  BlackHole :: address
  TransferFromSenderAccToBlackHoleAcc :: "'c \<Rightarrow> address \<Rightarrow> u256 \<Rightarrow> bool \<times> 'c"

text \<open>The balance of an address; an account that does not exist has none.\<close>

definition bal :: "('c, 'a) evm \<Rightarrow> 'c \<Rightarrow> address \<Rightarrow> u256" where
  "bal E ctx a = (case GetAccount E ctx a of None \<Rightarrow> 0 | Some acc \<Rightarrow> Balance E acc)"

section \<open>What the code relies on\<close>

definition account_laws :: "('c, 'a) evm \<Rightarrow> bool" where
  "account_laws E \<longleftrightarrow>
     Balance E (ZeroAccountInfo E) = 0 \<and>
     (\<forall>acc v. Balance E (UpdateBalance E acc v) = v) \<and>
     (\<forall>acc v. Sequence E (UpdateBalance E acc v) = Sequence E acc) \<and>
     (\<forall>acc s. Sequence E (UpdateSequence E acc s) = s) \<and>
     (\<forall>acc s. Balance E (UpdateSequence E acc s) = Balance E acc)"

definition context_laws :: "('c, 'a) evm \<Rightarrow> bool" where
  "context_laws E \<longleftrightarrow>
     (\<forall>ctx a acc b. GetAccount E (SetAccount E ctx a acc) b = (if a = b then Some acc else GetAccount E ctx b)) \<and>
     (\<forall>ctx a acc s k. GetStorageAt E (SetAccount E ctx a acc) s k = GetStorageAt E ctx s k) \<and>
     (\<forall>ctx s k v b. GetAccount E (SetStorageAt E ctx s k v) b = GetAccount E ctx b) \<and>
     (\<forall>ctx s k v t l. v \<noteq> [] \<longrightarrow>
        GetStorageAt E (SetStorageAt E ctx s k v) t l = (if s = t \<and> k = l then Some v else GetStorageAt E ctx t l))"

text \<open>
  Burning: the coins move from the sender to the black hole account when the sender has
  them; otherwise an error is returned and nothing changes.
\<close>

definition burn_laws :: "('c, 'a) evm \<Rightarrow> bool" where
  "burn_laws E \<longleftrightarrow> (\<forall>ctx a v. a \<noteq> BlackHole E \<longrightarrow>
     (case GetAccount E ctx a of
        None \<Rightarrow> TransferFromSenderAccToBlackHoleAcc E ctx a v = (False, ctx)
      | Some acc \<Rightarrow>
          if Balance E acc < v then TransferFromSenderAccToBlackHoleAcc E ctx a v = (False, ctx)
          else (\<exists>ctx' hole. TransferFromSenderAccToBlackHoleAcc E ctx a v = (True, ctx') \<and>
            GetAccount E ctx' a = Some (UpdateBalance E acc (Balance E acc - v)) \<and>
            GetAccount E ctx' (BlackHole E) = Some hole \<and>
            Balance E hole = bal E ctx (BlackHole E) + v \<and>
            (\<forall>b. b \<noteq> a \<and> b \<noteq> BlackHole E \<longrightarrow> GetAccount E ctx' b = GetAccount E ctx b) \<and>
            (\<forall>s k. GetStorageAt E ctx' s k = GetStorageAt E ctx s k))))"

definition evm_laws :: "('c, 'a) evm \<Rightarrow> bool" where
  "evm_laws E \<longleftrightarrow> account_laws E \<and> context_laws E \<and> burn_laws E"

named_theorems evm_simps \<open>rewrite rules of the world state\<close>

lemma evm_account [evm_simps]:
  assumes "evm_laws E"
  shows "Balance E (ZeroAccountInfo E) = 0"
    and "Balance E (UpdateBalance E acc v) = v"
    and "Sequence E (UpdateBalance E acc v) = Sequence E acc"
    and "Sequence E (UpdateSequence E acc s) = s"
    and "Balance E (UpdateSequence E acc s) = Balance E acc"
  using assms by (auto simp: evm_laws_def account_laws_def)

lemma evm_context [evm_simps]:
  assumes "evm_laws E"
  shows "GetAccount E (SetAccount E ctx a acc) b = (if a = b then Some acc else GetAccount E ctx b)"
    and "GetStorageAt E (SetAccount E ctx a acc) s k = GetStorageAt E ctx s k"
    and "GetAccount E (SetStorageAt E ctx s k v) b = GetAccount E ctx b"
    and "v \<noteq> [] \<Longrightarrow>
        GetStorageAt E (SetStorageAt E ctx s k v) t l = (if s = t \<and> k = l then Some v else GetStorageAt E ctx t l)"
  using assms by (auto simp: evm_laws_def context_laws_def)

lemma evm_burn:
  assumes "evm_laws E" and "a \<noteq> BlackHole E" and "GetAccount E ctx a = Some acc" and "v \<le> Balance E acc"
  obtains ctx' where "TransferFromSenderAccToBlackHoleAcc E ctx a v = (True, ctx')"
    and "GetAccount E ctx' a = Some (UpdateBalance E acc (Balance E acc - v))"
    and "bal E ctx' (BlackHole E) = bal E ctx (BlackHole E) + v"
    and "\<And>b. b \<noteq> a \<Longrightarrow> b \<noteq> BlackHole E \<Longrightarrow> GetAccount E ctx' b = GetAccount E ctx b"
    and "\<And>s k. GetStorageAt E ctx' s k = GetStorageAt E ctx s k"
proof -
  from assms(1) have "burn_laws E" by (simp add: evm_laws_def)
  from this [unfolded burn_laws_def, rule_format, OF assms(2), of ctx v] assms(3,4)
  obtain ctx' hole where
    "TransferFromSenderAccToBlackHoleAcc E ctx a v = (True, ctx')"
    "GetAccount E ctx' a = Some (UpdateBalance E acc (Balance E acc - v))"
    "GetAccount E ctx' (BlackHole E) = Some hole" "Balance E hole = bal E ctx (BlackHole E) + v"
    "\<forall>b. b \<noteq> a \<and> b \<noteq> BlackHole E \<longrightarrow> GetAccount E ctx' b = GetAccount E ctx b"
    "\<forall>s k. GetStorageAt E ctx' s k = GetStorageAt E ctx s k"
    by (auto simp: linorder_not_less [symmetric])
  then show ?thesis by (intro that [of ctx']) (simp_all add: bal_def)
qed

lemma bal_set [evm_simps]:
  assumes "evm_laws E"
  shows "bal E (SetAccount E ctx a acc) b = (if a = b then Balance E acc else bal E ctx b)"
    and "bal E (SetStorageAt E ctx s k v) b = bal E ctx b"
  by (simp_all add: bal_def evm_context [OF assms])

section \<open>Payments\<close>

text \<open>
  The statements with which an amount is credited to an address, as the code that pays rewards
  and returns stakes has them: the account is created when it does not exist.
\<close>

definition pay :: "('c, 'a) evm \<Rightarrow> 'c \<Rightarrow> address \<times> u256 \<Rightarrow> 'c" where
  "pay E ctx = (\<lambda>(addr, coins).
     (let acc = (case GetAccount E ctx addr of None \<Rightarrow> ZeroAccountInfo E | Some acc \<Rightarrow> acc);
          balance = Balance E acc + coins
      in SetAccount E ctx addr (UpdateBalance E acc balance)))"

text \<open>
  A ledger that credits payments: what a sequence of payments does to one balance and to the
  sum of the balances, in the arithmetic of 256-bit words.
\<close>

locale ledger =
  fixes credit :: "'c \<Rightarrow> address \<times> u256 \<Rightarrow> 'c"
    and balance :: "'c \<Rightarrow> address \<Rightarrow> u256"
    and ok :: bool
  assumes credit: "ok \<Longrightarrow> balance (credit c (a, v)) b = (if a = b then balance c b + v else balance c b)"
begin

lemma balance_credits:
  "ok \<Longrightarrow> balance (foldl credit c ps) b = balance c b + (\<Sum>p\<leftarrow>filter (\<lambda>p. fst p = b) ps. snd p)"
  by (induction ps arbitrary: c) (auto simp: credit algebra_simps split: prod.splits)

lemma credits_other:
  "ok \<Longrightarrow> b \<notin> fst ` set ps \<Longrightarrow> balance (foldl credit c ps) b = balance c b"
  by (induction ps arbitrary: c) (auto simp: credit)

lemma credits_total:
  assumes ok "finite S" and "fst ` set ps \<subseteq> S"
  shows "(\<Sum>b\<in>S. balance (foldl credit c ps) b) = (\<Sum>b\<in>S. balance c b) + (\<Sum>p\<leftarrow>ps. snd p)"
  using assms(3)
proof (induction ps arbitrary: c)
  case Nil
  then show ?case by simp
next
  case (Cons p ps)
  obtain a v where p: "p = (a, v)" by fastforce
  with Cons.prems have a: "a \<in> S" by simp
  have "(\<Sum>b\<in>S. balance (credit c p) b) = (\<Sum>b\<in>S. balance c b + (if a = b then v else 0))"
    by (rule sum.cong) (simp_all add: p credit [OF assms(1)])
  also have "\<dots> = (\<Sum>b\<in>S. balance c b) + v"
    using a assms(2) by (simp add: sum.distrib)
  finally show ?case using Cons by (simp add: p add.assoc)
qed

end

interpretation evm_ledger: ledger "pay E" "bal E" "evm_laws E" for E
proof
  fix c a v b
  assume "evm_laws E"
  then show "bal E (pay E c (a, v)) b = (if a = b then bal E c b + v else bal E c b)"
    by (auto simp: pay_def Let_def evm_simps bal_def split: option.splits)
qed

lemma pay_storage:
  assumes "evm_laws E"
  shows "GetStorageAt E (foldl (pay E) ctx ps) s k = GetStorageAt E ctx s k"
  by (induction ps arbitrary: ctx) (simp_all add: pay_def Let_def evm_simps [OF assms] split: prod.splits)

lemma pay_account:
  assumes "evm_laws E" and "b \<notin> fst ` set ps"
  shows "GetAccount E (foldl (pay E) ctx ps) b = GetAccount E ctx b"
  using assms(2)
  by (induction ps arbitrary: ctx) (auto simp: pay_def Let_def evm_simps [OF assms(1)] split: prod.splits)

section \<open>A world state in memory\<close>

record mem_account =
  mem_balance :: u256
  mem_sequence :: uint64

record mem_world =
  mem_accounts :: "address \<rightharpoonup> mem_account"
  mem_storage :: "uint64 \<times> bytes \<rightharpoonup> bytes"

definition mem_set :: "mem_world \<Rightarrow> address \<Rightarrow> mem_account \<Rightarrow> mem_world" where
  "mem_set w a acc = w\<lparr>mem_accounts := (mem_accounts w)(a \<mapsto> acc)\<rparr>"

definition mem_zero :: mem_account where
  "mem_zero = \<lparr>mem_balance = 0, mem_sequence = 0\<rparr>"

definition mem_hole :: address where
  "mem_hole = 0xdead"

definition mem_burn :: "mem_world \<Rightarrow> address \<Rightarrow> u256 \<Rightarrow> bool \<times> mem_world" where
  "mem_burn w a v = (case mem_accounts w a of
       None \<Rightarrow> (False, w)
     | Some acc \<Rightarrow>
         if mem_balance acc < v then (False, w)
         else (let w = mem_set w a (acc\<lparr>mem_balance := mem_balance acc - v\<rparr>);
                   hole = (case mem_accounts w mem_hole of None \<Rightarrow> mem_zero | Some h \<Rightarrow> h)
               in (True, mem_set w mem_hole (hole\<lparr>mem_balance := mem_balance hole + v\<rparr>))))"

definition mem_evm :: "(mem_world, mem_account) evm" where
  "mem_evm = \<lparr>
     GetAccount = mem_accounts,
     SetAccount = mem_set,
     GetStorageAt = (\<lambda>w s k. mem_storage w (s, k)),
     SetStorageAt = (\<lambda>w s k v. w\<lparr>mem_storage := (mem_storage w)((s, k) \<mapsto> v)\<rparr>),
     ZeroAccountInfo = mem_zero,
     Balance = mem_balance,
     UpdateBalance = (\<lambda>acc v. acc\<lparr>mem_balance := v\<rparr>),
     Sequence = mem_sequence,
     UpdateSequence = (\<lambda>acc s. acc\<lparr>mem_sequence := s\<rparr>),
     BlackHole = mem_hole,
     TransferFromSenderAccToBlackHoleAcc = mem_burn\<rparr>"

definition mem_empty :: mem_world where
  "mem_empty = \<lparr>mem_accounts = Map.empty, mem_storage = Map.empty\<rparr>"

lemma mem_evm_laws: "evm_laws mem_evm"
proof -
  have "account_laws mem_evm" by (simp add: account_laws_def mem_evm_def mem_zero_def)
  moreover have "context_laws mem_evm" by (auto simp: context_laws_def mem_evm_def mem_set_def)
  moreover have "burn_laws mem_evm"
    unfolding burn_laws_def
    by (auto simp: mem_evm_def mem_burn_def mem_set_def mem_zero_def bal_def Let_def split: option.splits)
  ultimately show ?thesis by (simp add: evm_laws_def)
qed

end
