(* ===== verification/Api_Backend.thy ===== *)
theory Api_Backend
  imports Log_Filters Evm_World
begin

text \<open>
  The backend of the RPC services (\<^verbatim>\<open>api/backend.go\<close>), which reads the world state and the history
  store, and the log queries of the filter API (\<^verbatim>\<open>GetLogs\<close> of \<^verbatim>\<open>rpc/api/filters/filter_api.go\<close>) over
  it. The functions of a context over the history store and of a context over the world state
  belong to \<^verbatim>\<open>moeingevm\<close>: they are the fields of \<open>history\<close> and, with those of the staking code's world
  state, of \<open>rpc_state\<close>. \<^verbatim>\<open>app_height\<close> is the height the application is at.
\<close>

section \<open>The contexts as parameters\<close>

record 'l history =
  h_GetBlockByHash :: "bytes32 \<Rightarrow> Block option \<times> string option"
  h_GetBlockByHeight :: "uint64 \<Rightarrow> Block option \<times> string option"
  h_GetTxByHash :: "bytes32 \<Rightarrow> 'l Transaction option \<times> string option"
  h_GetLatestHeight :: int64
  h_QueryLogs :: "address list \<Rightarrow> bytes32 list list \<Rightarrow> uint32 \<Rightarrow> uint32 \<Rightarrow> string + 'l list"
  ToGethLogs :: "'l list \<Rightarrow> Log list"
  h_QueryTxBySrc :: "address \<Rightarrow> uint32 \<Rightarrow> uint32 \<Rightarrow> uint32 \<Rightarrow> string + 'l Transaction list"
  h_QueryTxByDst :: "address \<Rightarrow> uint32 \<Rightarrow> uint32 \<Rightarrow> uint32 \<Rightarrow> string + 'l Transaction list"
  h_QueryTxByAddr :: "address \<Rightarrow> uint32 \<Rightarrow> uint32 \<Rightarrow> uint32 \<Rightarrow> string + 'l Transaction list"
  h_BasicQueryLogs :: "address \<Rightarrow> bytes32 list \<Rightarrow> uint32 \<Rightarrow> uint32 \<Rightarrow> uint32 \<Rightarrow> string + 'l list"
  h_GetTxListByHeight :: "uint32 \<Rightarrow> string + 'l Transaction list"
  h_GetToAddressCount :: "address \<Rightarrow> int64"
  h_GetFromAddressCount :: "address \<Rightarrow> int64"
  h_GetSep20ToAddressCount :: "address \<Rightarrow> address \<Rightarrow> int64"
  h_GetSep20FromAddressCount :: "address \<Rightarrow> address \<Rightarrow> int64"
  ErrBlockNotFound :: string

record 'l apiBackend =
  app_height :: int64
  hist :: "'l history"

record ('c, 'a) rpc_state =
  rs_evm :: "('c, 'a) evm"
  rs_ctx :: 'c
  rs_Nonce :: "'a \<Rightarrow> uint64"
  rs_GetCode :: "address \<Rightarrow> (bytes \<times> bytes) option"
  rs_GetBalance :: "address \<Rightarrow> int64 \<Rightarrow> string + u256"
  ErrAccNotFound :: string

section \<open>State queries\<close>

definition backend_GetStorageAt :: "('c, 'a) rpc_state \<Rightarrow> address \<Rightarrow> bytes \<Rightarrow> int64 \<Rightarrow> bytes option" where
  "backend_GetStorageAt R address key blockNumber =
     (if blockNumber \<noteq> LatestBlockNumber then None
      else (case GetAccount (rs_evm R) (rs_ctx R) address of
              None \<Rightarrow> None
            | Some acc \<Rightarrow> GetStorageAt (rs_evm R) (rs_ctx R) (Sequence (rs_evm R) acc) key))"

definition backend_GetCode :: "('c, 'a) rpc_state \<Rightarrow> address \<Rightarrow> int64 \<Rightarrow> bytes \<times> bytes" where
  "backend_GetCode R contract blockNumber =
     (if blockNumber \<noteq> LatestBlockNumber then ([], [])
      else (case rs_GetCode R contract of None \<Rightarrow> ([], []) | Some (bytecode, codeHash) \<Rightarrow> (bytecode, codeHash)))"

definition backend_GetBalance :: "('c, 'a) rpc_state \<Rightarrow> address \<Rightarrow> int64 \<Rightarrow> string + int" where
  "backend_GetBalance R owner height = bindG (rs_GetBalance R owner height) (\<lambda>b. Inr (uint b))"

definition backend_GetNonce :: "('c, 'a) rpc_state \<Rightarrow> address \<Rightarrow> string + uint64" where
  "backend_GetNonce R address =
     (case GetAccount (rs_evm R) (rs_ctx R) address of
        Some acc \<Rightarrow> Inr (rs_Nonce R acc)
      | None \<Rightarrow> Inl (ErrAccNotFound R))"

section \<open>Chain queries\<close>

definition backend_GetTransaction ::
  "'l apiBackend \<Rightarrow> bytes32 \<Rightarrow> 'l Transaction option \<times> bytes32 \<times> uint64 \<times> uint64 \<times> string option" where
  "backend_GetTransaction B txHash =
     (case h_GetTxByHash (hist B) txHash of
        (tx, Some e) \<Rightarrow> (tx, 0, 0, 0, Some e)
      | (Some tx, None) \<Rightarrow> (Some tx, tx_BlockHash tx, tx_BlockNumber tx, tx_TransactionIndex tx, None)
      | (None, None) \<Rightarrow> (None, 0, 0, 0, Some ''tx with specific hash not exist''))"

definition BlockByHash :: "'l apiBackend \<Rightarrow> bytes32 \<Rightarrow> Block option \<times> string option" where
  "BlockByHash B hash =
     (case h_GetBlockByHash (hist B) hash of (block, Some e) \<Rightarrow> (None, Some e) | (block, None) \<Rightarrow> (block, None))"

definition BlockByNumber :: "'l apiBackend \<Rightarrow> int64 \<Rightarrow> Block option \<times> string option" where
  "BlockByNumber B number = h_GetBlockByHeight (hist B) number"

definition LatestHeight :: "'l apiBackend \<Rightarrow> int64" where
  "LatestHeight B = h_GetLatestHeight (hist B)"

definition CurrentBlock :: "'l apiBackend \<Rightarrow> Block option \<times> string option" where
  "CurrentBlock B =
     (case h_GetBlockByHeight (hist B) (h_GetLatestHeight (hist B)) of
        (block, Some e) \<Rightarrow> (None, Some e)
      | (block, None) \<Rightarrow> (block, None))"

definition backend_QueryLogs ::
  "'l apiBackend \<Rightarrow> address list \<Rightarrow> bytes32 list list \<Rightarrow> uint32 \<Rightarrow> uint32 \<Rightarrow> string + 'l list" where
  "backend_QueryLogs B addresses topics startHeight endHeight =
     h_QueryLogs (hist B) addresses topics startHeight endHeight"

definition backend_QueryTxBySrc ::
  "'l apiBackend \<Rightarrow> address \<Rightarrow> uint32 \<Rightarrow> uint32 \<Rightarrow> uint32 \<Rightarrow> string + 'l Transaction list" where
  "backend_QueryTxBySrc B addr startHeight endHeight limit = h_QueryTxBySrc (hist B) addr startHeight endHeight limit"

definition backend_QueryTxByDst ::
  "'l apiBackend \<Rightarrow> address \<Rightarrow> uint32 \<Rightarrow> uint32 \<Rightarrow> uint32 \<Rightarrow> string + 'l Transaction list" where
  "backend_QueryTxByDst B addr startHeight endHeight limit = h_QueryTxByDst (hist B) addr startHeight endHeight limit"

definition backend_QueryTxByAddr ::
  "'l apiBackend \<Rightarrow> address \<Rightarrow> uint32 \<Rightarrow> uint32 \<Rightarrow> uint32 \<Rightarrow> string + 'l Transaction list" where
  "backend_QueryTxByAddr B addr startHeight endHeight limit = h_QueryTxByAddr (hist B) addr startHeight endHeight limit"

definition SbchQueryLogs ::
  "'l apiBackend \<Rightarrow> address \<Rightarrow> bytes32 list \<Rightarrow> uint32 \<Rightarrow> uint32 \<Rightarrow> uint32 \<Rightarrow> string + 'l list" where
  "SbchQueryLogs B addr topics startHeight endHeight limit =
     h_BasicQueryLogs (hist B) addr topics startHeight endHeight limit"

definition backend_GetTxListByHeight :: "'l apiBackend \<Rightarrow> uint32 \<Rightarrow> string + 'l Transaction list" where
  "backend_GetTxListByHeight B height = h_GetTxListByHeight (hist B) height"

definition GetToAddressCount :: "'l apiBackend \<Rightarrow> address \<Rightarrow> int64" where
  "GetToAddressCount B addr = h_GetToAddressCount (hist B) addr"

definition GetFromAddressCount :: "'l apiBackend \<Rightarrow> address \<Rightarrow> int64" where
  "GetFromAddressCount B addr = h_GetFromAddressCount (hist B) addr"

definition GetSep20ToAddressCount :: "'l apiBackend \<Rightarrow> address \<Rightarrow> address \<Rightarrow> int64" where
  "GetSep20ToAddressCount B contract addr = h_GetSep20ToAddressCount (hist B) contract addr"

definition GetSep20FromAddressCount :: "'l apiBackend \<Rightarrow> address \<Rightarrow> address \<Rightarrow> int64" where
  "GetSep20FromAddressCount B contract addr = h_GetSep20FromAddressCount (hist B) contract addr"

section \<open>The filter service\<close>

definition backend_HeaderByNumber :: "'l apiBackend \<Rightarrow> int64 \<Rightarrow> (Header option \<times> string option) go" where
  "backend_HeaderByNumber B blockNr =
     (let blockNr = (if blockNr = LatestBlockNumber then app_height B else blockNr) in
      case h_GetBlockByHeight (hist B) blockNr of
        (_, Some e) \<Rightarrow> Inr (None, None)
      | (None, None) \<Rightarrow> Inl NilDeref
      | (Some block, None) \<Rightarrow>
          Inr (Some \<lparr>hdr_Number = blk_Number block, hdr_BlockHash = blk_Hash block,
                     hdr_Bloom = blk_LogsBloom block\<rparr>, None))"

definition backend_HeaderByHash :: "'l apiBackend \<Rightarrow> bytes32 \<Rightarrow> (Header option \<times> string option) go" where
  "backend_HeaderByHash B blockHash =
     (case h_GetBlockByHash (hist B) blockHash of
        (_, Some e) \<Rightarrow> Inr (None, Some e)
      | (None, None) \<Rightarrow> Inl NilDeref
      | (Some block, None) \<Rightarrow>
          Inr (Some \<lparr>hdr_Number = blk_Number block, hdr_BlockHash = blk_Hash block, hdr_Bloom = 0\<rparr>, None))"

definition backend_GetReceipts :: "'l apiBackend \<Rightarrow> bytes32 \<Rightarrow> string + Log list list" where
  "backend_GetReceipts B blockHash = Inr []"

definition tx_geth_logs :: "'l apiBackend \<Rightarrow> 'l Transaction \<Rightarrow> Log list" where
  "tx_geth_logs B tx = map (\<lambda>l. l\<lparr>log_TxHash := tx_Hash tx\<rparr>) (ToGethLogs (hist B) (tx_Logs tx))"

definition backend_GetLogs :: "'l apiBackend \<Rightarrow> bytes32 \<Rightarrow> string + Log list list" where
  "backend_GetLogs B blockHash =
     (case h_GetBlockByHash (hist B) blockHash of
        (Some block, None) \<Rightarrow>
          Inr (foldl (\<lambda>logs txHash.
                 case h_GetTxByHash (hist B) txHash of
                   (Some tx, None) \<Rightarrow> logs @ [tx_geth_logs B tx]
                 | _ \<Rightarrow> logs) [] (blk_Transactions block))
      | _ \<Rightarrow> Inr [])"

definition backend_BloomStatus :: "uint64 \<times> uint64" where
  "backend_BloomStatus = (4096, 0)"

definition backend_ServiceFilter :: "unit go" where
  "backend_ServiceFilter = Inl (PanicMsg ''implement me'')"

definition backend_service :: "'l apiBackend \<Rightarrow> FilterService" where
  "backend_service B = \<lparr>HeaderByNumber = backend_HeaderByNumber B, HeaderByHash = backend_HeaderByHash B,
     GetReceipts = backend_GetReceipts B, GetLogs = backend_GetLogs B,
     BloomStatus = backend_BloomStatus, ServiceFilter = backend_ServiceFilter\<rparr>"

section \<open>Log queries of the filter API\<close>

record FilterCriteria =
  BlockHash :: "bytes32 option"
  FromBlock :: "int option"
  ToBlock :: "int option"
  Addresses :: "address list"
  Topics :: "bytes32 list list"

definition returnLogs :: "Log list \<Rightarrow> Log list" where
  "returnLogs logs = logs"

definition filterAPI_GetLogs :: "geth \<Rightarrow> 'l apiBackend \<Rightarrow> FilterCriteria \<Rightarrow> (string + Log list) go option" where
  "filterAPI_GetLogs G B crit =
     (case BlockHash crit of
        Some blockHash \<Rightarrow>
          let filter = NewBlockFilter blockHash (Addresses crit) (Topics crit) in
          (case Filter_Logs G (backend_service B) filter of
             None \<Rightarrow> None
           | Some (Inl p) \<Rightarrow> Some (Inl p)
           | Some (Inr (_, logs, Some e)) \<Rightarrow> Some (Inr (Inl e))
           | Some (Inr (_, logs, None)) \<Rightarrow> Some (Inr (Inr (returnLogs logs))))
      | None \<Rightarrow>
          let curHeight = (if FromBlock crit = None \<or> ToBlock crit = None then LatestHeight B else 0);
              from = (case FromBlock crit of None \<Rightarrow> curHeight | Some f \<Rightarrow> big_Int64 f);
              to = (case ToBlock crit of None \<Rightarrow> curHeight | Some t \<Rightarrow> big_Int64 t)
          in
          (case backend_QueryLogs B (Addresses crit) (Topics crit) (ucast from) (ucast (to + 1)) of
             Inl e \<Rightarrow> Some (Inr (Inl e))
           | Inr logs \<Rightarrow> Some (Inr (Inr (ToGethLogs (hist B) logs)))))"

section \<open>The logs of a block\<close>

definition block_logs :: "'l apiBackend \<Rightarrow> Block \<Rightarrow> Log list" where
  "block_logs B b = concat (map (\<lambda>h. case h_GetTxByHash (hist B) h of
     (Some tx, None) \<Rightarrow> tx_geth_logs B tx | _ \<Rightarrow> []) (blk_Transactions b))"

definition logs_at :: "'l apiBackend \<Rightarrow> int64 \<Rightarrow> Log list" where
  "logs_at B n = (case h_GetBlockByHeight (hist B) n of (Some b, _) \<Rightarrow> block_logs B b | _ \<Rightarrow> [])"

lemma GetLogs_concat:
  assumes "h_GetBlockByHash (hist B) k = (Some b, None)"
  shows "\<exists>lss. backend_GetLogs B k = Inr lss \<and> concat lss = block_logs B b"
proof -
  let ?f = "\<lambda>logs txHash. case h_GetTxByHash (hist B) txHash of
      (Some tx, None) \<Rightarrow> logs @ [tx_geth_logs B tx] | _ \<Rightarrow> logs"
  have "concat (foldl ?f acc hs) = concat acc @ concat (map (\<lambda>h. case h_GetTxByHash (hist B) h of
      (Some tx, None) \<Rightarrow> tx_geth_logs B tx | _ \<Rightarrow> []) hs)" for acc hs
    by (induction hs arbitrary: acc) (auto split: prod.split option.split)
  with assms show ?thesis by (simp add: backend_GetLogs_def block_logs_def)
qed

definition bloom_at :: "'l apiBackend \<Rightarrow> int64 \<Rightarrow> Bloom" where
  "bloom_at B n = (case h_GetBlockByHeight (hist B) n of (Some b, _) \<Rightarrow> blk_LogsBloom b | _ \<Rightarrow> 0)"

text \<open>
  What the history store promises of a range of heights: every block is there, under its height
  and under its hash, and transactions have a hash. And whether the block at the application's
  height is there too, which is a block ahead of what a commit has put into the history.
\<close>

definition stored_ok :: "'l apiBackend \<Rightarrow> Block \<Rightarrow> bool" where
  "stored_ok B b \<longleftrightarrow> h_GetBlockByHash (hist B) (blk_Hash b) = (Some b, None) \<and>
     (\<forall>l \<in> set (block_logs B b). log_TxHash l \<noteq> 0)"

definition history_ok :: "'l apiBackend \<Rightarrow> int \<Rightarrow> int \<Rightarrow> bool" where
  "history_ok B lo hi \<longleftrightarrow> 0 \<le> lo \<and>
     (\<forall>n. lo \<le> sint n \<and> sint n \<le> hi \<longrightarrow>
        (\<exists>b. h_GetBlockByHeight (hist B) n = (Some b, None) \<and> stored_ok B b))"

definition head_stored :: "'l apiBackend \<Rightarrow> bool" where
  "head_stored B \<longleftrightarrow> (case h_GetBlockByHeight (hist B) (app_height B) of (Some b, None) \<Rightarrow> True | _ \<Rightarrow> False)"

lemma HeaderByNumber_stored:
  assumes "history_ok B lo hi" and "lo \<le> sint n" and "sint n \<le> hi"
  shows "\<exists>h lss. backend_HeaderByNumber B n = Inr (Some h, None) \<and>
    backend_GetLogs B (hdr_BlockHash h) = Inr lss \<and> concat lss = logs_at B n \<and>
    hdr_Bloom h = bloom_at B n \<and> (\<forall>l \<in> set (concat lss). log_TxHash l \<noteq> 0)"
proof -
  from assms obtain b where b: "h_GetBlockByHeight (hist B) n = (Some b, None)" and ok: "stored_ok B b"
    by (auto simp: history_ok_def)
  from assms(1,2) have "n \<noteq> LatestBlockNumber" by (auto simp: history_ok_def LatestBlockNumber_def)
  with b have "backend_HeaderByNumber B n = Inr (Some \<lparr>hdr_Number = blk_Number b, hdr_BlockHash = blk_Hash b,
      hdr_Bloom = blk_LogsBloom b\<rparr>, None)" by (simp add: backend_HeaderByNumber_def Let_def)
  moreover from ok obtain lss where "backend_GetLogs B (blk_Hash b) = Inr lss" "concat lss = block_logs B b"
    using GetLogs_concat [of B "blk_Hash b" b] by (auto simp: stored_ok_def)
  moreover have "logs_at B n = block_logs B b" "bloom_at B n = blk_LogsBloom b" by (simp_all add: logs_at_def bloom_at_def b)
  ultimately show ?thesis using ok by (simp add: stored_ok_def del: set_concat)
qed

interpretation backend: log_service G "backend_service B" lo hi "logs_at B" "bloom_at B" "history_ok B lo hi \<and> head_stored B"
  for G B lo hi
proof
  fix n :: int64
  assume "history_ok B lo hi \<and> head_stored B" and "lo \<le> sint n" and "sint n \<le> hi"
  from HeaderByNumber_stored [OF conjunct1 [OF this(1)] this(2,3)]
  show "\<exists>h lss. HeaderByNumber (backend_service B) n = Inr (Some h, None) \<and>
      GetLogs (backend_service B) (hdr_BlockHash h) = Inr lss \<and> concat lss = logs_at B n \<and>
      hdr_Bloom h = bloom_at B n \<and> (\<forall>l \<in> set (concat lss). log_TxHash l \<noteq> 0)"
    by (simp add: backend_service_def)
next
  show "snd (BloomStatus (backend_service B)) = 0" by (simp add: backend_service_def backend_BloomStatus_def)
next
  assume "history_ok B lo hi \<and> head_stored B"
  then obtain b where "h_GetBlockByHeight (hist B) (app_height B) = (Some b, None)"
    by (auto simp: head_stored_def split: prod.splits option.splits)
  then show "\<exists>h e. HeaderByNumber (backend_service B) LatestBlockNumber = Inr (Some h, e)"
    by (simp add: backend_service_def backend_HeaderByNumber_def Let_def)
qed

section \<open>A store for the witnesses\<close>

definition witness_log :: Log where
  "witness_log = \<lparr>log_Address = 0xaa, log_Topics = [7], log_BlockNumber = 1, log_TxHash = 5\<rparr>"

definition witness_stored :: Block where
  "witness_stored = \<lparr>blk_Number = 1, blk_Hash = 11, blk_ParentHash = 10, blk_LogsBloom = 1, blk_TransactionsRoot = 0,
     blk_StateRoot = 0, blk_Miner = 0, blk_Size = 0, blk_GasUsed = 0, blk_Timestamp = 0, blk_Transactions = [5]\<rparr>"

definition witness_tx :: "Log Transaction" where
  "witness_tx = \<lparr>tx_Hash = 5, tx_BlockHash = 11, tx_BlockNumber = 1, tx_TransactionIndex = 0, tx_From = 1, tx_To = 2,
     tx_Logs = [witness_log], txd_Nonce = 3, txd_Value = 100, txd_GasPrice = 10, txd_Gas = 21000, txd_Input = [],
     txd_CumulativeGasUsed = 21000, txd_GasUsed = 21000, txd_ContractAddress = 0, txd_Status = 1, txd_StatusStr = ''success'',
     txd_LogsBloom = 0\<rparr>"

definition witness_backend :: "Log apiBackend" where
  "witness_backend = \<lparr>app_height = 1, hist = \<lparr>
     h_GetBlockByHash = (\<lambda>k. if k = 11 then (Some witness_stored, None) else (None, Some ''not found'')),
     h_GetBlockByHeight = (\<lambda>n. if n = 1 then (Some witness_stored, None) else (None, Some ''not found'')),
     h_GetTxByHash = (\<lambda>k. if k = 5 then (Some witness_tx, None) else (None, Some ''not found'')),
     h_GetLatestHeight = 1,
     h_QueryLogs = (\<lambda>_ _ a b. if a \<le> 1 \<and> 1 < b then Inr [witness_log] else Inr []),
     ToGethLogs = (\<lambda>ls. ls),
     h_QueryTxBySrc = (\<lambda>a s e n. Inr (if s \<le> 1 \<and> 1 < e then [witness_tx] else [])),
     h_QueryTxByDst = (\<lambda>a s e n. Inr []), h_QueryTxByAddr = (\<lambda>a s e n. Inr []),
     h_BasicQueryLogs = (\<lambda>a ts s e n. Inr (if s \<le> 1 \<and> 1 < e then [witness_log] else [])),
     h_GetTxListByHeight = (\<lambda>h. Inr (if h = 1 then [witness_tx] else [])),
     h_GetToAddressCount = (\<lambda>a. 2), h_GetFromAddressCount = (\<lambda>a. 1),
     h_GetSep20ToAddressCount = (\<lambda>c a. 0), h_GetSep20FromAddressCount = (\<lambda>c a. 0),
     ErrBlockNotFound = ''not found''\<rparr>\<rparr>"

text \<open>Lookups that see whether the Bloom filter is empty.\<close>

definition witness_geth :: geth where
  "witness_geth = \<lparr>BloomLookup = (\<lambda>bloom _. bloom \<noteq> 0), Matcher_Start = (\<lambda>_ _ _. Inr ([], None))\<rparr>"

lemma witness_logs: "block_logs witness_backend witness_stored = [witness_log]"
  by (simp add: block_logs_def witness_backend_def witness_stored_def tx_geth_logs_def witness_tx_def witness_log_def)

lemma witness_history: "history_ok witness_backend 1 1" "head_stored witness_backend"
proof -
  have "n = 1" if "1 \<le> sint n" "sint n \<le> 1" for n :: int64
  proof -
    from that have "sint n = sint (1 :: int64)" by simp
    then show ?thesis by (simp only: sint_inject)
  qed
  moreover have "stored_ok witness_backend witness_stored"
    by (simp add: stored_ok_def witness_logs)
      (simp add: witness_backend_def witness_stored_def witness_log_def)
  ultimately show "history_ok witness_backend 1 1"
    by (auto simp: history_ok_def witness_backend_def)
  show "head_stored witness_backend" by (simp add: head_stored_def witness_backend_def)
qed

section \<open>Properties\<close>

text \<open>
  (C31) What a search over a range of blocks of the history returns. If the block at the application's
  height is not in the history, nothing, without an error, whatever the range is. Otherwise the
  search ends past the range, with the matching logs of every block of the range whose Bloom filter
  admits the criteria, in the order of the chain. That is every matching log where the filters
  cover the logs. Where they are empty, as the application stores them, it is every matching log if
  the criteria have no address and no topic, and nothing if they have one.
\<close>

theorem range_filter_finds:
  fixes G :: geth and addresses :: "address list" and topics :: "bytes32 list list"
  assumes "history_ok B lo hi" and "lo \<le> sint a" and "sint b \<le> hi"
    and "sint b = sint a + int n - 1" and "0 \<le> sint b" and "sint b < 2 ^ 63 - 1"
  defines "f \<equiv> NewRangeFilter (backend_service B) a b addresses topics"
    and "logs \<equiv> concat (map (\<lambda>h. admitted G addresses topics (bloom_at B h) (logs_at B h)) (heights a n))"
    and "matching \<equiv> filterLogs (concat (map (logs_at B) (heights a n))) None None addresses topics"
  shows "(snd (h_GetBlockByHeight (hist B) (app_height B)) \<noteq> None \<longrightarrow>
      Filter_Logs G (backend_service B) f = Some (Inr (f, [], None))) \<and>
    (head_stored B \<longrightarrow> Filter_Logs G (backend_service B) f = Some (Inr (f\<lparr>flt_begin := b + 1\<rparr>, logs, None))) \<and>
    ((\<forall>h \<in> set (heights a n). bloom_covers G (bloom_at B h) (logs_at B h)) \<longrightarrow> logs = matching) \<and>
    ((\<forall>h \<in> set (heights a n). bloom_at B h = 0) \<and> (\<forall>x. \<not> BloomLookup G 0 x) \<longrightarrow>
       logs = (if addresses = [] \<and> (\<forall>sub \<in> set topics. sub = []) then matching else []))"
proof (intro conjI impI)
  have f: "flt_block f = 0" by (simp add: f_def NewRangeFilter_def newFilter_def Let_def split: prod.split)
  show "Filter_Logs G (backend_service B) f = Some (Inr (f, [], None))"
    if "snd (h_GetBlockByHeight (hist B) (app_height B)) \<noteq> None"
  proof -
    from that have "HeaderByNumber (backend_service B) LatestBlockNumber = Inr (None, None)"
      by (cases "h_GetBlockByHeight (hist B) (app_height B)") (auto simp: backend_service_def backend_HeaderByNumber_def Let_def split: option.split)
    with f show ?thesis by (simp add: Filter_Logs_def)
  qed
  show "Filter_Logs G (backend_service B) f = Some (Inr (f\<lparr>flt_begin := b + 1\<rparr>, logs, None))" if "head_stored B"
  proof -
    have ok: "history_ok B lo hi \<and> head_stored B" using assms(1) that by simp
    have "0 \<le> sint a" using assms(1,2) by (simp add: history_ok_def)
    from backend.range_search [OF ok assms(2) this assms(5,3,6,4)] show ?thesis
      by (simp add: f_def logs_def backend.found_at_def [abs_def])
  qed
  show "logs = matching" if "\<forall>h \<in> set (heights a n). bloom_covers G (bloom_at B h) (logs_at B h)"
    using that by (simp add: logs_def matching_def filterLogs_concat admitted_covered cong: map_cong)
  show "logs = (if addresses = [] \<and> (\<forall>sub \<in> set topics. sub = []) then matching else [])"
    if "(\<forall>h \<in> set (heights a n). bloom_at B h = 0) \<and> (\<forall>x. \<not> BloomLookup G 0 x)"
    using that by (simp add: logs_def matching_def filterLogs_concat admitted_empty_bloom cong: map_cong)
qed

text \<open>One block with one log: found with the block's own Bloom filter, and not with an empty one.\<close>

definition bloomless_backend :: "Log apiBackend" where
  "bloomless_backend = witness_backend\<lparr>hist := (hist witness_backend)\<lparr>
     h_GetBlockByHash := (\<lambda>k. if k = 11 then (Some (witness_stored\<lparr>blk_LogsBloom := 0\<rparr>), None) else (None, Some ''not found'')),
     h_GetBlockByHeight := (\<lambda>n. if n = 1 then (Some (witness_stored\<lparr>blk_LogsBloom := 0\<rparr>), None) else (None, Some ''not found''))\<rparr>\<rparr>"

lemma bloomless_history:
  "history_ok bloomless_backend 1 1" "head_stored bloomless_backend"
  "logs_at bloomless_backend 1 = [witness_log]" "bloom_at bloomless_backend 1 = 0"
proof -
  have one: "n = 1" if "1 \<le> sint n" "sint n \<le> 1" for n :: int64
  proof -
    from that have "sint n = sint (1 :: int64)" by simp
    then show ?thesis by (simp only: sint_inject)
  qed
  have logs: "block_logs bloomless_backend (witness_stored\<lparr>blk_LogsBloom := 0\<rparr>) = [witness_log]"
    by (simp add: block_logs_def bloomless_backend_def witness_backend_def witness_stored_def tx_geth_logs_def
        witness_tx_def witness_log_def)
  have "stored_ok bloomless_backend (witness_stored\<lparr>blk_LogsBloom := 0\<rparr>)"
    by (simp add: stored_ok_def logs) (simp add: bloomless_backend_def witness_stored_def witness_log_def)
  with one show "history_ok bloomless_backend 1 1"
    by (auto simp: history_ok_def bloomless_backend_def dest!: one)
  show "head_stored bloomless_backend" by (simp add: head_stored_def bloomless_backend_def witness_backend_def)
  show "logs_at bloomless_backend 1 = [witness_log]" "bloom_at bloomless_backend 1 = 0"
    using logs by (simp_all add: logs_at_def bloom_at_def) (simp_all add: bloomless_backend_def)
qed

theorem range_filter_finds_witness:
  "\<exists>f f'. Filter_Logs witness_geth (backend_service witness_backend)
      (NewRangeFilter (backend_service witness_backend) 1 1 [0xaa] [[7, 8]]) = Some (Inr (f, [witness_log], None)) \<and>
    Filter_Logs witness_geth (backend_service bloomless_backend)
      (NewRangeFilter (backend_service bloomless_backend) 1 1 [0xaa] [[7, 8]]) = Some (Inr (f', [], None))"
proof -
  have hs: "heights 1 (Suc 0) = [1]" by (simp add: heights_def)
  have one: "logs_at witness_backend 1 = [witness_log]" "bloom_at witness_backend 1 = 1"
    using witness_logs by (simp_all add: logs_at_def bloom_at_def) (simp_all add: witness_backend_def witness_stored_def)
  have "filterLogs [witness_log] None None [0xaa] [[7, 8]] = [witness_log]"
    by (simp add: filterLogs_eq criteria_ok_def witness_log_def)
  moreover have "bloom_covers witness_geth 1 [witness_log]" by (simp add: bloom_covers_def witness_geth_def)
  ultimately have "\<exists>f. Filter_Logs witness_geth (backend_service witness_backend)
      (NewRangeFilter (backend_service witness_backend) 1 1 [0xaa] [[7, 8]]) = Some (Inr (f, [witness_log], None))"
    using range_filter_finds [OF witness_history(1), of 1 1 1 witness_geth "[0xaa]" "[[7, 8]]"] witness_history(2)
    by (auto simp: hs one)
  moreover have "\<exists>f. Filter_Logs witness_geth (backend_service bloomless_backend)
      (NewRangeFilter (backend_service bloomless_backend) 1 1 [0xaa] [[7, 8]]) = Some (Inr (f, [], None))"
    using range_filter_finds [OF bloomless_history(1), of 1 1 1 witness_geth "[0xaa]" "[[7, 8]]"] bloomless_history(2)
    by (auto simp: hs bloomless_history(3,4) witness_geth_def)
  ultimately show ?thesis by blast
qed

text \<open>
  \<^verbatim>\<open>eth_getLogs\<close> with a block hash finds nothing as soon as it asks for an address or a topic:
  the header that the backend returns for a hash has an empty Bloom filter, which contains
  nothing, so that the logs of the block are never looked at, whatever they are.
\<close>

lemma GetLogs_by_hash_empty:
  assumes "\<And>x. \<not> BloomLookup G 0 x" and "BlockHash crit = Some k" and "k \<noteq> 0"
    and "Addresses crit \<noteq> [] \<or> (\<exists>sub \<in> set (Topics crit). sub \<noteq> [])"
    and "h_GetBlockByHash (hist B) k = (Some b, None)"
  shows "filterAPI_GetLogs G B crit = Some (Inr (Inr []))"
proof -
  have "\<not> bloomFilter G 0 (Addresses crit) (Topics crit)"
    using assms(1,4) by (auto simp: bloomFilter_def list_all_iff)
  with assms show ?thesis
    by (simp add: filterAPI_GetLogs_def Filter_Logs_def NewBlockFilter_def newFilter_def backend_service_def
        backend_HeaderByHash_def blockLogs_def returnLogs_def Let_def)
qed

lemma GetLogs_by_hash_empty_witness:
  "filterAPI_GetLogs witness_geth witness_backend
      \<lparr>BlockHash = Some 11, FromBlock = None, ToBlock = None, Addresses = [0xaa], Topics = []\<rparr> = Some (Inr (Inr [])) \<and>
    filterLogs (block_logs witness_backend witness_stored) None None [0xaa] [] = [witness_log]"
proof -
  have "filterLogs (block_logs witness_backend witness_stored) None None [0xaa] [] = [witness_log]"
    by (simp add: witness_logs filterLogs_eq criteria_ok_def witness_log_def)
  moreover have "filterAPI_GetLogs witness_geth witness_backend
      \<lparr>BlockHash = Some 11, FromBlock = None, ToBlock = None, Addresses = [0xaa], Topics = []\<rparr> = Some (Inr (Inr []))"
    by (rule GetLogs_by_hash_empty [where k = 11 and b = witness_stored])
      (simp_all add: witness_geth_def witness_backend_def)
  ultimately show ?thesis by simp
qed

lemma ucast_low: "(ucast (word_of_int x :: int64) :: uint32) = word_of_int x"
  by (rule bit_word_eqI) (simp add: bit_simps)

text \<open>
  The heights a query by range asks the history for: from the lower bound up to and including
  the upper one, when both fit in 32 bits (the history's range excludes its end); the latest
  block alone when there are no bounds; but when both are \<open>-1\<close>, as the block tag \<^verbatim>\<open>latest\<close> is
  decoded, the empty range from \<open>2 ^ 32 - 1\<close> to \<open>0\<close>.
\<close>

lemma GetLogs_queried_range:
  assumes "0 \<le> f" and "f < 2 ^ 32" and "0 \<le> t" and "t < 2 ^ 32 - 1"
  shows "(\<exists>s e. filterAPI_GetLogs G B \<lparr>BlockHash = None, FromBlock = Some f, ToBlock = Some t, Addresses = as, Topics = ts\<rparr> =
      Some (Inr (map_sum id (ToGethLogs (hist B)) (h_QueryLogs (hist B) as ts s e))) \<and> uint s = f \<and> uint e = t + 1) \<and>
    filterAPI_GetLogs G B \<lparr>BlockHash = None, FromBlock = None, ToBlock = None, Addresses = as, Topics = ts\<rparr> =
      Some (Inr (map_sum id (ToGethLogs (hist B)) (h_QueryLogs (hist B) as ts
        (ucast (LatestHeight B)) (ucast (LatestHeight B + 1))))) \<and>
    filterAPI_GetLogs G B \<lparr>BlockHash = None, FromBlock = Some (- 1), ToBlock = Some (- 1), Addresses = as, Topics = ts\<rparr> =
      Some (Inr (map_sum id (ToGethLogs (hist B)) (h_QueryLogs (hist B) as ts (2 ^ 32 - 1) 0)))"
proof -
  have query: "filterAPI_GetLogs G B \<lparr>BlockHash = None, FromBlock = Some x, ToBlock = Some y, Addresses = as, Topics = ts\<rparr> =
      Some (Inr (map_sum id (ToGethLogs (hist B)) (h_QueryLogs (hist B) as ts (word_of_int x) (word_of_int (y + 1)))))" for x y
  proof -
    have "(ucast (big_Int64 x) :: uint32) = word_of_int x" by (simp add: big_Int64_def ucast_low)
    moreover have "big_Int64 y + 1 = word_of_int (y + 1)" by (simp add: big_Int64_def)
    then have "(ucast (big_Int64 y + 1) :: uint32) = word_of_int (y + 1)" by (simp only: ucast_low)
    ultimately show ?thesis
      by (simp add: filterAPI_GetLogs_def backend_QueryLogs_def Let_def split: sum.split)
  qed
  have "uint (word_of_int f :: uint32) = f" "uint (word_of_int (t + 1) :: uint32) = t + 1"
    using assms by (simp_all add: unsigned_of_int take_bit_int_eq_self del: of_int_add of_int_1)
  with query [of f t] have "\<exists>s e. filterAPI_GetLogs G B \<lparr>BlockHash = None, FromBlock = Some f, ToBlock = Some t, Addresses = as, Topics = ts\<rparr> =
      Some (Inr (map_sum id (ToGethLogs (hist B)) (h_QueryLogs (hist B) as ts s e))) \<and> uint s = f \<and> uint e = t + 1"
    by blast
  moreover have "filterAPI_GetLogs G B \<lparr>BlockHash = None, FromBlock = None, ToBlock = None, Addresses = as, Topics = ts\<rparr> =
      Some (Inr (map_sum id (ToGethLogs (hist B)) (h_QueryLogs (hist B) as ts
        (ucast (LatestHeight B)) (ucast (LatestHeight B + 1)))))"
    by (simp add: filterAPI_GetLogs_def backend_QueryLogs_def Let_def split: sum.split)
  moreover have e: "(word_of_int (- 1) :: uint32) = 2 ^ 32 - 1" "(word_of_int (- 1 + 1) :: uint32) = 0" by simp_all
  note query [of "- 1" "- 1", unfolded e]
  ultimately show ?thesis by (intro conjI)
qed

lemma GetLogs_queried_range_witness:
  "filterAPI_GetLogs witness_geth witness_backend
     \<lparr>BlockHash = None, FromBlock = Some (- 1), ToBlock = Some (- 1), Addresses = [0xaa], Topics = []\<rparr> = Some (Inr (Inr [])) \<and>
   filterAPI_GetLogs witness_geth witness_backend
     \<lparr>BlockHash = None, FromBlock = None, ToBlock = None, Addresses = [0xaa], Topics = []\<rparr> = Some (Inr (Inr [witness_log]))"
  using GetLogs_queried_range [of 0 0 witness_geth witness_backend "[0xaa]" "[]"]
  by (simp add: witness_backend_def LatestHeight_def)

end
