(* ===== verification/Event_System.thy ===== *)
theory Event_System
  imports Api_Backend
begin

text \<open>
  The event system and the filter API (\<^verbatim>\<open>rpc/api/filters/geth_filter_system.go\<close> and
  \<^verbatim>\<open>rpc/api/filters/filter_api.go\<close>) as they run: the event loop, one goroutine for every filter that
  collects what the loop sends it, the timeout loop, and the callers of the API. A state of the
  machine is what these share: the loop's index of subscriptions and the sends it still has to
  make, the API's filters, what every goroutine is doing, and who is unsubscribing. The
  channels of a subscription are unbuffered, so that a send and its receive are one step; a
  handler computes the sends it makes, in the order in which it ranges over the index.
  \<^verbatim>\<open>filtersMu\<close> is held across steps only by the timeout loop, from its tick until it has looked at
  every filter. The error channels of the feeds, by which the event loop stops, are left out.
\<close>

section \<open>Data\<close>

datatype Type =
    UnknownSubscription
  | LogsSubscription
  | PendingLogsSubscription
  | MinedAndPendingLogsSubscription
  | PendingTransactionsSubscription
  | BlocksSubscription
  | LastIndexSubscription

type_synonym ID = string

record subscription =
  sub_id :: ID
  sub_typ :: Type
  logsCrit :: FilterCriteria

datatype event =
    NewTxsEvent
  | LogsEvent "Log list"
  | RemovedLogsEvent "Log list"
  | PendingLogsEvent "Log list"
  | ChainEvent Header

datatype message = LogsMsg "Log list" | HeaderMsg Header

record filter_data =
  f_typ :: Type
  f_expired :: bool
  f_hashes :: "bytes32 list"
  f_crit :: FilterCriteria
  f_logs :: "Log list"

datatype collector = Waiting | Holding message

datatype timeout = TIdle | TScan "ID list" | TUnsub ID Type "ID list"

datatype changes =
    Hashes "bytes32 list"
  | LogList "Log list"
  | NotFound
  | InvalidType

record sys =
  index :: "Type \<Rightarrow> ID \<rightharpoonup> subscription"
  sends :: "(ID \<times> message) list"
  filters :: "ID \<rightharpoonup> filter_data"
  collectors :: "ID \<rightharpoonup> collector"
  starting :: "ID \<rightharpoonup> subscription"
  leaving :: "ID \<rightharpoonup> Type"
  closed :: "ID set"
  timeoutState :: timeout
  used :: "ID set"

definition NewAPI :: sys where
  "NewAPI = \<lparr>index = (\<lambda>_. Map.empty), sends = [], filters = Map.empty, collectors = Map.empty,
     starting = Map.empty, leaving = Map.empty, closed = {}, timeoutState = TIdle, used = {}\<rparr>"

section \<open>Subscribing\<close>

definition SubscribeLogs :: "FilterCriteria \<Rightarrow> string + unit" where
  "SubscribeLogs crit =
     (let from = (case FromBlock crit of None \<Rightarrow> LatestBlockNumber | Some f \<Rightarrow> big_Int64 f);
          to = (case ToBlock crit of None \<Rightarrow> LatestBlockNumber | Some t \<Rightarrow> big_Int64 t)
      in
      if from = LatestBlockNumber \<and> to = LatestBlockNumber then Inr ()
      else if 0 \<le>s from \<and> 0 \<le>s to \<and> from \<le>s to then Inr ()
      else if 0 \<le>s from \<and> to = LatestBlockNumber then Inr ()
      else Inl ''invalid from and to block combination: from > to'')"

definition subscribeLogs :: "ID \<Rightarrow> FilterCriteria \<Rightarrow> subscription" where
  "subscribeLogs newID crit = \<lparr>sub_id = newID, sub_typ = LogsSubscription, logsCrit = crit\<rparr>"

definition no_criteria :: FilterCriteria where
  "no_criteria = \<lparr>BlockHash = None, FromBlock = None, ToBlock = None, Addresses = [], Topics = []\<rparr>"

definition SubscribeNewHeads :: "ID \<Rightarrow> subscription" where
  "SubscribeNewHeads newID = \<lparr>sub_id = newID, sub_typ = BlocksSubscription, logsCrit = no_criteria\<rparr>"

definition new_filter :: "subscription \<Rightarrow> filter_data" where
  "new_filter sub = \<lparr>f_typ = sub_typ sub, f_expired = False, f_hashes = [], f_crit = logsCrit sub, f_logs = []\<rparr>"

section \<open>The handlers of the event loop\<close>

definition crit_logs :: "FilterCriteria \<Rightarrow> Log list \<Rightarrow> Log list" where
  "crit_logs crit ev = filterLogs ev (FromBlock crit) (ToBlock crit) (Addresses crit) (Topics crit)"

definition send_logs :: "Log list \<Rightarrow> subscription \<Rightarrow> (ID \<times> message) list" where
  "send_logs ev f =
     (let matchedLogs = crit_logs (logsCrit f) ev in
      if 0 < length matchedLogs then [(sub_id f, LogsMsg matchedLogs)] else [])"

definition handleLogs :: "subscription list \<Rightarrow> Log list \<Rightarrow> (ID \<times> message) list" where
  "handleLogs order ev = (if length ev = 0 then [] else concat (map (send_logs ev) order))"

definition handleRemovedLogs :: "subscription list \<Rightarrow> Log list \<Rightarrow> (ID \<times> message) list" where
  "handleRemovedLogs order ev = concat (map (send_logs ev) order)"

definition handleTxsEvent :: "(ID \<times> message) list" where
  "handleTxsEvent = []"

definition handleChainEvent :: "subscription list \<Rightarrow> Header \<Rightarrow> (ID \<times> message) list" where
  "handleChainEvent order header = map (\<lambda>f. (sub_id f, HeaderMsg header)) order"

text \<open>\<open>order ty\<close> is the order in which the loop ranges over the subscriptions of type \<open>ty\<close>.\<close>

definition handle_event :: "(Type \<Rightarrow> subscription list) \<Rightarrow> event \<Rightarrow> (ID \<times> message) list" where
  "handle_event order ev =
     (case ev of
        NewTxsEvent \<Rightarrow> handleTxsEvent
      | LogsEvent ls \<Rightarrow> handleLogs (order LogsSubscription) ls
      | RemovedLogsEvent ls \<Rightarrow> handleRemovedLogs (order LogsSubscription) ls
      | PendingLogsEvent ls \<Rightarrow> []
      | ChainEvent header \<Rightarrow> handleChainEvent (order BlocksSubscription) header)"

definition index_order :: "sys \<Rightarrow> (Type \<Rightarrow> subscription list) \<Rightarrow> bool" where
  "index_order s order \<longleftrightarrow> (\<forall>ty. distinct (order ty) \<and> set (order ty) = ran (index s ty))"

definition install :: "subscription \<Rightarrow> sys \<Rightarrow> sys" where
  "install f s = s\<lparr>index := (index s)(sub_typ f := (index s (sub_typ f))(sub_id f \<mapsto> f))\<rparr>"

definition uninstall :: "Type \<Rightarrow> ID \<Rightarrow> sys \<Rightarrow> sys" where
  "uninstall ty k s = s\<lparr>index := (index s)(ty := (index s ty)(k := None)), closed := insert k (closed s)\<rparr>"

section \<open>The operations of the API\<close>

definition store_message :: "message \<Rightarrow> filter_data \<Rightarrow> filter_data" where
  "store_message m f = (case m of
       LogsMsg l \<Rightarrow> f\<lparr>f_logs := f_logs f @ l\<rparr>
     | HeaderMsg h \<Rightarrow> f\<lparr>f_hashes := f_hashes f @ [hdr_BlockHash h]\<rparr>)"

definition GetFilterChanges :: "ID \<Rightarrow> sys \<Rightarrow> changes \<times> sys" where
  "GetFilterChanges k s =
     (case filters s k of
        None \<Rightarrow> (NotFound, s)
      | Some f \<Rightarrow>
          let f = f\<lparr>f_expired := False\<rparr> in
          (case f_typ f of
             BlocksSubscription \<Rightarrow>
               (Hashes (f_hashes f), s\<lparr>filters := (filters s)(k \<mapsto> f\<lparr>f_hashes := []\<rparr>)\<rparr>)
           | LogsSubscription \<Rightarrow>
               (LogList (f_logs f), s\<lparr>filters := (filters s)(k \<mapsto> f\<lparr>f_logs := []\<rparr>)\<rparr>)
           | _ \<Rightarrow> (InvalidType, s\<lparr>filters := (filters s)(k \<mapsto> f)\<rparr>)))"

definition UninstallFilter :: "ID \<Rightarrow> sys \<Rightarrow> bool \<times> sys" where
  "UninstallFilter k s =
     (case filters s k of
        None \<Rightarrow> (False, s)
      | Some f \<Rightarrow> (True, s\<lparr>filters := (filters s)(k := None), leaving := (leaving s)(k \<mapsto> f_typ f)\<rparr>))"

definition GetFilterLogs :: "geth \<Rightarrow> 'l apiBackend \<Rightarrow> ID \<Rightarrow> sys \<Rightarrow> (string + Log list) go option" where
  "GetFilterLogs G B k s =
     (case filters s k of
        None \<Rightarrow> Some (Inr (Inl ''filter not found''))
      | Some f \<Rightarrow>
          if f_typ f \<noteq> LogsSubscription then Some (Inr (Inl ''filter not found''))
          else filterAPI_GetLogs G B (f_crit f))"

section \<open>Steps\<close>

text \<open>
  What a client sees of a step: a filter it asked for is installed, a poll returns, an uninstall
  returns; and the events, which come from the application.
\<close>

datatype label =
    Installed subscription
  | Event event
  | Polled ID changes
  | Uninstalled ID bool
  | Tau

definition unsubscribing :: "sys \<Rightarrow> ID \<Rightarrow> bool" where
  "unsubscribing s k \<longleftrightarrow> leaving s k \<noteq> None \<or>
     (case timeoutState s of TUnsub k' ty ks \<Rightarrow> k' = k | _ \<Rightarrow> False)"

inductive step :: "sys \<Rightarrow> label \<Rightarrow> sys \<Rightarrow> bool" where
  event: "sends s = [] \<Longrightarrow> index_order s order \<Longrightarrow>
    step s (Event ev) (s\<lparr>sends := handle_event order ev\<rparr>)"
| deliver: "sends s = (k, m) # ms \<Longrightarrow> collectors s k = Some Waiting \<Longrightarrow>
    step s Tau (s\<lparr>sends := ms, collectors := (collectors s)(k \<mapsto> Holding m)\<rparr>)"
| drain: "sends s = (k, m) # ms \<Longrightarrow> unsubscribing s k \<Longrightarrow> step s Tau (s\<lparr>sends := ms\<rparr>)"
| store: "collectors s k = Some (Holding m) \<Longrightarrow> timeoutState s = TIdle \<Longrightarrow>
    step s Tau (s\<lparr>filters := (filters s)(k := map_option (store_message m) (filters s k)),
                   collectors := (collectors s)(k \<mapsto> Waiting)\<rparr>)"
| collector_exit: "collectors s k = Some Waiting \<Longrightarrow> k \<in> closed s \<Longrightarrow> timeoutState s = TIdle \<Longrightarrow>
    step s Tau (s\<lparr>filters := (filters s)(k := None), collectors := (collectors s)(k := None)\<rparr>)"
| new_log_filter: "sends s = [] \<Longrightarrow> k \<notin> used s \<Longrightarrow> SubscribeLogs crit = Inr () \<Longrightarrow> sub = subscribeLogs k crit \<Longrightarrow>
    step s (Installed sub)
      ((install sub s)\<lparr>starting := (starting s)(k \<mapsto> sub), used := insert k (used s)\<rparr>)"
| new_block_filter: "sends s = [] \<Longrightarrow> k \<notin> used s \<Longrightarrow> sub = SubscribeNewHeads k \<Longrightarrow>
    step s (Installed sub)
      ((install sub s)\<lparr>starting := (starting s)(k \<mapsto> sub), used := insert k (used s)\<rparr>)"
| register: "starting s k = Some sub \<Longrightarrow> timeoutState s = TIdle \<Longrightarrow>
    step s Tau (s\<lparr>starting := (starting s)(k := None), filters := (filters s)(k \<mapsto> new_filter sub),
                   collectors := (collectors s)(k \<mapsto> Waiting)\<rparr>)"
| poll: "timeoutState s = TIdle \<Longrightarrow> GetFilterChanges k s = (r, s') \<Longrightarrow> step s (Polled k r) s'"
| uninstall_filter: "timeoutState s = TIdle \<Longrightarrow> UninstallFilter k s = (found, s') \<Longrightarrow>
    step s (Uninstalled k found) s'"
| unsubscribe: "sends s = [] \<Longrightarrow> leaving s k = Some ty \<Longrightarrow>
    step s Tau ((uninstall ty k s)\<lparr>leaving := (leaving s)(k := None)\<rparr>)"
| expire: "filters s k = Some f \<Longrightarrow>
    step s Tau (s\<lparr>filters := (filters s)(k \<mapsto> f\<lparr>f_expired := True\<rparr>)\<rparr>)"
| tick: "timeoutState s = TIdle \<Longrightarrow> distinct ks \<Longrightarrow> set ks = dom (filters s) \<Longrightarrow>
    step s Tau (s\<lparr>timeoutState := TScan ks\<rparr>)"
| scan_active: "timeoutState s = TScan (k # ks) \<Longrightarrow> filters s k = Some f \<Longrightarrow> \<not> f_expired f \<Longrightarrow>
    step s Tau (s\<lparr>timeoutState := TScan ks\<rparr>)"
| scan_expired: "timeoutState s = TScan (k # ks) \<Longrightarrow> filters s k = Some f \<Longrightarrow> f_expired f \<Longrightarrow>
    step s Tau (s\<lparr>timeoutState := TUnsub k (f_typ f) ks\<rparr>)"
| scan_unsubscribe: "timeoutState s = TUnsub k ty ks \<Longrightarrow> sends s = [] \<Longrightarrow>
    step s Tau ((uninstall ty k s)\<lparr>filters := (filters s)(k := None), timeoutState := TScan ks\<rparr>)"
| scan_done: "timeoutState s = TScan [] \<Longrightarrow> step s Tau (s\<lparr>timeoutState := TIdle\<rparr>)"

inductive steps :: "sys \<Rightarrow> label list \<Rightarrow> sys \<Rightarrow> bool" where
  none: "steps s [] s"
| more: "steps s tr t \<Longrightarrow> step t l u \<Longrightarrow> steps s (tr @ [l]) u"

inductive_cases stepE: "step s l t"

section \<open>What a trace says about one filter\<close>

text \<open>
  A filter collects something: logs or hashes of blocks. \<open>content m\<close> is what a message has of it, \<open>got r\<close>
  what the result of a poll has, and \<open>meant crit ev\<close> what an event means for a filter. Of a trace, \<open>watching_as\<close> are
  the criteria a filter of a type was installed with and what all events since mean for it; and
  \<open>received_as\<close> is what the polls of the filter have returned.
\<close>

definition sent_as :: "(message \<Rightarrow> 'a list) \<Rightarrow> ID \<Rightarrow> (ID \<times> message) list \<Rightarrow> 'a list" where
  "sent_as content k ms = concat (map (\<lambda>(k', m). if k' = k then content m else []) ms)"

definition held_as :: "(message \<Rightarrow> 'a list) \<Rightarrow> collector option \<Rightarrow> 'a list" where
  "held_as content c = (case c of Some (Holding m) \<Rightarrow> content m | _ \<Rightarrow> [])"

definition observe_as ::
  "Type \<Rightarrow> (FilterCriteria \<Rightarrow> event \<Rightarrow> 'a list) \<Rightarrow> ID \<Rightarrow> FilterCriteria option \<times> 'a list \<Rightarrow> label \<Rightarrow>
   FilterCriteria option \<times> 'a list" where
  "observe_as ty meant k = (\<lambda>(c, xs) l. case l of
      Installed sub \<Rightarrow> if sub_id sub = k \<and> sub_typ sub = ty then (Some (logsCrit sub), []) else (c, xs)
    | Event ev \<Rightarrow> (c, xs @ (case c of None \<Rightarrow> [] | Some crit \<Rightarrow> meant crit ev))
    | _ \<Rightarrow> (c, xs))"

definition watching_as ::
  "Type \<Rightarrow> (FilterCriteria \<Rightarrow> event \<Rightarrow> 'a list) \<Rightarrow> ID \<Rightarrow> label list \<Rightarrow> FilterCriteria option \<times> 'a list" where
  "watching_as ty meant k tr = foldl (observe_as ty meant k) (None, []) tr"

definition polled_as :: "(changes \<Rightarrow> 'a list) \<Rightarrow> ID \<Rightarrow> label \<Rightarrow> 'a list" where
  "polled_as got k l = (case l of Polled k' r \<Rightarrow> if k' = k then got r else [] | _ \<Rightarrow> [])"

definition received_as :: "(changes \<Rightarrow> 'a list) \<Rightarrow> ID \<Rightarrow> label list \<Rightarrow> 'a list" where
  "received_as got k tr = concat (map (polled_as got k) tr)"

lemma watching_snoc [simp]: "watching_as ty meant k (tr @ [l]) = observe_as ty meant k (watching_as ty meant k tr) l"
  by (simp add: watching_as_def)

lemma received_snoc [simp]: "received_as got k (tr @ [l]) = received_as got k tr @ polled_as got k l"
  by (simp add: received_as_def)

lemma sent_simps [simp]:
  "sent_as content k [] = []"
  "sent_as content k ((k', m) # ms) = (if k' = k then content m else []) @ sent_as content k ms"
  by (simp_all add: sent_as_def)

lemma sent_append [simp]: "sent_as content k (ms @ ns) = sent_as content k ms @ sent_as content k ns"
  by (simp add: sent_as_def)

lemma observe_tau [simp]:
  "observe_as ty meant k w Tau = w" "observe_as ty meant k w (Polled k' r) = w" "observe_as ty meant k w (Uninstalled k' b) = w"
  by (simp_all add: observe_as_def split: prod.split)

lemma observe_event [simp]: "observe_as ty meant k (Some crit, xs) (Event ev) = (Some crit, xs @ meant crit ev)"
  by (simp add: observe_as_def)

lemma observe_installed:
  "observe_as ty meant k w (Installed sub) =
     (if sub_id sub = k \<and> sub_typ sub = ty then (Some (logsCrit sub), []) else w)"
  by (simp add: observe_as_def split: prod.split)

lemma polled_simps [simp]:
  "polled_as got k Tau = []" "polled_as got k (Event ev) = []" "polled_as got k (Installed sub) = []"
  "polled_as got k (Uninstalled k' b) = []" "polled_as got k (Polled k' r) = (if k' = k then got r else [])"
  by (simp_all add: polled_as_def)

section \<open>The invariant\<close>

definition keys_ok :: "sys \<Rightarrow> bool" where
  "keys_ok s \<longleftrightarrow> (\<forall>ty k sub. index s ty k = Some sub \<longrightarrow> sub_id sub = k)"

lemma keys_ok_step:
  assumes "step s l t" and "keys_ok s"
  shows "keys_ok t"
  using assms
  by (cases rule: step.cases)
    (auto simp: keys_ok_def install_def uninstall_def subscribeLogs_def SubscribeNewHeads_def GetFilterChanges_def
      UninstallFilter_def Let_def split: option.splits if_splits Type.splits)

text \<open>A filter is stable unless the timeout loop is removing it.\<close>

definition stable :: "sys \<Rightarrow> ID \<Rightarrow> bool" where
  "stable s k \<longleftrightarrow> (\<forall>ty ks. timeoutState s \<noteq> TUnsub k ty ks)"

definition unsub_ok :: "sys \<Rightarrow> ID \<Rightarrow> bool" where
  "unsub_ok s k \<longleftrightarrow> stable s k \<or> filters s k \<noteq> None"

lemma poll_keeps:
  assumes "GetFilterChanges k s = (r, s')"
  obtains (absent) "filters s k = None" "s' = s"
  | (polled) f g where "filters s k = Some f" "s' = s\<lparr>filters := (filters s)(k \<mapsto> g)\<rparr>" "f_typ g = f_typ f"
proof (cases "filters s k")
  case None
  with assms show thesis by (intro absent) (simp_all add: GetFilterChanges_def)
next
  case (Some f)
  with assms have "\<exists>g. s' = s\<lparr>filters := (filters s)(k \<mapsto> g)\<rparr> \<and> f_typ g = f_typ f"
    by (cases "f_typ f") (auto simp: GetFilterChanges_def Let_def)
  with polled [OF Some] show thesis by blast
qed

lemma unsub_ok_step:
  assumes "step s l t" and "unsub_ok s j"
  shows "unsub_ok t j"
  using assms(1)
proof (cases rule: step.cases)
  case (poll k r)
  from poll(3) show ?thesis
    by (cases rule: poll_keeps) (use assms(2) poll in \<open>auto simp: unsub_ok_def stable_def\<close>)
next
  case (uninstall_filter k found)
  then show ?thesis by (auto simp: unsub_ok_def stable_def UninstallFilter_def split: option.splits)
qed (use assms(2) in \<open>auto simp: unsub_ok_def stable_def install_def uninstall_def\<close>)

text \<open>
  What a kind of filter promises: a handler sends to a filter in the index exactly what the event means for it and
  to others nothing of the kind; storing a message appends its content; and a poll returns all
  that is kept, and keeps nothing. The invariant of the steps is proved once, for every kind.
\<close>

lemma new_filter_typ: "f_typ (new_filter sub) = sub_typ sub" "f_crit (new_filter sub) = logsCrit sub"
  by (simp_all add: new_filter_def)

lemma store_message_typ [simp]: "f_typ (store_message m f) = f_typ f" "f_crit (store_message m f) = f_crit f"
  by (simp_all add: store_message_def split: message.split)

locale delivery =
  fixes ty :: Type and content :: "message \<Rightarrow> 'a list" and kept :: "filter_data \<Rightarrow> 'a list"
    and got :: "changes \<Rightarrow> 'a list" and meant :: "FilterCriteria \<Rightarrow> event \<Rightarrow> 'a list"
  assumes sends_meant: "keys_ok s \<Longrightarrow> index_order s order \<Longrightarrow> index s ty k = Some sub \<Longrightarrow>
      sent_as content k (handle_event order ev) = meant (logsCrit sub) ev"
    and sends_none: "keys_ok s \<Longrightarrow> index_order s order \<Longrightarrow> index s ty k = None \<Longrightarrow>
      sent_as content k (handle_event order ev) = []"
    and kept_stored: "kept (store_message m f) = kept f @ content m"
    and kept_new: "kept (new_filter sub) = []"
    and kept_expired: "kept (f\<lparr>f_expired := b\<rparr>) = kept f"
    and got_absent: "got NotFound = []"
    and got_kept: "GetFilterChanges k s = (r, s') \<Longrightarrow> filters s k = Some f \<Longrightarrow> f_typ f = ty \<Longrightarrow>
      got r = kept f \<and> (\<exists>g. s' = s\<lparr>filters := (filters s)(k \<mapsto> g)\<rparr> \<and> f_typ g = ty \<and> f_crit g = f_crit f \<and> kept g = [])"
begin

definition fresh_ok :: "label list \<Rightarrow> sys \<Rightarrow> ID \<Rightarrow> bool" where
  "fresh_ok tr s k \<longleftrightarrow> k \<notin> used s \<longrightarrow> (\<forall>ty. index s ty k = None) \<and> filters s k = None \<and> collectors s k = None \<and>
     starting s k = None \<and> leaving s k = None \<and> received_as got k tr = [] \<and> sent_as content k (sends s) = []"

definition starting_ok :: "label list \<Rightarrow> sys \<Rightarrow> ID \<Rightarrow> bool" where
  "starting_ok tr s k \<longleftrightarrow> (\<forall>sub. starting s k = Some sub \<longrightarrow>
     filters s k = None \<and> collectors s k = None \<and> leaving s k = None \<and> received_as got k tr = [] \<and>
     (sub_typ sub = ty \<longrightarrow> index s ty k = Some sub \<and>
        watching_as ty meant k tr = (Some (logsCrit sub), sent_as content k (sends s))))"

text \<open>
  Of a filter of this kind, everything that the events since its installation mean for it has been
  returned by a poll, is kept for the next poll, is held by the filter's goroutine or is about to
  be sent, in this order.
\<close>

definition filter_ok :: "label list \<Rightarrow> sys \<Rightarrow> ID \<Rightarrow> bool" where
  "filter_ok tr s k \<longleftrightarrow> (\<forall>f. filters s k = Some f \<longrightarrow>
     starting s k = None \<and> leaving s k = None \<and> collectors s k \<noteq> None \<and>
     (f_typ f = ty \<longrightarrow>
        (\<exists>sub. index s ty k = Some sub \<and> logsCrit sub = f_crit f) \<and>
        fst (watching_as ty meant k tr) = Some (f_crit f) \<and>
        (stable s k \<longrightarrow> snd (watching_as ty meant k tr) =
           received_as got k tr @ kept f @ held_as content (collectors s k) @ sent_as content k (sends s))))"

definition inv :: "label list \<Rightarrow> sys \<Rightarrow> bool" where
  "inv tr s \<longleftrightarrow> keys_ok s \<and> (\<forall>k. fresh_ok tr s k \<and> starting_ok tr s k \<and> filter_ok tr s k \<and> unsub_ok s k)"

lemma inv_NewAPI: "inv [] NewAPI"
  by (simp add: inv_def keys_ok_def fresh_ok_def starting_ok_def filter_ok_def unsub_ok_def stable_def NewAPI_def
      received_as_def)

lemma invD:
  assumes "inv tr s"
  shows "keys_ok s" and "fresh_ok tr s k" and "starting_ok tr s k" and "filter_ok tr s k" and "unsub_ok s k"
  using assms by (simp_all add: inv_def)

lemma poll_absent: "GetFilterChanges k s = (r, s') \<Longrightarrow> filters s k = None \<Longrightarrow> got r = [] \<and> s' = s"
  by (auto simp: GetFilterChanges_def got_absent)

lemma fresh_ok_step:
  assumes "step s l t" and "inv tr s"
  shows "fresh_ok (tr @ [l]) t j"
proof -
  note inv = invD(1) [OF assms(2)] invD(2-5) [OF assms(2), of j]
  from assms(1) show ?thesis
  proof (cases rule: step.cases)
    case (event order ev)
    with inv(2) sends_none [OF inv(1) event(4), of j ev] show ?thesis by (simp add: fresh_ok_def)
  next
    case (poll k r)
    with inv(2) poll_absent [OF poll(3)] show ?thesis
      by (cases rule: poll_keeps [OF poll(3)]) (auto simp: fresh_ok_def)
  next
    case (uninstall_filter k found)
    with inv(2) show ?thesis by (auto simp: fresh_ok_def UninstallFilter_def split: option.splits)
  qed (use inv(2) in \<open>auto simp: fresh_ok_def install_def uninstall_def subscribeLogs_def SubscribeNewHeads_def split: if_splits\<close>)
qed

lemma starting_ok_step:
  assumes "step s l t" and "inv tr s"
  shows "starting_ok (tr @ [l]) t j"
proof -
  note inv = invD(1) [OF assms(2)] invD(2-5) [OF assms(2), of j]
  from assms(1) show ?thesis
  proof (cases rule: step.cases)
    case (event order ev)
    with inv(3) sends_meant [OF inv(1) event(4), of j _ ev] show ?thesis
      by (simp add: starting_ok_def)
  next
    case (drain k m ms)
    with inv(3,5) show ?thesis
      by (auto simp: starting_ok_def unsubscribing_def unsub_ok_def stable_def split: timeout.splits)
  next
    case (new_log_filter k crit sub)
    with inv(2,3) show ?thesis
      by (auto simp: starting_ok_def fresh_ok_def install_def subscribeLogs_def observe_installed)
  next
    case (new_block_filter k sub)
    with inv(2,3) show ?thesis
      by (auto simp: starting_ok_def fresh_ok_def install_def SubscribeNewHeads_def observe_installed)
  next
    case (poll k r)
    with inv(3) poll_absent [OF poll(3)] show ?thesis
      by (cases rule: poll_keeps [OF poll(3)]) (auto simp: starting_ok_def)
  next
    case (uninstall_filter k found)
    with inv(3,4) show ?thesis
      by (auto simp: starting_ok_def filter_ok_def UninstallFilter_def split: option.splits)
  next
    case (scan_unsubscribe k ty' ks)
    with inv(3,5) show ?thesis
      by (auto simp: starting_ok_def uninstall_def unsub_ok_def stable_def)
  qed (use inv(3) in \<open>auto simp: starting_ok_def install_def uninstall_def\<close>)
qed

lemma filter_ok_event:
  assumes "inv tr s" and "sends s = []" and "index_order s order" and "filters s j = Some f" and "f_typ f = ty"
  shows "\<exists>sub. index s ty j = Some sub \<and> logsCrit sub = f_crit f"
    and "fst (observe_as ty meant j (watching_as ty meant j tr) (Event ev)) = Some (f_crit f)"
    and "stable s j \<Longrightarrow> snd (observe_as ty meant j (watching_as ty meant j tr) (Event ev)) =
      received_as got j tr @ kept f @ held_as content (collectors s j) @ sent_as content j (handle_event order ev)"
proof -
  from invD(4) [OF assms(1), of j] assms(2,4,5) obtain sub where sub: "index s ty j = Some sub" "logsCrit sub = f_crit f"
    and w: "fst (watching_as ty meant j tr) = Some (f_crit f)"
    and eq: "stable s j \<Longrightarrow> snd (watching_as ty meant j tr) = received_as got j tr @ kept f @ held_as content (collectors s j)"
    by (auto simp: filter_ok_def)
  have "observe_as ty meant j (watching_as ty meant j tr) (Event ev) =
      (Some (f_crit f), snd (watching_as ty meant j tr) @ sent_as content j (handle_event order ev))"
    using sends_meant [OF invD(1) [OF assms(1)] assms(3) sub(1), of ev] w sub(2)
    by (metis observe_event prod.collapse)
  with sub eq show "\<exists>sub. index s ty j = Some sub \<and> logsCrit sub = f_crit f"
    "fst (observe_as ty meant j (watching_as ty meant j tr) (Event ev)) = Some (f_crit f)"
    "stable s j \<Longrightarrow> snd (observe_as ty meant j (watching_as ty meant j tr) (Event ev)) =
      received_as got j tr @ kept f @ held_as content (collectors s j) @ sent_as content j (handle_event order ev)"
    by simp_all
qed

lemma filter_ok_poll:
  assumes "inv tr s" and "GetFilterChanges k s = (r, s')"
  shows "filter_ok (tr @ [Polled k r]) s' j"
proof (cases "j = k \<and> (\<exists>f. filters s k = Some f \<and> f_typ f = ty)")
  case True
  then obtain f where f: "filters s k = Some f" "f_typ f = ty" by blast
  from got_kept [OF assms(2) f] obtain g where r: "got r = kept f" and g: "s' = s\<lparr>filters := (filters s)(k \<mapsto> g)\<rparr>"
    "f_typ g = ty" "f_crit g = f_crit f" "kept g = []" by blast
  with True f invD(4) [OF assms(1), of k] show ?thesis by (auto simp: filter_ok_def stable_def)
next
  case False
  from assms(2) show ?thesis
    by (cases rule: poll_keeps)
      (use False poll_absent [OF assms(2)] invD(4) [OF assms(1), of j] in \<open>auto simp: filter_ok_def stable_def split: if_splits\<close>)
qed

lemma filter_ok_step:
  assumes "step s l t" and "inv tr s"
  shows "filter_ok (tr @ [l]) t j"
proof -
  note inv = invD(1) [OF assms(2)] invD(2-5) [OF assms(2), of j]
  from assms(1) show ?thesis
  proof (cases rule: step.cases)
    case (event order ev)
    with inv(4) filter_ok_event [OF assms(2) event(3,4), of j] show ?thesis
      by (simp add: filter_ok_def stable_def)
  next
    case (deliver k m ms)
    with inv(4) show ?thesis by (auto simp: filter_ok_def stable_def held_as_def split: if_splits)
  next
    case (drain k m ms)
    with inv(4) show ?thesis by (auto simp: filter_ok_def stable_def unsubscribing_def split: timeout.splits)
  next
    case (store k m)
    with inv(4) show ?thesis
      by (auto simp: filter_ok_def stable_def held_as_def kept_stored split: if_splits)
  next
    case (new_log_filter k crit sub)
    with inv(2,4) show ?thesis
      by (auto simp: filter_ok_def fresh_ok_def stable_def install_def subscribeLogs_def observe_installed split: if_splits)
  next
    case (new_block_filter k sub)
    with inv(2,4) show ?thesis
      by (auto simp: filter_ok_def fresh_ok_def stable_def install_def SubscribeNewHeads_def observe_installed split: if_splits)
  next
    case (register k sub)
    with inv(3,4) show ?thesis
      by (auto simp: filter_ok_def starting_ok_def stable_def kept_new new_filter_typ held_as_def split: if_splits)
  next
    case (poll k r)
    with filter_ok_poll [OF assms(2) poll(3)] show ?thesis by simp
  next
    case (uninstall_filter k found)
    with inv(4) show ?thesis
      by (auto simp: filter_ok_def stable_def UninstallFilter_def split: option.splits if_splits)
  next
    case (unsubscribe k ty')
    with inv(4) show ?thesis by (auto simp: filter_ok_def stable_def uninstall_def split: if_splits)
  next
    case (expire k f)
    with inv(4) show ?thesis by (auto simp: filter_ok_def stable_def kept_expired split: if_splits)
  next
    case (scan_unsubscribe k ty' ks)
    with inv(4) show ?thesis by (auto simp: filter_ok_def stable_def uninstall_def split: if_splits)
  qed (use inv(4) in \<open>auto simp: filter_ok_def stable_def split: if_splits\<close>)
qed

lemma inv_step:
  assumes "step s l t" and "inv tr s"
  shows "inv (tr @ [l]) t"
  using keys_ok_step [OF assms(1) invD(1) [OF assms(2)]] fresh_ok_step [OF assms] starting_ok_step [OF assms]
    filter_ok_step [OF assms] unsub_ok_step [OF assms(1) invD(5) [OF assms(2)]]
  by (simp add: inv_def)

lemma inv_steps: "steps s tr t \<Longrightarrow> s = NewAPI \<Longrightarrow> inv tr t"
  by (induction rule: steps.induct) (simp_all add: inv_NewAPI inv_step)

lemma delivers_once:
  assumes "steps NewAPI tr s" and "filters s k = Some f" and "f_typ f = ty"
  shows "fst (watching_as ty meant k tr) = Some (f_crit f)" and "collectors s k \<noteq> None"
    and "stable s k \<Longrightarrow> snd (watching_as ty meant k tr) =
      received_as got k tr @ kept f @ held_as content (collectors s k) @ sent_as content k (sends s)"
  using invD(4) [OF inv_steps [OF assms(1) refl], of k] assms(2,3) by (simp_all add: filter_ok_def)

end

section \<open>Logs and blocks\<close>

lemma sent_other:
  assumes "\<forall>f \<in> set order. sub_id f \<noteq> k \<and> fst ` set (g f) \<subseteq> {sub_id f}"
  shows "sent_as content k (concat (map g order)) = []"
proof -
  have "sent_as content k ms = []" if "k \<notin> fst ` set ms" for ms :: "(ID \<times> message) list"
    using that by (induction ms) auto
  moreover have "k \<notin> fst ` set (concat (map g order))" using assms by fastforce
  ultimately show ?thesis .
qed

lemma sent_one:
  assumes "distinct order" and "f \<in> set order" and "sub_id f = k" and "\<forall>h \<in> set order. sub_id h = k \<longrightarrow> h = f"
    and "\<forall>h \<in> set order. fst ` set (g h) \<subseteq> {sub_id h}"
  shows "sent_as content k (concat (map g order)) = sent_as content k (g f)"
proof -
  from assms(2) obtain pre post where order: "order = pre @ f # post" by (meson split_list)
  have other: "sub_id h \<noteq> k \<and> fst ` set (g h) \<subseteq> {sub_id h}" if "h \<in> set order" "h \<noteq> f" for h
    using that assms(4,5) by blast
  have "f \<notin> set pre" "f \<notin> set post" using assms(1) by (simp_all add: order)
  then have "sent_as content k (concat (map g pre)) = []" "sent_as content k (concat (map g post)) = []"
    by (intro sent_other ballI other, auto simp: order)+
  then show ?thesis by (simp add: order)
qed

text \<open>The handlers send to a filter in the index once, and to no other identifier.\<close>

lemma sent_in_index:
  assumes "keys_ok s" and "index_order s order" and "\<And>f. fst ` set (g f) \<subseteq> {sub_id f}"
  shows "index s ty k = Some sub \<Longrightarrow> sent_as content k (concat (map g (order ty))) = sent_as content k (g sub)"
    and "index s ty k = None \<Longrightarrow> sent_as content k (concat (map g (order ty))) = []"
proof -
  have order: "distinct (order ty)" "set (order ty) = ran (index s ty)"
    using assms(2) by (auto simp: index_order_def)
  have key: "f \<in> set (order ty) \<Longrightarrow> index s ty (sub_id f) = Some f" for f
    using assms(1) order(2) by (auto simp: ran_def keys_ok_def)
  show "sent_as content k (concat (map g (order ty))) = sent_as content k (g sub)" if sub: "index s ty k = Some sub"
  proof (rule sent_one [OF order(1)])
    show "sub \<in> set (order ty)" using sub order(2) by (auto simp: ran_def)
    show "sub_id sub = k" using assms(1) sub by (auto simp: keys_ok_def)
    show "\<forall>h \<in> set (order ty). sub_id h = k \<longrightarrow> h = sub" using key sub by fastforce
  qed (use assms(3) in simp)
  show "sent_as content k (concat (map g (order ty))) = []" if none: "index s ty k = None"
  proof (rule sent_other)
    show "\<forall>f \<in> set (order ty). sub_id f \<noteq> k \<and> fst ` set (g f) \<subseteq> {sub_id f}" using key none assms(3) by fastforce
  qed
qed

lemma sent_nothing: "\<forall>x \<in> set ms. content (snd x) = [] \<Longrightarrow> sent_as content k ms = []"
  by (induction ms) auto

lemma crit_logs_Nil [simp]: "crit_logs crit [] = []"
  by (simp add: crit_logs_def filterLogs_def)

lemma send_logs_target: "fst ` set (send_logs ev f) \<subseteq> {sub_id f}"
  by (auto simp: send_logs_def Let_def split: if_splits)

lemma handleChainEvent_concat: "handleChainEvent order h = concat (map (\<lambda>f. [(sub_id f, HeaderMsg h)]) order)"
  by (simp add: handleChainEvent_def)

text \<open>A log filter collects logs.\<close>

definition msg_logs :: "message \<Rightarrow> Log list" where
  "msg_logs m = (case m of LogsMsg l \<Rightarrow> l | HeaderMsg h \<Rightarrow> [])"

definition changes_logs :: "changes \<Rightarrow> Log list" where
  "changes_logs r = (case r of LogList ls \<Rightarrow> ls | _ \<Rightarrow> [])"

definition event_logs :: "FilterCriteria \<Rightarrow> event \<Rightarrow> Log list" where
  "event_logs crit ev = (case ev of LogsEvent new \<Rightarrow> crit_logs crit new | RemovedLogsEvent new \<Rightarrow> crit_logs crit new | _ \<Rightarrow> [])"

abbreviation sent :: "ID \<Rightarrow> (ID \<times> message) list \<Rightarrow> Log list" where "sent \<equiv> sent_as msg_logs"
abbreviation held :: "collector option \<Rightarrow> Log list" where "held \<equiv> held_as msg_logs"
abbreviation watching :: "ID \<Rightarrow> label list \<Rightarrow> FilterCriteria option \<times> Log list" where
  "watching \<equiv> watching_as LogsSubscription event_logs"
abbreviation received :: "ID \<Rightarrow> label list \<Rightarrow> Log list" where "received \<equiv> received_as changes_logs"

lemma sent_send_logs: "sent (sub_id f) (send_logs ev f) = crit_logs (logsCrit f) ev"
  by (simp add: send_logs_def msg_logs_def Let_def)

interpretation log_delivery: delivery LogsSubscription msg_logs f_logs changes_logs event_logs
proof
  fix s order k sub ev
  assume s: "keys_ok s" "index_order s order"
  note index = sent_in_index [OF s send_logs_target, where content = msg_logs]
  have headers: "sent k (handleChainEvent subs h) = []" for subs h
    by (rule sent_nothing) (auto simp: handleChainEvent_def msg_logs_def)
  show "sent k (handle_event order ev) = event_logs (logsCrit sub) ev" if sub: "index s LogsSubscription k = Some sub"
  proof -
    have "sub_id sub = k" using s(1) sub by (auto simp: keys_ok_def)
    with index(1) [OF sub] sent_send_logs [of sub] headers show ?thesis
      by (cases ev) (auto simp: handle_event_def handleLogs_def handleRemovedLogs_def handleTxsEvent_def event_logs_def)
  qed
  show "sent k (handle_event order ev) = []" if "index s LogsSubscription k = None"
    using index(2) [OF that] headers
    by (cases ev) (auto simp: handle_event_def handleLogs_def handleRemovedLogs_def handleTxsEvent_def)
next
  fix k s r s' f
  assume "GetFilterChanges k s = (r, s')" and "filters s k = Some f" and "f_typ f = LogsSubscription"
  then show "changes_logs r = f_logs f \<and>
      (\<exists>g. s' = s\<lparr>filters := (filters s)(k \<mapsto> g)\<rparr> \<and> f_typ g = LogsSubscription \<and> f_crit g = f_crit f \<and> f_logs g = [])"
    by (auto simp: GetFilterChanges_def changes_logs_def Let_def)
qed (simp_all add: store_message_def msg_logs_def new_filter_def changes_logs_def split: message.split)

text \<open>A block filter collects the hashes of new blocks.\<close>

definition msg_hashes :: "message \<Rightarrow> bytes32 list" where
  "msg_hashes m = (case m of LogsMsg l \<Rightarrow> [] | HeaderMsg h \<Rightarrow> [hdr_BlockHash h])"

definition changes_hashes :: "changes \<Rightarrow> bytes32 list" where
  "changes_hashes r = (case r of Hashes hs \<Rightarrow> hs | _ \<Rightarrow> [])"

definition event_hashes :: "FilterCriteria \<Rightarrow> event \<Rightarrow> bytes32 list" where
  "event_hashes crit ev = (case ev of ChainEvent h \<Rightarrow> [hdr_BlockHash h] | _ \<Rightarrow> [])"

interpretation block_delivery: delivery BlocksSubscription msg_hashes f_hashes changes_hashes event_hashes
proof
  fix s order k sub ev
  assume s: "keys_ok s" "index_order s order"
  have logs: "sent_as msg_hashes k (concat (map (send_logs new) subs)) = []" for new subs
    by (rule sent_nothing) (auto simp: send_logs_def msg_hashes_def Let_def split: if_splits)
  show "sent_as msg_hashes k (handle_event order ev) = event_hashes (logsCrit sub) ev"
    if sub: "index s BlocksSubscription k = Some sub"
  proof -
    have "sub_id sub = k" using s(1) sub by (auto simp: keys_ok_def)
    with sent_in_index(1) [OF s _ sub, of "\<lambda>f. [(sub_id f, HeaderMsg h)]" msg_hashes for h] logs show ?thesis
      by (cases ev) (simp_all add: handle_event_def handleLogs_def handleRemovedLogs_def handleTxsEvent_def
          handleChainEvent_concat event_hashes_def msg_hashes_def)
  qed
  show "sent_as msg_hashes k (handle_event order ev) = []" if none: "index s BlocksSubscription k = None"
    using sent_in_index(2) [OF s _ none, of "\<lambda>f. [(sub_id f, HeaderMsg h)]" msg_hashes for h] logs
    by (cases ev) (simp_all add: handle_event_def handleLogs_def handleRemovedLogs_def handleTxsEvent_def
        handleChainEvent_concat)
next
  fix k s r s' f
  assume "GetFilterChanges k s = (r, s')" and "filters s k = Some f" and "f_typ f = BlocksSubscription"
  then show "changes_hashes r = f_hashes f \<and>
      (\<exists>g. s' = s\<lparr>filters := (filters s)(k \<mapsto> g)\<rparr> \<and> f_typ g = BlocksSubscription \<and> f_crit g = f_crit f \<and> f_hashes g = [])"
    by (auto simp: GetFilterChanges_def changes_hashes_def Let_def)
qed (simp_all add: store_message_def msg_hashes_def new_filter_def changes_hashes_def split: message.split)

section \<open>Progress without the timeout loop\<close>

text \<open>
  The type of an identifier is the same wherever it occurs; and whoever the event loop has to
  send to is there to receive, or is still being registered.
\<close>

definition kind_ok :: "sys \<Rightarrow> ID \<Rightarrow> bool" where
  "kind_ok s k \<longleftrightarrow> (\<exists>ty. (\<forall>ty'. index s ty' k \<noteq> None \<longrightarrow> ty' = ty) \<and>
     (\<forall>sub. starting s k = Some sub \<longrightarrow> sub_typ sub = ty) \<and> (\<forall>f. filters s k = Some f \<longrightarrow> f_typ f = ty) \<and>
     (\<forall>ty'. leaving s k = Some ty' \<longrightarrow> ty' = ty) \<and> (\<forall>ty' ks. timeoutState s = TUnsub k ty' ks \<longrightarrow> ty' = ty))"

definition receiver_ok :: "sys \<Rightarrow> ID \<Rightarrow> bool" where
  "receiver_ok s k \<longleftrightarrow> ((\<exists>ty. index s ty k \<noteq> None) \<or> k \<in> fst ` set (sends s) \<longrightarrow>
     k \<notin> closed s \<and> (starting s k \<noteq> None \<or> collectors s k \<noteq> None)) \<and> (k \<in> closed s \<longrightarrow> k \<in> used s)"

lemma handle_event_target:
  assumes "keys_ok s" and "index_order s order" and "k \<in> fst ` set (handle_event order ev)"
  shows "\<exists>ty. index s ty k \<noteq> None"
proof -
  have logs: "\<exists>f \<in> set (order LogsSubscription). k = sub_id f"
    if "k \<in> fst ` set (concat (map (send_logs new) (order LogsSubscription)))" for new
    using that send_logs_target by fastforce
  have "\<exists>ty. \<exists>f \<in> set (order ty). k = sub_id f"
  proof (cases ev)
    case (LogsEvent new)
    with assms(3) have "k \<in> fst ` set (concat (map (send_logs new) (order LogsSubscription)))"
      by (simp add: handle_event_def handleLogs_def split: if_splits)
    then show ?thesis using logs by blast
  next
    case (RemovedLogsEvent new)
    with assms(3) have "k \<in> fst ` set (concat (map (send_logs new) (order LogsSubscription)))"
      by (simp add: handle_event_def handleRemovedLogs_def)
    then show ?thesis using logs by blast
  next
    case (ChainEvent h)
    with assms(3) have "\<exists>f \<in> set (order BlocksSubscription). k = sub_id f"
      by (auto simp: handle_event_def handleChainEvent_def)
    then show ?thesis by blast
  qed (use assms(3) in \<open>simp_all add: handle_event_def handleTxsEvent_def\<close>)
  then obtain ty f where "f \<in> ran (index s ty)" and "k = sub_id f"
    using assms(2) by (auto simp: index_order_def)
  then obtain k' where "index s ty k' = Some f" by (auto simp: ran_def)
  moreover from this have "k' = k" using assms(1) \<open>k = sub_id f\<close> by (auto simp: keys_ok_def)
  ultimately show ?thesis by (intro exI [of _ ty]) simp
qed

lemma kind_ok_step:
  assumes "step s l t" and "log_delivery.inv tr s" and "kind_ok s j"
  shows "kind_ok t j"
proof -
  note inv = log_delivery.invD(2-5) [OF assms(2), of j]
  from assms(3) obtain ty where ty: "\<forall>ty'. index s ty' j \<noteq> None \<longrightarrow> ty' = ty"
    "\<forall>sub. starting s j = Some sub \<longrightarrow> sub_typ sub = ty" "\<forall>f. filters s j = Some f \<longrightarrow> f_typ f = ty"
    "\<forall>ty'. leaving s j = Some ty' \<longrightarrow> ty' = ty" "\<forall>ty' ks. timeoutState s = TUnsub j ty' ks \<longrightarrow> ty' = ty"
    unfolding kind_ok_def by blast
  from assms(1) show ?thesis
  proof (cases rule: step.cases)
    case (new_log_filter k crit sub)
    with inv(1,4) ty show ?thesis
      unfolding kind_ok_def
      by (intro exI [of _ "if k = j then LogsSubscription else ty"])
        (auto simp: log_delivery.fresh_ok_def unsub_ok_def stable_def install_def subscribeLogs_def)
  next
    case (new_block_filter k sub)
    with inv(1,4) ty show ?thesis
      unfolding kind_ok_def
      by (intro exI [of _ "if k = j then BlocksSubscription else ty"])
        (auto simp: log_delivery.fresh_ok_def unsub_ok_def stable_def install_def SubscribeNewHeads_def)
  next
    case (store k m)
    with ty show ?thesis
      unfolding kind_ok_def by (intro exI [of _ ty]) auto
  next
    case (poll k r)
    from poll(3) show ?thesis
      by (cases rule: poll_keeps) (use ty poll in \<open>auto simp: kind_ok_def intro!: exI [of _ ty]\<close>)
  next
    case (uninstall_filter k found)
    with ty show ?thesis
      unfolding kind_ok_def by (intro exI [of _ ty]) (auto simp: UninstallFilter_def split: option.splits if_splits)
  qed (use ty in \<open>auto simp: kind_ok_def uninstall_def new_filter_def intro!: exI [of _ ty] split: if_splits\<close>)
qed

lemma receiver_ok_step:
  assumes "step s l t" and "log_delivery.inv tr s" and "kind_ok s j" and "receiver_ok s j"
  shows "receiver_ok t j"
proof -
  note inv = log_delivery.invD(1) [OF assms(2)] log_delivery.invD(2-5) [OF assms(2), of j]
  note r = assms(4) [unfolded receiver_ok_def]
  from assms(1) show ?thesis
  proof (cases rule: step.cases)
    case (event order ev)
    with r handle_event_target [OF inv(1) event(4), of j ev] show ?thesis by (auto simp: receiver_ok_def)
  next
    case (new_log_filter k crit sub)
    with r show ?thesis by (auto simp: receiver_ok_def install_def subscribeLogs_def split: if_splits)
  next
    case (new_block_filter k sub)
    with r show ?thesis by (auto simp: receiver_ok_def install_def SubscribeNewHeads_def split: if_splits)
  next
    case (poll k r')
    from poll(3) show ?thesis
      by (cases rule: poll_keeps) (use r poll in \<open>auto simp: receiver_ok_def\<close>)
  next
    case (uninstall_filter k found)
    with r show ?thesis by (auto simp: receiver_ok_def UninstallFilter_def split: option.splits)
  next
    case (unsubscribe k ty)
    show ?thesis
    proof (cases "j = k")
      case True
      with unsubscribe assms(3) have "\<forall>ty'. index s ty' k \<noteq> None \<longrightarrow> ty' = ty" unfolding kind_ok_def by blast
      moreover have "k \<in> used s" using True inv(2) unsubscribe by (auto simp: log_delivery.fresh_ok_def)
      ultimately show ?thesis using unsubscribe True by (auto simp: receiver_ok_def uninstall_def)
    next
      case False
      with unsubscribe r show ?thesis by (auto simp: receiver_ok_def uninstall_def split: if_splits)
    qed
  next
    case (scan_unsubscribe k ty ks)
    show ?thesis
    proof (cases "j = k")
      case True
      with scan_unsubscribe assms(3) have "\<forall>ty'. index s ty' k \<noteq> None \<longrightarrow> ty' = ty" unfolding kind_ok_def by blast
      moreover have "filters s k \<noteq> None"
        using True inv(5) scan_unsubscribe(3) by (auto simp: unsub_ok_def stable_def)
      then have "k \<in> used s" using True inv(2) by (auto simp: log_delivery.fresh_ok_def)
      ultimately show ?thesis using scan_unsubscribe True by (auto simp: receiver_ok_def uninstall_def)
    next
      case False
      with scan_unsubscribe r show ?thesis by (auto simp: receiver_ok_def uninstall_def split: if_splits)
    qed
  qed (use r in \<open>auto simp: receiver_ok_def split: if_splits\<close>)
qed

lemma live_steps: "steps s tr t \<Longrightarrow> s = NewAPI \<Longrightarrow> kind_ok t k \<and> receiver_ok t k"
proof (induction rule: steps.induct)
  case (none s)
  then show ?case by (simp add: kind_ok_def receiver_ok_def NewAPI_def)
next
  case (more s tr t l u)
  from log_delivery.inv_steps [OF more.hyps(1) more.prems] have inv: "log_delivery.inv tr t" .
  with more show ?case by (auto intro: kind_ok_step receiver_ok_step)
qed

lemma steps_trans: "steps t tr' u \<Longrightarrow> steps s tr t \<Longrightarrow> steps s (tr @ tr') u"
proof (induction rule: steps.induct)
  case (none t)
  then show ?case by simp
next
  case (more t tr' u l v)
  from steps.more [OF more.IH [OF more.prems] more.hyps(2)] show ?case by simp
qed

lemma steps_one: "step s l t \<Longrightarrow> steps s [l] t"
  using steps.more [OF steps.none] by fastforce

text \<open>Steps of the goroutines that keep a log filter, with the timeout loop idle.\<close>

definition quietly :: "ID \<Rightarrow> sys \<Rightarrow> sys \<Rightarrow> bool" where
  "quietly k s t \<longleftrightarrow> (\<exists>n. steps s (replicate n Tau) t) \<and> timeoutState t = TIdle \<and>
     (\<exists>f. filters t k = Some f \<and> f_typ f = LogsSubscription)"

lemma quietly_step:
  assumes "step s Tau t" and "timeoutState t = TIdle" and "filters t k = Some f" and "f_typ f = LogsSubscription"
  shows "quietly k s t"
  using steps_one [OF assms(1)] assms(2-) unfolding quietly_def
  by (intro conjI exI [of _ f] exI [of _ "1::nat"]) simp_all

lemma quietly_trans: "quietly k s t \<Longrightarrow> quietly k t u \<Longrightarrow> quietly k s u"
  unfolding quietly_def by (metis replicate_add steps_trans)

lemma quietly_flush:
  assumes "timeoutState s = TIdle" and "filters s k = Some f" and "f_typ f = LogsSubscription"
    and "collectors s j = Some c"
  shows "\<exists>t. quietly k s t \<and> sends t = sends s \<and> collectors t j = Some Waiting"
proof (cases c)
  case Waiting
  have "quietly k s s"
    using steps.none [of s] assms(1-3) unfolding quietly_def by (intro conjI exI [of _ f] exI [of _ "0::nat"]) simp_all
  with Waiting assms(4) show ?thesis by blast
next
  case (Holding m)
  let ?t = "s\<lparr>filters := (filters s)(j := map_option (store_message m) (filters s j)),
      collectors := (collectors s)(j \<mapsto> Waiting)\<rparr>"
  have "step s Tau ?t" using assms Holding by (intro step.store) simp_all
  then have "quietly k s ?t"
    by (rule quietly_step [where f = "if j = k then store_message m f else f"]) (use assms in auto)
  then show ?thesis by (intro exI [of _ ?t]) simp
qed

lemma quietly_deliver:
  assumes "timeoutState s = TIdle" and "filters s k = Some f" and "f_typ f = LogsSubscription"
    and "sends s = (j, m) # ms" and "collectors s j \<noteq> None"
  shows "\<exists>t. quietly k s t \<and> sends t = ms"
proof -
  from assms(5) obtain c where "collectors s j = Some c" by blast
  from quietly_flush [OF assms(1-3) this] obtain t where
    t: "quietly k s t" "sends t = (j, m) # ms" "collectors t j = Some Waiting" using assms(4) by auto
  let ?u = "t\<lparr>sends := ms, collectors := (collectors t)(j \<mapsto> Holding m)\<rparr>"
  have "step t Tau ?u" using t by (intro step.deliver)
  moreover from t(1) obtain g where "timeoutState t = TIdle" "filters t k = Some g" "f_typ g = LogsSubscription"
    by (auto simp: quietly_def)
  ultimately have "quietly k t ?u" by (intro quietly_step [where f = g]) simp_all
  from quietly_trans [OF t(1) this] show ?thesis by (intro exI [of _ ?u]) simp
qed

lemma quietly_send:
  assumes "steps NewAPI tr s" and "timeoutState s = TIdle" and "filters s k = Some f"
    and "f_typ f = LogsSubscription" and "sends s = (j, m) # ms"
  shows "\<exists>t. quietly k s t \<and> sends t = ms"
proof (cases "collectors s j")
  case (Some c)
  with quietly_deliver [OF assms(2-5)] show ?thesis by simp
next
  case None
  have "receiver_ok s j" using live_steps [OF assms(1)] by blast
  with None assms(5) obtain sub where sub: "starting s j = Some sub" by (auto simp: receiver_ok_def)
  have "log_delivery.starting_ok tr s j" using log_delivery.invD(3) [OF log_delivery.inv_steps [OF assms(1) refl]] .
  with sub assms(3) have "j \<noteq> k" by (auto simp: log_delivery.starting_ok_def)
  let ?t = "s\<lparr>starting := (starting s)(j := None), filters := (filters s)(j \<mapsto> new_filter sub),
      collectors := (collectors s)(j \<mapsto> Waiting)\<rparr>"
  have "step s Tau ?t" using sub assms(2) by (rule step.register)
  then have q: "quietly k s ?t" by (rule quietly_step [where f = f]) (use assms \<open>j \<noteq> k\<close> in simp_all)
  have "\<exists>u. quietly k ?t u \<and> sends u = ms"
    by (rule quietly_deliver [of _ _ f j m]) (use assms \<open>j \<noteq> k\<close> in simp_all)
  with quietly_trans [OF q] show ?thesis by blast
qed

lemma quietly_reachable: "steps NewAPI tr s \<Longrightarrow> quietly k s t \<Longrightarrow> \<exists>n. steps NewAPI (tr @ replicate n Tau) t"
  unfolding quietly_def using steps_trans by blast

lemma quietly_drain:
  assumes "steps NewAPI tr s" and "timeoutState s = TIdle" and "filters s k = Some f" and "f_typ f = LogsSubscription"
  shows "\<exists>t. quietly k s t \<and> sends t = []"
  using assms
proof (induction "sends s" arbitrary: tr s f)
  case Nil
  then have "quietly k s s"
    using steps.none [of s] unfolding quietly_def by (intro conjI exI [of _ f] exI [of _ "0::nat"]) simp_all
  with Nil show ?case by auto
next
  case (Cons x ms)
  obtain j m where x: "x = (j, m)" by fastforce
  with Cons.hyps(2) have "sends s = (j, m) # ms" by simp
  from quietly_send [OF Cons.prems this] obtain t where t: "quietly k s t" "sends t = ms" by blast
  from quietly_reachable [OF Cons.prems(1) t(1)] obtain n where "steps NewAPI (tr @ replicate n Tau) t" by blast
  moreover from t(1) obtain g where "timeoutState t = TIdle" "filters t k = Some g" "f_typ g = LogsSubscription"
    by (auto simp: quietly_def)
  ultimately obtain u where "quietly k t u" "sends u = []" using Cons.hyps(1) t(2) by blast
  with quietly_trans [OF t(1)] show ?case by blast
qed

lemma watching_taus [simp]: "watching k (tr @ replicate n Tau) = watching k tr"
proof -
  have "foldl (observe_as LogsSubscription event_logs k) w (replicate n Tau) = w" for w by (induction n) simp_all
  then show ?thesis by (simp add: watching_as_def)
qed

lemma received_taus [simp]: "received k (tr @ replicate n Tau) = received k tr"
  by (simp add: received_as_def)

section \<open>A deadlock\<close>

text \<open>
  The event loop waits for the goroutine of one filter, which waits for the lock; the lock is held
  by the timeout loop, which waits for the event loop to uninstall another filter.
\<close>

definition frozen :: "sys \<Rightarrow> bool" where
  "frozen s \<longleftrightarrow> (\<exists>k m ms m' k' ty ks. sends s = (k, m) # ms \<and> collectors s k = Some (Holding m') \<and>
     leaving s k = None \<and> timeoutState s = TUnsub k' ty ks \<and> k' \<noteq> k)"

lemma frozen_step:
  assumes "step s l t" and "frozen s"
  shows "frozen t \<and> sends t = sends s \<and> timeoutState t = timeoutState s \<and> l = Tau"
proof -
  from assms(2) obtain k m ms m' k' ty ks where f: "sends s = (k, m) # ms" "collectors s k = Some (Holding m')"
    "leaving s k = None" "timeoutState s = TUnsub k' ty ks" "k' \<noteq> k" unfolding frozen_def by blast
  from assms(1) show ?thesis
    by (cases rule: step.cases) (use f in \<open>auto simp: frozen_def unsubscribing_def\<close>)
qed

lemma frozen_steps:
  "steps s tr t \<Longrightarrow> frozen s \<Longrightarrow> frozen t \<and> sends t = sends s \<and> timeoutState t = timeoutState s \<and> set tr \<subseteq> {Tau}"
proof (induction rule: steps.induct)
  case (none s)
  then show ?case by simp
next
  case (more s tr t l u)
  with frozen_step [OF more.hyps(2)] show ?case by simp
qed

definition crit_a :: FilterCriteria where
  "crit_a = no_criteria\<lparr>Addresses := [1]\<rparr>"

definition sub_a :: subscription where "sub_a = subscribeLogs ''a'' crit_a"
definition sub_b :: subscription where "sub_b = subscribeLogs ''b'' no_criteria"

definition two_filters :: sys where
  "two_filters = NewAPI\<lparr>
     index := (\<lambda>_. Map.empty)(LogsSubscription := [''a'' \<mapsto> sub_a, ''b'' \<mapsto> sub_b]),
     filters := [''a'' \<mapsto> new_filter sub_a, ''b'' \<mapsto> new_filter sub_b],
     collectors := [''a'' \<mapsto> Waiting, ''b'' \<mapsto> Waiting], used := {''a'', ''b''}\<rparr>"

definition deadlocked :: sys where
  "deadlocked = two_filters\<lparr>
     filters := [''a'' \<mapsto> (new_filter sub_a)\<lparr>f_expired := True\<rparr>, ''b'' \<mapsto> new_filter sub_b],
     sends := [(''b'', LogsMsg [witness_log])],
     collectors := [''a'' \<mapsto> Waiting, ''b'' \<mapsto> Holding (LogsMsg [witness_log])],
     timeoutState := TUnsub ''a'' LogsSubscription [''b'']\<rparr>"

lemma SubscribeLogs_open: "FromBlock crit = None \<Longrightarrow> ToBlock crit = None \<Longrightarrow> SubscribeLogs crit = Inr ()"
  by (simp add: SubscribeLogs_def)

lemma two_filters_reached: "steps NewAPI [Installed sub_a, Tau, Installed sub_b, Tau] two_filters"
proof -
  let ?s1 = "NewAPI\<lparr>index := (\<lambda>_. Map.empty)(LogsSubscription := [''a'' \<mapsto> sub_a]),
      starting := [''a'' \<mapsto> sub_a], used := {''a''}\<rparr>"
  let ?s2 = "?s1\<lparr>starting := Map.empty, filters := [''a'' \<mapsto> new_filter sub_a], collectors := [''a'' \<mapsto> Waiting]\<rparr>"
  let ?s3 = "?s2\<lparr>index := (\<lambda>_. Map.empty)(LogsSubscription := [''a'' \<mapsto> sub_a, ''b'' \<mapsto> sub_b]),
      starting := [''b'' \<mapsto> sub_b], used := {''a'', ''b''}\<rparr>"
  have st1: "step NewAPI (Installed sub_a) ?s1"
    using step.new_log_filter [of NewAPI "''a''" crit_a sub_a] SubscribeLogs_open [of crit_a]
    by (simp add: NewAPI_def sub_a_def subscribeLogs_def install_def crit_a_def no_criteria_def fun_upd_def)
  have st2: "step ?s1 Tau ?s2"
    using step.register [of ?s1 "''a''" sub_a] by (simp add: NewAPI_def)
  have st3: "step ?s2 (Installed sub_b) ?s3"
    using step.new_log_filter [of ?s2 "''b''" no_criteria sub_b] SubscribeLogs_open [of no_criteria]
    by (simp add: NewAPI_def sub_b_def subscribeLogs_def install_def no_criteria_def insert_commute)
  have st4: "step ?s3 Tau two_filters"
    using step.register [of ?s3 "''b''" sub_b] by (simp add: NewAPI_def two_filters_def)
  show ?thesis
    using steps.more [OF steps.more [OF steps.more [OF steps.more [OF steps.none st1] st2] st3] st4] by simp
qed

definition log_order :: "Type \<Rightarrow> subscription list" where
  "log_order = (\<lambda>_. [])(LogsSubscription := [sub_a, sub_b])"

lemma log_order: "index s = index two_filters \<Longrightarrow> index_order s log_order"
proof -
  assume s: "index s = index two_filters"
  have "sub_a \<noteq> sub_b" by (simp add: sub_a_def sub_b_def subscribeLogs_def)
  moreover have "ran [''a'' \<mapsto> sub_a, ''b'' \<mapsto> sub_b] = {sub_b, sub_a}" by (subst ran_map_upd) simp_all
  ultimately show ?thesis unfolding index_order_def s log_order_def by (auto simp: two_filters_def)
qed

lemma log_event:
  assumes "index s = index two_filters" and "sends s = []"
  shows "step s (Event (LogsEvent [witness_log])) (s\<lparr>sends := [(''b'', LogsMsg [witness_log])]\<rparr>)"
proof -
  have "handle_event log_order (LogsEvent [witness_log]) = [(''b'', LogsMsg [witness_log])]"
    by (simp add: handle_event_def handleLogs_def send_logs_def crit_logs_def filterLogs_def log_selected_def sub_a_def
        sub_b_def subscribeLogs_def crit_a_def no_criteria_def witness_log_def log_order_def criteria_ok_def)
  with step.event [OF assms(2) log_order [OF assms(1)], of "LogsEvent [witness_log]"] show ?thesis by simp
qed

lemma deadlock_reached:
  "steps two_filters [Event (LogsEvent [witness_log]), Tau, Event (LogsEvent [witness_log]), Tau, Tau, Tau] deadlocked"
proof -
  let ?m = "[(''b'', LogsMsg [witness_log])]"
  let ?s1 = "two_filters\<lparr>sends := ?m\<rparr>"
  let ?s2 = "two_filters\<lparr>collectors := [''a'' \<mapsto> Waiting, ''b'' \<mapsto> Holding (LogsMsg [witness_log])]\<rparr>"
  let ?s3 = "?s2\<lparr>sends := ?m\<rparr>"
  let ?s4 = "?s3\<lparr>filters := [''a'' \<mapsto> (new_filter sub_a)\<lparr>f_expired := True\<rparr>, ''b'' \<mapsto> new_filter sub_b]\<rparr>"
  let ?s5 = "?s4\<lparr>timeoutState := TScan [''a'', ''b'']\<rparr>"
  have st1: "step two_filters (Event (LogsEvent [witness_log])) ?s1"
    by (rule log_event) (simp_all add: two_filters_def NewAPI_def)
  have st2: "step ?s1 Tau ?s2"
    using step.deliver [of ?s1 "''b''" "LogsMsg [witness_log]" "[]"]
    by (simp add: two_filters_def NewAPI_def)
  have st3: "step ?s2 (Event (LogsEvent [witness_log])) ?s3"
    by (rule log_event) (simp_all add: two_filters_def NewAPI_def)
  have st4: "step ?s3 Tau ?s4"
    using step.expire [of ?s3 "''a''" "new_filter sub_a"] by (simp add: two_filters_def fun_upd_twist)
  have st5: "step ?s4 Tau ?s5"
    using step.tick [of ?s4 "[''a'', ''b'']"] by (simp add: two_filters_def NewAPI_def insert_commute)
  have st6: "step ?s5 Tau deadlocked"
    using step.scan_expired [of ?s5 "''a''" "[''b'']" "(new_filter sub_a)\<lparr>f_expired := True\<rparr>"]
    by (simp add: deadlocked_def two_filters_def NewAPI_def new_filter_def sub_a_def subscribeLogs_def)
  show ?thesis
    using steps.more [OF steps.more [OF steps.more [OF steps.more [OF steps.more [OF steps.more [OF steps.none st1] st2] st3] st4] st5] st6] by simp
qed

lemma deadlocked_frozen: "frozen deadlocked"
  by (simp add: frozen_def deadlocked_def two_filters_def NewAPI_def)

section \<open>Properties\<close>

text \<open>
  (C27) Exactly-once delivery: in every interleaving of the event loop, the goroutines, the timeout
  loop and the callers, the logs that match a filter since it was installed are those that its
  polls have returned, followed by those kept for the next poll, those its goroutine holds and
  those about to be sent to it: nothing is lost, repeated or reordered, as long as the filter is
  there and is not being removed by the timeout loop.
\<close>

theorem filter_delivers_once:
  assumes "steps NewAPI tr s" and "filters s k = Some f" and "f_typ f = LogsSubscription" and "stable s k"
  shows "fst (watching k tr) = Some (f_crit f) \<and>
    snd (watching k tr) = received k tr @ f_logs f @ held (collectors s k) @ sent k (sends s)"
  using log_delivery.delivers_once [OF assms(1-3)] assms(4) by blast

text \<open>
  (C28) The same for block filters: the hashes of the blocks announced since a block filter was installed are those
  that its polls have returned, those kept for the next poll, the one its goroutine holds and
  those about to be sent to it, in this order.
\<close>

theorem block_filter_delivers_once:
  assumes "steps NewAPI tr s" and "filters s k = Some f" and "f_typ f = BlocksSubscription" and "stable s k"
  shows "snd (watching_as BlocksSubscription event_hashes k tr) =
    received_as changes_hashes k tr @ f_hashes f @ held_as msg_hashes (collectors s k) @ sent_as msg_hashes k (sends s)"
  by (rule block_delivery.delivers_once(3) [OF assms])

text \<open>
  (C29) What matches a filter can be polled: whenever the timeout loop is idle, the goroutines alone
  can bring the system to a state in which a poll of the filter returns everything that
  matched and was not yet returned.
\<close>

theorem filter_logs_arrive:
  assumes "steps NewAPI tr s" and "filters s k = Some f" and "f_typ f = LogsSubscription"
    and "timeoutState s = TIdle"
  shows "\<exists>n t ls u. steps s (replicate n Tau) t \<and> step t (Polled k (LogList ls)) u \<and>
    snd (watching k tr) = received k tr @ ls"
proof -
  from quietly_drain [OF assms(1,4,2,3)] obtain t where t: "quietly k s t" "sends t = []" by blast
  then obtain g where g: "timeoutState t = TIdle" "filters t k = Some g" "f_typ g = LogsSubscription"
    by (auto simp: quietly_def)
  from quietly_reachable [OF assms(1) t(1)] obtain n where "steps NewAPI (tr @ replicate n Tau) t" by blast
  from log_delivery.invD(4) [OF log_delivery.inv_steps [OF this refl], of k] g(2) obtain c where "collectors t k = Some c"
    by (auto simp: log_delivery.filter_ok_def)
  from quietly_flush [OF g this] obtain u where u: "quietly k t u" "sends u = []" "collectors u k = Some Waiting"
    using t(2) by auto
  then obtain h where h: "timeoutState u = TIdle" "filters u k = Some h" "f_typ h = LogsSubscription"
    by (auto simp: quietly_def)
  from quietly_trans [OF t(1) u(1)] have su: "quietly k s u" .
  from quietly_reachable [OF assms(1) this] obtain m where "steps NewAPI (tr @ replicate m Tau) u" by blast
  from log_delivery.invD(4) [OF log_delivery.inv_steps [OF this refl], of k] h u have "snd (watching k tr) = received k tr @ f_logs h"
    by (simp add: log_delivery.filter_ok_def stable_def held_as_def)
  moreover from h have "\<exists>v. step u (Polled k (LogList (f_logs h))) v"
    by (intro exI step.poll) (simp_all add: GetFilterChanges_def)
  moreover from su obtain n where "steps s (replicate n Tau) u" by (auto simp: quietly_def)
  ultimately show ?thesis by blast
qed

text \<open>
  (C30) The filter API can deadlock: there is a run with two log filters, two events and one filter
  that has not been polled, after which nothing but timers ever happens again: the event loop
  keeps a log it cannot send, the timeout loop keeps the lock, and no call of the API returns.
\<close>

theorem filter_api_deadlocks:
  "\<exists>tr s. steps NewAPI tr s \<and> sends s \<noteq> [] \<and> timeoutState s \<noteq> TIdle \<and>
    (\<forall>tr' t. steps s tr' t \<longrightarrow> sends t = sends s \<and> timeoutState t = timeoutState s \<and> set tr' \<subseteq> {Tau})"
proof (intro exI conjI)
  show "steps NewAPI ([Installed sub_a, Tau, Installed sub_b, Tau] @
      [Event (LogsEvent [witness_log]), Tau, Event (LogsEvent [witness_log]), Tau, Tau, Tau]) deadlocked"
    by (rule steps_trans [OF deadlock_reached two_filters_reached])
  show "sends deadlocked \<noteq> []" "timeoutState deadlocked \<noteq> TIdle" by (simp_all add: deadlocked_def)
  show "\<forall>tr' t. steps deadlocked tr' t \<longrightarrow>
      sends t = sends deadlocked \<and> timeoutState t = timeoutState deadlocked \<and> set tr' \<subseteq> {Tau}"
    using frozen_steps deadlocked_frozen by blast
qed

theorem filter_api_deadlocks_witness:
  "\<exists>s. \<not> (\<exists>k r u. step s (Polled k r) u) \<and> sends s \<noteq> []"
proof -
  from filter_api_deadlocks obtain s where s: "sends s \<noteq> []"
    "\<forall>tr' t. steps s tr' t \<longrightarrow> sends t = sends s \<and> timeoutState t = timeoutState s \<and> set tr' \<subseteq> {Tau}" by blast
  have "\<not> (\<exists>k r u. step s (Polled k r) u)" using s(2) steps_one by fastforce
  with s(1) show ?thesis by blast
qed

lemma event_reached:
  "steps NewAPI ([Installed sub_a, Tau, Installed sub_b, Tau] @ [Event (LogsEvent [witness_log])])
     (two_filters\<lparr>sends := [(''b'', LogsMsg [witness_log])]\<rparr>)"
  by (rule steps.more [OF two_filters_reached log_event]) (simp_all add: two_filters_def NewAPI_def)

lemma watching_witness:
  "watching ''b'' ([Installed sub_a, Tau, Installed sub_b, Tau] @ [Event (LogsEvent [witness_log])]) =
     (Some no_criteria, [witness_log])"
  "received ''b'' ([Installed sub_a, Tau, Installed sub_b, Tau] @ [Event (LogsEvent [witness_log])]) = []"
  by (simp_all add: watching_as_def received_as_def observe_as_def event_logs_def sub_a_def sub_b_def subscribeLogs_def crit_logs_def
      filterLogs_eq log_selected_any criteria_ok_def no_criteria_def)

theorem filter_delivers_once_witness:
  "snd (watching ''b'' [Installed sub_a, Tau, Installed sub_b, Tau, Event (LogsEvent [witness_log])]) = [witness_log] \<and>
   sent ''b'' (sends (two_filters\<lparr>sends := [(''b'', LogsMsg [witness_log])]\<rparr>)) = [witness_log]"
  using filter_delivers_once [OF event_reached, of "''b''" "new_filter sub_b"] watching_witness
  by (simp add: two_filters_def NewAPI_def stable_def new_filter_def sub_b_def subscribeLogs_def held_as_def)

theorem filter_logs_arrive_witness:
  "\<exists>n t u. steps (two_filters\<lparr>sends := [(''b'', LogsMsg [witness_log])]\<rparr>) (replicate n Tau) t \<and>
    step t (Polled ''b'' (LogList [witness_log])) u"
  using filter_logs_arrive [OF event_reached, of "''b''" "new_filter sub_b"] watching_witness
  by (simp add: two_filters_def NewAPI_def new_filter_def sub_b_def subscribeLogs_def)

definition sub_h :: subscription where "sub_h = SubscribeNewHeads ''h''"

definition block_watcher :: sys where
  "block_watcher = NewAPI\<lparr>index := (\<lambda>_. Map.empty)(BlocksSubscription := [''h'' \<mapsto> sub_h]),
     filters := [''h'' \<mapsto> new_filter sub_h], collectors := [''h'' \<mapsto> Waiting], used := {''h''}\<rparr>"

lemma block_watcher_reached: "steps NewAPI [Installed sub_h, Tau] block_watcher"
proof -
  let ?s1 = "NewAPI\<lparr>index := (\<lambda>_. Map.empty)(BlocksSubscription := [''h'' \<mapsto> sub_h]), starting := [''h'' \<mapsto> sub_h],
      used := {''h''}\<rparr>"
  have "step NewAPI (Installed sub_h) ?s1"
    using step.new_block_filter [of NewAPI "''h''" sub_h]
    by (simp add: NewAPI_def sub_h_def SubscribeNewHeads_def install_def fun_upd_def)
  moreover have "step ?s1 Tau block_watcher"
    using step.register [of ?s1 "''h''" sub_h] by (simp add: NewAPI_def block_watcher_def)
  ultimately show ?thesis using steps.more [OF steps.more [OF steps.none]] by simp
qed

lemma block_announced:
  "step block_watcher (Event (ChainEvent h)) (block_watcher\<lparr>sends := [(''h'', HeaderMsg h)]\<rparr>)"
proof -
  let ?order = "(\<lambda>_. [])(BlocksSubscription := [sub_h])"
  have "index_order block_watcher ?order" by (auto simp: index_order_def block_watcher_def)
  moreover have "sends block_watcher = []" by (simp add: block_watcher_def NewAPI_def)
  moreover have "handle_event ?order (ChainEvent h) = [(''h'', HeaderMsg h)]"
    by (simp add: handle_event_def handleChainEvent_def sub_h_def SubscribeNewHeads_def)
  ultimately show ?thesis using step.event [of block_watcher ?order "ChainEvent h"] by simp
qed

theorem block_filter_delivers_once_witness:
  "\<exists>s h. steps NewAPI [Installed sub_h, Tau, Event (ChainEvent h)] s \<and> hdr_BlockHash h = 7 \<and>
     sent_as msg_hashes ''h'' (sends s) = [7]"
proof -
  let ?h = "\<lparr>hdr_Number = 1, hdr_BlockHash = 7, hdr_Bloom = 0\<rparr>" and ?tr = "[Installed sub_h, Tau]"
  let ?s = "block_watcher\<lparr>sends := [(''h'', HeaderMsg ?h)]\<rparr>"
  have run: "steps NewAPI (?tr @ [Event (ChainEvent ?h)]) ?s"
    by (rule steps.more [OF block_watcher_reached block_announced])
  have "snd (watching_as BlocksSubscription event_hashes ''h'' (?tr @ [Event (ChainEvent ?h)])) = [7]"
    "received_as changes_hashes ''h'' (?tr @ [Event (ChainEvent ?h)]) = []"
    by (simp_all add: watching_as_def received_as_def observe_as_def event_hashes_def sub_h_def SubscribeNewHeads_def)
  with block_filter_delivers_once [OF run, of "''h''" "new_filter sub_h"] have "sent_as msg_hashes ''h'' (sends ?s) = [7]"
    by (simp add: block_watcher_def NewAPI_def stable_def new_filter_def sub_h_def SubscribeNewHeads_def held_as_def)
  with run show ?thesis by (intro exI [of _ ?s] exI [of _ ?h]) simp
qed

end
