(* ===== verification/Msgp.thy ===== *)
theory Msgp
  imports Go_Base
begin

text \<open>
  The interface of the MessagePack library (\<^verbatim>\<open>github.com/tinylib/msgp\<close>) that the generated code
  of \<^verbatim>\<open>staking/types/types_gen.go\<close> calls. The library is not part of the repository, so its
  functions are the fields of three records that the generated code takes as arguments: a
  reader (the byte-slice functions \<^verbatim>\<open>msgp.ReadInt64Bytes\<close>, \<dots>, with the slice as the state, or
  the methods of a \<^verbatim>\<open>msgp.Reader\<close>), a writer (the methods of a \<^verbatim>\<open>msgp.Writer\<close>) and the
  \<^verbatim>\<open>msgp.Append\<close> functions. What the code relies on is the MessagePack format: \<open>msgp_laws\<close>.
  A small implementation of the format, \<open>mp_reader\<close> and \<open>mp_append\<close>, shows that the laws
  can hold; the witnesses run on it.
\<close>

section \<open>The library's functions as parameters\<close>

datatype errctx = Fld string | Idx nat

record ('r, 'e) reader =
  ReadMapHeader :: "'r \<Rightarrow> 'e + uint32 \<times> 'r"
  ReadMapKey :: "'r \<Rightarrow> 'e + bytes \<times> 'r"
  ReadInt64 :: "'r \<Rightarrow> 'e + int64 \<times> 'r"
  ReadExactBytes :: "'r \<Rightarrow> nat \<Rightarrow> 'e + bytes \<times> 'r"
  ReadString :: "'r \<Rightarrow> 'e + bytes \<times> 'r"
  ReadBool :: "'r \<Rightarrow> 'e + bool \<times> 'r"
  ReadArrayHeader :: "'r \<Rightarrow> 'e + uint32 \<times> 'r"
  IsNil :: "'r \<Rightarrow> bool"
  ReadNil :: "'r \<Rightarrow> 'e + 'r"
  Skip :: "'r \<Rightarrow> 'e + 'r"
  WrapError :: "'e \<Rightarrow> errctx list \<Rightarrow> 'e"

record ('w, 'e) "writer" =
  WAppend :: "'w \<Rightarrow> bytes \<Rightarrow> 'e + 'w"
  WriteInt64 :: "'w \<Rightarrow> int64 \<Rightarrow> 'e + 'w"
  WriteBytes :: "'w \<Rightarrow> bytes \<Rightarrow> 'e + 'w"
  WriteString :: "'w \<Rightarrow> bytes \<Rightarrow> 'e + 'w"
  WriteBool :: "'w \<Rightarrow> bool \<Rightarrow> 'e + 'w"
  WriteArrayHeader :: "'w \<Rightarrow> uint32 \<Rightarrow> 'e + 'w"
  WriteNil :: "'w \<Rightarrow> 'e + 'w"
  WWrapError :: "'e \<Rightarrow> errctx list \<Rightarrow> 'e"

record appender =
  AppendInt64 :: "bytes \<Rightarrow> int64 \<Rightarrow> bytes"
  AppendBytes :: "bytes \<Rightarrow> bytes \<Rightarrow> bytes"
  AppendString :: "bytes \<Rightarrow> bytes \<Rightarrow> bytes"
  AppendBool :: "bytes \<Rightarrow> bool \<Rightarrow> bytes"
  AppendArrayHeader :: "bytes \<Rightarrow> uint32 \<Rightarrow> bytes"
  AppendNil :: "bytes \<Rightarrow> bytes"
  Require :: "bytes \<Rightarrow> nat \<Rightarrow> bytes"

section \<open>The shapes of the generated code\<close>

definition wrapE :: "('r, 'e) reader \<Rightarrow> errctx list \<Rightarrow> 'e + 'a \<Rightarrow> 'e + 'a" where
  "wrapE R ctx m = (case m of Inl e \<Rightarrow> Inl (WrapError R e ctx) | Inr x \<Rightarrow> Inr x)"

definition wrapW :: "('w, 'e) writer \<Rightarrow> errctx list \<Rightarrow> 'e + 'w \<Rightarrow> 'e + 'w" where
  "wrapW W ctx m = (case m of Inl e \<Rightarrow> Inl (WWrapError W e ctx) | Inr x \<Rightarrow> Inr x)"

text \<open>
  The loop \<^verbatim>\<open>for zb0001 > 0 { zb0001--; field, bts, err = msgp.ReadMapKeyZC(bts); switch field ... }\<close>
  over the entries of a map, and the loop over the elements of an array into the target slice.
\<close>

primrec read_fields ::
  "('r, 'e) reader \<Rightarrow> errctx list \<Rightarrow> ('z \<Rightarrow> bytes \<Rightarrow> 'r \<Rightarrow> 'e + 'z \<times> 'r) \<Rightarrow> nat \<Rightarrow> 'z \<Rightarrow> 'r \<Rightarrow> 'e + 'z \<times> 'r"
  where
  "read_fields R ctx f 0 z r = Inr (z, r)"
| "read_fields R ctx f (Suc n) z r =
     bindG (wrapE R ctx (ReadMapKey R r)) (\<lambda>(key, r).
     bindG (f z key r) (\<lambda>(z, r). read_fields R ctx f n z r))"

definition read_map ::
  "('r, 'e) reader \<Rightarrow> errctx list \<Rightarrow> ('z \<Rightarrow> bytes \<Rightarrow> 'r \<Rightarrow> 'e + 'z \<times> 'r) \<Rightarrow> 'z \<Rightarrow> 'r \<Rightarrow> 'e + 'z \<times> 'r"
  where
  "read_map R ctx f z r =
     bindG (wrapE R ctx (ReadMapHeader R r)) (\<lambda>(n, r). read_fields R ctx f (unat n) z r)"

fun read_array ::
  "(nat \<Rightarrow> 'x \<Rightarrow> 'r \<Rightarrow> 'e + 'x \<times> 'r) \<Rightarrow> nat \<Rightarrow> 'x list \<Rightarrow> 'r \<Rightarrow> 'e + 'x list \<times> 'r" where
  "read_array f i [] r = Inr ([], r)"
| "read_array f i (x # xs) r =
     bindG (f i x r) (\<lambda>(y, r).
     bindG (read_array f (Suc i) xs r) (\<lambda>(ys, r). Inr (y # ys, r)))"

text \<open>
  \<^verbatim>\<open>if cap(s) >= int(n) { s = s[:n] } else { s = make([]T, n) }\<close>; a slice is taken with a
  capacity equal to its length.
\<close>

definition reslice :: "'x \<Rightarrow> 'x list \<Rightarrow> uint32 \<Rightarrow> 'x list" where
  "reslice zero xs n = (if unat n \<le> length xs then take (unat n) xs else replicate (unat n) zero)"

section \<open>What the code relies on\<close>

definition append_law :: "(bytes \<Rightarrow> 'x \<Rightarrow> bytes) \<Rightarrow> bool" where
  "append_law app \<longleftrightarrow> (\<forall>b x. app b x = b @ app [] x)"

definition read_law :: "('x \<Rightarrow> bool) \<Rightarrow> (bytes \<Rightarrow> 'e + 'x \<times> bytes) \<Rightarrow> (bytes \<Rightarrow> 'x \<Rightarrow> bytes) \<Rightarrow> bool" where
  "read_law P rd app \<longleftrightarrow> (\<forall>x r. P x \<longrightarrow> rd (app [] x @ r) = Inr (x, r))"

definition header_law :: "(bytes, 'e) reader \<Rightarrow> bool" where
  "header_law R \<longleftrightarrow> (\<forall>n r. n < 16 \<longrightarrow> ReadMapHeader R ((0x80 + of_nat n) # r) = Inr (of_nat n, r))"

definition key_law :: "(bytes, 'e) reader \<Rightarrow> bool" where
  "key_law R \<longleftrightarrow>
     (\<forall>s r. length s < 32 \<longrightarrow> ReadMapKey R ((0xa0 + of_nat (length s)) # s @ r) = Inr (s, r))"

definition nil_law :: "(bytes, 'e) reader \<Rightarrow> appender \<Rightarrow> bool" where
  "nil_law R A \<longleftrightarrow> (\<forall>b. AppendNil A b = b @ [0xc0]) \<and> (\<forall>r. IsNil R r \<longleftrightarrow> (\<exists>t. r = 0xc0 # t)) \<and>
     (\<forall>r. ReadNil R (0xc0 # r) = Inr r)"

definition msgp_laws :: "(bytes, 'e) reader \<Rightarrow> appender \<Rightarrow> bool" where
  "msgp_laws R A \<longleftrightarrow>
     Require A = (\<lambda>b n. b) \<and>
     append_law (AppendInt64 A) \<and> append_law (AppendBytes A) \<and> append_law (AppendString A) \<and>
     append_law (AppendBool A) \<and> append_law (AppendArrayHeader A) \<and>
     read_law (\<lambda>_. True) (ReadInt64 R) (AppendInt64 A) \<and>
     (\<forall>n < 2 ^ 32. read_law (\<lambda>x. length x = n) (\<lambda>r. ReadExactBytes R r n) (AppendBytes A)) \<and>
     read_law (\<lambda>x. length x < 2 ^ 32) (ReadString R) (AppendString A) \<and>
     read_law (\<lambda>_. True) (ReadBool R) (AppendBool A) \<and>
     read_law (\<lambda>_. True) (ReadArrayHeader R) (AppendArrayHeader A) \<and>
     header_law R \<and> key_law R \<and> nil_law R A"

lemma append_lawD: "append_law app \<Longrightarrow> app b x = b @ app [] x"
  unfolding append_law_def by blast

lemma read_lawD: "read_law P rd app \<Longrightarrow> P x \<Longrightarrow> rd (app [] x @ r) = Inr (x, r)"
  unfolding read_law_def by blast

lemma msgp_append:
  assumes "msgp_laws R A"
  shows "Require A b n = b"
    and "NO_MATCH [] b \<Longrightarrow> AppendInt64 A b x = b @ AppendInt64 A [] x"
    and "NO_MATCH [] b \<Longrightarrow> AppendBytes A b y = b @ AppendBytes A [] y"
    and "NO_MATCH [] b \<Longrightarrow> AppendString A b y = b @ AppendString A [] y"
    and "NO_MATCH [] b \<Longrightarrow> AppendBool A b t = b @ AppendBool A [] t"
    and "NO_MATCH [] b \<Longrightarrow> AppendArrayHeader A b k = b @ AppendArrayHeader A [] k"
    and "AppendNil A b = b @ [0xc0]"
  using assms by (auto simp: msgp_laws_def nil_law_def intro: append_lawD)

lemma msgp_read:
  assumes "msgp_laws R A"
  shows "ReadInt64 R (AppendInt64 A [] x @ r) = Inr (x, r)"
    and "length y < 2 ^ 32 \<Longrightarrow> n = length y \<Longrightarrow> ReadExactBytes R (AppendBytes A [] y @ r) n = Inr (y, r)"
    and "length y < 2 ^ 32 \<Longrightarrow> ReadString R (AppendString A [] y @ r) = Inr (y, r)"
    and "ReadBool R (AppendBool A [] t @ r) = Inr (t, r)"
    and "ReadArrayHeader R (AppendArrayHeader A [] k @ r) = Inr (k, r)"
    and "IsNil R r \<longleftrightarrow> (\<exists>t. r = 0xc0 # t)"
    and "ReadNil R (0xc0 # r) = Inr r"
  using assms by (auto simp: msgp_laws_def nil_law_def read_law_def)

lemma msgp_header:
  assumes "msgp_laws R A" and "h = 0x80 + of_nat n" and "n < 16"
  shows "ReadMapHeader R (h # r) = Inr (of_nat n, r)"
  using assms by (simp add: msgp_laws_def header_law_def)

lemma msgp_key:
  assumes "msgp_laws R A" and "h = 0xa0 + of_nat (length s)" and "length s < 32"
  shows "ReadMapKey R (h # s @ r) = Inr (s, r)"
  using assms by (simp add: msgp_laws_def key_law_def)

lemma wrapE_simps [simp]:
  "wrapE R ctx (Inr x) = Inr x" "wrapE R ctx (Inl e) = Inl (WrapError R e ctx)"
  by (simp_all add: wrapE_def)

lemma wrapW_simps [simp]:
  "wrapW W ctx (Inr w) = Inr w" "wrapW W ctx (Inl e) = Inl (WWrapError W e ctx)"
  by (simp_all add: wrapW_def)

section \<open>Codecs\<close>

text \<open>
  A codec of the generated code: an encoding and a decoder that reads it back and leaves the
  bytes that follow. Arrays of encoded elements are then read back too.
\<close>

locale msg_codec =
  fixes enc :: "'x \<Rightarrow> bytes"
    and dec :: "nat \<Rightarrow> 'x \<Rightarrow> bytes \<Rightarrow> 'e + 'x \<times> bytes"
    and zero :: 'x
    and ok :: "'x \<Rightarrow> bool"
  assumes decodes: "ok x \<Longrightarrow> dec i zero (enc x @ r) = Inr (x, r)"
begin

lemma array_decodes:
  assumes "list_all ok xs"
  shows "read_array dec i (replicate (length xs) zero) (concat (map enc xs) @ r) = Inr (xs, r)"
  using assms by (induction xs arbitrary: i) (simp_all add: decodes)

lemma enc_inject:
  assumes "ok x" and "ok y" and "enc x @ r = enc y @ s"
  shows "x = y \<and> r = s"
  by (metis assms decodes old.prod.inject sum.inject(2))

end

section \<open>An implementation of the format\<close>

definition mp_append :: appender where
  "mp_append = \<lparr>
     AppendInt64 = (\<lambda>b x. b @ 0xd3 # be_bytes 8 x),
     AppendBytes = (\<lambda>b x. b @ 0xc6 # be_bytes 4 (of_nat (length x) :: uint32) @ x),
     AppendString = (\<lambda>b x. b @ 0xdb # be_bytes 4 (of_nat (length x) :: uint32) @ x),
     AppendBool = (\<lambda>b x. b @ [if x then 0xc3 else 0xc2]),
     AppendArrayHeader = (\<lambda>b n. b @ 0xdd # be_bytes 4 n),
     AppendNil = (\<lambda>b. b @ [0xc0]),
     Require = (\<lambda>b n. b)\<rparr>"

definition mp_blob :: "byte \<Rightarrow> bytes \<Rightarrow> unit + bytes \<times> bytes" where
  "mp_blob h r = (case r of
       [] \<Rightarrow> Inl ()
     | c # r \<Rightarrow> let n = be_nat (take 4 r) in
         if c = h \<and> 4 + n \<le> length r then Inr (take n (drop 4 r), drop n (drop 4 r)) else Inl ())"

definition mp_reader :: "(bytes, unit) reader" where
  "mp_reader = \<lparr>
     ReadMapHeader = (\<lambda>r. case r of [] \<Rightarrow> Inl () | h # r \<Rightarrow>
        if 0x80 \<le> h \<and> h < 0x90 then Inr (of_nat (unat h - 0x80), r) else Inl ()),
     ReadMapKey = (\<lambda>r. case r of [] \<Rightarrow> Inl () | h # r \<Rightarrow>
        let n = unat h - 0xa0 in
        if 0xa0 \<le> h \<and> h < 0xc0 \<and> n \<le> length r then Inr (take n r, drop n r) else Inl ()),
     ReadInt64 = (\<lambda>r. case r of [] \<Rightarrow> Inl () | h # r \<Rightarrow>
        if h = 0xd3 \<and> 8 \<le> length r then Inr (be_word (take 8 r), drop 8 r) else Inl ()),
     ReadExactBytes = (\<lambda>r n. case mp_blob 0xc6 r of Inl e \<Rightarrow> Inl e
        | Inr (x, r) \<Rightarrow> if length x = n then Inr (x, r) else Inl ()),
     ReadString = mp_blob 0xdb,
     ReadBool = (\<lambda>r. case r of [] \<Rightarrow> Inl () | h # r \<Rightarrow>
        if h = 0xc3 then Inr (True, r) else if h = 0xc2 then Inr (False, r) else Inl ()),
     ReadArrayHeader = (\<lambda>r. case r of [] \<Rightarrow> Inl () | h # r \<Rightarrow>
        if h = 0xdd \<and> 4 \<le> length r then Inr (be_word (take 4 r), drop 4 r) else Inl ()),
     IsNil = (\<lambda>r. case r of [] \<Rightarrow> False | h # r \<Rightarrow> h = 0xc0),
     ReadNil = (\<lambda>r. case r of [] \<Rightarrow> Inl () | h # r \<Rightarrow> if h = 0xc0 then Inr r else Inl ()),
     Skip = (\<lambda>r. Inl ()),
     WrapError = (\<lambda>e ctx. e)\<rparr>"

lemma mp_blob_append:
  assumes "length x < 2 ^ 32"
  shows "mp_blob h (h # be_bytes 4 (of_nat (length x) :: uint32) @ x @ r) = Inr (x, r)"
proof -
  have "unat (of_nat (length x) :: uint32) = length x"
    using assms by (simp add: unat_of_nat)
  then have "be_nat (be_bytes 4 (of_nat (length x) :: uint32)) = length x"
    using assms by (simp add: be_bytes_def be_nat_nat_be)
  then show ?thesis by (simp add: mp_blob_def)
qed

lemma unat_header:
  "n < k \<Longrightarrow> unat h0 + k \<le> 256 \<Longrightarrow> unat (h0 + of_nat n :: byte) = unat h0 + n"
  by (subst unat_add_no_overflow) (simp_all add: unat_of_nat)

lemma mp_laws: "msgp_laws mp_reader mp_append"
proof -
  have hdr: "unat (0x80 + of_nat n :: byte) = 0x80 + n" if "n < 16" for n
    using unat_header [of n 16 "0x80"] that by simp
  have key: "unat (0xa0 + of_nat n :: byte) = 0xa0 + n" if "n < 32" for n
    using unat_header [of n 32 "0xa0"] that by simp
  have blob: "mp_blob h (h # be_bytes 4 (of_nat (length x) :: uint32) @ x @ r) = Inr (x, r)"
    if "length x < 4294967296" for h x r
    using mp_blob_append [of x h r] that by simp
  show ?thesis
    unfolding msgp_laws_def append_law_def read_law_def header_law_def key_law_def nil_law_def
    by (auto simp: mp_append_def mp_reader_def be_word_be_bytes hdr key blob
        word_le_nat_alt word_less_nat_alt split: list.splits)
qed

end
