(* ===== verification/Staking_Codec.thy ===== *)
theory Staking_Codec
  imports Staking_Types Msgp
begin

text \<open>
  The codec of \<^verbatim>\<open>staking/types/types_gen.go\<close>, the MessagePack code generated from
  \<^verbatim>\<open>staking/types/types.go\<close>, over the library interface of theory \<open>Msgp\<close>. It is on the path of
  every staking operation: the staking information is stored in the world state as the bytes
  \<^verbatim>\<open>MarshalMsg\<close> writes and is read back by \<^verbatim>\<open>UnmarshalMsg\<close>. \<^verbatim>\<open>DecodeMsg\<close> and \<^verbatim>\<open>UnmarshalMsg\<close>
  run the same switch over the fields on two readers. The slices of a \<^verbatim>\<open>StakingInfo\<close> hold
  pointers, which the codec may find to be nil: here an entry is an option.
\<close>

section \<open>The generated code\<close>

record sizes =
  Int64Size :: nat
  ArrayHeaderSize :: nat
  ByteSize :: nat
  StringPrefixSize :: nat
  BoolSize :: nat
  NilSize :: nat

record StakingInfoPtr =
  SI_CurrEpochNum :: int64
  SI_Validators :: "Validator option list"
  SI_PendingRewards :: "PendingReward option list"

definition zero_Validator :: Validator where
  "zero_Validator = \<lparr>Address = 0, Pubkey = 0, RewardTo = 0, VotingPower = 0, Introduction = [],
     StakedCoins = 0, IsRetiring = False\<rparr>"

definition zero_PendingReward :: PendingReward where
  "zero_PendingReward = \<lparr>PR_Address = 0, EpochNum = 0, Amount = 0\<rparr>"

definition zero_Nomination :: Nomination where
  "zero_Nomination = \<lparr>Nom_Pubkey = 0, NominatedCount = 0\<rparr>"

definition Validator_field ::
  "('r, 'e) reader \<Rightarrow> Validator \<Rightarrow> bytes \<Rightarrow> 'r \<Rightarrow> 'e + Validator \<times> 'r" where
  "Validator_field R z key r =
     (if key = str_bytes ''Address'' then
        bindG (wrapE R [Fld ''Address''] (ReadExactBytes R r 20)) (\<lambda>(x, r). Inr (z\<lparr>Address := be_word x\<rparr>, r))
      else if key = str_bytes ''Pubkey'' then
        bindG (wrapE R [Fld ''Pubkey''] (ReadExactBytes R r 32)) (\<lambda>(x, r). Inr (z\<lparr>Pubkey := be_word x\<rparr>, r))
      else if key = str_bytes ''RewardTo'' then
        bindG (wrapE R [Fld ''RewardTo''] (ReadExactBytes R r 20)) (\<lambda>(x, r). Inr (z\<lparr>RewardTo := be_word x\<rparr>, r))
      else if key = str_bytes ''VotingPower'' then
        bindG (wrapE R [Fld ''VotingPower''] (ReadInt64 R r)) (\<lambda>(x, r). Inr (z\<lparr>VotingPower := x\<rparr>, r))
      else if key = str_bytes ''Introduction'' then
        bindG (wrapE R [Fld ''Introduction''] (ReadString R r)) (\<lambda>(x, r). Inr (z\<lparr>Introduction := x\<rparr>, r))
      else if key = str_bytes ''StakedCoins'' then
        bindG (wrapE R [Fld ''StakedCoins''] (ReadExactBytes R r 32)) (\<lambda>(x, r). Inr (z\<lparr>StakedCoins := be_word x\<rparr>, r))
      else if key = str_bytes ''IsRetiring'' then
        bindG (wrapE R [Fld ''IsRetiring''] (ReadBool R r)) (\<lambda>(x, r). Inr (z\<lparr>IsRetiring := x\<rparr>, r))
      else bindG (wrapE R [] (Skip R r)) (\<lambda>r. Inr (z, r)))"

definition Validator_DecodeMsg :: "('r, 'e) reader \<Rightarrow> Validator \<Rightarrow> 'r \<Rightarrow> 'e + Validator \<times> 'r" where
  "Validator_DecodeMsg R z r = read_map R [] (Validator_field R) z r"

definition Validator_UnmarshalMsg ::
  "(bytes, 'e) reader \<Rightarrow> Validator \<Rightarrow> bytes \<Rightarrow> 'e + Validator \<times> bytes" where
  "Validator_UnmarshalMsg R z bts = read_map R [] (Validator_field R) z bts"

definition Validator_EncodeMsg :: "('w, 'e) writer \<Rightarrow> Validator \<Rightarrow> 'w \<Rightarrow> 'e + 'w" where
  "Validator_EncodeMsg W z w =
     bindG (WAppend W w [0x87, 0xa7, 0x41, 0x64, 0x64, 0x72, 0x65, 0x73, 0x73]) (\<lambda>w.
     bindG (wrapW W [Fld ''Address''] (WriteBytes W w (be_bytes 20 (Address z)))) (\<lambda>w.
     bindG (WAppend W w [0xa6, 0x50, 0x75, 0x62, 0x6b, 0x65, 0x79]) (\<lambda>w.
     bindG (wrapW W [Fld ''Pubkey''] (WriteBytes W w (be_bytes 32 (Pubkey z)))) (\<lambda>w.
     bindG (WAppend W w [0xa8, 0x52, 0x65, 0x77, 0x61, 0x72, 0x64, 0x54, 0x6f]) (\<lambda>w.
     bindG (wrapW W [Fld ''RewardTo''] (WriteBytes W w (be_bytes 20 (RewardTo z)))) (\<lambda>w.
     bindG (WAppend W w [0xab, 0x56, 0x6f, 0x74, 0x69, 0x6e, 0x67, 0x50, 0x6f, 0x77, 0x65, 0x72]) (\<lambda>w.
     bindG (wrapW W [Fld ''VotingPower''] (WriteInt64 W w (VotingPower z))) (\<lambda>w.
     bindG (WAppend W w [0xac, 0x49, 0x6e, 0x74, 0x72, 0x6f, 0x64, 0x75, 0x63, 0x74, 0x69, 0x6f, 0x6e]) (\<lambda>w.
     bindG (wrapW W [Fld ''Introduction''] (WriteString W w (Introduction z))) (\<lambda>w.
     bindG (WAppend W w [0xab, 0x53, 0x74, 0x61, 0x6b, 0x65, 0x64, 0x43, 0x6f, 0x69, 0x6e, 0x73]) (\<lambda>w.
     bindG (wrapW W [Fld ''StakedCoins''] (WriteBytes W w (be_bytes 32 (StakedCoins z)))) (\<lambda>w.
     bindG (WAppend W w [0xaa, 0x49, 0x73, 0x52, 0x65, 0x74, 0x69, 0x72, 0x69, 0x6e, 0x67]) (\<lambda>w.
     wrapW W [Fld ''IsRetiring''] (WriteBool W w (IsRetiring z)))))))))))))))"

definition Validator_Msgsize :: "sizes \<Rightarrow> Validator \<Rightarrow> nat" where
  "Validator_Msgsize S z =
     1 + 8 + ArrayHeaderSize S + (20 * ByteSize S) + 7 + ArrayHeaderSize S + (32 * ByteSize S) +
     9 + ArrayHeaderSize S + (20 * ByteSize S) + 12 + Int64Size S + 13 + StringPrefixSize S +
     length (Introduction z) + 12 + ArrayHeaderSize S + (32 * ByteSize S) + 11 + BoolSize S"

definition Validator_MarshalMsg :: "appender \<Rightarrow> sizes \<Rightarrow> Validator \<Rightarrow> bytes \<Rightarrow> bytes" where
  "Validator_MarshalMsg A S z b =
     (let ob = Require A b (Validator_Msgsize S z);
          ob = ob @ [0x87, 0xa7, 0x41, 0x64, 0x64, 0x72, 0x65, 0x73, 0x73];
          ob = AppendBytes A ob (be_bytes 20 (Address z));
          ob = ob @ [0xa6, 0x50, 0x75, 0x62, 0x6b, 0x65, 0x79];
          ob = AppendBytes A ob (be_bytes 32 (Pubkey z));
          ob = ob @ [0xa8, 0x52, 0x65, 0x77, 0x61, 0x72, 0x64, 0x54, 0x6f];
          ob = AppendBytes A ob (be_bytes 20 (RewardTo z));
          ob = ob @ [0xab, 0x56, 0x6f, 0x74, 0x69, 0x6e, 0x67, 0x50, 0x6f, 0x77, 0x65, 0x72];
          ob = AppendInt64 A ob (VotingPower z);
          ob = ob @ [0xac, 0x49, 0x6e, 0x74, 0x72, 0x6f, 0x64, 0x75, 0x63, 0x74, 0x69, 0x6f, 0x6e];
          ob = AppendString A ob (Introduction z);
          ob = ob @ [0xab, 0x53, 0x74, 0x61, 0x6b, 0x65, 0x64, 0x43, 0x6f, 0x69, 0x6e, 0x73];
          ob = AppendBytes A ob (be_bytes 32 (StakedCoins z));
          ob = ob @ [0xaa, 0x49, 0x73, 0x52, 0x65, 0x74, 0x69, 0x72, 0x69, 0x6e, 0x67];
          ob = AppendBool A ob (IsRetiring z)
      in ob)"

definition PendingReward_field ::
  "('r, 'e) reader \<Rightarrow> PendingReward \<Rightarrow> bytes \<Rightarrow> 'r \<Rightarrow> 'e + PendingReward \<times> 'r" where
  "PendingReward_field R z key r =
     (if key = str_bytes ''Address'' then
        bindG (wrapE R [Fld ''Address''] (ReadExactBytes R r 20)) (\<lambda>(x, r). Inr (z\<lparr>PR_Address := be_word x\<rparr>, r))
      else if key = str_bytes ''EpochNum'' then
        bindG (wrapE R [Fld ''EpochNum''] (ReadInt64 R r)) (\<lambda>(x, r). Inr (z\<lparr>EpochNum := x\<rparr>, r))
      else if key = str_bytes ''Amount'' then
        bindG (wrapE R [Fld ''Amount''] (ReadExactBytes R r 32)) (\<lambda>(x, r). Inr (z\<lparr>Amount := be_word x\<rparr>, r))
      else bindG (wrapE R [] (Skip R r)) (\<lambda>r. Inr (z, r)))"

definition PendingReward_DecodeMsg :: "('r, 'e) reader \<Rightarrow> PendingReward \<Rightarrow> 'r \<Rightarrow> 'e + PendingReward \<times> 'r" where
  "PendingReward_DecodeMsg R z r = read_map R [] (PendingReward_field R) z r"

definition PendingReward_UnmarshalMsg ::
  "(bytes, 'e) reader \<Rightarrow> PendingReward \<Rightarrow> bytes \<Rightarrow> 'e + PendingReward \<times> bytes" where
  "PendingReward_UnmarshalMsg R z bts = read_map R [] (PendingReward_field R) z bts"

definition PendingReward_EncodeMsg :: "('w, 'e) writer \<Rightarrow> PendingReward \<Rightarrow> 'w \<Rightarrow> 'e + 'w" where
  "PendingReward_EncodeMsg W z w =
     bindG (WAppend W w [0x83, 0xa7, 0x41, 0x64, 0x64, 0x72, 0x65, 0x73, 0x73]) (\<lambda>w.
     bindG (wrapW W [Fld ''Address''] (WriteBytes W w (be_bytes 20 (PR_Address z)))) (\<lambda>w.
     bindG (WAppend W w [0xa8, 0x45, 0x70, 0x6f, 0x63, 0x68, 0x4e, 0x75, 0x6d]) (\<lambda>w.
     bindG (wrapW W [Fld ''EpochNum''] (WriteInt64 W w (EpochNum z))) (\<lambda>w.
     bindG (WAppend W w [0xa6, 0x41, 0x6d, 0x6f, 0x75, 0x6e, 0x74]) (\<lambda>w.
     wrapW W [Fld ''Amount''] (WriteBytes W w (be_bytes 32 (Amount z))))))))"

definition PendingReward_Msgsize :: "sizes \<Rightarrow> PendingReward \<Rightarrow> nat" where
  "PendingReward_Msgsize S z =
     1 + 8 + ArrayHeaderSize S + (20 * ByteSize S) + 9 + Int64Size S + 7 + ArrayHeaderSize S +
     (32 * ByteSize S)"

definition PendingReward_MarshalMsg :: "appender \<Rightarrow> sizes \<Rightarrow> PendingReward \<Rightarrow> bytes \<Rightarrow> bytes" where
  "PendingReward_MarshalMsg A S z b =
     (let ob = Require A b (PendingReward_Msgsize S z);
          ob = ob @ [0x83, 0xa7, 0x41, 0x64, 0x64, 0x72, 0x65, 0x73, 0x73];
          ob = AppendBytes A ob (be_bytes 20 (PR_Address z));
          ob = ob @ [0xa8, 0x45, 0x70, 0x6f, 0x63, 0x68, 0x4e, 0x75, 0x6d];
          ob = AppendInt64 A ob (EpochNum z);
          ob = ob @ [0xa6, 0x41, 0x6d, 0x6f, 0x75, 0x6e, 0x74];
          ob = AppendBytes A ob (be_bytes 32 (Amount z))
      in ob)"

definition Nomination_field ::
  "('r, 'e) reader \<Rightarrow> Nomination \<Rightarrow> bytes \<Rightarrow> 'r \<Rightarrow> 'e + Nomination \<times> 'r" where
  "Nomination_field R z key r =
     (if key = str_bytes ''Pubkey'' then
        bindG (wrapE R [Fld ''Pubkey''] (ReadExactBytes R r 32)) (\<lambda>(x, r). Inr (z\<lparr>Nom_Pubkey := be_word x\<rparr>, r))
      else if key = str_bytes ''NominatedCount'' then
        bindG (wrapE R [Fld ''NominatedCount''] (ReadInt64 R r)) (\<lambda>(x, r). Inr (z\<lparr>NominatedCount := x\<rparr>, r))
      else bindG (wrapE R [] (Skip R r)) (\<lambda>r. Inr (z, r)))"

definition Nomination_DecodeMsg :: "('r, 'e) reader \<Rightarrow> Nomination \<Rightarrow> 'r \<Rightarrow> 'e + Nomination \<times> 'r" where
  "Nomination_DecodeMsg R z r = read_map R [] (Nomination_field R) z r"

definition Nomination_UnmarshalMsg ::
  "(bytes, 'e) reader \<Rightarrow> Nomination \<Rightarrow> bytes \<Rightarrow> 'e + Nomination \<times> bytes" where
  "Nomination_UnmarshalMsg R z bts = read_map R [] (Nomination_field R) z bts"

definition Nomination_EncodeMsg :: "('w, 'e) writer \<Rightarrow> Nomination \<Rightarrow> 'w \<Rightarrow> 'e + 'w" where
  "Nomination_EncodeMsg W z w =
     bindG (WAppend W w [0x82, 0xa6, 0x50, 0x75, 0x62, 0x6b, 0x65, 0x79]) (\<lambda>w.
     bindG (wrapW W [Fld ''Pubkey''] (WriteBytes W w (be_bytes 32 (Nom_Pubkey z)))) (\<lambda>w.
     bindG (WAppend W w [0xae, 0x4e, 0x6f, 0x6d, 0x69, 0x6e, 0x61, 0x74, 0x65, 0x64, 0x43, 0x6f, 0x75, 0x6e, 0x74]) (\<lambda>w.
     wrapW W [Fld ''NominatedCount''] (WriteInt64 W w (NominatedCount z)))))"

definition Nomination_Msgsize :: "sizes \<Rightarrow> Nomination \<Rightarrow> nat" where
  "Nomination_Msgsize S z = 1 + 7 + ArrayHeaderSize S + (32 * ByteSize S) + 15 + Int64Size S"

definition Nomination_MarshalMsg :: "appender \<Rightarrow> sizes \<Rightarrow> Nomination \<Rightarrow> bytes \<Rightarrow> bytes" where
  "Nomination_MarshalMsg A S z b =
     (let ob = Require A b (Nomination_Msgsize S z);
          ob = ob @ [0x82, 0xa6, 0x50, 0x75, 0x62, 0x6b, 0x65, 0x79];
          ob = AppendBytes A ob (be_bytes 32 (Nom_Pubkey z));
          ob = ob @ [0xae, 0x4e, 0x6f, 0x6d, 0x69, 0x6e, 0x61, 0x74, 0x65, 0x64, 0x43, 0x6f, 0x75, 0x6e, 0x74];
          ob = AppendInt64 A ob (NominatedCount z)
      in ob)"

definition Epoch_field ::
  "('r, 'e) reader \<Rightarrow> Epoch \<Rightarrow> bytes \<Rightarrow> 'r \<Rightarrow> 'e + Epoch \<times> 'r" where
  "Epoch_field R z key r =
     (if key = str_bytes ''StartHeight'' then
        bindG (wrapE R [Fld ''StartHeight''] (ReadInt64 R r)) (\<lambda>(x, r). Inr (z\<lparr>StartHeight := x\<rparr>, r))
      else if key = str_bytes ''EndTime'' then
        bindG (wrapE R [Fld ''EndTime''] (ReadInt64 R r)) (\<lambda>(x, r). Inr (z\<lparr>EndTime := x\<rparr>, r))
      else if key = str_bytes ''Duration'' then
        bindG (wrapE R [Fld ''Duration''] (ReadInt64 R r)) (\<lambda>(x, r). Inr (z\<lparr>Duration := x\<rparr>, r))
      else bindG (wrapE R [] (Skip R r)) (\<lambda>r. Inr (z, r)))"

definition Epoch_DecodeMsg :: "('r, 'e) reader \<Rightarrow> Epoch \<Rightarrow> 'r \<Rightarrow> 'e + Epoch \<times> 'r" where
  "Epoch_DecodeMsg R z r = read_map R [] (Epoch_field R) z r"

definition Epoch_UnmarshalMsg ::
  "(bytes, 'e) reader \<Rightarrow> Epoch \<Rightarrow> bytes \<Rightarrow> 'e + Epoch \<times> bytes" where
  "Epoch_UnmarshalMsg R z bts = read_map R [] (Epoch_field R) z bts"

definition Epoch_EncodeMsg :: "('w, 'e) writer \<Rightarrow> Epoch \<Rightarrow> 'w \<Rightarrow> 'e + 'w" where
  "Epoch_EncodeMsg W z w =
     bindG (WAppend W w [0x83, 0xab, 0x53, 0x74, 0x61, 0x72, 0x74, 0x48, 0x65, 0x69, 0x67, 0x68, 0x74]) (\<lambda>w.
     bindG (wrapW W [Fld ''StartHeight''] (WriteInt64 W w (StartHeight z))) (\<lambda>w.
     bindG (WAppend W w [0xa7, 0x45, 0x6e, 0x64, 0x54, 0x69, 0x6d, 0x65]) (\<lambda>w.
     bindG (wrapW W [Fld ''EndTime''] (WriteInt64 W w (EndTime z))) (\<lambda>w.
     bindG (WAppend W w [0xa8, 0x44, 0x75, 0x72, 0x61, 0x74, 0x69, 0x6f, 0x6e]) (\<lambda>w.
     wrapW W [Fld ''Duration''] (WriteInt64 W w (Duration z)))))))"

definition Epoch_Msgsize :: "sizes \<Rightarrow> Epoch \<Rightarrow> nat" where
  "Epoch_Msgsize S z = 1 + 12 + Int64Size S + 8 + Int64Size S + 9 + Int64Size S"

definition Epoch_MarshalMsg :: "appender \<Rightarrow> sizes \<Rightarrow> Epoch \<Rightarrow> bytes \<Rightarrow> bytes" where
  "Epoch_MarshalMsg A S z b =
     (let ob = Require A b (Epoch_Msgsize S z);
          ob = ob @ [0x83, 0xab, 0x53, 0x74, 0x61, 0x72, 0x74, 0x48, 0x65, 0x69, 0x67, 0x68, 0x74];
          ob = AppendInt64 A ob (StartHeight z);
          ob = ob @ [0xa7, 0x45, 0x6e, 0x64, 0x54, 0x69, 0x6d, 0x65];
          ob = AppendInt64 A ob (EndTime z);
          ob = ob @ [0xa8, 0x44, 0x75, 0x72, 0x61, 0x74, 0x69, 0x6f, 0x6e];
          ob = AppendInt64 A ob (Duration z)
      in ob)"

text \<open>The elements of a slice of pointers, with the wrapping of the two readers.\<close>

definition ptr_element ::
  "('r, 'e) reader \<Rightarrow> ('e \<Rightarrow> 'e) \<Rightarrow> ('x \<Rightarrow> 'r \<Rightarrow> 'e + 'x \<times> 'r) \<Rightarrow> 'x \<Rightarrow> string \<Rightarrow> nat \<Rightarrow>
   'x option \<Rightarrow> 'r \<Rightarrow> 'e + 'x option \<times> 'r" where
  "ptr_element R nil_err dec zero name i x r =
     (if IsNil R r then
        (case ReadNil R r of Inl e \<Rightarrow> Inl (nil_err e) | Inr r \<Rightarrow> Inr (None, r))
      else
        bindG (wrapE R [Fld name, Idx i] (dec (case x of None \<Rightarrow> zero | Some v \<Rightarrow> v) r))
          (\<lambda>(v, r). Inr (Some v, r)))"

definition StakingInfo_field ::
  "('r, 'e) reader \<Rightarrow> (string \<Rightarrow> nat \<Rightarrow> 'e \<Rightarrow> 'e) \<Rightarrow>
   (Validator \<Rightarrow> 'r \<Rightarrow> 'e + Validator \<times> 'r) \<Rightarrow> (PendingReward \<Rightarrow> 'r \<Rightarrow> 'e + PendingReward \<times> 'r) \<Rightarrow>
   StakingInfoPtr \<Rightarrow> bytes \<Rightarrow> 'r \<Rightarrow> 'e + StakingInfoPtr \<times> 'r" where
  "StakingInfo_field R nil_err decV decP z key r =
     (if key = str_bytes ''CurrEpochNum'' then
        bindG (wrapE R [Fld ''CurrEpochNum''] (ReadInt64 R r)) (\<lambda>(x, r). Inr (z\<lparr>SI_CurrEpochNum := x\<rparr>, r))
      else if key = str_bytes ''Validators'' then
        bindG (wrapE R [Fld ''Validators''] (ReadArrayHeader R r)) (\<lambda>(n, r).
        bindG (read_array
            (\<lambda>i. ptr_element R (nil_err ''Validators'' i) decV zero_Validator ''Validators'' i)
            0 (reslice None (SI_Validators z) n) r) (\<lambda>(xs, r).
        Inr (z\<lparr>SI_Validators := xs\<rparr>, r)))
      else if key = str_bytes ''PendingRewards'' then
        bindG (wrapE R [Fld ''PendingRewards''] (ReadArrayHeader R r)) (\<lambda>(n, r).
        bindG (read_array
            (\<lambda>i. ptr_element R (nil_err ''PendingRewards'' i) decP zero_PendingReward ''PendingRewards'' i)
            0 (reslice None (SI_PendingRewards z) n) r) (\<lambda>(xs, r).
        Inr (z\<lparr>SI_PendingRewards := xs\<rparr>, r)))
      else bindG (wrapE R [] (Skip R r)) (\<lambda>r. Inr (z, r)))"

definition StakingInfo_DecodeMsg ::
  "('r, 'e) reader \<Rightarrow> StakingInfoPtr \<Rightarrow> 'r \<Rightarrow> 'e + StakingInfoPtr \<times> 'r" where
  "StakingInfo_DecodeMsg R z r =
     read_map R [] (StakingInfo_field R (\<lambda>name i e. WrapError R e [Fld name, Idx i])
       (Validator_DecodeMsg R) (PendingReward_DecodeMsg R)) z r"

definition StakingInfo_UnmarshalMsg ::
  "(bytes, 'e) reader \<Rightarrow> StakingInfoPtr \<Rightarrow> bytes \<Rightarrow> 'e + StakingInfoPtr \<times> bytes" where
  "StakingInfo_UnmarshalMsg R z bts =
     read_map R [] (StakingInfo_field R (\<lambda>name i e. e)
       (Validator_UnmarshalMsg R) (PendingReward_UnmarshalMsg R)) z bts"

fun encode_ptrs ::
  "('w, 'e) writer \<Rightarrow> ('x \<Rightarrow> 'w \<Rightarrow> 'e + 'w) \<Rightarrow> string \<Rightarrow> nat \<Rightarrow> 'x option list \<Rightarrow> 'w \<Rightarrow> 'e + 'w" where
  "encode_ptrs W enc name i [] w = Inr w"
| "encode_ptrs W enc name i (None # xs) w =
     bindG (WriteNil W w) (\<lambda>w. encode_ptrs W enc name (Suc i) xs w)"
| "encode_ptrs W enc name i (Some x # xs) w =
     bindG (wrapW W [Fld name, Idx i] (enc x w)) (\<lambda>w. encode_ptrs W enc name (Suc i) xs w)"

definition StakingInfo_EncodeMsg :: "('w, 'e) writer \<Rightarrow> StakingInfoPtr \<Rightarrow> 'w \<Rightarrow> 'e + 'w" where
  "StakingInfo_EncodeMsg W z w =
     bindG (WAppend W w [0x83, 0xac, 0x43, 0x75, 0x72, 0x72, 0x45, 0x70, 0x6f, 0x63, 0x68, 0x4e, 0x75, 0x6d]) (\<lambda>w.
     bindG (wrapW W [Fld ''CurrEpochNum''] (WriteInt64 W w (SI_CurrEpochNum z))) (\<lambda>w.
     bindG (WAppend W w [0xaa, 0x56, 0x61, 0x6c, 0x69, 0x64, 0x61, 0x74, 0x6f, 0x72, 0x73]) (\<lambda>w.
     bindG (wrapW W [Fld ''Validators''] (WriteArrayHeader W w (of_nat (length (SI_Validators z))))) (\<lambda>w.
     bindG (encode_ptrs W (Validator_EncodeMsg W) ''Validators'' 0 (SI_Validators z) w) (\<lambda>w.
     bindG (WAppend W w [0xae, 0x50, 0x65, 0x6e, 0x64, 0x69, 0x6e, 0x67, 0x52, 0x65, 0x77, 0x61, 0x72, 0x64, 0x73]) (\<lambda>w.
     bindG (wrapW W [Fld ''PendingRewards''] (WriteArrayHeader W w (of_nat (length (SI_PendingRewards z))))) (\<lambda>w.
     encode_ptrs W (PendingReward_EncodeMsg W) ''PendingRewards'' 0 (SI_PendingRewards z) w)))))))"

definition StakingInfo_Msgsize :: "sizes \<Rightarrow> StakingInfoPtr \<Rightarrow> nat" where
  "StakingInfo_Msgsize S z =
     foldl (\<lambda>s x. s + (case x of None \<Rightarrow> NilSize S | Some p \<Rightarrow> PendingReward_Msgsize S p))
       (foldl (\<lambda>s x. s + (case x of None \<Rightarrow> NilSize S | Some v \<Rightarrow> Validator_Msgsize S v))
          (1 + 13 + Int64Size S + 11 + ArrayHeaderSize S) (SI_Validators z) +
        (15 + ArrayHeaderSize S))
       (SI_PendingRewards z)"

definition StakingInfo_MarshalMsg :: "appender \<Rightarrow> sizes \<Rightarrow> StakingInfoPtr \<Rightarrow> bytes \<Rightarrow> bytes" where
  "StakingInfo_MarshalMsg A S z b =
     (let ob = Require A b (StakingInfo_Msgsize S z);
          ob = ob @ [0x83, 0xac, 0x43, 0x75, 0x72, 0x72, 0x45, 0x70, 0x6f, 0x63, 0x68, 0x4e, 0x75, 0x6d];
          ob = AppendInt64 A ob (SI_CurrEpochNum z);
          ob = ob @ [0xaa, 0x56, 0x61, 0x6c, 0x69, 0x64, 0x61, 0x74, 0x6f, 0x72, 0x73];
          ob = AppendArrayHeader A ob (of_nat (length (SI_Validators z)));
          ob = foldl (\<lambda>ob x. case x of None \<Rightarrow> AppendNil A ob | Some v \<Rightarrow> Validator_MarshalMsg A S v ob)
                 ob (SI_Validators z);
          ob = ob @ [0xae, 0x50, 0x65, 0x6e, 0x64, 0x69, 0x6e, 0x67, 0x52, 0x65, 0x77, 0x61, 0x72, 0x64, 0x73];
          ob = AppendArrayHeader A ob (of_nat (length (SI_PendingRewards z)));
          ob = foldl (\<lambda>ob x. case x of None \<Rightarrow> AppendNil A ob | Some p \<Rightarrow> PendingReward_MarshalMsg A S p ob)
                 ob (SI_PendingRewards z)
      in ob)"

definition nomination_element ::
  "('r, 'e) reader \<Rightarrow> nat \<Rightarrow> Nomination \<Rightarrow> 'r \<Rightarrow> 'e + Nomination \<times> 'r" where
  "nomination_element R i z r =
     read_map R [Fld ''Nominations'', Idx i] (\<lambda>z key r.
       if key = str_bytes ''Pubkey'' then
         bindG (wrapE R [Fld ''Nominations'', Idx i, Fld ''Pubkey''] (ReadExactBytes R r 32))
           (\<lambda>(x, r). Inr (z\<lparr>Nom_Pubkey := be_word x\<rparr>, r))
       else if key = str_bytes ''NominatedCount'' then
         bindG (wrapE R [Fld ''Nominations'', Idx i, Fld ''NominatedCount''] (ReadInt64 R r))
           (\<lambda>(x, r). Inr (z\<lparr>NominatedCount := x\<rparr>, r))
       else bindG (wrapE R [Fld ''Nominations'', Idx i] (Skip R r)) (\<lambda>r. Inr (z, r))) z r"

definition BCHBlock_field ::
  "('r, 'e) reader \<Rightarrow> BCHBlock \<Rightarrow> bytes \<Rightarrow> 'r \<Rightarrow> 'e + BCHBlock \<times> 'r" where
  "BCHBlock_field R z key r =
     (if key = str_bytes ''Height'' then
        bindG (wrapE R [Fld ''Height''] (ReadInt64 R r)) (\<lambda>(x, r). Inr (z\<lparr>Height := x\<rparr>, r))
      else if key = str_bytes ''Timestamp'' then
        bindG (wrapE R [Fld ''Timestamp''] (ReadInt64 R r)) (\<lambda>(x, r). Inr (z\<lparr>Timestamp := x\<rparr>, r))
      else if key = str_bytes ''HashId'' then
        bindG (wrapE R [Fld ''HashId''] (ReadExactBytes R r 32)) (\<lambda>(x, r). Inr (z\<lparr>HashId := be_word x\<rparr>, r))
      else if key = str_bytes ''ParentBlk'' then
        bindG (wrapE R [Fld ''ParentBlk''] (ReadExactBytes R r 32)) (\<lambda>(x, r). Inr (z\<lparr>ParentBlk := be_word x\<rparr>, r))
      else if key = str_bytes ''Nominations'' then
        bindG (wrapE R [Fld ''Nominations''] (ReadArrayHeader R r)) (\<lambda>(n, r).
        bindG (read_array (nomination_element R) 0 (reslice zero_Nomination (Nominations z) n) r) (\<lambda>(xs, r).
        Inr (z\<lparr>Nominations := xs\<rparr>, r)))
      else bindG (wrapE R [] (Skip R r)) (\<lambda>r. Inr (z, r)))"

definition BCHBlock_DecodeMsg :: "('r, 'e) reader \<Rightarrow> BCHBlock \<Rightarrow> 'r \<Rightarrow> 'e + BCHBlock \<times> 'r" where
  "BCHBlock_DecodeMsg R z r = read_map R [] (BCHBlock_field R) z r"

definition BCHBlock_UnmarshalMsg ::
  "(bytes, 'e) reader \<Rightarrow> BCHBlock \<Rightarrow> bytes \<Rightarrow> 'e + BCHBlock \<times> bytes" where
  "BCHBlock_UnmarshalMsg R z bts = read_map R [] (BCHBlock_field R) z bts"

fun encode_nominations :: "('w, 'e) writer \<Rightarrow> nat \<Rightarrow> Nomination list \<Rightarrow> 'w \<Rightarrow> 'e + 'w" where
  "encode_nominations W i [] w = Inr w"
| "encode_nominations W i (x # xs) w =
     bindG (WAppend W w [0x82, 0xa6, 0x50, 0x75, 0x62, 0x6b, 0x65, 0x79]) (\<lambda>w.
     bindG (wrapW W [Fld ''Nominations'', Idx i, Fld ''Pubkey''] (WriteBytes W w (be_bytes 32 (Nom_Pubkey x)))) (\<lambda>w.
     bindG (WAppend W w [0xae, 0x4e, 0x6f, 0x6d, 0x69, 0x6e, 0x61, 0x74, 0x65, 0x64, 0x43, 0x6f, 0x75, 0x6e, 0x74]) (\<lambda>w.
     bindG (wrapW W [Fld ''Nominations'', Idx i, Fld ''NominatedCount''] (WriteInt64 W w (NominatedCount x))) (\<lambda>w.
     encode_nominations W (Suc i) xs w))))"

definition BCHBlock_EncodeMsg :: "('w, 'e) writer \<Rightarrow> BCHBlock \<Rightarrow> 'w \<Rightarrow> 'e + 'w" where
  "BCHBlock_EncodeMsg W z w =
     bindG (WAppend W w [0x85, 0xa6, 0x48, 0x65, 0x69, 0x67, 0x68, 0x74]) (\<lambda>w.
     bindG (wrapW W [Fld ''Height''] (WriteInt64 W w (Height z))) (\<lambda>w.
     bindG (WAppend W w [0xa9, 0x54, 0x69, 0x6d, 0x65, 0x73, 0x74, 0x61, 0x6d, 0x70]) (\<lambda>w.
     bindG (wrapW W [Fld ''Timestamp''] (WriteInt64 W w (Timestamp z))) (\<lambda>w.
     bindG (WAppend W w [0xa6, 0x48, 0x61, 0x73, 0x68, 0x49, 0x64]) (\<lambda>w.
     bindG (wrapW W [Fld ''HashId''] (WriteBytes W w (be_bytes 32 (HashId z)))) (\<lambda>w.
     bindG (WAppend W w [0xa9, 0x50, 0x61, 0x72, 0x65, 0x6e, 0x74, 0x42, 0x6c, 0x6b]) (\<lambda>w.
     bindG (wrapW W [Fld ''ParentBlk''] (WriteBytes W w (be_bytes 32 (ParentBlk z)))) (\<lambda>w.
     bindG (WAppend W w [0xab, 0x4e, 0x6f, 0x6d, 0x69, 0x6e, 0x61, 0x74, 0x69, 0x6f, 0x6e, 0x73]) (\<lambda>w.
     bindG (wrapW W [Fld ''Nominations''] (WriteArrayHeader W w (of_nat (length (Nominations z))))) (\<lambda>w.
     encode_nominations W 0 (Nominations z) w))))))))))"

definition BCHBlock_Msgsize :: "sizes \<Rightarrow> BCHBlock \<Rightarrow> nat" where
  "BCHBlock_Msgsize S z =
     1 + 7 + Int64Size S + 10 + Int64Size S + 7 + ArrayHeaderSize S + (32 * ByteSize S) + 10 +
     ArrayHeaderSize S + (32 * ByteSize S) + 12 + ArrayHeaderSize S +
     (length (Nominations z) * (23 + (32 * ByteSize S) + Int64Size S))"

definition BCHBlock_MarshalMsg :: "appender \<Rightarrow> sizes \<Rightarrow> BCHBlock \<Rightarrow> bytes \<Rightarrow> bytes" where
  "BCHBlock_MarshalMsg A S z b =
     (let ob = Require A b (BCHBlock_Msgsize S z);
          ob = ob @ [0x85, 0xa6, 0x48, 0x65, 0x69, 0x67, 0x68, 0x74];
          ob = AppendInt64 A ob (Height z);
          ob = ob @ [0xa9, 0x54, 0x69, 0x6d, 0x65, 0x73, 0x74, 0x61, 0x6d, 0x70];
          ob = AppendInt64 A ob (Timestamp z);
          ob = ob @ [0xa6, 0x48, 0x61, 0x73, 0x68, 0x49, 0x64];
          ob = AppendBytes A ob (be_bytes 32 (HashId z));
          ob = ob @ [0xa9, 0x50, 0x61, 0x72, 0x65, 0x6e, 0x74, 0x42, 0x6c, 0x6b];
          ob = AppendBytes A ob (be_bytes 32 (ParentBlk z));
          ob = ob @ [0xab, 0x4e, 0x6f, 0x6d, 0x69, 0x6e, 0x61, 0x74, 0x69, 0x6f, 0x6e, 0x73];
          ob = AppendArrayHeader A ob (of_nat (length (Nominations z)));
          ob = foldl (\<lambda>ob x.
                 let ob = ob @ [0x82, 0xa6, 0x50, 0x75, 0x62, 0x6b, 0x65, 0x79];
                     ob = AppendBytes A ob (be_bytes 32 (Nom_Pubkey x));
                     ob = ob @ [0xae, 0x4e, 0x6f, 0x6d, 0x69, 0x6e, 0x61, 0x74, 0x65, 0x64, 0x43, 0x6f, 0x75, 0x6e, 0x74];
                     ob = AppendInt64 A ob (NominatedCount x)
                 in ob) ob (Nominations z)
      in ob)"

section \<open>What the encoders write\<close>

definition fixstr :: "bytes \<Rightarrow> bytes" where
  "fixstr s = (0xa0 + of_nat (length s)) # s"

lemma of_char_byte_inject: "(of_char c :: byte) = of_char d \<longleftrightarrow> c = d"
proof
  assume eq: "(of_char c :: byte) = of_char d"
  have u: "unat (of_char c :: byte) = of_char c" for c
  proof -
    have "(of_char c :: byte) = of_nat (of_char c)" by (simp add: of_nat_of_char)
    then have "unat (of_char c :: byte) = of_char c mod 2 ^ LENGTH(8)" by (simp only: unat_of_nat)
    then show ?thesis using nat_of_char_less_256 [of c] by simp
  qed
  from eq have "unat (of_char c :: byte) = unat (of_char d :: byte)" by simp
  then show "c = d" by (simp add: u)
qed simp

lemma str_bytes_inject [simp]: "str_bytes s = str_bytes t \<longleftrightarrow> s = t"
proof -
  have "inj (of_char :: char \<Rightarrow> byte)" by (rule injI) (simp add: of_char_byte_inject)
  then show ?thesis by (simp add: str_bytes_def inj_map_eq_map)
qed

lemma length_str_bytes [simp]: "length (str_bytes s) = length s"
  by (simp add: str_bytes_def)

lemma read_fields_numeral [simp]:
  "read_fields R ctx f (numeral k) z r =
     bindG (wrapE R ctx (ReadMapKey R r)) (\<lambda>(key, r).
     bindG (f z key r) (\<lambda>(z, r). read_fields R ctx f (pred_numeral k) z r))"
  by (simp add: numeral_eq_Suc)

lemma read_key:
  assumes "msgp_laws R A" and "length s < 32"
  shows "ReadMapKey R (fixstr s @ r) = Inr (s, r)"
  using msgp_key [OF assms(1) refl assms(2)] by (simp add: fixstr_def)

lemma read_map_header:
  assumes "msgp_laws R A" and "h = 0x80 + of_nat n" and "n < 16"
  shows "read_map R ctx f z (h # r) = read_fields R ctx f n z r"
proof -
  have "unat (of_nat n :: uint32) = n" using assms(3) by (simp add: unat_of_nat)
  then show ?thesis by (simp add: read_map_def msgp_header [OF assms])
qed

lemma be_word_addr [simp]: "(be_word (be_bytes 20 a) :: address) = a"
  by (rule be_word_be_bytes) simp

lemma be_word_32 [simp]: "(be_word (be_bytes 32 x) :: bytes32) = x"
  by (rule be_word_be_bytes) simp

definition Validator_bytes :: "appender \<Rightarrow> Validator \<Rightarrow> bytes" where
  "Validator_bytes A v = 0x87 #
     fixstr (str_bytes ''Address'') @ AppendBytes A [] (be_bytes 20 (Address v)) @
     fixstr (str_bytes ''Pubkey'') @ AppendBytes A [] (be_bytes 32 (Pubkey v)) @
     fixstr (str_bytes ''RewardTo'') @ AppendBytes A [] (be_bytes 20 (RewardTo v)) @
     fixstr (str_bytes ''VotingPower'') @ AppendInt64 A [] (VotingPower v) @
     fixstr (str_bytes ''Introduction'') @ AppendString A [] (Introduction v) @
     fixstr (str_bytes ''StakedCoins'') @ AppendBytes A [] (be_bytes 32 (StakedCoins v)) @
     fixstr (str_bytes ''IsRetiring'') @ AppendBool A [] (IsRetiring v)"

definition PendingReward_bytes :: "appender \<Rightarrow> PendingReward \<Rightarrow> bytes" where
  "PendingReward_bytes A p = 0x83 #
     fixstr (str_bytes ''Address'') @ AppendBytes A [] (be_bytes 20 (PR_Address p)) @
     fixstr (str_bytes ''EpochNum'') @ AppendInt64 A [] (EpochNum p) @
     fixstr (str_bytes ''Amount'') @ AppendBytes A [] (be_bytes 32 (Amount p))"

lemma Validator_MarshalMsg_eq:
  "msgp_laws R A \<Longrightarrow> Validator_MarshalMsg A S v b = b @ Validator_bytes A v"
  by (simp add: Validator_MarshalMsg_def Validator_bytes_def Let_def msgp_append fixstr_def str_bytes_def)

lemma PendingReward_MarshalMsg_eq:
  "msgp_laws R A \<Longrightarrow> PendingReward_MarshalMsg A S p b = b @ PendingReward_bytes A p"
  by (simp add: PendingReward_MarshalMsg_def PendingReward_bytes_def Let_def msgp_append
      fixstr_def str_bytes_def)

lemma Validator_UnmarshalMsg_bytes:
  assumes laws: "msgp_laws R A" and "length (Introduction v) < 2 ^ 32"
  shows "Validator_UnmarshalMsg R z (Validator_bytes A v @ r) = Inr (v, r)"
  using assms(2)
  by (simp add: Validator_UnmarshalMsg_def Validator_bytes_def read_map_header [OF laws, where n = 7]
      read_key [OF laws] Validator_field_def msgp_read [OF laws])

lemma PendingReward_UnmarshalMsg_bytes:
  assumes laws: "msgp_laws R A"
  shows "PendingReward_UnmarshalMsg R z (PendingReward_bytes A p @ r) = Inr (p, r)"
  by (simp add: PendingReward_UnmarshalMsg_def PendingReward_bytes_def read_map_header [OF laws, where n = 3]
      read_key [OF laws] PendingReward_field_def msgp_read [OF laws])

section \<open>The codecs of the entries\<close>

definition ptr_bytes :: "('x \<Rightarrow> bytes) \<Rightarrow> 'x option \<Rightarrow> bytes" where
  "ptr_bytes enc x = (case x of None \<Rightarrow> [0xc0] | Some v \<Rightarrow> enc v)"

definition ok_validator :: "Validator option \<Rightarrow> bool" where
  "ok_validator x \<longleftrightarrow> (\<forall>v. x = Some v \<longrightarrow> length (Introduction v) < 2 ^ 32)"

lemma ptr_element_bytes:
  assumes laws: "msgp_laws R A" and "\<And>r. IsNil R (enc v @ r) = False"
    and "\<And>r. dec zero (enc v @ r) = Inr (v, r)"
  shows "ptr_element R nil_err dec zero name i None (ptr_bytes enc (Some v) @ r) = Inr (Some v, r)"
    and "ptr_element R nil_err dec zero name i None (ptr_bytes enc None @ r) = Inr (None, r)"
  using assms(2,3) by (simp_all add: ptr_element_def ptr_bytes_def msgp_read [OF laws])

lemma not_nil_bytes:
  assumes "msgp_laws R A"
  shows "IsNil R (Validator_bytes A v @ r) = False"
    and "IsNil R (PendingReward_bytes A p @ r) = False"
  by (simp_all add: msgp_read [OF assms] Validator_bytes_def PendingReward_bytes_def)

interpretation validator_codec: msg_codec "ptr_bytes (Validator_bytes A)"
  "\<lambda>i. ptr_element R (nil_err i) (Validator_UnmarshalMsg R) zero_Validator name i" None
  "\<lambda>x. msgp_laws R A \<and> ok_validator x"
  for A R nil_err name
proof
  fix x i r
  assume x: "msgp_laws R A \<and> ok_validator x"
  then have laws: "msgp_laws R A" by simp
  show "ptr_element R (nil_err i) (Validator_UnmarshalMsg R) zero_Validator name i None
          (ptr_bytes (Validator_bytes A) x @ r) = Inr (x, r)"
  proof (cases x)
    case None
    then show ?thesis by (simp add: ptr_element_def ptr_bytes_def msgp_read [OF laws])
  next
    case (Some v)
    with x show ?thesis
      by (simp add: ptr_element_bytes [of R A] not_nil_bytes Validator_UnmarshalMsg_bytes ok_validator_def)
  qed
qed

interpretation reward_codec: msg_codec "ptr_bytes (PendingReward_bytes A)"
  "\<lambda>i. ptr_element R (nil_err i) (PendingReward_UnmarshalMsg R) zero_PendingReward name i" None
  "\<lambda>x. msgp_laws R A"
  for A R nil_err name
proof
  fix x i r
  assume laws: "msgp_laws R A"
  show "ptr_element R (nil_err i) (PendingReward_UnmarshalMsg R) zero_PendingReward name i None
          (ptr_bytes (PendingReward_bytes A) x @ r) = Inr (x, r)"
  proof (cases x)
    case None
    then show ?thesis by (simp add: ptr_element_def ptr_bytes_def msgp_read [OF laws])
  next
    case (Some v)
    with laws show ?thesis
      by (simp add: ptr_element_bytes [of R A] not_nil_bytes PendingReward_UnmarshalMsg_bytes)
  qed
qed

section \<open>The codec of the staking information\<close>

definition StakingInfo_bytes :: "appender \<Rightarrow> StakingInfoPtr \<Rightarrow> bytes" where
  "StakingInfo_bytes A z = 0x83 #
     fixstr (str_bytes ''CurrEpochNum'') @ AppendInt64 A [] (SI_CurrEpochNum z) @
     fixstr (str_bytes ''Validators'') @ AppendArrayHeader A [] (of_nat (length (SI_Validators z))) @
     concat (map (ptr_bytes (Validator_bytes A)) (SI_Validators z)) @
     fixstr (str_bytes ''PendingRewards'') @ AppendArrayHeader A [] (of_nat (length (SI_PendingRewards z))) @
     concat (map (ptr_bytes (PendingReward_bytes A)) (SI_PendingRewards z))"

definition zero_StakingInfo :: StakingInfoPtr where
  "zero_StakingInfo = \<lparr>SI_CurrEpochNum = 0, SI_Validators = [], SI_PendingRewards = []\<rparr>"

definition storable :: "StakingInfoPtr \<Rightarrow> bool" where
  "storable z \<longleftrightarrow> length (SI_Validators z) < 2 ^ 32 \<and> length (SI_PendingRewards z) < 2 ^ 32 \<and>
     list_all ok_validator (SI_Validators z)"

lemma foldl_ptrs:
  assumes "msgp_laws R A" and "\<And>v b. m v b = b @ enc v"
  shows "foldl (\<lambda>ob x. case x of None \<Rightarrow> AppendNil A ob | Some v \<Rightarrow> m v ob) b xs =
         b @ concat (map (ptr_bytes enc) xs)"
  by (induction xs arbitrary: b)
    (simp_all add: ptr_bytes_def assms(2) msgp_append [OF assms(1)] split: option.splits)

lemma StakingInfo_MarshalMsg_eq:
  assumes laws: "msgp_laws R A"
  shows "StakingInfo_MarshalMsg A S z b = b @ StakingInfo_bytes A z"
  by (simp add: StakingInfo_MarshalMsg_def StakingInfo_bytes_def Let_def msgp_append [OF laws]
      foldl_ptrs [OF laws Validator_MarshalMsg_eq [OF laws]]
      foldl_ptrs [OF laws PendingReward_MarshalMsg_eq [OF laws]] fixstr_def str_bytes_def)

lemma reslice_fresh:
  "length xs < 2 ^ 32 \<Longrightarrow> reslice zero [] (of_nat (length xs) :: uint32) = replicate (length xs) zero"
  by (auto simp: reslice_def unat_of_nat)

lemma StakingInfo_UnmarshalMsg_bytes:
  assumes laws: "msgp_laws R A" and "storable z"
  shows "StakingInfo_UnmarshalMsg R zero_StakingInfo (StakingInfo_bytes A z @ r) = Inr (z, r)"
proof -
  from assms have oks: "list_all (\<lambda>x. msgp_laws R A \<and> ok_validator x) (SI_Validators z)"
    "list_all (\<lambda>x :: PendingReward option. msgp_laws R A) (SI_PendingRewards z)"
    by (simp_all add: storable_def list_all_iff)
  from assms(2) have len: "length (SI_Validators z) < 2 ^ 32" "length (SI_PendingRewards z) < 2 ^ 32"
    by (simp_all add: storable_def)
  show ?thesis
    unfolding StakingInfo_UnmarshalMsg_def StakingInfo_bytes_def zero_StakingInfo_def
    by (simp add: read_map_header [OF laws, where n = 3] read_key [OF laws] StakingInfo_field_def
        msgp_read [OF laws] reslice_fresh [OF len(1)] reslice_fresh [OF len(2)]
        validator_codec.array_decodes [OF oks(1)] reward_codec.array_decodes [OF oks(2)])
qed

section \<open>The codecs of the epoch and of the block\<close>

definition Epoch_bytes :: "appender \<Rightarrow> Epoch \<Rightarrow> bytes" where
  "Epoch_bytes A e = 0x83 #
     fixstr (str_bytes ''StartHeight'') @ AppendInt64 A [] (StartHeight e) @
     fixstr (str_bytes ''EndTime'') @ AppendInt64 A [] (EndTime e) @
     fixstr (str_bytes ''Duration'') @ AppendInt64 A [] (Duration e)"

definition Nomination_bytes :: "appender \<Rightarrow> Nomination \<Rightarrow> bytes" where
  "Nomination_bytes A n = 0x82 #
     fixstr (str_bytes ''Pubkey'') @ AppendBytes A [] (be_bytes 32 (Nom_Pubkey n)) @
     fixstr (str_bytes ''NominatedCount'') @ AppendInt64 A [] (NominatedCount n)"

definition BCHBlock_bytes :: "appender \<Rightarrow> BCHBlock \<Rightarrow> bytes" where
  "BCHBlock_bytes A z = 0x85 #
     fixstr (str_bytes ''Height'') @ AppendInt64 A [] (Height z) @
     fixstr (str_bytes ''Timestamp'') @ AppendInt64 A [] (Timestamp z) @
     fixstr (str_bytes ''HashId'') @ AppendBytes A [] (be_bytes 32 (HashId z)) @
     fixstr (str_bytes ''ParentBlk'') @ AppendBytes A [] (be_bytes 32 (ParentBlk z)) @
     fixstr (str_bytes ''Nominations'') @ AppendArrayHeader A [] (of_nat (length (Nominations z))) @
     concat (map (Nomination_bytes A) (Nominations z))"

definition zero_BCHBlock :: BCHBlock where
  "zero_BCHBlock = \<lparr>Height = 0, Timestamp = 0, HashId = 0, ParentBlk = 0, Nominations = []\<rparr>"

lemma Epoch_MarshalMsg_eq:
  "msgp_laws R A \<Longrightarrow> Epoch_MarshalMsg A S e b = b @ Epoch_bytes A e"
  by (simp add: Epoch_MarshalMsg_def Epoch_bytes_def Let_def msgp_append fixstr_def str_bytes_def)

lemma Nomination_MarshalMsg_eq:
  "msgp_laws R A \<Longrightarrow> Nomination_MarshalMsg A S n b = b @ Nomination_bytes A n"
  by (simp add: Nomination_MarshalMsg_def Nomination_bytes_def Let_def msgp_append fixstr_def str_bytes_def)

lemma Epoch_UnmarshalMsg_bytes:
  assumes laws: "msgp_laws R A"
  shows "Epoch_UnmarshalMsg R z (Epoch_bytes A e @ r) = Inr (e\<lparr>ValMapByPubkey := ValMapByPubkey z\<rparr>, r)"
  by (simp add: Epoch_UnmarshalMsg_def Epoch_bytes_def read_map_header [OF laws, where n = 3]
      read_key [OF laws] Epoch_field_def msgp_read [OF laws])

lemma Nomination_UnmarshalMsg_bytes:
  assumes laws: "msgp_laws R A"
  shows "Nomination_UnmarshalMsg R z (Nomination_bytes A n @ r) = Inr (n, r)"
  by (simp add: Nomination_UnmarshalMsg_def Nomination_bytes_def read_map_header [OF laws, where n = 2]
      read_key [OF laws] Nomination_field_def msgp_read [OF laws])

interpretation nomination_codec: msg_codec "Nomination_bytes A" "nomination_element R" zero_Nomination
  "\<lambda>x. msgp_laws R A"
  for A R
proof
  fix x i r
  assume laws: "msgp_laws R A"
  show "nomination_element R i zero_Nomination (Nomination_bytes A x @ r) = Inr (x, r)"
    by (simp add: nomination_element_def Nomination_bytes_def read_map_header [OF laws, where n = 2]
        read_key [OF laws] msgp_read [OF laws])
qed

lemma foldl_append_bytes:
  assumes "\<And>b x. f b x = b @ enc x"
  shows "foldl f b xs = b @ concat (map enc xs)"
  by (induction xs arbitrary: b) (simp_all add: assms)

lemma BCHBlock_MarshalMsg_eq:
  assumes laws: "msgp_laws R A"
  shows "BCHBlock_MarshalMsg A S z b = b @ BCHBlock_bytes A z"
proof -
  have nom: "AppendInt64 A (AppendBytes A (b @ [0x82, 0xa6, 0x50, 0x75, 0x62, 0x6b, 0x65, 0x79])
        (be_bytes 32 (Nom_Pubkey x)) @
        [0xae, 0x4e, 0x6f, 0x6d, 0x69, 0x6e, 0x61, 0x74, 0x65, 0x64, 0x43, 0x6f, 0x75, 0x6e, 0x74])
      (NominatedCount x) = b @ Nomination_bytes A x" for b x
    by (simp add: Nomination_bytes_def msgp_append [OF laws] fixstr_def str_bytes_def)
  show ?thesis
    unfolding BCHBlock_MarshalMsg_def Let_def nom foldl_append_bytes [where enc = "Nomination_bytes A", OF refl]
    by (simp add: BCHBlock_bytes_def msgp_append [OF laws] fixstr_def str_bytes_def)
qed

lemma BCHBlock_UnmarshalMsg_bytes:
  assumes laws: "msgp_laws R A" and len: "length (Nominations z) < 2 ^ 32"
  shows "BCHBlock_UnmarshalMsg R zero_BCHBlock (BCHBlock_bytes A z @ r) = Inr (z, r)"
proof -
  from laws have ok: "list_all (\<lambda>x :: Nomination. msgp_laws R A) (Nominations z)"
    by (simp add: list_all_iff)
  show ?thesis
    unfolding BCHBlock_UnmarshalMsg_def BCHBlock_bytes_def zero_BCHBlock_def
    by (simp add: read_map_header [OF laws, where n = 5] read_key [OF laws] BCHBlock_field_def
        msgp_read [OF laws] reslice_fresh [OF len] nomination_codec.array_decodes [OF ok])
qed

section \<open>The streaming encoder and the reserved size\<close>

text \<open>
  A \<^verbatim>\<open>msgp.Writer\<close> over a buffer: each method appends what the \<^verbatim>\<open>msgp.Append\<close> function of the
  same name appends. The sizes the library declares bound what the functions append.
\<close>

definition writer_laws :: "(bytes, 'e) writer \<Rightarrow> appender \<Rightarrow> bool" where
  "writer_laws W A \<longleftrightarrow>
     (\<forall>w b. WAppend W w b = Inr (w @ b)) \<and>
     (\<forall>w x. WriteInt64 W w x = Inr (AppendInt64 A w x)) \<and>
     (\<forall>w x. WriteBytes W w x = Inr (AppendBytes A w x)) \<and>
     (\<forall>w x. WriteString W w x = Inr (AppendString A w x)) \<and>
     (\<forall>w x. WriteBool W w x = Inr (AppendBool A w x)) \<and>
     (\<forall>w x. WriteArrayHeader W w x = Inr (AppendArrayHeader A w x)) \<and>
     (\<forall>w. WriteNil W w = Inr (AppendNil A w))"

definition size_laws :: "sizes \<Rightarrow> appender \<Rightarrow> bool" where
  "size_laws S A \<longleftrightarrow> 1 \<le> ByteSize S \<and> 1 \<le> NilSize S \<and>
     (\<forall>x. length (AppendInt64 A [] x) \<le> Int64Size S) \<and>
     (\<forall>x. length x < 2 ^ 32 \<longrightarrow> length (AppendBytes A [] x) \<le> ArrayHeaderSize S + length x) \<and>
     (\<forall>x. length (AppendString A [] x) \<le> StringPrefixSize S + length x) \<and>
     (\<forall>x. length (AppendBool A [] x) \<le> BoolSize S) \<and>
     (\<forall>x. length (AppendArrayHeader A [] x) \<le> ArrayHeaderSize S)"

definition mp_writer :: "(bytes, unit) writer" where
  "mp_writer = \<lparr>WAppend = (\<lambda>w b. Inr (w @ b)),
     WriteInt64 = (\<lambda>w x. Inr (AppendInt64 mp_append w x)),
     WriteBytes = (\<lambda>w x. Inr (AppendBytes mp_append w x)),
     WriteString = (\<lambda>w x. Inr (AppendString mp_append w x)),
     WriteBool = (\<lambda>w x. Inr (AppendBool mp_append w x)),
     WriteArrayHeader = (\<lambda>w x. Inr (AppendArrayHeader mp_append w x)),
     WriteNil = (\<lambda>w. Inr (AppendNil mp_append w)),
     WWrapError = (\<lambda>e ctx. e)\<rparr>"

definition mp_sizes :: sizes where
  "mp_sizes = \<lparr>Int64Size = 9, ArrayHeaderSize = 5, ByteSize = 2, StringPrefixSize = 5,
     BoolSize = 1, NilSize = 1\<rparr>"

lemma mp_writer_laws: "writer_laws mp_writer mp_append"
  by (simp add: writer_laws_def mp_writer_def)

lemma mp_size_laws: "size_laws mp_sizes mp_append"
  by (simp add: size_laws_def mp_sizes_def mp_append_def)

lemma Validator_EncodeMsg_eq:
  assumes "msgp_laws R A" and "writer_laws W A"
  shows "Validator_EncodeMsg W v w = Inr (Validator_MarshalMsg A S v w)"
  using assms by (simp add: Validator_EncodeMsg_def Validator_MarshalMsg_def writer_laws_def msgp_append(1) Let_def)

lemma PendingReward_EncodeMsg_eq:
  assumes "msgp_laws R A" and "writer_laws W A"
  shows "PendingReward_EncodeMsg W v w = Inr (PendingReward_MarshalMsg A S v w)"
  using assms
  by (simp add: PendingReward_EncodeMsg_def PendingReward_MarshalMsg_def writer_laws_def msgp_append(1) Let_def)

lemma encode_ptrs_eq:
  assumes "writer_laws W A" and "\<And>v w. enc v w = Inr (m v w)"
  shows "encode_ptrs W enc name i xs w =
         Inr (foldl (\<lambda>ob x. case x of None \<Rightarrow> AppendNil A ob | Some v \<Rightarrow> m v ob) w xs)"
proof (induction xs arbitrary: i w)
  case Nil
  then show ?case by simp
next
  case (Cons x xs)
  with assms(1) show ?case by (cases x) (simp_all add: writer_laws_def assms(2))
qed

lemma sum_ptr_bytes:
  assumes "\<And>v. Some v \<in> set xs \<Longrightarrow> length (enc v) \<le> sz v" and "1 \<le> nil"
  shows "k + length (concat (map (ptr_bytes enc) xs)) \<le>
         foldl (\<lambda>s x. s + (case x of None \<Rightarrow> nil | Some v \<Rightarrow> sz v)) k xs"
  using assms(1)
proof (induction xs arbitrary: k)
  case Nil
  then show ?case by simp
next
  case (Cons x xs)
  have "length (ptr_bytes enc x) \<le> (case x of None \<Rightarrow> nil | Some v \<Rightarrow> sz v)"
    using Cons.prems assms(2) by (cases x) (auto simp: ptr_bytes_def)
  with Cons.IH [of "k + (case x of None \<Rightarrow> nil | Some v \<Rightarrow> sz v)"] Cons.prems
  show ?case by fastforce
qed

lemma size_lawsD:
  assumes "size_laws S A"
  shows "1 \<le> NilSize S"
    and "length (AppendInt64 A [] x) \<le> Int64Size S"
    and "length (AppendBytes A [] (be_bytes 20 a)) \<le> ArrayHeaderSize S + 20 * ByteSize S"
    and "length (AppendBytes A [] (be_bytes 32 c)) \<le> ArrayHeaderSize S + 32 * ByteSize S"
    and "length (AppendString A [] y) \<le> StringPrefixSize S + length y"
    and "length (AppendBool A [] t) \<le> BoolSize S"
    and "length (AppendArrayHeader A [] n) \<le> ArrayHeaderSize S"
proof -
  have "1 \<le> ByteSize S"
    and b: "length x < 2 ^ 32 \<Longrightarrow> length (AppendBytes A [] x) \<le> ArrayHeaderSize S + length x" for x
    using assms by (auto simp: size_laws_def)
  then show "length (AppendBytes A [] (be_bytes 20 a)) \<le> ArrayHeaderSize S + 20 * ByteSize S"
    and "length (AppendBytes A [] (be_bytes 32 c)) \<le> ArrayHeaderSize S + 32 * ByteSize S"
    using b [of "be_bytes 20 a"] b [of "be_bytes 32 c"] by simp_all
qed (use assms in \<open>auto simp: size_laws_def\<close>)

lemma Validator_bytes_size:
  assumes "size_laws S A"
  shows "length (Validator_bytes A v) \<le> Validator_Msgsize S v"
  using size_lawsD(2) [OF assms, of "VotingPower v"] size_lawsD(3) [OF assms, of "Address v"]
    size_lawsD(3) [OF assms, of "RewardTo v"] size_lawsD(4) [OF assms, of "Pubkey v"]
    size_lawsD(4) [OF assms, of "StakedCoins v"] size_lawsD(5) [OF assms, of "Introduction v"]
    size_lawsD(6) [OF assms, of "IsRetiring v"]
  by (simp add: Validator_bytes_def Validator_Msgsize_def fixstr_def)

lemma PendingReward_bytes_size:
  assumes "size_laws S A"
  shows "length (PendingReward_bytes A p) \<le> PendingReward_Msgsize S p"
  using size_lawsD(2) [OF assms, of "EpochNum p"] size_lawsD(3) [OF assms, of "PR_Address p"]
    size_lawsD(4) [OF assms, of "Amount p"]
  by (simp add: PendingReward_bytes_def PendingReward_Msgsize_def fixstr_def)

section \<open>Properties\<close>

text \<open>
  (C18) The staking information is read back as it was written: \<^verbatim>\<open>UnmarshalMsg\<close> into a fresh
  variable returns exactly what \<^verbatim>\<open>MarshalMsg\<close> encoded, nil entries included, and leaves the bytes
  that follow, for every information of fewer than \<open>2 ^ 32\<close> entries and introductions of fewer
  than \<open>2 ^ 32\<close> bytes (the limits of the format).
\<close>

theorem StakingInfo_roundtrip:
  assumes "msgp_laws R A" and "storable z"
  shows "StakingInfo_UnmarshalMsg R zero_StakingInfo (StakingInfo_MarshalMsg A S z [] @ r) = Inr (z, r)"
  by (simp add: StakingInfo_MarshalMsg_eq [OF assms(1)] StakingInfo_UnmarshalMsg_bytes [OF assms])

definition witness_stored :: StakingInfoPtr where
  "witness_stored = \<lparr>SI_CurrEpochNum = 5, SI_Validators = [Some (witness_validator 1 101 3 1000), None],
     SI_PendingRewards = [Some \<lparr>PR_Address = 1, EpochNum = 5, Amount = 40\<rparr>]\<rparr>"

lemma storable_witness: "storable witness_stored"
  by (simp add: storable_def witness_stored_def ok_validator_def witness_validator_def)

theorem StakingInfo_roundtrip_witness:
  "StakingInfo_UnmarshalMsg mp_reader zero_StakingInfo
     (StakingInfo_MarshalMsg mp_append mp_sizes witness_stored [] @ [7]) = Inr (witness_stored, [7])"
  using StakingInfo_roundtrip [OF mp_laws storable_witness] .

text \<open>
  The two encoders agree: \<^verbatim>\<open>EncodeMsg\<close> on a writer that appends to a buffer never fails and
  writes what \<^verbatim>\<open>MarshalMsg\<close> appends.
\<close>

lemma StakingInfo_EncodeMsg_MarshalMsg:
  assumes "msgp_laws R A" and "writer_laws W A"
  shows "StakingInfo_EncodeMsg W z w = Inr (StakingInfo_MarshalMsg A S z w)"
  using assms(2)
  by (simp add: StakingInfo_EncodeMsg_def StakingInfo_MarshalMsg_def Let_def msgp_append(1) [OF assms(1)]
      encode_ptrs_eq [OF assms(2) Validator_EncodeMsg_eq [OF assms, where S = S]]
      encode_ptrs_eq [OF assms(2) PendingReward_EncodeMsg_eq [OF assms, where S = S]] writer_laws_def)

lemma StakingInfo_EncodeMsg_MarshalMsg_witness:
  "StakingInfo_EncodeMsg mp_writer witness_stored [1] =
     Inr (StakingInfo_MarshalMsg mp_append mp_sizes witness_stored [1])"
  using StakingInfo_EncodeMsg_MarshalMsg [OF mp_laws mp_writer_laws] .

text \<open>
  \<^verbatim>\<open>Msgsize\<close> bounds the encoding, so the space \<^verbatim>\<open>MarshalMsg\<close> reserves is enough for all it
  appends.
\<close>

lemma StakingInfo_Msgsize_bound:
  assumes "msgp_laws R A" and "size_laws S A"
  shows "length (StakingInfo_MarshalMsg A S z b) \<le> length b + StakingInfo_Msgsize S z"
proof -
  let ?v = "length (concat (map (ptr_bytes (Validator_bytes A)) (SI_Validators z)))"
  let ?p = "length (concat (map (ptr_bytes (PendingReward_bytes A)) (SI_PendingRewards z)))"
  note ptrs = sum_ptr_bytes [OF Validator_bytes_size [OF assms(2)] size_lawsD(1) [OF assms(2)]]
    sum_ptr_bytes [OF PendingReward_bytes_size [OF assms(2)] size_lawsD(1) [OF assms(2)]]
  have v: "1 + 13 + Int64Size S + 11 + ArrayHeaderSize S + ?v \<le>
      foldl (\<lambda>s x. s + (case x of None \<Rightarrow> NilSize S | Some v \<Rightarrow> Validator_Msgsize S v))
        (1 + 13 + Int64Size S + 11 + ArrayHeaderSize S) (SI_Validators z)" (is "_ \<le> ?sv")
    by (rule ptrs(1))
  have "?sv + (15 + ArrayHeaderSize S) + ?p \<le> StakingInfo_Msgsize S z"
    unfolding StakingInfo_Msgsize_def by (rule ptrs(2))
  with v have "1 + 13 + Int64Size S + 11 + ArrayHeaderSize S + ?v + (15 + ArrayHeaderSize S) + ?p
      \<le> StakingInfo_Msgsize S z" by linarith
  moreover have "length (StakingInfo_bytes A z) \<le>
      1 + 13 + Int64Size S + 11 + ArrayHeaderSize S + ?v + (15 + ArrayHeaderSize S) + ?p"
    using size_lawsD(2) [OF assms(2), of "SI_CurrEpochNum z"]
      size_lawsD(7) [OF assms(2), of "of_nat (length (SI_Validators z))"]
      size_lawsD(7) [OF assms(2), of "of_nat (length (SI_PendingRewards z))"]
    by (simp add: StakingInfo_bytes_def fixstr_def)
  ultimately show ?thesis by (simp add: StakingInfo_MarshalMsg_eq [OF assms(1)])
qed

lemma StakingInfo_Msgsize_bound_witness:
  "length (StakingInfo_MarshalMsg mp_append mp_sizes witness_stored []) \<le> 524"
  using StakingInfo_Msgsize_bound [OF mp_laws mp_size_laws, of witness_stored "[]"]
  by (simp add: StakingInfo_Msgsize_def Validator_Msgsize_def PendingReward_Msgsize_def
      witness_stored_def mp_sizes_def witness_validator_def)

text \<open>
  The codec of an epoch keeps its heights and times and never its nominations: an epoch
  that is marshalled and unmarshalled has the map of the variable it is read into, so the map
  of nominations does not survive a round trip. The nominations of a BCH block do.
\<close>

lemma Epoch_codec_drops_nominations:
  assumes "msgp_laws R A" and "length (Nominations blk) < 2 ^ 32"
  shows "Epoch_UnmarshalMsg R z (Epoch_MarshalMsg A S e [] @ r) =
           Inr (e\<lparr>ValMapByPubkey := ValMapByPubkey z\<rparr>, r) \<and>
         BCHBlock_UnmarshalMsg R zero_BCHBlock (BCHBlock_MarshalMsg A S blk [] @ r) = Inr (blk, r)"
  by (simp add: Epoch_MarshalMsg_eq [OF assms(1)] Epoch_UnmarshalMsg_bytes [OF assms(1)]
      BCHBlock_MarshalMsg_eq [OF assms(1)] BCHBlock_UnmarshalMsg_bytes [OF assms])

lemma Epoch_codec_drops_nominations_witness:
  "Epoch_UnmarshalMsg mp_reader \<lparr>StartHeight = 0, EndTime = 0, Duration = 0, ValMapByPubkey = []\<rparr>
     (Epoch_MarshalMsg mp_append mp_sizes
        \<lparr>StartHeight = 3, EndTime = 9, Duration = 6,
         ValMapByPubkey = [(1, \<lparr>Nom_Pubkey = 1, NominatedCount = 2\<rparr>)]\<rparr> [] @ []) =
   Inr (\<lparr>StartHeight = 3, EndTime = 9, Duration = 6, ValMapByPubkey = []\<rparr>, [])"
  using Epoch_codec_drops_nominations [OF mp_laws, of zero_BCHBlock
      "\<lparr>StartHeight = 0, EndTime = 0, Duration = 0, ValMapByPubkey = []\<rparr>" mp_sizes
      "\<lparr>StartHeight = 3, EndTime = 9, Duration = 6,
        ValMapByPubkey = [(1, \<lparr>Nom_Pubkey = 1, NominatedCount = 2\<rparr>)]\<rparr>" "[]"]
  by (simp add: zero_BCHBlock_def)

end
