(* ===== verification/Staking_Store.thy ===== *)
theory Staking_Store
  imports Staking_Codec Evm_World
begin

text \<open>
  The state of the staking contract in the world state (\<^verbatim>\<open>staking/staking.go\<close>): the account of
  the contract, the encoded staking information in one storage slot, and the current and the
  last minimal gas price in two others. The constants of the contract are here too.
  A nil entry in the encoded slices, which \<^verbatim>\<open>SaveStakingInfo\<close> never writes, is a nil
  dereference of whoever ranges over the slice next; the model raises it when the slice is read.
\<close>

section \<open>Constants\<close>

definition StakingContractAddress :: address where
  "StakingContractAddress = 0x2710"

definition StakingContractSequence :: uint64 where
  "StakingContractSequence = 0xffffffffffffffff - 2"

definition SelectorCreateValidator :: bytes where "SelectorCreateValidator = [0x24, 0xd1, 0xed, 0x5d]"
definition SelectorEditValidator :: bytes where "SelectorEditValidator = [0x9d, 0xc1, 0x59, 0xb6]"
definition SelectorRetire :: bytes where "SelectorRetire = [0xa4, 0x87, 0x4d, 0x77]"
definition SelectorIncreaseMinGasPrice :: bytes where "SelectorIncreaseMinGasPrice = [0xf2, 0x01, 0x6e, 0x8e]"
definition SelectorDecreaseMinGasPrice :: bytes where "SelectorDecreaseMinGasPrice = [0x69, 0x6e, 0x6a, 0xd2]"
definition SelectorSumVotingPower :: bytes where "SelectorSumVotingPower = [0x9c, 0xe0, 0x69, 0x09]"

definition SlotStakingInfo :: bytes where "SlotStakingInfo = replicate 32 0"
definition SlotAllBurnt :: bytes where "SlotAllBurnt = replicate 31 0 @ [1]"
definition SlotMinGasPrice :: bytes where "SlotMinGasPrice = replicate 31 0 @ [2]"
definition SlotLastMinGasPrice :: bytes where "SlotLastMinGasPrice = replicate 31 0 @ [3]"

definition InitialStakingAmount :: u256 where "InitialStakingAmount = 1000 * 1000000000000000000"
definition MinimumStakingAmount :: u256 where "MinimumStakingAmount = 800 * 1000000000000000000"
definition SlashedStakingAmount :: u256 where "SlashedStakingAmount = 10 * 1000000000000000000"
definition GasOfStakingExternalOp :: uint64 where "GasOfStakingExternalOp = 400000"
definition EpochCountBeforeRewardMature :: int64 where "EpochCountBeforeRewardMature = 1"
definition BaseProposerPercentage :: u256 where "BaseProposerPercentage = 15"
definition ExtraProposerPercentage :: u256 where "ExtraProposerPercentage = 15"
definition DefaultMinGasPrice :: uint64 where "DefaultMinGasPrice = 0"
definition MaxMinGasPriceDeltaRate :: uint64 where "MaxMinGasPriceDeltaRate = 16"
definition MinGasPriceDeltaRate :: uint64 where "MinGasPriceDeltaRate = 5"
definition MaxMinGasPrice :: uint64 where "MaxMinGasPrice = 500"
definition MinMinGasPrice :: uint64 where "MinMinGasPrice = 0"

section \<open>The codec and the world state together\<close>

record 'e codec =
  Rd :: "(bytes, 'e) reader"
  Ap :: appender
  Sz :: sizes

definition codec_laws :: "'e codec \<Rightarrow> bool" where
  "codec_laws M \<longleftrightarrow> msgp_laws (Rd M) (Ap M)"

definition mp_codec :: "unit codec" where
  "mp_codec = \<lparr>Rd = mp_reader, Ap = mp_append, Sz = mp_sizes\<rparr>"

lemma mp_codec_laws: "codec_laws mp_codec"
  by (simp add: codec_laws_def mp_codec_def mp_laws)

definition ptr_info :: "StakingInfo \<Rightarrow> StakingInfoPtr" where
  "ptr_info info = \<lparr>SI_CurrEpochNum = CurrEpochNum info, SI_Validators = map Some (Validators info),
     SI_PendingRewards = map Some (PendingRewards info)\<rparr>"

definition deref_info :: "StakingInfoPtr \<Rightarrow> StakingInfo go" where
  "deref_info z = (case (those (SI_Validators z), those (SI_PendingRewards z)) of
       (Some vals, Some prs) \<Rightarrow>
         Inr \<lparr>CurrEpochNum = SI_CurrEpochNum z, Validators = vals, PendingRewards = prs\<rparr>
     | _ \<Rightarrow> Inl NilDeref)"

definition empty_info :: StakingInfo where
  "empty_info = \<lparr>CurrEpochNum = 0, Validators = [], PendingRewards = []\<rparr>"

section \<open>Operations\<close>

definition Init :: "('c, 'a) evm \<Rightarrow> 'c \<Rightarrow> 'c" where
  "Init E ctx = (case GetAccount E ctx StakingContractAddress of
       None \<Rightarrow> SetAccount E ctx StakingContractAddress
                 (UpdateSequence E (ZeroAccountInfo E) StakingContractSequence)
     | Some _ \<Rightarrow> ctx)"

definition IsSystemContract :: "address \<Rightarrow> bool" where
  "IsSystemContract addr \<longleftrightarrow> addr = StakingContractAddress"

definition LoadStakingAcc :: "('c, 'a) evm \<Rightarrow> 'e codec \<Rightarrow> 'c \<Rightarrow> ('a \<times> StakingInfo) go" where
  "LoadStakingAcc E M ctx = (case GetAccount E ctx StakingContractAddress of
       None \<Rightarrow> Inl (PanicMsg ''Cannot find staking contract'')
     | Some stakingAcc \<Rightarrow>
         (case GetStorageAt E ctx (Sequence E stakingAcc) SlotStakingInfo of
            None \<Rightarrow> Inr (stakingAcc, empty_info)
          | Some bz \<Rightarrow>
              (case StakingInfo_UnmarshalMsg (Rd M) zero_StakingInfo bz of
                 Inl err \<Rightarrow> Inl PanicErr
               | Inr (z, _) \<Rightarrow> bindG (deref_info z) (\<lambda>info. Inr (stakingAcc, info)))))"

definition SaveStakingInfo :: "('c, 'a) evm \<Rightarrow> 'e codec \<Rightarrow> 'c \<Rightarrow> 'a \<Rightarrow> StakingInfo \<Rightarrow> 'c" where
  "SaveStakingInfo E M ctx stakingAcc info =
     (let bz = StakingInfo_MarshalMsg (Ap M) (Sz M) (ptr_info info) []
      in SetStorageAt E ctx (Sequence E stakingAcc) SlotStakingInfo bz)"

definition mgp_slot :: "bool \<Rightarrow> bytes" where
  "mgp_slot isLast = (if isLast then SlotLastMinGasPrice else SlotMinGasPrice)"

definition LoadMinGasPrice :: "('c, 'a) evm \<Rightarrow> 'c \<Rightarrow> bool \<Rightarrow> uint64 go" where
  "LoadMinGasPrice E ctx isLast = (case GetAccount E ctx StakingContractAddress of
       None \<Rightarrow> Inl (PanicMsg ''Cannot find staking contract'')
     | Some stakingAcc \<Rightarrow>
         (case GetStorageAt E ctx (Sequence E stakingAcc) (mgp_slot isLast) of
            None \<Rightarrow> Inr DefaultMinGasPrice
          | Some bz \<Rightarrow> if length bz < 8 then Inl OutOfBounds else Inr (be_word (take 8 bz))))"

definition SaveMinGasPrice :: "('c, 'a) evm \<Rightarrow> 'c \<Rightarrow> uint64 \<Rightarrow> bool \<Rightarrow> 'c go" where
  "SaveMinGasPrice E ctx minGP isLast = (case GetAccount E ctx StakingContractAddress of
       None \<Rightarrow> Inl (PanicMsg ''Cannot find staking contract'')
     | Some stakingAcc \<Rightarrow>
         Inr (SetStorageAt E ctx (Sequence E stakingAcc) (mgp_slot isLast) (be_bytes 8 minGP)))"

text \<open>\<^verbatim>\<open>LoadReadonlyValiatorsInfo\<close> sets the package variable \<^verbatim>\<open>readonlyStakingInfo\<close> to the result.\<close>

definition LoadReadonlyValiatorsInfo :: "('c, 'a) evm \<Rightarrow> 'e codec \<Rightarrow> 'c \<Rightarrow> StakingInfo go" where
  "LoadReadonlyValiatorsInfo E M ctx = bindG (LoadStakingAcc E M ctx) (\<lambda>(_, info). Inr info)"

section \<open>Reading back what was saved\<close>

definition storable_info :: "StakingInfo \<Rightarrow> bool" where
  "storable_info info \<longleftrightarrow> length (Validators info) < 2 ^ 32 \<and> length (PendingRewards info) < 2 ^ 32 \<and>
     list_all (\<lambda>v. length (Introduction v) < 2 ^ 32) (Validators info)"

definition has_contract :: "('c, 'a) evm \<Rightarrow> 'c \<Rightarrow> bool" where
  "has_contract E ctx \<longleftrightarrow> GetAccount E ctx StakingContractAddress \<noteq> None"

lemma SlotStakingInfo_snoc: "SlotStakingInfo = replicate 31 0 @ [0]"
  by (simp add: SlotStakingInfo_def replicate_append_same numeral_eq_Suc)

lemma slots_distinct [simp]:
  "SlotStakingInfo \<noteq> SlotAllBurnt" "SlotAllBurnt \<noteq> SlotStakingInfo"
  "SlotStakingInfo \<noteq> mgp_slot l" "mgp_slot l \<noteq> SlotStakingInfo"
  "SlotAllBurnt \<noteq> mgp_slot l" "mgp_slot l \<noteq> SlotAllBurnt"
  "mgp_slot l = mgp_slot l' \<longleftrightarrow> l = l'"
  by (simp_all add: SlotStakingInfo_snoc SlotAllBurnt_def mgp_slot_def SlotMinGasPrice_def
      SlotLastMinGasPrice_def)

lemma those_map_Some [simp]: "those (map Some xs) = Some xs"
  by (induction xs) simp_all

lemma deref_ptr_info [simp]: "deref_info (ptr_info info) = Inr info"
  by (simp add: deref_info_def ptr_info_def)

lemma storable_ptr_info: "storable_info info \<Longrightarrow> storable (ptr_info info)"
  by (simp add: storable_def ptr_info_def storable_info_def list_all_iff ok_validator_def)

lemma marshal_nonempty:
  "codec_laws M \<Longrightarrow> StakingInfo_MarshalMsg (Ap M) (Sz M) z [] \<noteq> []"
  by (simp add: StakingInfo_MarshalMsg_eq codec_laws_def StakingInfo_bytes_def)

lemma unmarshal_marshal:
  assumes "codec_laws M" and "storable_info info"
  shows "StakingInfo_UnmarshalMsg (Rd M) zero_StakingInfo
           (StakingInfo_MarshalMsg (Ap M) (Sz M) (ptr_info info) []) = Inr (ptr_info info, [])"
  using StakingInfo_UnmarshalMsg_bytes [of "Rd M" "Ap M" "ptr_info info" "[]"] assms
  by (simp add: StakingInfo_MarshalMsg_eq codec_laws_def storable_ptr_info)

lemma GetAccount_SaveStakingInfo:
  "evm_laws E \<Longrightarrow> GetAccount E (SaveStakingInfo E M ctx acc info) a = GetAccount E ctx a"
  by (simp add: SaveStakingInfo_def Let_def evm_simps)

lemma bal_SaveStakingInfo:
  "evm_laws E \<Longrightarrow> bal E (SaveStakingInfo E M ctx acc info) a = bal E ctx a"
  by (simp add: SaveStakingInfo_def Let_def evm_simps)

lemma LoadStakingAcc_account:
  "LoadStakingAcc E M ctx = Inr (acc, info) \<Longrightarrow> GetAccount E ctx StakingContractAddress = Some acc"
  by (auto simp: LoadStakingAcc_def split: option.splits sum.splits prod.splits)

text \<open>
  The information depends on the contract's account only through its sequence, and on one slot.
\<close>

lemma LoadStakingAcc_cong:
  assumes "LoadStakingAcc E M ctx = Inr (acc, info)"
    and "GetAccount E ctx' StakingContractAddress = Some acc'" and "Sequence E acc' = Sequence E acc"
    and "GetStorageAt E ctx' (Sequence E acc) SlotStakingInfo = GetStorageAt E ctx (Sequence E acc) SlotStakingInfo"
  shows "LoadStakingAcc E M ctx' = Inr (acc', info)"
  using assms by (auto simp: LoadStakingAcc_def split: option.splits sum.splits prod.splits)

lemma LoadStakingAcc_Save:
  assumes "evm_laws E" and "codec_laws M" and "storable_info info"
    and "GetAccount E ctx StakingContractAddress = Some acc'" and "Sequence E acc' = Sequence E acc"
  shows "LoadStakingAcc E M (SaveStakingInfo E M ctx acc info) = Inr (acc', info)"
  using assms
  by (simp add: LoadStakingAcc_def SaveStakingInfo_def Let_def evm_simps marshal_nonempty unmarshal_marshal)

section \<open>Stored cells\<close>

text \<open>
  The interface the operations use the storage through: a cell that can be read and written,
  where a read returns the last value written; and two cells that do not disturb each other.
\<close>

locale cell =
  fixes get :: "'c \<Rightarrow> 'v go"
    and put :: "'c \<Rightarrow> 'v \<Rightarrow> 'c go"
    and valid :: "'c \<Rightarrow> bool"
    and fits :: "'v \<Rightarrow> bool"
  assumes put_get: "valid c \<Longrightarrow> fits v \<Longrightarrow> \<exists>c'. put c v = Inr c' \<and> valid c' \<and> get c' = Inr v"
begin

lemma put_valid: "valid c \<Longrightarrow> fits v \<Longrightarrow> put c v = Inr c' \<Longrightarrow> valid c' \<and> get c' = Inr v"
  using put_get by fastforce

lemma last_write_wins:
  assumes "valid c" and "list_all fits vs" and "vs \<noteq> []"
  shows "\<exists>c'. foldG put c vs = Inr c' \<and> valid c' \<and> get c' = Inr (last vs)"
  using assms
proof (induction vs arbitrary: c)
  case Nil
  then show ?case by simp
next
  case (Cons v vs)
  then obtain c' where c': "put c v = Inr c'" "valid c'" "get c' = Inr v"
    using put_get by fastforce
  show ?case
  proof (cases "vs = []")
    case True
    with c' show ?thesis by simp
  next
    case False
    with Cons c' show ?thesis by simp
  qed
qed

end

locale two_cells = fst_cell: cell get1 put1 valid fits1 + snd_cell: cell get2 put2 valid fits2
  for get1 :: "'c \<Rightarrow> 'v go" and put1 and get2 :: "'c \<Rightarrow> 'w go" and put2 and valid fits1 fits2 +
  assumes fst_keeps_snd: "valid c \<Longrightarrow> put1 c v = Inr c' \<Longrightarrow> get2 c' = get2 c"
    and snd_keeps_fst: "valid c \<Longrightarrow> put2 c w = Inr c' \<Longrightarrow> get1 c' = get1 c"
begin

lemma writes_commute:
  assumes "valid c" and "fits1 v" and "fits2 w"
  shows "\<exists>c1 c2 d1 d2. put1 c v = Inr c1 \<and> put2 c1 w = Inr c2 \<and> put2 c w = Inr d1 \<and> put1 d1 v = Inr d2 \<and>
           get1 c2 = Inr v \<and> get2 c2 = Inr w \<and> get1 d2 = Inr v \<and> get2 d2 = Inr w"
proof -
  obtain c1 where c1: "put1 c v = Inr c1" "valid c1" "get1 c1 = Inr v"
    using fst_cell.put_get assms by blast
  obtain c2 where c2: "put2 c1 w = Inr c2" "get2 c2 = Inr w"
    using snd_cell.put_get assms c1 by blast
  obtain d1 where d1: "put2 c w = Inr d1" "valid d1" "get2 d1 = Inr w"
    using snd_cell.put_get assms by blast
  obtain d2 where d2: "put1 d1 v = Inr d2" "get1 d2 = Inr v"
    using fst_cell.put_get assms d1 by blast
  have "get1 c2 = Inr v" and "get2 d2 = Inr w"
    using snd_keeps_fst [OF c1(2) c2(1)] c1(3) fst_keeps_snd [OF d1(2) d2(1)] d1(3) by simp_all
  with c1 c2 d1 d2 show ?thesis by blast
qed

end

definition get_info :: "('c, 'a) evm \<Rightarrow> 'e codec \<Rightarrow> 'c \<Rightarrow> StakingInfo go" where
  "get_info E M ctx = bindG (LoadStakingAcc E M ctx) (\<lambda>(_, info). Inr info)"

definition put_info :: "('c, 'a) evm \<Rightarrow> 'e codec \<Rightarrow> 'c \<Rightarrow> StakingInfo \<Rightarrow> 'c go" where
  "put_info E M ctx info = (case GetAccount E ctx StakingContractAddress of
       None \<Rightarrow> Inl NilDeref | Some acc \<Rightarrow> Inr (SaveStakingInfo E M ctx acc info))"

definition valid_store :: "('c, 'a) evm \<Rightarrow> 'e codec \<Rightarrow> 'c \<Rightarrow> bool" where
  "valid_store E M ctx \<longleftrightarrow> evm_laws E \<and> codec_laws M \<and> has_contract E ctx"

lemma valid_store_evm: "valid_store E M ctx \<Longrightarrow> evm_laws E"
  by (simp add: valid_store_def)

lemma be_word_uint64 [simp]: "(be_word (be_bytes 8 x) :: uint64) = x"
  by (rule be_word_be_bytes) simp

lemma be_bytes_nonempty [simp]: "0 < n \<Longrightarrow> be_bytes n x \<noteq> []"
  using length_be_bytes [of n x] by force

lemma LoadMinGasPrice_Save:
  assumes "evm_laws E" and "SaveMinGasPrice E ctx p l = Inr ctx'"
  shows "LoadMinGasPrice E ctx' l = Inr p" and "l' \<noteq> l \<Longrightarrow> LoadMinGasPrice E ctx' l' = LoadMinGasPrice E ctx l'"
    and "GetAccount E ctx' a = GetAccount E ctx a"
    and "GetStorageAt E ctx' s SlotStakingInfo = GetStorageAt E ctx s SlotStakingInfo"
  using assms
  by (auto simp: SaveMinGasPrice_def LoadMinGasPrice_def evm_simps split: option.splits)

lemma LoadStakingAcc_SaveMinGasPrice:
  assumes "evm_laws E" and "SaveMinGasPrice E ctx p l = Inr ctx'"
  shows "LoadStakingAcc E M ctx' = LoadStakingAcc E M ctx"
  by (simp add: LoadStakingAcc_def LoadMinGasPrice_Save [OF assms] split: option.split)

lemma LoadMinGasPrice_SaveStakingInfo:
  assumes "evm_laws E" and "codec_laws M"
  shows "LoadMinGasPrice E (SaveStakingInfo E M ctx acc info) l = LoadMinGasPrice E ctx l"
  using assms
  by (simp add: LoadMinGasPrice_def SaveStakingInfo_def Let_def evm_simps marshal_nonempty split: option.split)

interpretation info_cell: cell "get_info E M" "put_info E M" "valid_store E M" storable_info
  for E :: "('c, 'a) evm" and M :: "'e codec"
proof
  fix c :: 'c and v
  assume "valid_store E M c" and "storable_info v"
  then show "\<exists>c'. put_info E M c v = Inr c' \<and> valid_store E M c' \<and> get_info E M c' = Inr v"
    by (auto simp: valid_store_def has_contract_def put_info_def get_info_def
        LoadStakingAcc_Save GetAccount_SaveStakingInfo)
qed

lemma mgp_put_get:
  assumes "valid_store E M c"
  shows "\<exists>c'. SaveMinGasPrice E c v l = Inr c' \<and> valid_store E M c' \<and> LoadMinGasPrice E c' l = Inr v"
proof -
  from assms obtain c' where c': "SaveMinGasPrice E c v l = Inr c'"
    by (auto simp: valid_store_def has_contract_def SaveMinGasPrice_def)
  from assms have "evm_laws E" by (simp add: valid_store_def)
  from LoadMinGasPrice_Save [OF this c'] c' assms show ?thesis
    by (auto simp: valid_store_def has_contract_def)
qed

interpretation prices: two_cells "\<lambda>c. LoadMinGasPrice E c False" "\<lambda>c p. SaveMinGasPrice E c p False"
  "\<lambda>c. LoadMinGasPrice E c True" "\<lambda>c p. SaveMinGasPrice E c p True" "valid_store E M"
  "\<lambda>_. True" "\<lambda>_. True"
  for E :: "('c, 'a) evm" and M :: "'e codec"
  by unfold_locales (auto intro: mgp_put_get simp: LoadMinGasPrice_Save(2) [OF valid_store_evm])

interpretation info_and_price: two_cells "get_info E M" "put_info E M"
  "\<lambda>c. LoadMinGasPrice E c l" "\<lambda>c p. SaveMinGasPrice E c p l" "valid_store E M"
  storable_info "\<lambda>_. True"
  for E :: "('c, 'a) evm" and M :: "'e codec" and l
proof unfold_locales
  fix c c' :: 'c and v and w
  assume v: "valid_store E M c"
  show "\<exists>c'. SaveMinGasPrice E c w l = Inr c' \<and> valid_store E M c' \<and> LoadMinGasPrice E c' l = Inr w"
    using v by (rule mgp_put_get)
  show "LoadMinGasPrice E c' l = LoadMinGasPrice E c l" if "put_info E M c v = Inr c'"
    using v that by (auto simp: put_info_def valid_store_def LoadMinGasPrice_SaveStakingInfo split: option.splits)
  show "get_info E M c' = get_info E M c" if "SaveMinGasPrice E c w l = Inr c'"
    using v that LoadStakingAcc_SaveMinGasPrice [of E c w l c' M] by (simp add: valid_store_def get_info_def)
qed

end
