(* ===== verification/Staking_Contract.thy ===== *)
theory Staking_Contract
  imports Staking_Store
begin

text \<open>
  The functions of the staking contract that transactions and contracts call
  (\<^verbatim>\<open>staking/staking.go\<close>: \<^verbatim>\<open>Execute\<close>, \<^verbatim>\<open>externalOp\<close>, \<^verbatim>\<open>handleMinGasPrice\<close>, \<^verbatim>\<open>RequiredGas\<close> and
  \<^verbatim>\<open>Run\<close>), over the stored state of theory \<open>Staking_Store\<close>. A call returns the new world state
  and the status, the gas and the output; the list of logs it returns is always nil.
\<close>

section \<open>Calls and results\<close>

record TxToRun =
  From :: address
  Value :: bytes32
  Data :: bytes

record call_result =
  status :: nat
  gasUsed :: uint64
  outData :: bytes

definition StatusSuccess :: nat where "StatusSuccess = 0"
definition StatusFailed :: nat where "StatusFailed = 1"
definition SumVotingPowerGasPerByte :: uint64 where "SumVotingPowerGasPerByte = 25"
definition SumVotingPowerBaseGas :: uint64 where "SumVotingPowerBaseGas = 10000"

primrec error_text :: "staking_error \<Rightarrow> string" where
  "error_text CreateValidatorCoinLtInitAmount = ''Validator's staking coin less than init amount''"
| "error_text ValidatorAddressAlreadyExists = ''Validator's address already exists''"
| "error_text ValidatorPubkeyAlreadyExists = ''Validator's pubkey already exists''"
| "error_text InvalidCallData = ''invalid call data''"
| "error_text BalanceNotEnough = ''balance is not enough''"
| "error_text NoSuchValidator = ''no such validator''"
| "error_text MinGasPriceTooBig = ''minGasPrice bigger than max''"
| "error_text MinGasPriceTooSmall = ''minGasPrice smaller than max''"
| "error_text MinGasPriceExceedBlockChangeDelta =
     ''the amount of variation in minGasPrice exceeds the allowable range''"
| "error_text OperatorNotValidator = ''minGasPrice operator not validator or its rewardTo''"
| "error_text InvalidArgument = ''invalid argument''"

definition error_bytes :: "staking_error \<Rightarrow> bytes" where
  "error_bytes err = str_bytes (error_text err)"

section \<open>The operations\<close>

definition stringFromBytes :: "bytes \<Rightarrow> bytes" where
  "stringFromBytes bz = rev (dropWhile (\<lambda>b. b = 0) (rev bz))"

definition edit_validator :: "address \<Rightarrow> bytes \<Rightarrow> u256 \<Rightarrow> bool \<Rightarrow> Validator \<Rightarrow> Validator" where
  "edit_validator rewardTo intro coins4staking retire val =
     (let val = (if rewardTo \<noteq> 0 then val\<lparr>RewardTo := rewardTo\<rparr> else val);
          val = (if length intro \<noteq> 0 then val\<lparr>Introduction := intro\<rparr> else val);
          val = (if coins4staking \<noteq> 0 then val\<lparr>StakedCoins := StakedCoins val + coins4staking\<rparr> else val)
      in if retire then val\<lparr>IsRetiring := True\<rparr> else val)"

definition external_info ::
  "TxToRun \<Rightarrow> bool \<Rightarrow> bool \<Rightarrow> bytes32 \<Rightarrow> bytes \<Rightarrow> address \<Rightarrow> StakingInfo \<Rightarrow> staking_error + StakingInfo" where
  "external_info tx create retire pubkey intro rewardTo info =
     (if create then
        if Value tx \<le> InitialStakingAmount then Inl CreateValidatorCoinLtInitAmount
        else AddValidator info (From tx) pubkey intro (Value tx) rewardTo
      else
        (case GetValidatorByAddr info (From tx) of
           None \<Rightarrow> Inl NoSuchValidator
         | Some i \<Rightarrow> Inr (info\<lparr>Validators := (Validators info)
             [i := edit_validator rewardTo intro (Value tx) retire (Validators info ! i)]\<rparr>)))"

text \<open>The arguments of the call: the public key, the introduction and the reward address.\<close>

definition external_args ::
  "TxToRun \<Rightarrow> bool \<Rightarrow> bool \<Rightarrow> (staking_error + bytes32 \<times> bytes \<times> address) go" where
  "external_args tx create retire =
     (if retire then Inr (Inr (0, [], 0))
      else if length (Data tx) < 4 then Inl OutOfBounds
      else
        let callData = drop 4 (Data tx) in
        if \<not> (create \<and> 96 \<le> length callData \<or> \<not> create \<and> 64 \<le> length callData)
        then Inr (Inl InvalidCallData)
        else
          let rewardTo = be_word (take 20 (drop 12 callData));
              callData = drop 32 callData;
              intro = stringFromBytes (take 32 callData);
              pubkey = (if create then be_word (take 32 (drop 32 callData)) else 0)
          in Inr (Inr (pubkey, intro, rewardTo)))"

definition stake_coins :: "('c, 'a) evm \<Rightarrow> 'c \<Rightarrow> address \<Rightarrow> 'a \<Rightarrow> 'a \<Rightarrow> u256 \<Rightarrow> 'c" where
  "stake_coins E ctx from sender stakingAcc coins4staking =
     (if coins4staking \<noteq> 0 then
        let balance = Balance E sender - coins4staking;
            sender = UpdateBalance E sender balance;
            stakingAccBalance = Balance E stakingAcc + coins4staking;
            stakingAcc = UpdateBalance E stakingAcc stakingAccBalance
        in SetAccount E (SetAccount E ctx from sender) StakingContractAddress stakingAcc
      else ctx)"

definition externalOp ::
  "('c, 'a) evm \<Rightarrow> 'e codec \<Rightarrow> 'c \<Rightarrow> TxToRun \<Rightarrow> bool \<Rightarrow> bool \<Rightarrow> ('c \<times> call_result) go" where
  "externalOp E M ctx tx create retire =
     (let failed = (\<lambda>err. Inr (ctx, \<lparr>status = StatusFailed, gasUsed = GasOfStakingExternalOp,
                                     outData = error_bytes err\<rparr>))
      in
      bindG (external_args tx create retire) (\<lambda>args.
      case args of
        Inl err \<Rightarrow> failed err
      | Inr (pubkey, intro, rewardTo) \<Rightarrow>
          (case GetAccount E ctx (From tx) of
             None \<Rightarrow> Inl NilDeref
           | Some sender \<Rightarrow>
               if Balance E sender < Value tx then failed BalanceNotEnough
               else
                 bindG (LoadStakingAcc E M ctx) (\<lambda>(stakingAcc, info).
                   case external_info tx create retire pubkey intro rewardTo info of
                     Inl err \<Rightarrow> failed err
                   | Inr info \<Rightarrow>
                       let ctx = SaveStakingInfo E M ctx stakingAcc info;
                           ctx = stake_coins E ctx (From tx) sender stakingAcc (Value tx)
                       in Inr (ctx, \<lparr>status = StatusSuccess, gasUsed = GasOfStakingExternalOp,
                                     outData = []\<rparr>)))))"

definition price_exceeds :: "uint64 \<Rightarrow> uint64 \<Rightarrow> bool" where
  "price_exceeds mGP lastMGP \<longleftrightarrow>
     (lastMGP < mGP \<and> MaxMinGasPriceDeltaRate * lastMGP < 100 * (mGP - lastMGP)) \<or>
     (mGP < lastMGP \<and> MaxMinGasPriceDeltaRate * lastMGP < 100 * (lastMGP - mGP))"

definition handleMinGasPrice ::
  "('c, 'a) evm \<Rightarrow> 'e codec \<Rightarrow> 'c \<Rightarrow> address \<Rightarrow> bool \<Rightarrow> ('c \<times> call_result) go" where
  "handleMinGasPrice E M ctx sender isIncrease =
     bindG (LoadMinGasPrice E ctx False) (\<lambda>mGP.
     bindG (LoadMinGasPrice E ctx True) (\<lambda>lastMGP.
     bindG (LoadStakingAcc E M ctx) (\<lambda>(_, info).
       let activeValidators = GetActiveValidators info MinimumStakingAmount;
           isValidatorOrRewardTo = list_ex (\<lambda>v. Address v = sender \<or> RewardTo v = sender) activeValidators
       in
       if \<not> isValidatorOrRewardTo then
         Inr (ctx, \<lparr>status = 0, gasUsed = 0, outData = error_bytes OperatorNotValidator\<rparr>)
       else
         let failed = (\<lambda>err. Inr (ctx, \<lparr>status = 0, gasUsed = GasOfStakingExternalOp, outData = error_bytes err\<rparr>));
             mGP = (if isIncrease then mGP + MinGasPriceDeltaRate * mGP div 100
                    else mGP - MinGasPriceDeltaRate * mGP div 100)
         in
         if mGP < MinMinGasPrice then failed MinGasPriceTooSmall
         else if MaxMinGasPrice < mGP then failed MinGasPriceTooBig
         else if price_exceeds mGP lastMGP then failed MinGasPriceExceedBlockChangeDelta
         else bindG (SaveMinGasPrice E ctx mGP False) (\<lambda>ctx.
           Inr (ctx, \<lparr>status = StatusSuccess, gasUsed = GasOfStakingExternalOp, outData = []\<rparr>)))))"

definition Execute :: "('c, 'a) evm \<Rightarrow> 'e codec \<Rightarrow> 'c \<Rightarrow> TxToRun \<Rightarrow> ('c \<times> call_result) go" where
  "Execute E M ctx tx =
     (let failed = Inr (ctx, \<lparr>status = StatusFailed, gasUsed = 0, outData = []\<rparr>);
          selector = take 4 (Data tx)
      in
      if length (Data tx) < 4 then failed
      else if selector = SelectorCreateValidator then externalOp E M ctx tx True False
      else if selector = SelectorEditValidator then externalOp E M ctx tx False False
      else if selector = SelectorRetire then externalOp E M ctx tx False True
      else if selector = SelectorIncreaseMinGasPrice then handleMinGasPrice E M ctx (From tx) True
      else if selector = SelectorDecreaseMinGasPrice then handleMinGasPrice E M ctx (From tx) False
      else failed)"

definition RequiredGas :: "bytes \<Rightarrow> uint64" where
  "RequiredGas input = of_nat (length input) * SumVotingPowerGasPerByte + SumVotingPowerBaseGas"

text \<open>
  The loop over the addresses, with the bounds of the slice expression \<^verbatim>\<open>input[i*32+12:i*32+32]\<close>
  checked against the length of the input (a slice with no spare capacity).
\<close>

function run_addrs :: "bytes \<Rightarrow> nat \<Rightarrow> address list \<Rightarrow> address list go" where
  "run_addrs input i addrs =
     (if i + 32 < length input then
        if i * 32 + 32 \<le> length input then
          run_addrs input (i + 32) (be_word (take 20 (drop (i * 32 + 12) input)) # addrs)
        else Inl OutOfBounds
      else Inr addrs)"
  by pat_completeness auto
termination
  by (relation "measure (\<lambda>(input, i, addrs). length input - i)") auto

declare run_addrs.simps [simp del]

definition count_powers :: "address list \<Rightarrow> Validator list \<Rightarrow> int64 \<times> int64 \<times> address list" where
  "count_powers addrs vals =
     foldl (\<lambda>(summedPower, totalPower, counted) val.
       let hit = (Address val \<in> set addrs \<or> RewardTo val \<in> set addrs) \<and> Address val \<notin> set counted
       in (if hit then summedPower + VotingPower val else summedPower,
           totalPower + VotingPower val,
           if hit then Address val # counted else counted))
       (0, 0, []) vals"

definition power_bytes :: "int64 \<Rightarrow> bytes" where
  "power_bytes p = be_bytes 32 (ucast p :: u256)"

definition Run :: "StakingInfo option \<Rightarrow> bytes \<Rightarrow> (staking_error + bytes) go" where
  "Run readonlyStakingInfo input =
     (if length input < 4 + 32 * 2 \<or> take 4 input \<noteq> SelectorSumVotingPower then Inr (Inl InvalidArgument)
      else
        bindG (run_addrs (drop (4 + 32 * 2) input) 0 []) (\<lambda>addrs.
          case readonlyStakingInfo of
            None \<Rightarrow> Inl NilDeref
          | Some info \<Rightarrow>
              let (summedPower, totalPower, _) = count_powers addrs (Validators info)
              in Inr (Inr (power_bytes summedPower @ power_bytes totalPower))))"

section \<open>What an operation does to the staking information\<close>

lemma edit_validator_simps [simp]:
  "Address (edit_validator rewardTo intro coins retire v) = Address v"
  "Pubkey (edit_validator rewardTo intro coins retire v) = Pubkey v"
  "VotingPower (edit_validator rewardTo intro coins retire v) = VotingPower v"
  "StakedCoins (edit_validator rewardTo intro coins retire v) = StakedCoins v + coins"
  "IsRetiring (edit_validator rewardTo intro coins retire v) \<longleftrightarrow> IsRetiring v \<or> retire"
  "RewardTo (edit_validator rewardTo intro coins retire v) = (if rewardTo = 0 then RewardTo v else rewardTo)"
  "Introduction (edit_validator rewardTo intro coins retire v) = (if intro = [] then Introduction v else intro)"
  by (simp_all add: edit_validator_def Let_def)

lemma wf_info_update:
  assumes "wf_info info" and "i < length (Validators info)"
    and "Address v = Address (Validators info ! i)" and "Pubkey v = Pubkey (Validators info ! i)"
  shows "wf_info (info\<lparr>Validators := (Validators info)[i := v]\<rparr>)"
proof -
  have same: "map f ((Validators info)[i := v]) = map f (Validators info)"
    if "f v = f (Validators info ! i)" for f :: "Validator \<Rightarrow> 'b"
    using that assms(2) by (metis list_update_id map_update nth_map)
  from same [of Address] same [of Pubkey] assms(3,4)
  have "map Address ((Validators info)[i := v]) = map Address (Validators info)"
    and "map Pubkey ((Validators info)[i := v]) = map Pubkey (Validators info)" by simp_all
  moreover from this have "Address ` set ((Validators info)[i := v]) = Address ` set (Validators info)"
    by (metis list.set_map)
  ultimately show ?thesis using assms(1) by (simp add: wf_info_def)
qed

lemma length_stringFromBytes: "length (stringFromBytes bz) \<le> length bz"
  using length_dropWhile_le [of "\<lambda>b. b = 0" "rev bz"] by (simp add: stringFromBytes_def)

lemma external_info_wf:
  assumes "wf_info info" and "external_info tx create retire pubkey intro rewardTo info = Inr info'"
  shows "wf_info info'"
proof (cases create)
  case True
  with assms show ?thesis by (auto simp: external_info_def AddValidator_wf split: if_splits)
next
  case False
  with assms(2) obtain i where i: "GetValidatorByAddr info (From tx) = Some i"
    and info': "info' = info\<lparr>Validators := (Validators info)
      [i := edit_validator rewardTo intro (Value tx) retire (Validators info ! i)]\<rparr>"
    by (auto simp: external_info_def split: option.splits)
  show ?thesis unfolding info'
    by (rule wf_info_update [OF assms(1)]) (use GetValidatorByAddr_Some [OF i] in simp_all)
qed

lemma external_info_owed:
  assumes "external_info tx create retire pubkey intro rewardTo info = Inr info'"
    and "owed info + unat (Value tx) < 2 ^ 256"
  shows "owed info' = owed info + unat (Value tx)"
proof (cases create)
  case True
  with assms(1) show ?thesis by (auto simp: external_info_def AddValidator_owed split: if_splits)
next
  case False
  with assms(1) obtain i where i: "GetValidatorByAddr info (From tx) = Some i"
    and info': "info' = info\<lparr>Validators := (Validators info)
      [i := edit_validator rewardTo intro (Value tx) retire (Validators info ! i)]\<rparr>"
    by (auto simp: external_info_def split: option.splits)
  let ?v = "Validators info ! i"
  from GetValidatorByAddr_Some [OF i] have len: "i < length (Validators info)" by simp
  then have "unat (StakedCoins ?v) \<le> staked_total info"
    unfolding staked_total_def by (intro member_le_sum_list) auto
  with assms(2) have "unat (StakedCoins ?v) + unat (Value tx) < 2 ^ LENGTH(256)"
    by (simp add: owed_def)
  then have "unat (StakedCoins ?v + Value tx) = unat (StakedCoins ?v) + unat (Value tx)"
    by (rule unat_add_no_overflow)
  with staked_total_update [OF len, of "edit_validator rewardTo intro (Value tx) retire ?v"]
  show ?thesis by (simp add: info' owed_def pending_total_def)
qed

lemma external_info_storable:
  assumes "storable_info info" and "length (Validators info) + 1 < 2 ^ 32" and "length intro \<le> 32"
    and "external_info tx create retire pubkey intro rewardTo info = Inr info'"
  shows "storable_info info'"
proof (cases create)
  case True
  with assms(4) have "AddValidator info (From tx) pubkey intro (Value tx) rewardTo = Inr info'"
    by (auto simp: external_info_def split: if_splits)
  from AddValidator_InrD(3) [OF this] assms(1-3) show ?thesis by (simp add: storable_info_def)
next
  case False
  with assms(4) obtain i where i: "GetValidatorByAddr info (From tx) = Some i"
    and info': "info' = info\<lparr>Validators := (Validators info)
      [i := edit_validator rewardTo intro (Value tx) retire (Validators info ! i)]\<rparr>"
    by (auto simp: external_info_def split: option.splits)
  from GetValidatorByAddr_Some [OF i] have len: "i < length (Validators info)" by simp
  let ?v = "edit_validator rewardTo intro (Value tx) retire (Validators info ! i)"
  have "length (Introduction ?v) < 2 ^ 32"
    using assms(1,3) len by (simp add: storable_info_def list_all_length)
  moreover have "set ((Validators info)[i := ?v]) \<subseteq> insert ?v (set (Validators info))"
    by (rule set_update_subset_insert)
  ultimately show ?thesis
    using assms(1) unfolding info' storable_info_def list_all_iff by auto
qed

section \<open>The cases of an external operation\<close>

lemma external_args_intro:
  "external_args tx create retire = Inr (Inr (pubkey, intro, rewardTo)) \<Longrightarrow> length intro \<le> 32"
  using length_stringFromBytes [of "take 32 (drop 36 (Data tx))"]
  by (auto simp: external_args_def Let_def split: if_splits)

text \<open>
  The result of an external operation: either the state is as it was and the output names the
  error, or the new information is stored and the coins have moved.
\<close>

lemma externalOp_cases:
  assumes "externalOp E M ctx tx create retire = Inr (ctx', res)"
  obtains (failed) err where "ctx' = ctx" and "status res = StatusFailed" and "outData res = error_bytes err"
  | (stored) sender stakingAcc info pubkey intro rewardTo info' where
      "GetAccount E ctx (From tx) = Some sender" and "Value tx \<le> Balance E sender"
      "LoadStakingAcc E M ctx = Inr (stakingAcc, info)" and "length intro \<le> 32"
      "external_info tx create retire pubkey intro rewardTo info = Inr info'"
      "ctx' = stake_coins E (SaveStakingInfo E M ctx stakingAcc info') (From tx) sender stakingAcc (Value tx)"
      "status res = StatusSuccess"
proof -
  from assms obtain args where args: "external_args tx create retire = Inr args"
    unfolding externalOp_def Let_def by blast
  show thesis
  proof (cases args)
    case (Inl err)
    with assms args failed show thesis by (auto simp: externalOp_def)
  next
    case (Inr t)
    obtain pubkey intro rewardTo where t: "t = (pubkey, intro, rewardTo)" by (cases t)
    with Inr args have args: "external_args tx create retire = Inr (Inr (pubkey, intro, rewardTo))" by simp
    obtain sender where sender: "GetAccount E ctx (From tx) = Some sender"
      using assms args by (cases "GetAccount E ctx (From tx)") (auto simp: externalOp_def)
    show thesis
    proof (cases "Balance E sender < Value tx")
      case True
      with assms args sender failed show thesis by (auto simp: externalOp_def)
    next
      case False
      with assms args sender obtain stakingAcc info where load: "LoadStakingAcc E M ctx = Inr (stakingAcc, info)"
        by (auto simp: externalOp_def)
      show thesis
      proof (cases "external_info tx create retire pubkey intro rewardTo info")
        case (Inl err)
        with assms args sender load False failed show thesis by (auto simp: externalOp_def)
      next
        case (Inr info')
        have "length intro \<le> 32" using args by (rule external_args_intro)
        from stored [OF sender _ load this Inr] Inr assms args sender load False show thesis
          by (auto simp: externalOp_def Let_def linorder_not_less)
      qed
    qed
  qed
qed

lemma externalOp_total:
  assumes "GetAccount E ctx (From tx) = Some sender" and "LoadStakingAcc E M ctx = Inr (stakingAcc, info)"
    and "retire \<or> 4 \<le> length (Data tx)"
  shows "\<exists>ctx' res. externalOp E M ctx tx create retire = Inr (ctx', res)"
proof -
  from assms(3) have "\<exists>args. external_args tx create retire = Inr args"
    by (auto simp: external_args_def Let_def)
  with assms(1,2) show ?thesis
    by (auto simp: externalOp_def Let_def split: sum.splits)
qed

lemma stake_coins_account:
  assumes "evm_laws E" and "a \<noteq> StakingContractAddress"
    and "GetAccount E ctx a = Some sender" and "GetAccount E ctx StakingContractAddress = Some acc"
  shows "bal E (stake_coins E ctx a sender acc coins) a = bal E ctx a - coins"
    and "bal E (stake_coins E ctx a sender acc coins) StakingContractAddress =
           bal E ctx StakingContractAddress + coins"
    and "b \<noteq> a \<Longrightarrow> b \<noteq> StakingContractAddress \<Longrightarrow>
           GetAccount E (stake_coins E ctx a sender acc coins) b = GetAccount E ctx b"
    and "\<exists>acc'. GetAccount E (stake_coins E ctx a sender acc coins) StakingContractAddress = Some acc' \<and>
           Sequence E acc' = Sequence E acc \<and> Balance E acc' = Balance E acc + coins"
    and "GetStorageAt E (stake_coins E ctx a sender acc coins) s k = GetStorageAt E ctx s k"
  using assms by (simp_all add: stake_coins_def Let_def bal_def evm_simps)

section \<open>The invariant of the stored state\<close>

text \<open>
  The state of the contract is in order when its account exists, the stored information can be
  read and is well-formed, and the balance of the account covers all that the contract owes:
  the staked coins of all the validators and the pending rewards.
\<close>

definition staking_inv :: "('c, 'a) evm \<Rightarrow> 'e codec \<Rightarrow> 'c \<Rightarrow> bool" where
  "staking_inv E M ctx \<longleftrightarrow> (case LoadStakingAcc E M ctx of
       Inl _ \<Rightarrow> False
     | Inr (acc, info) \<Rightarrow> wf_info info \<and> storable_info info \<and> owed info \<le> unat (Balance E acc))"

lemma staking_invI:
  "LoadStakingAcc E M ctx = Inr (acc, info) \<Longrightarrow> wf_info info \<Longrightarrow> storable_info info \<Longrightarrow>
     owed info \<le> unat (Balance E acc) \<Longrightarrow> staking_inv E M ctx"
  by (simp add: staking_inv_def)

lemma staking_invE:
  assumes "staking_inv E M ctx"
  obtains acc info where "LoadStakingAcc E M ctx = Inr (acc, info)" and "wf_info info"
    and "storable_info info" and "owed info \<le> unat (Balance E acc)"
    and "bal E ctx StakingContractAddress = Balance E acc"
  using assms LoadStakingAcc_account [of E M ctx]
  by (fastforce simp: staking_inv_def bal_def split: sum.splits prod.splits)

text \<open>The number of validators in the stored state.\<close>

definition validator_count :: "('c, 'a) evm \<Rightarrow> 'e codec \<Rightarrow> 'c \<Rightarrow> nat" where
  "validator_count E M ctx = (case LoadStakingAcc E M ctx of
       Inl _ \<Rightarrow> 0 | Inr (acc, info) \<Rightarrow> length (Validators info))"

section \<open>Properties of the external operations\<close>

text \<open>
  (C3) The operations \<^verbatim>\<open>createValidator\<close>, \<^verbatim>\<open>editValidator\<close> and \<^verbatim>\<open>retire\<close> never panic on a state in
  order, and either fail, with the state exactly as it was, or succeed and keep the state in
  order: the sender had the coins, its balance goes down and the contract's balance goes up by
  the value of the transaction, what the contract owes grows by the same amount, and no other
  account changes (for a sender that is not the contract itself and as long as the contract's
  balance does not reach the width of a \<^verbatim>\<open>uint256\<close>).
\<close>

theorem externalOp_keeps_invariant:
  assumes "evm_laws E" and "codec_laws M" and "staking_inv E M ctx"
    and "GetAccount E ctx (From tx) \<noteq> None" and "From tx \<noteq> StakingContractAddress"
    and "retire \<or> 4 \<le> length (Data tx)"
    and "unat (bal E ctx StakingContractAddress) + unat (Value tx) < 2 ^ 256"
    and "validator_count E M ctx + 1 < 2 ^ 32"
  shows "\<exists>ctx' res. externalOp E M ctx tx create retire = Inr (ctx', res) \<and>
    (status res = StatusFailed \<and> ctx' = ctx \<or>
     status res = StatusSuccess \<and> staking_inv E M ctx' \<and>
     Value tx \<le> bal E ctx (From tx) \<and> bal E ctx' (From tx) = bal E ctx (From tx) - Value tx \<and>
     bal E ctx' StakingContractAddress = bal E ctx StakingContractAddress + Value tx \<and>
     (\<forall>b. b \<noteq> From tx \<and> b \<noteq> StakingContractAddress \<longrightarrow> GetAccount E ctx' b = GetAccount E ctx b))"
proof -
  from assms(4) obtain sender0 where sender0: "GetAccount E ctx (From tx) = Some sender0" by auto
  from assms(3) obtain acc0 info0 where load0: "LoadStakingAcc E M ctx = Inr (acc0, info0)"
    and inv: "wf_info info0" "storable_info info0" "owed info0 \<le> unat (Balance E acc0)"
    and bal0: "bal E ctx StakingContractAddress = Balance E acc0" by (rule staking_invE)
  from externalOp_total [OF sender0 load0 assms(6)] obtain ctx' res
    where op: "externalOp E M ctx tx create retire = Inr (ctx', res)" by blast
  from op show ?thesis
  proof (cases rule: externalOp_cases)
    case (failed err)
    with op show ?thesis by blast
  next
    case (stored sender acc info pubkey intro rewardTo info')
    from stored(3) load0 have same [simp]: "acc = acc0" "info = info0" by simp_all
    let ?ctx = "SaveStakingInfo E M ctx acc info'"
    have acc: "GetAccount E ?ctx StakingContractAddress = Some acc"
      using LoadStakingAcc_account [OF stored(3)] by (simp add: GetAccount_SaveStakingInfo [OF assms(1)])
    have snd: "GetAccount E ?ctx (From tx) = Some sender"
      using stored(1) by (simp add: GetAccount_SaveStakingInfo [OF assms(1)])
    note sc = stake_coins_account [OF assms(1,5) snd acc, where coins = "Value tx", folded stored(6)]
    have "unat (Balance E acc) + unat (Value tx) < 2 ^ LENGTH(256)" using assms(7) bal0 by simp
    note b = unat_add_no_overflow [OF this]
    have ow: "owed info0 + unat (Value tx) < 2 ^ 256" using inv(3) assms(7) [unfolded bal0] by linarith
    have sto: "storable_info info'"
      using external_info_storable [OF inv(2) _ stored(4) stored(5) [unfolded same]] assms(8) load0
      by (simp add: validator_count_def)
    have load: "LoadStakingAcc E M ?ctx = Inr (acc, info')"
      using LoadStakingAcc_Save [OF assms(1,2) sto, of ctx acc acc] LoadStakingAcc_account [OF stored(3)] by simp
    from sc(4) obtain acc' where acc': "GetAccount E ctx' StakingContractAddress = Some acc'"
      "Sequence E acc' = Sequence E acc" "Balance E acc' = Balance E acc + Value tx" by blast
    have "LoadStakingAcc E M ctx' = Inr (acc', info')"
      using LoadStakingAcc_cong [OF load acc'(1,2) sc(5)] .
    moreover have "owed info' \<le> unat (Balance E acc')"
      using external_info_owed [OF stored(5) [unfolded same] ow] inv(3) b acc'(3) by simp
    ultimately have "staking_inv E M ctx'"
      using external_info_wf [OF inv(1) stored(5) [unfolded same]] sto by (intro staking_invI)
    with op stored(1,2,7) sc(1-3) show ?thesis
      by (auto simp: bal_SaveStakingInfo [OF assms(1)] GetAccount_SaveStakingInfo [OF assms(1)] bal_def)
  qed
qed

definition witness_ctx :: mem_world where
  "witness_ctx = mem_set (Init mem_evm mem_empty) 7
     \<lparr>mem_balance = 2000 * 1000000000000000000, mem_sequence = 0\<rparr>"

definition witness_create :: TxToRun where
  "witness_create = \<lparr>From = 7, Value = 1500 * 1000000000000000000,
     Data = SelectorCreateValidator @ replicate 12 0 @ be_bytes 20 (9 :: address) @
       (str_bytes ''freeman'' @ replicate 25 0) @ be_bytes 32 (77 :: bytes32) @ []\<rparr>"

lemma witness_ctx_load:
  "LoadStakingAcc mem_evm mp_codec witness_ctx =
     Inr (\<lparr>mem_balance = 0, mem_sequence = StakingContractSequence\<rparr>, empty_info)"
  by (simp add: LoadStakingAcc_def witness_ctx_def Init_def mem_evm_def mem_set_def mem_empty_def mem_zero_def
      StakingContractAddress_def)

lemma witness_ctx_inv: "staking_inv mem_evm mp_codec witness_ctx"
  by (rule staking_invI [OF witness_ctx_load])
    (simp_all add: wf_info_def storable_info_def empty_info_def owed_def staked_total_def pending_total_def)

lemma witness_ctx_accounts:
  "GetAccount mem_evm witness_ctx 7 = Some \<lparr>mem_balance = 2000 * 1000000000000000000, mem_sequence = 0\<rparr>"
  "bal mem_evm witness_ctx StakingContractAddress = 0"
  by (simp_all add: witness_ctx_def mem_evm_def mem_set_def Init_def mem_empty_def mem_zero_def bal_def
      StakingContractAddress_def)

theorem externalOp_keeps_invariant_witness:
  "\<exists>ctx' res. externalOp mem_evm mp_codec witness_ctx witness_create True False = Inr (ctx', res) \<and>
     (ctx' = witness_ctx \<or> staking_inv mem_evm mp_codec ctx')"
proof -
  have "GetAccount mem_evm witness_ctx (From witness_create) \<noteq> None" "From witness_create \<noteq> StakingContractAddress"
    "False \<or> 4 \<le> length (Data witness_create)"
    "unat (0 :: u256) + unat (Value witness_create) < 2 ^ 256"
    "validator_count mem_evm mp_codec witness_ctx + 1 < 2 ^ 32"
    by (simp_all add: witness_create_def witness_ctx_accounts StakingContractAddress_def validator_count_def
        witness_ctx_load empty_info_def SelectorCreateValidator_def)
  from externalOp_keeps_invariant [OF mem_evm_laws mp_codec_laws witness_ctx_inv
      this(1-3) this(4) [folded witness_ctx_accounts(2)] this(5), of True]
  show ?thesis by blast
qed

subsection \<open>Creating a validator\<close>

lemma stringFromBytes_pad:
  assumes "s = [] \<or> last s \<noteq> 0"
  shows "stringFromBytes (s @ replicate n 0) = s"
proof -
  have "dropWhile (\<lambda>b. b = 0) (rev s) = rev s"
    using assms by (cases s rule: rev_cases) auto
  then show ?thesis by (simp add: stringFromBytes_def dropWhile_append)
qed

lemma external_args_create:
  assumes "Data tx = selector @ pad @ be_bytes 20 rewardTo @ intro @ be_bytes 32 pubkey @ rest"
    and "length selector = 4" and "length pad = 12" and "length intro = 32"
  shows "external_args tx True False = Inr (Inr (pubkey, stringFromBytes intro, rewardTo))"
  using assms by (simp add: external_args_def Let_def)

lemma LoadStakingAcc_stake_coins:
  assumes "evm_laws E" and "codec_laws M" and "storable_info info'" and "a \<noteq> StakingContractAddress"
    and "GetAccount E ctx a = Some sender" and "LoadStakingAcc E M ctx = Inr (acc, info)"
  shows "\<exists>acc'. LoadStakingAcc E M
      (stake_coins E (SaveStakingInfo E M ctx acc info') a sender acc coins) = Inr (acc', info') \<and>
      Balance E acc' = Balance E acc + coins"
proof -
  let ?ctx = "SaveStakingInfo E M ctx acc info'"
  have acc: "GetAccount E ?ctx StakingContractAddress = Some acc" "GetAccount E ?ctx a = Some sender"
    using LoadStakingAcc_account [OF assms(6)] assms(5) by (simp_all add: GetAccount_SaveStakingInfo [OF assms(1)])
  note sc = stake_coins_account [OF assms(1,4) acc(2,1), where coins = coins]
  from sc(4) obtain acc' where acc':
    "GetAccount E (stake_coins E ?ctx a sender acc coins) StakingContractAddress = Some acc'"
    "Sequence E acc' = Sequence E acc" "Balance E acc' = Balance E acc + coins" by blast
  have load: "LoadStakingAcc E M ?ctx = Inr (acc, info')"
    using LoadStakingAcc_Save [OF assms(1,2,3), of ctx acc acc] LoadStakingAcc_account [OF assms(6)] by simp
  from LoadStakingAcc_cong [OF load acc'(1,2) sc(5)] acc'(3) show ?thesis by blast
qed

text \<open>
  A transaction with the ABI encoding of \<^verbatim>\<open>createValidator(rewardTo, introduction, pubkey)\<close>,
  from a sender that can pay more than the initial staking amount and whose address and public key
  are not taken, succeeds; the stored information then ends with the new validator: exactly these
  fields, all the coins of the transaction as its stake, no voting power yet, not retiring. The
  other validators and the rewards are as before.
\<close>

lemma createValidator_effect:
  assumes "evm_laws E" and "codec_laws M" and "LoadStakingAcc E M ctx = Inr (acc, info)"
    and "storable_info info" and "length (Validators info) + 1 < 2 ^ 32"
    and "GetAccount E ctx (From tx) = Some sender" and "From tx \<noteq> StakingContractAddress"
    and "Data tx = SelectorCreateValidator @ pad @ be_bytes 20 rewardTo @ intro @ be_bytes 32 pubkey @ rest"
    and "length pad = 12" and "length intro = 32"
    and "Value tx \<le> Balance E sender" and "InitialStakingAmount < Value tx"
    and "From tx \<notin> Address ` set (Validators info)" and "pubkey \<notin> Pubkey ` set (Validators info)"
  shows "\<exists>ctx' acc'.
    Execute E M ctx tx =
      Inr (ctx', \<lparr>status = StatusSuccess, gasUsed = GasOfStakingExternalOp, outData = []\<rparr>) \<and>
    Balance E acc' = Balance E acc + Value tx \<and>
    LoadStakingAcc E M ctx' = Inr (acc', info\<lparr>Validators := Validators info @
      [\<lparr>Address = From tx, Pubkey = pubkey, RewardTo = rewardTo, VotingPower = 0,
        Introduction = stringFromBytes intro, StakedCoins = Value tx, IsRetiring = False\<rparr>]\<rparr>)"
proof -
  let ?info = "info\<lparr>Validators := Validators info @
      [\<lparr>Address = From tx, Pubkey = pubkey, RewardTo = rewardTo, VotingPower = 0,
        Introduction = stringFromBytes intro, StakedCoins = Value tx, IsRetiring = False\<rparr>]\<rparr>"
  have args: "external_args tx True False = Inr (Inr (pubkey, stringFromBytes intro, rewardTo))"
    by (rule external_args_create [OF assms(8) _ assms(9,10)]) (simp add: SelectorCreateValidator_def)
  have ext: "external_info tx True False pubkey (stringFromBytes intro) rewardTo info = Inr ?info"
    using assms(12) addValidator_conflict_None [of "From tx" pubkey "Validators info"] assms(13,14)
    by (force simp: external_info_def AddValidator_def)
  have "length (stringFromBytes intro) \<le> 32"
    using length_stringFromBytes [of intro] assms(10) by simp
  then have sto: "storable_info ?info" using assms(4,5) by (simp add: storable_info_def)
  from assms(11) have enough: "\<not> Balance E sender < Value tx" by simp
  have "Execute E M ctx tx = externalOp E M ctx tx True False"
    using assms(8) by (simp add: Execute_def SelectorCreateValidator_def)
  also have "\<dots> = Inr (stake_coins E (SaveStakingInfo E M ctx acc ?info) (From tx) sender acc (Value tx),
      \<lparr>status = StatusSuccess, gasUsed = GasOfStakingExternalOp, outData = []\<rparr>)"
    using assms(3,6) enough args ext by (simp add: externalOp_def Let_def)
  finally show ?thesis
    using LoadStakingAcc_stake_coins [OF assms(1,2) sto assms(7,6,3), of "Value tx"] by blast
qed

lemma createValidator_effect_witness:
  "\<exists>ctx' acc'. Execute mem_evm mp_codec witness_ctx witness_create =
      Inr (ctx', \<lparr>status = StatusSuccess, gasUsed = GasOfStakingExternalOp, outData = []\<rparr>) \<and>
    LoadStakingAcc mem_evm mp_codec ctx' = Inr (acc', empty_info\<lparr>Validators :=
      [\<lparr>Address = 7, Pubkey = 77, RewardTo = 9, VotingPower = 0, Introduction = str_bytes ''freeman'',
        StakedCoins = 1500 * 1000000000000000000, IsRetiring = False\<rparr>]\<rparr>)"
proof -
  have intro: "stringFromBytes (str_bytes ''freeman'' @ replicate 25 0) = str_bytes ''freeman''"
    by (rule stringFromBytes_pad) (simp add: str_bytes_def)
  have acc: "GetAccount mem_evm witness_ctx (From witness_create) =
      Some \<lparr>mem_balance = 2000 * 1000000000000000000, mem_sequence = 0\<rparr>"
    by (simp add: witness_create_def witness_ctx_accounts)
  have st: "storable_info empty_info" "length (Validators empty_info) + 1 < 2 ^ 32"
    by (simp_all add: storable_info_def empty_info_def)
  have "\<exists>ctx' acc'. Execute mem_evm mp_codec witness_ctx witness_create =
      Inr (ctx', \<lparr>status = StatusSuccess, gasUsed = GasOfStakingExternalOp, outData = []\<rparr>) \<and>
    Balance mem_evm acc' = Balance mem_evm \<lparr>mem_balance = 0, mem_sequence = StakingContractSequence\<rparr> +
      Value witness_create \<and>
    LoadStakingAcc mem_evm mp_codec ctx' = Inr (acc', empty_info\<lparr>Validators := Validators empty_info @
      [\<lparr>Address = From witness_create, Pubkey = 77, RewardTo = 9, VotingPower = 0,
        Introduction = stringFromBytes (str_bytes ''freeman'' @ replicate 25 0),
        StakedCoins = Value witness_create, IsRetiring = False\<rparr>]\<rparr>)"
    by (rule createValidator_effect [OF mem_evm_laws mp_codec_laws witness_ctx_load st acc,
          where pad = "replicate 12 0" and rest = "[]"])
      (simp_all add: witness_create_def StakingContractAddress_def mem_evm_def InitialStakingAmount_def
        empty_info_def word_less_nat_alt word_le_nat_alt str_bytes_def)
  then show ?thesis by (simp add: intro witness_create_def empty_info_def) blast
qed

subsection \<open>Retiring\<close>

text \<open>
  A successful \<^verbatim>\<open>retire\<close> marks the sender's validator and takes it out of the active
  validators whatever the staking limit: afterwards no active validator has the sender's address.
  Nothing else about any validator changes but the stake of the sender, which grows by the value
  of the transaction.
\<close>

lemma retire_deactivates:
  assumes "evm_laws E" and "codec_laws M" and "LoadStakingAcc E M ctx = Inr (acc, info)"
    and "wf_info info" and "storable_info info" and "length (Validators info) + 1 < 2 ^ 32"
    and "From tx \<noteq> StakingContractAddress"
    and "take 4 (Data tx) = SelectorRetire"
    and "Execute E M ctx tx = Inr (ctx', res)" and "status res = StatusSuccess"
  shows "\<exists>i acc' info'. GetValidatorByAddr info (From tx) = Some i \<and>
    LoadStakingAcc E M ctx' = Inr (acc', info') \<and>
    Validators info' = (Validators info)[i := (Validators info ! i)
      \<lparr>StakedCoins := StakedCoins (Validators info ! i) + Value tx, IsRetiring := True\<rparr>] \<and>
    PendingRewards info' = PendingRewards info \<and>
    (\<forall>m. \<forall>v \<in> set (GetActiveValidators info' m). Address v \<noteq> From tx)"
proof -
  have "4 \<le> length (Data tx)"
    using arg_cong [OF assms(8), of length] by (simp add: SelectorRetire_def)
  then have "Execute E M ctx tx = externalOp E M ctx tx False True"
    using assms(8)
    by (simp add: Execute_def SelectorRetire_def SelectorCreateValidator_def SelectorEditValidator_def)
  with assms(9) have op: "externalOp E M ctx tx False True = Inr (ctx', res)" by simp
  then obtain sender info' pubkey intro rewardTo where st: "GetAccount E ctx (From tx) = Some sender"
      "length intro \<le> 32" "external_info tx False True pubkey intro rewardTo info = Inr info'"
      "ctx' = stake_coins E (SaveStakingInfo E M ctx acc info') (From tx) sender acc (Value tx)"
      "intro = []" "rewardTo = 0"
    using assms(3,10)
    by (cases "GetAccount E ctx (From tx)")
      (auto simp: externalOp_def external_args_def Let_def StatusSuccess_def StatusFailed_def
        split: if_splits sum.splits)
  from st(3) obtain i where i: "GetValidatorByAddr info (From tx) = Some i"
    and info': "info' = info\<lparr>Validators := (Validators info)
      [i := edit_validator rewardTo intro (Value tx) True (Validators info ! i)]\<rparr>"
    by (auto simp: external_info_def split: option.splits)
  have sto: "storable_info info'" by (rule external_info_storable [OF assms(5,6) st(2,3)])
  have edit: "edit_validator rewardTo intro (Value tx) True v =
      v\<lparr>StakedCoins := StakedCoins v + Value tx, IsRetiring := True\<rparr>" for v
    by (rule Validator.equality) (simp_all add: st(5,6))
  from GetValidatorByAddr_Some [OF i] have idx: "i < length (Validators info)"
    "Address (Validators info ! i) = From tx" by simp_all
  have retiring: "IsRetiring v" if "v \<in> set (Validators info')" "Address v = From tx" for v
  proof -
    from that(1) obtain j where j: "j < length (Validators info)" "v = Validators info' ! j"
      by (auto simp: in_set_conv_nth info')
    have "Address (Validators info ! j) = From tx" using that(2) j idx by (cases "j = i") (auto simp: info')
    with idx j(1) wf_infoD(1) [OF assms(4)] have "j = i"
      by (metis length_map nth_eq_iff_index_eq nth_map)
    with j idx show ?thesis by (simp add: info')
  qed
  have "Address v \<noteq> From tx" if "v \<in> set (GetActiveValidators info' m)" for v m
    using that retiring [of v]
    by (auto simp: GetActiveValidators_def Let_def eligible_def split: if_splits dest: in_set_takeD)
  moreover from LoadStakingAcc_stake_coins [OF assms(1,2) sto assms(7) st(1) assms(3), of "Value tx"] st(4)
  obtain acc' where "LoadStakingAcc E M ctx' = Inr (acc', info')" by blast
  ultimately show ?thesis using i by (intro exI [of _ i] exI [of _ acc'] exI [of _ info']) (simp add: info' edit)
qed

definition witness_world :: "StakingInfo \<Rightarrow> u256 \<Rightarrow> mem_world" where
  "witness_world info funds = SaveStakingInfo mem_evm mp_codec
     (mem_set (mem_set mem_empty 1 \<lparr>mem_balance = 500, mem_sequence = 0\<rparr>)
        StakingContractAddress \<lparr>mem_balance = funds, mem_sequence = StakingContractSequence\<rparr>)
     \<lparr>mem_balance = funds, mem_sequence = StakingContractSequence\<rparr> info"

lemma witness_world_load:
  assumes "storable_info info"
  shows "LoadStakingAcc mem_evm mp_codec (witness_world info funds) =
     Inr (\<lparr>mem_balance = funds, mem_sequence = StakingContractSequence\<rparr>, info)"
  unfolding witness_world_def
  by (rule LoadStakingAcc_Save [OF mem_evm_laws mp_codec_laws assms])
    (simp_all add: mem_evm_def mem_set_def)

lemma witness_world_account:
  "GetAccount mem_evm (witness_world info funds) 1 = Some \<lparr>mem_balance = 500, mem_sequence = 0\<rparr>"
  unfolding witness_world_def GetAccount_SaveStakingInfo [OF mem_evm_laws]
  by (simp add: mem_evm_def mem_set_def StakingContractAddress_def)

lemma storable_witness_info: "storable_info witness_info"
  by (simp add: storable_info_def witness_info_def witness_validator_def)

lemma retire_deactivates_witness:
  "\<exists>ctx' res acc' info'. Execute mem_evm mp_codec (witness_world witness_info 9000)
       \<lparr>From = 1, Value = 5, Data = SelectorRetire\<rparr> = Inr (ctx', res) \<and>
     LoadStakingAcc mem_evm mp_codec ctx' = Inr (acc', info') \<and>
     (\<forall>v \<in> set (GetActiveValidators info' 0). Address v \<noteq> 1)"
proof -
  let ?tx = "\<lparr>From = 1, Value = 5, Data = SelectorRetire\<rparr>"
  have val: "GetValidatorByAddr witness_info 1 = Some 0"
    by (simp add: GetValidatorByAddr_def witness_info_def witness_validator_def)
  have "\<exists>ctx' res. Execute mem_evm mp_codec (witness_world witness_info 9000) ?tx = Inr (ctx', res) \<and>
      status res = StatusSuccess"
    by (simp add: Execute_def externalOp_def external_args_def external_info_def Let_def val
        witness_world_load [OF storable_witness_info] witness_world_account SelectorRetire_def
        SelectorCreateValidator_def SelectorEditValidator_def)
      (simp add: mem_evm_def)
  then obtain ctx' res where ex: "Execute mem_evm mp_codec (witness_world witness_info 9000) ?tx = Inr (ctx', res)"
    "status res = StatusSuccess" by blast
  from retire_deactivates [OF mem_evm_laws mp_codec_laws witness_world_load [OF storable_witness_info]
      wf_witness_info storable_witness_info _ _ _ ex]
  have "\<exists>acc' info'. LoadStakingAcc mem_evm mp_codec ctx' = Inr (acc', info') \<and>
     (\<forall>v \<in> set (GetActiveValidators info' 0). Address v \<noteq> 1)"
    by (fastforce simp: witness_info_def StakingContractAddress_def SelectorRetire_def)
  with ex show ?thesis by blast
qed

section \<open>The minimal gas price\<close>

text \<open>
  The rule of the price, on numbers: one step moves the price by five percent of it, rounded
  down; the result must not exceed 500, nor differ from the last block's price by more than
  sixteen percent.
\<close>

definition price_spec :: "bool \<Rightarrow> nat \<Rightarrow> nat \<Rightarrow> nat option" where
  "price_spec isIncrease p l =
     (let p' = (if isIncrease then p + 5 * p div 100 else p - 5 * p div 100)
      in if p' \<le> 500 \<and> 100 * (p' - l) \<le> 16 * l \<and> 100 * (l - p') \<le> 16 * l then Some p' else None)"

definition price_step :: "bool \<Rightarrow> uint64 \<Rightarrow> uint64" where
  "price_step isIncrease p =
     (if isIncrease then p + MinGasPriceDeltaRate * p div 100 else p - MinGasPriceDeltaRate * p div 100)"

lemma unat_mult_small:
  fixes a :: uint64
  assumes "unat a \<le> k" and "unat c * k < 2 ^ 64"
  shows "unat (c * a) = unat c * unat a"
proof -
  have "unat c * unat a \<le> unat c * k" using assms(1) by (rule mult_le_mono2)
  from le_less_trans [OF this assms(2)] show ?thesis by (simp add: unat_word_ariths)
qed

lemma price_step_unat:
  assumes "unat p \<le> 500"
  shows "unat (price_step isIncrease p) =
           (if isIncrease then unat p + 5 * unat p div 100 else unat p - 5 * unat p div 100)"
    and "unat (price_step isIncrease p) \<le> 525"
proof -
  have "unat (MinGasPriceDeltaRate * p) = 5 * unat p"
    using unat_mult_small [OF assms, of MinGasPriceDeltaRate] by (simp add: MinGasPriceDeltaRate_def)
  then have d: "unat (MinGasPriceDeltaRate * p div 100) = 5 * unat p div 100"
    by (simp add: unat_div)
  have "unat (p + MinGasPriceDeltaRate * p div 100) = unat p + 5 * unat p div 100"
    using assms by (subst unat_add_no_overflow) (simp_all add: d)
  moreover have "MinGasPriceDeltaRate * p div 100 \<le> p"
    by (simp add: word_le_nat_alt d)
  then have "unat (p - MinGasPriceDeltaRate * p div 100) = unat p - 5 * unat p div 100"
    by (simp add: unat_diff_le d)
  ultimately show eq: "unat (price_step isIncrease p) =
      (if isIncrease then unat p + 5 * unat p div 100 else unat p - 5 * unat p div 100)"
    by (simp add: price_step_def)
  show "unat (price_step isIncrease p) \<le> 525" using assms unfolding eq by auto
qed

lemma price_exceeds_unat:
  assumes "unat p \<le> 525" and "unat l \<le> 500"
  shows "price_exceeds p l \<longleftrightarrow> 16 * unat l < 100 * (unat p - unat l) \<or> 16 * unat l < 100 * (unat l - unat p)"
proof -
  have a: "unat (MaxMinGasPriceDeltaRate * l) = 16 * unat l"
    using unat_mult_small [OF assms(2), of MaxMinGasPriceDeltaRate] by (simp add: MaxMinGasPriceDeltaRate_def)
  have b: "unat (100 * (p - l)) = 100 * (unat p - unat l)" if "l < p"
  proof -
    from that have d: "unat (p - l) = unat p - unat l" by (intro unat_diff_le) simp
    with assms have "unat (p - l) \<le> 525" by simp
    from unat_mult_small [OF this, of 100] d show ?thesis by simp
  qed
  have c: "unat (100 * (l - p)) = 100 * (unat l - unat p)" if "p < l"
  proof -
    from that have d: "unat (l - p) = unat l - unat p" by (intro unat_diff_le) simp
    with assms have "unat (l - p) \<le> 500" by simp
    from unat_mult_small [OF this, of 100] d show ?thesis by simp
  qed
  define x y where "x = 100 * (p - l)" and "y = 100 * (l - p)"
  with b c have "l < p \<Longrightarrow> unat x = 100 * (unat p - unat l)" "p < l \<Longrightarrow> unat y = 100 * (unat l - unat p)"
    by simp_all
  then show ?thesis unfolding price_exceeds_def x_def [symmetric] y_def [symmetric]
    by (cases "unat l" "unat p" rule: linorder_cases) (auto simp: word_less_nat_alt a)
qed

lemma price_spec_words:
  assumes "unat p \<le> 500" and "unat l \<le> 500"
  shows "price_spec isIncrease (unat p) (unat l) =
    (if price_step isIncrease p < MinMinGasPrice \<or> MaxMinGasPrice < price_step isIncrease p \<or>
        price_exceeds (price_step isIncrease p) l then None else Some (unat (price_step isIncrease p)))"
  using price_exceeds_unat [OF price_step_unat(2) [OF assms(1)] assms(2), of isIncrease]
  by (auto simp: price_spec_def Let_def price_step_unat(1) [OF assms(1)] MinMinGasPrice_def MaxMinGasPrice_def
      word_less_nat_alt)

definition may_set_price :: "StakingInfo \<Rightarrow> address \<Rightarrow> bool" where
  "may_set_price info sender \<longleftrightarrow>
     (\<exists>v \<in> set (GetActiveValidators info MinimumStakingAmount). Address v = sender \<or> RewardTo v = sender)"

text \<open>
  (C21) A call to change the minimal gas price, with both stored prices within the maximum, never
  panics and follows the rule on numbers exactly, with no wrap-around: for an active validator or
  its reward address, the price becomes what the rule gives, or, when the rule forbids it, or for
  any other caller, the state stays as it was and the output names the error. The last price and
  the staking information never change. In every case, also when the change is refused, the
  status of the call is the one of success.
\<close>

theorem handleMinGasPrice_follows_rule:
  assumes "evm_laws E" and "LoadStakingAcc E M ctx = Inr (acc, info)"
    and "LoadMinGasPrice E ctx False = Inr p" and "LoadMinGasPrice E ctx True = Inr l"
    and "unat p \<le> 500" and "unat l \<le> 500"
  shows "\<exists>ctx' res. handleMinGasPrice E M ctx sender isIncrease = Inr (ctx', res) \<and>
    status res = StatusSuccess \<and>
    LoadStakingAcc E M ctx' = LoadStakingAcc E M ctx \<and> LoadMinGasPrice E ctx' True = Inr l \<and>
    (case price_spec isIncrease (unat p) (unat l) of
       Some p' \<Rightarrow>
         if may_set_price info sender then outData res = [] \<and> LoadMinGasPrice E ctx' False = Inr (of_nat p')
         else ctx' = ctx \<and> outData res = error_bytes OperatorNotValidator
     | None \<Rightarrow> ctx' = ctx \<and> outData res \<noteq> [])"
proof -
  let ?p = "price_step isIncrease p"
  let ?allowed = "list_ex (\<lambda>v. Address v = sender \<or> RewardTo v = sender)
    (GetActiveValidators info MinimumStakingAmount)"
  have allowed: "?allowed \<longleftrightarrow> may_set_price info sender"
    by (simp add: may_set_price_def list_ex_iff)
  have ne: "error_bytes err \<noteq> []" for err by (cases err) (simp_all add: error_bytes_def str_bytes_def)
  note spec = price_spec_words [OF assms(5,6), of isIncrease]
  have step: "(if isIncrease then p + MinGasPriceDeltaRate * p div 100
      else p - MinGasPriceDeltaRate * p div 100) = ?p" by (simp add: price_step_def)
  show ?thesis
  proof (cases "may_set_price info sender \<and> price_spec isIncrease (unat p) (unat l) \<noteq> None")
    case True
    from assms(2) obtain ctx' where save: "SaveMinGasPrice E ctx ?p False = Inr ctx'"
      using LoadStakingAcc_account [OF assms(2)] by (auto simp: SaveMinGasPrice_def)
    from True save assms(2-4) spec have
      "handleMinGasPrice E M ctx sender isIncrease =
         Inr (ctx', \<lparr>status = StatusSuccess, gasUsed = GasOfStakingExternalOp, outData = []\<rparr>)"
      by (simp add: handleMinGasPrice_def step allowed Let_def split: if_splits)
    moreover from True spec have "price_spec isIncrease (unat p) (unat l) = Some (unat ?p)"
      by (auto split: if_splits)
    ultimately show ?thesis
      using True LoadMinGasPrice_Save [OF assms(1) save] LoadStakingAcc_SaveMinGasPrice [OF assms(1) save] assms(4)
      by simp
  next
    case False
    then have "\<exists>res. handleMinGasPrice E M ctx sender isIncrease = Inr (ctx, res) \<and>
      status res = StatusSuccess \<and> outData res \<noteq> [] \<and>
      (\<not> may_set_price info sender \<longrightarrow> outData res = error_bytes OperatorNotValidator)"
      using assms(2-4) spec ne
      by (auto simp: handleMinGasPrice_def step allowed Let_def StatusSuccess_def split: if_splits)
    then obtain res where "handleMinGasPrice E M ctx sender isIncrease = Inr (ctx, res)"
      "status res = StatusSuccess" "outData res \<noteq> []"
      "\<not> may_set_price info sender \<Longrightarrow> outData res = error_bytes OperatorNotValidator" by blast
    with False assms(4) show ?thesis by (cases "price_spec isIncrease (unat p) (unat l)") auto
  qed
qed

definition witness_priced :: mem_world where
  "witness_priced =
     (let ctx = witness_world
            (witness_info\<lparr>Validators := [(witness_validator 1 101 3 1000)\<lparr>StakedCoins := MinimumStakingAmount\<rparr>]\<rparr>) 0
      in (ctx\<lparr>mem_storage := (mem_storage ctx)((StakingContractSequence, SlotMinGasPrice) \<mapsto> be_bytes 8 (100 :: uint64),
            (StakingContractSequence, SlotLastMinGasPrice) \<mapsto> be_bytes 8 (100 :: uint64))\<rparr>))"

lemma witness_priced_load:
  "LoadStakingAcc mem_evm mp_codec witness_priced =
     Inr (\<lparr>mem_balance = 0, mem_sequence = StakingContractSequence\<rparr>,
          witness_info\<lparr>Validators := [(witness_validator 1 101 3 1000)\<lparr>StakedCoins := MinimumStakingAmount\<rparr>]\<rparr>)"
    (is "_ = Inr (?acc, ?info)")
proof -
  let ?ctx = "witness_world ?info 0"
  have "storable_info ?info" by (simp add: storable_info_def witness_info_def witness_validator_def)
  then have load: "LoadStakingAcc mem_evm mp_codec ?ctx = Inr (?acc, ?info)" by (rule witness_world_load)
  have "SlotStakingInfo \<noteq> SlotMinGasPrice" "SlotStakingInfo \<noteq> SlotLastMinGasPrice"
    using slots_distinct(3) [of False] slots_distinct(3) [of True] by (simp_all add: mgp_slot_def)
  then show ?thesis
    using LoadStakingAcc_account [OF load]
    by (intro LoadStakingAcc_cong [OF load]) (simp_all add: witness_priced_def mem_evm_def Let_def)
qed

lemma witness_priced_prices:
  "LoadMinGasPrice mem_evm witness_priced False = Inr 100"
  "LoadMinGasPrice mem_evm witness_priced True = Inr 100"
  using LoadStakingAcc_account [OF witness_priced_load] slots_distinct(7) [of True False]
  by (simp_all add: LoadMinGasPrice_def mem_evm_def witness_priced_def Let_def mgp_slot_def)

theorem handleMinGasPrice_follows_rule_witness:
  "\<exists>ctx' res. handleMinGasPrice mem_evm mp_codec witness_priced 1 True = Inr (ctx', res) \<and>
     LoadMinGasPrice mem_evm ctx' False = Inr 105"
proof -
  have "may_set_price
      (witness_info\<lparr>Validators := [(witness_validator 1 101 3 1000)\<lparr>StakedCoins := MinimumStakingAmount\<rparr>]\<rparr>) 1"
    by (simp add: may_set_price_def GetActiveValidators_def Let_def eligible_def witness_validator_def
        MaxActiveValidatorNum_def word_sless_alt)
  moreover have "price_spec True (unat (100 :: uint64)) (unat (100 :: uint64)) = Some 105"
    by (simp add: price_spec_def)
  ultimately show ?thesis
    using handleMinGasPrice_follows_rule [OF mem_evm_laws witness_priced_load witness_priced_prices,
        of 1 True] by auto
qed

section \<open>The sum of voting powers\<close>

lemma run_addrs_short: "length input \<le> 32 \<Longrightarrow> run_addrs input 0 addrs = Inr addrs"
  by (simp add: run_addrs.simps [of input 0])

lemma run_addrs_one:
  assumes "32 < length input" and "length input \<le> 64"
  shows "run_addrs input 0 [] = Inr [be_word (take 20 (drop 12 input))]"
  using assms by (simp add: run_addrs.simps [of input 0] run_addrs.simps [of input 32])

lemma run_addrs_panics:
  assumes "64 < length input" and "length input < 1056"
  shows "run_addrs input 0 [] = Inl OutOfBounds"
  using assms by (simp add: run_addrs.simps [of input 0] run_addrs.simps [of input 32])

definition sum_powers :: "address set \<Rightarrow> Validator list \<Rightarrow> int64" where
  "sum_powers A vals = (\<Sum>v\<leftarrow>filter (\<lambda>v. Address v \<in> A \<or> RewardTo v \<in> A) vals. VotingPower v)"

lemma count_powers_loop:
  assumes "distinct (map Address vals)" and "Address ` set vals \<inter> set counted = {}"
  shows "\<exists>counted'. foldl (\<lambda>(summedPower, totalPower, counted) val.
       let hit = (Address val \<in> set addrs \<or> RewardTo val \<in> set addrs) \<and> Address val \<notin> set counted
       in (if hit then summedPower + VotingPower val else summedPower,
           totalPower + VotingPower val,
           if hit then Address val # counted else counted))
       (s, t, counted) vals =
     (s + sum_powers (set addrs) vals, t + (\<Sum>v\<leftarrow>vals. VotingPower v), counted')"
  using assms
proof (induction vals arbitrary: s t counted)
  case Nil
  then show ?case by (simp add: sum_powers_def)
next
  case (Cons v vals)
  let ?hit = "Address v \<in> set addrs \<or> RewardTo v \<in> set addrs"
  have dis: "distinct (map Address vals)"
    "Address ` set vals \<inter> set (if ?hit then Address v # counted else counted) = {}"
    using Cons.prems by auto
  have new: "Address v \<notin> set counted" using Cons.prems(2) by auto
  from Cons.IH [OF dis, where s = "if ?hit then s + VotingPower v else s" and t = "t + VotingPower v"]
  show ?case
    by (cases ?hit) (simp_all only: foldl_Cons, simp_all add: new sum_powers_def add.assoc)
qed

lemma count_powers_eq:
  assumes "wf_info info"
  shows "\<exists>counted. count_powers addrs (Validators info) =
    (sum_powers (set addrs) (Validators info), (\<Sum>v\<leftarrow>Validators info. VotingPower v), counted)"
  using count_powers_loop [of "Validators info" "[]" addrs 0 0] wf_infoD(1) [OF assms]
  by (simp add: count_powers_def)

text \<open>
  What \<^verbatim>\<open>sumVotingPower\<close> computes from its input, in terms of the bytes after the selector,
  the offset and the length: up to 32 bytes (at most one address) it counts no validator; from 33 to
  64 bytes (two addresses) it counts the validators whose address or reward address is the first
  one, each once; from 65 to 1055 bytes (three addresses to 32) it panics. The total power is always
  the sum over all validators.
\<close>

lemma Run_counts:
  assumes "wf_info info" and "take 4 input = SelectorSumVotingPower" and "4 + 64 \<le> length input"
    and "length input < 4 + 64 + 1056"
  shows "Run (Some info) input =
    (let n = length input - (4 + 64); total = (\<Sum>v\<leftarrow>Validators info. VotingPower v) in
     if n \<le> 32 then Inr (Inr (power_bytes 0 @ power_bytes total))
     else if n \<le> 64 then
       Inr (Inr (power_bytes (sum_powers {be_word (take 20 (drop 80 input))} (Validators info)) @ power_bytes total))
     else Inl OutOfBounds)"
proof -
  have none: "sum_powers {} vals = 0" for vals by (simp add: sum_powers_def)
  let ?rest = "drop 68 input"
  obtain c0 where c0: "count_powers [] (Validators info) =
      (0, (\<Sum>v\<leftarrow>Validators info. VotingPower v), c0)"
    using count_powers_eq [OF assms(1), of "[]"] by (auto simp: none)
  obtain c1 where c1: "count_powers [be_word (take 20 (drop 80 input))] (Validators info) =
      (sum_powers {be_word (take 20 (drop 80 input))} (Validators info), (\<Sum>v\<leftarrow>Validators info. VotingPower v), c1)"
    using count_powers_eq [OF assms(1), of "[be_word (take 20 (drop 80 input))]"] by auto
  consider "length ?rest \<le> 32" | "32 < length ?rest" "length ?rest \<le> 64"
    | "64 < length ?rest" "length ?rest < 1056" using assms(4) by fastforce
  then show ?thesis
  proof cases
    case 1
    with assms(2,3) c0 show ?thesis by (simp add: Run_def run_addrs_short)
  next
    case 2
    with assms(2,3) c1 show ?thesis by (simp add: Run_def run_addrs_one)
  next
    case 3
    with assms(2,3) show ?thesis by (simp add: Run_def run_addrs_panics)
  qed
qed

lemma Run_counts_witness:
  "Run (Some witness_info) (SelectorSumVotingPower @ be_bytes 32 (32 :: u256) @ be_bytes 32 (1 :: u256) @
      replicate 12 0 @ be_bytes 20 (1 :: address)) =
   Inr (Inr (power_bytes 0 @ power_bytes 10))"
proof -
  let ?in = "SelectorSumVotingPower @ be_bytes 32 (32 :: u256) @ be_bytes 32 (1 :: u256) @
      replicate 12 0 @ be_bytes 20 (1 :: address)"
  have "take 4 ?in = SelectorSumVotingPower" and "4 + 64 \<le> length ?in" and "length ?in = 100"
    and "length ?in < 4 + 64 + 1056"
    by (simp_all add: SelectorSumVotingPower_def)
  with Run_counts [OF wf_witness_info this(1,2,4)] show ?thesis
    by (simp add: witness_info_def witness_validator_def)
qed

end
