(* ===== verification/Staking_Rewards.thy ===== *)
theory Staking_Rewards
  imports Staking_Contract
begin

text \<open>
  The functions of \<^verbatim>\<open>staking/staking.go\<close> the chain calls at the end of a block: \<^verbatim>\<open>Slash\<close> with
  \<^verbatim>\<open>incrAllBurnt\<close>, and \<^verbatim>\<open>DistributeFee\<close>. \<^verbatim>\<open>DistributeFee\<close> also sets the package variable
  \<^verbatim>\<open>readonlyStakingInfo\<close>, which is passed in and returned.
\<close>

section \<open>Slashing\<close>

definition incrAllBurnt :: "('c, 'a) evm \<Rightarrow> 'c \<Rightarrow> 'a \<Rightarrow> u256 \<Rightarrow> 'c go" where
  "incrAllBurnt E ctx stakingAcc amount =
     (let bz = (case GetStorageAt E ctx (Sequence E stakingAcc) SlotAllBurnt of None \<Rightarrow> [] | Some bz \<Rightarrow> bz) in
      bindG (if length bz = 0 then Inr 0
             else if length bz < 32 then Inl OutOfBounds
             else Inr (be_word (take 32 bz))) (\<lambda>allBurnt.
      let allBurnt = allBurnt + amount
      in Inr (SetStorageAt E ctx (Sequence E stakingAcc) SlotAllBurnt (be_bytes 32 allBurnt))))"

definition Slash :: "('c, 'a) evm \<Rightarrow> 'e codec \<Rightarrow> 'c \<Rightarrow> bytes32 \<Rightarrow> u256 \<Rightarrow> ('c \<times> u256 option) go" where
  "Slash E M ctx pubkey amount =
     bindG (LoadStakingAcc E M ctx) (\<lambda>(stakingAcc, info).
     case GetValidatorByPubkey info pubkey of
       None \<Rightarrow> Inr (ctx, None)
     | Some i \<Rightarrow>
         let val = Validators info ! i;
             coins = StakedCoins val;
             (totalSlashed, coins) = (if coins < amount then (coins, 0) else (amount, coins - amount));
             info = info\<lparr>Validators := (Validators info)[i := val\<lparr>StakedCoins := coins\<rparr>]\<rparr>;
             (totalCleared, info) = ClearRewardsOf info (Address val);
             totalSlashed = totalSlashed + totalCleared;
             (_, ctx) = TransferFromSenderAccToBlackHoleAcc E ctx StakingContractAddress totalSlashed
         in bindG (incrAllBurnt E ctx stakingAcc totalSlashed) (\<lambda>ctx. Inr (ctx, Some totalSlashed)))"

section \<open>Distributing the fee of a block\<close>

definition sum_voter_powers :: "StakingInfo \<Rightarrow> (bytes32 \<rightharpoonup> nat) \<Rightarrow> bytes32 list \<Rightarrow> int64 go" where
  "sum_voter_powers info valMapByPubkey voters =
     foldG (\<lambda>votedPower voter. case valMapByPubkey voter of
        None \<Rightarrow> Inl NilDeref
      | Some i \<Rightarrow> Inr (votedPower + VotingPower (Validators info ! i))) 0 voters"

definition add_reward ::
  "(address \<rightharpoonup> nat) \<Rightarrow> int64 \<Rightarrow> PendingReward list \<Rightarrow> address \<Rightarrow> u256 \<Rightarrow> PendingReward list" where
  "add_reward rwdMapByAddr epoch prs addr coins =
     (case rwdMapByAddr addr of
        None \<Rightarrow> prs @ [\<lparr>PR_Address = addr, EpochNum = epoch, Amount = 0 + coins\<rparr>]
      | Some i \<Rightarrow> prs[i := (prs ! i)\<lparr>Amount := Amount (prs ! i) + coins\<rparr>])"

definition voter_share :: "u256 \<Rightarrow> int64 \<Rightarrow> int64 \<Rightarrow> u256" where
  "voter_share collectedFee vp votedPower = collectedFee * ucast vp div ucast votedPower"

definition distribute_to_voter ::
  "StakingInfo \<Rightarrow> (bytes32 \<rightharpoonup> nat) \<Rightarrow> (address \<rightharpoonup> nat) \<Rightarrow> u256 \<Rightarrow> int64 \<Rightarrow> bytes32 \<Rightarrow>
   PendingReward list \<times> u256 \<Rightarrow> bytes32 \<Rightarrow> (PendingReward list \<times> u256) go" where
  "distribute_to_voter info valMapByPubkey rwdMapByAddr collectedFee votedPower proposer =
     (\<lambda>(prs, remainedFee) voter.
        if proposer = voter then Inr (prs, remainedFee)
        else (case valMapByPubkey voter of
                None \<Rightarrow> Inl NilDeref
              | Some i \<Rightarrow>
                  let val = Validators info ! i;
                      rwdCoins = voter_share collectedFee (VotingPower val) votedPower
                  in Inr (add_reward rwdMapByAddr (CurrEpochNum info) prs (Address val) rwdCoins,
                          remainedFee - rwdCoins)))"

definition proposer_fees :: "u256 \<Rightarrow> int64 \<Rightarrow> int64 \<Rightarrow> u256 \<times> u256" where
  "proposer_fees collectedFee votedPower totalVotingPower =
     (let proposerBaseFee = collectedFee * BaseProposerPercentage div 100;
          collectedFee = collectedFee - proposerBaseFee;
          proposerExtraFee =
            collectedFee * ExtraProposerPercentage * ucast votedPower div ucast (100 * totalVotingPower)
      in (proposerBaseFee, proposerExtraFee))"

definition distribute_rewards ::
  "StakingInfo \<Rightarrow> u256 \<Rightarrow> bytes32 \<Rightarrow> bytes32 list \<Rightarrow> StakingInfo go" where
  "distribute_rewards info collectedFee proposer voters =
     (let totalVotingPower = (\<Sum>val\<leftarrow>GetActiveValidators info MinimumStakingAmount. VotingPower val);
          valMapByPubkey = GetValMapByPubkey info
      in
      bindG (sum_voter_powers info valMapByPubkey voters) (\<lambda>votedPower.
      let (proposerBaseFee, proposerExtraFee) = proposer_fees collectedFee votedPower totalVotingPower;
          collectedFee = collectedFee - proposerBaseFee - proposerExtraFee;
          rwdMapByAddr = GetCurrRewardMapByAddr info
      in
      bindG (foldG (distribute_to_voter info valMapByPubkey rwdMapByAddr collectedFee votedPower proposer)
               (PendingRewards info, collectedFee) voters) (\<lambda>(prs, remainedFee).
      case valMapByPubkey proposer of
        None \<Rightarrow> Inl NilDeref
      | Some i \<Rightarrow>
          Inr (info\<lparr>PendingRewards :=
            add_reward rwdMapByAddr (CurrEpochNum info) prs (Address (Validators info ! i))
              (proposerBaseFee + proposerExtraFee + remainedFee)\<rparr>))))"

definition DistributeFee ::
  "('c, 'a) evm \<Rightarrow> 'e codec \<Rightarrow> 'c \<Rightarrow> StakingInfo option \<Rightarrow> u256 option \<Rightarrow> bytes32 \<Rightarrow> bytes32 list \<Rightarrow>
   ('c \<times> StakingInfo option) go" where
  "DistributeFee E M ctx readonlyStakingInfo fee proposer voters =
     (case fee of
        None \<Rightarrow> Inr (ctx, readonlyStakingInfo)
      | Some collectedFee \<Rightarrow>
          bindG (LoadStakingAcc E M ctx) (\<lambda>(stakingAcc, info).
          let stakingAccBalance = Balance E stakingAcc + collectedFee;
              stakingAcc = UpdateBalance E stakingAcc stakingAccBalance;
              ctx = SetAccount E ctx StakingContractAddress stakingAcc
          in
          bindG (distribute_rewards info collectedFee proposer voters) (\<lambda>info.
            Inr (SaveStakingInfo E M ctx stakingAcc info, Some info))))"

section \<open>Lemmas on the distribution\<close>

text \<open>What an address has pending, as a 256-bit word.\<close>

definition pending_of :: "PendingReward list \<Rightarrow> address \<Rightarrow> u256" where
  "pending_of prs a = (\<Sum>r\<leftarrow>filter (\<lambda>r. PR_Address r = a) prs. Amount r)"

definition amounts :: "PendingReward list \<Rightarrow> nat" where
  "amounts prs = (\<Sum>r\<leftarrow>prs. unat (Amount r))"

text \<open>An index of the entries of a list that stays valid while entries are added.\<close>

definition indexes :: "(address \<rightharpoonup> nat) \<Rightarrow> PendingReward list \<Rightarrow> bool" where
  "indexes m prs \<longleftrightarrow> (\<forall>a i. m a = Some i \<longrightarrow> i < length prs \<and> PR_Address (prs ! i) = a)"

lemma indexes_GetCurrRewardMapByAddr: "indexes (GetCurrRewardMapByAddr si) (PendingRewards si)"
  by (simp add: indexes_def GetCurrRewardMapByAddr_SomeD)

lemma indexes_add_reward:
  "indexes m prs \<Longrightarrow> indexes m (add_reward m e prs a c)"
  by (auto simp: indexes_def add_reward_def nth_append nth_list_update split: option.splits intro: less_SucI)

lemma pending_of_update:
  assumes "i < length prs" and "PR_Address (prs ! i) = a"
  shows "pending_of (prs[i := (prs ! i)\<lparr>Amount := Amount (prs ! i) + c\<rparr>]) b =
         pending_of prs b + (if a = b then c else 0)"
  using assms
proof (induction prs arbitrary: i)
  case Nil
  then show ?case by simp
next
  case (Cons r prs)
  then show ?case
    by (cases i) (auto simp: pending_of_def algebra_simps)
qed

lemma pending_of_add_reward:
  assumes "indexes m prs"
  shows "pending_of (add_reward m e prs a c) b = pending_of prs b + (if a = b then c else 0)"
proof (cases "m a")
  case None
  then show ?thesis by (simp add: add_reward_def pending_of_def)
next
  case (Some i)
  with assms have "i < length prs" "PR_Address (prs ! i) = a" by (auto simp: indexes_def)
  from pending_of_update [OF this] Some show ?thesis by (simp add: add_reward_def)
qed

lemma sum_amounts_add_reward:
  assumes "indexes m prs"
  shows "(\<Sum>r\<leftarrow>add_reward m e prs a c. Amount r) = (\<Sum>r\<leftarrow>prs. Amount r) + c"
  using assms by (cases "m a") (auto simp: add_reward_def indexes_def sum_list_update_word)

lemma amounts_update: "amounts (prs[i := r]) \<le> amounts prs + unat (Amount r) - (if i < length prs then unat (Amount (prs ! i)) else unat (Amount r))"
proof (induction prs arbitrary: i)
  case Nil
  then show ?case by (simp add: amounts_def)
next
  case (Cons p prs)
  show ?case
  proof (cases i)
    case 0
    then show ?thesis by (simp add: amounts_def)
  next
    case (Suc j)
    have "j < length prs \<Longrightarrow> unat (Amount (prs ! j)) \<le> amounts prs"
      unfolding amounts_def by (intro member_le_sum_list) auto
    with Cons.IH [of j] Suc show ?thesis by (auto simp: amounts_def)
  qed
qed

lemma amounts_add_reward:
  assumes "indexes m prs"
  shows "amounts (add_reward m e prs a c) \<le> amounts prs + unat c"
proof (cases "m a")
  case None
  then show ?thesis by (simp add: add_reward_def amounts_def)
next
  case (Some i)
  with assms have i: "i < length prs" by (auto simp: indexes_def)
  have le: "unat (Amount (prs ! i)) \<le> amounts prs"
    unfolding amounts_def using i by (intro member_le_sum_list) auto
  have "amounts (add_reward m e prs a c) \<le>
      amounts prs + unat (Amount (prs ! i) + c) - unat (Amount (prs ! i))"
    using amounts_update [of prs i "(prs ! i)\<lparr>Amount := Amount (prs ! i) + c\<rparr>"] Some i
    by (simp add: add_reward_def)
  also have "\<dots> \<le> amounts prs + unat c"
    using unat_add_le [of "Amount (prs ! i)" c] by linarith
  finally show ?thesis .
qed

lemma add_reward_addresses:
  "indexes m prs \<Longrightarrow> PR_Address ` set (add_reward m e prs a c) \<subseteq> insert a (PR_Address ` set prs)"
proof (cases "m a")
  case (Some i)
  assume "indexes m prs"
  with Some have i: "i < length prs" "PR_Address (prs ! i) = a" by (auto simp: indexes_def)
  have "set (prs[i := (prs ! i)\<lparr>Amount := Amount (prs ! i) + c\<rparr>]) \<subseteq>
      insert ((prs ! i)\<lparr>Amount := Amount (prs ! i) + c\<rparr>) (set prs)"
    by (rule set_update_subset_insert)
  with Some i show ?thesis by (auto simp: add_reward_def)
qed (auto simp: add_reward_def)

lemma length_add_reward: "length (add_reward m e prs a c) \<le> length prs + 1"
  by (simp add: add_reward_def split: option.splits)

section \<open>The loop over the voters\<close>

definition known :: "StakingInfo \<Rightarrow> bytes32 \<Rightarrow> bool" where
  "known info pubkey \<longleftrightarrow> pubkey \<in> Pubkey ` set (Validators info)"

definition val_of :: "StakingInfo \<Rightarrow> bytes32 \<Rightarrow> Validator" where
  "val_of info pubkey = Validators info ! the (GetValMapByPubkey info pubkey)"

lemma known_lookup:
  assumes "known info pubkey"
  obtains i where "GetValMapByPubkey info pubkey = Some i" and "i < length (Validators info)"
    and "val_of info pubkey = Validators info ! i"
proof -
  from assms have "GetValMapByPubkey info pubkey \<noteq> None"
    by (auto simp: known_def GetValMapByPubkey_def index_map_None)
  then obtain i where "GetValMapByPubkey info pubkey = Some i" by auto
  with that [of i] index_map_SomeD [of "\<lambda>_. True" Pubkey "Validators info" pubkey i]
  show thesis by (simp add: GetValMapByPubkey_def val_of_def)
qed

lemma val_of_in: "known info pubkey \<Longrightarrow> val_of info pubkey \<in> set (Validators info)"
  by (metis known_lookup nth_mem)

lemma val_of_pubkey: "known info pubkey \<Longrightarrow> Pubkey (val_of info pubkey) = pubkey"
  by (metis GetValMapByPubkey_def index_map_SomeD known_lookup)

definition share_of :: "StakingInfo \<Rightarrow> u256 \<Rightarrow> int64 \<Rightarrow> bytes32 \<Rightarrow> u256" where
  "share_of info fee voted voter = voter_share fee (VotingPower (val_of info voter)) voted"

lemma sum_voter_powers_eq:
  assumes "list_all (known info) voters"
  shows "sum_voter_powers info (GetValMapByPubkey info) voters =
    Inr (\<Sum>voter\<leftarrow>voters. VotingPower (val_of info voter))"
proof -
  have "foldG (\<lambda>votedPower voter. case GetValMapByPubkey info voter of
        None \<Rightarrow> Inl NilDeref
      | Some i \<Rightarrow> Inr (votedPower + VotingPower (Validators info ! i))) s voters =
    Inr (s + (\<Sum>voter\<leftarrow>voters. VotingPower (val_of info voter)))" for s
    using assms
  proof (induction voters arbitrary: s)
    case (Cons v vs)
    then have "known info v" by simp
    then obtain i where "GetValMapByPubkey info v = Some i" "val_of info v = Validators info ! i"
      using known_lookup by blast
    with Cons show ?case by (simp add: add.assoc)
  qed simp
  then show ?thesis by (simp add: sum_voter_powers_def)
qed

text \<open>
  The whole effect of the loop: every share is added to its address and taken from the
  remaining fee.
\<close>

lemma distribute_loop:
  fixes info fee voted proposer
  defines "sh \<equiv> share_of info fee voted"
  assumes "list_all (known info) voters" and "indexes rm prs"
  shows "\<exists>prs'. foldG (distribute_to_voter info (GetValMapByPubkey info) rm fee voted proposer) (prs, rest) voters =
      Inr (prs', rest - (\<Sum>v\<leftarrow>filter (\<lambda>v. v \<noteq> proposer) voters. sh v)) \<and>
    indexes rm prs' \<and>
    (\<forall>b. pending_of prs' b = pending_of prs b +
       (\<Sum>v\<leftarrow>filter (\<lambda>v. v \<noteq> proposer \<and> Address (val_of info v) = b) voters. sh v)) \<and>
    (\<Sum>r\<leftarrow>prs'. Amount r) = (\<Sum>r\<leftarrow>prs. Amount r) + (\<Sum>v\<leftarrow>filter (\<lambda>v. v \<noteq> proposer) voters. sh v) \<and>
    amounts prs' \<le> amounts prs + (\<Sum>v\<leftarrow>filter (\<lambda>v. v \<noteq> proposer) voters. unat (sh v)) \<and>
    PR_Address ` set prs' \<subseteq> PR_Address ` set prs \<union> Address ` set (Validators info) \<and>
    length prs' \<le> length prs + length voters"
  using assms(2,3)
proof (induction voters arbitrary: prs rest)
  case Nil
  then show ?case by simp
next
  case (Cons v vs)
  show ?case
  proof (cases "v = proposer")
    case True
    have "foldG (distribute_to_voter info (GetValMapByPubkey info) rm fee voted proposer) (prs, rest) (v # vs) =
        foldG (distribute_to_voter info (GetValMapByPubkey info) rm fee voted proposer) (prs, rest) vs"
      by (simp add: distribute_to_voter_def True)
    with Cons.IH [of prs rest] Cons.prems True show ?thesis by (fastforce simp: le_Suc_eq)
  next
    case False
    from Cons.prems(1) have kv: "known info v" by simp
    then obtain i where i: "GetValMapByPubkey info v = Some i" "val_of info v = Validators info ! i"
      using known_lookup by blast
    let ?prs = "add_reward rm (CurrEpochNum info) prs (Address (val_of info v)) (sh v)"
    have step: "foldG (distribute_to_voter info (GetValMapByPubkey info) rm fee voted proposer) (prs, rest) (v # vs) =
        foldG (distribute_to_voter info (GetValMapByPubkey info) rm fee voted proposer) (?prs, rest - sh v) vs"
      using False i by (simp add: distribute_to_voter_def sh_def share_of_def Let_def)
    have ix: "indexes rm ?prs" using Cons.prems(2) by (rule indexes_add_reward)
    from Cons.prems(1) have "list_all (known info) vs" by simp
    from Cons.IH [OF this ix, of "rest - sh v"] obtain prs' where IH:
      "foldG (distribute_to_voter info (GetValMapByPubkey info) rm fee voted proposer) (?prs, rest - sh v) vs =
        Inr (prs', rest - sh v - (\<Sum>v\<leftarrow>filter (\<lambda>v. v \<noteq> proposer) vs. sh v))"
      "indexes rm prs'"
      "\<forall>b. pending_of prs' b = pending_of ?prs b +
         (\<Sum>v\<leftarrow>filter (\<lambda>v. v \<noteq> proposer \<and> Address (val_of info v) = b) vs. sh v)"
      "(\<Sum>r\<leftarrow>prs'. Amount r) = (\<Sum>r\<leftarrow>?prs. Amount r) + (\<Sum>v\<leftarrow>filter (\<lambda>v. v \<noteq> proposer) vs. sh v)"
      "amounts prs' \<le> amounts ?prs + (\<Sum>v\<leftarrow>filter (\<lambda>v. v \<noteq> proposer) vs. unat (sh v))"
      "PR_Address ` set prs' \<subseteq> PR_Address ` set ?prs \<union> Address ` set (Validators info)"
      "length prs' \<le> length ?prs + length vs" by blast
    have addr: "PR_Address ` set prs' \<subseteq> PR_Address ` set prs \<union> Address ` set (Validators info)"
      using IH(6) add_reward_addresses [OF Cons.prems(2), of "CurrEpochNum info" "Address (val_of info v)" "sh v"]
        val_of_in [OF kv] by blast
    have am: "amounts prs' \<le> amounts prs + (\<Sum>v\<leftarrow>filter (\<lambda>v. v \<noteq> proposer) (v # vs). unat (sh v))"
      using IH(5) amounts_add_reward [OF Cons.prems(2), of "CurrEpochNum info" "Address (val_of info v)" "sh v"]
        False by simp
    have len: "length prs' \<le> length prs + length (v # vs)"
      using IH(7) length_add_reward [of rm "CurrEpochNum info" prs "Address (val_of info v)" "sh v"] by simp
    have pend: "\<forall>b. pending_of prs' b = pending_of prs b +
       (\<Sum>v\<leftarrow>filter (\<lambda>v. v \<noteq> proposer \<and> Address (val_of info v) = b) (v # vs). sh v)"
      using IH(3) False by (simp add: pending_of_add_reward [OF Cons.prems(2)] add.assoc)
    have tot: "(\<Sum>r\<leftarrow>prs'. Amount r) =
        (\<Sum>r\<leftarrow>prs. Amount r) + (\<Sum>v\<leftarrow>filter (\<lambda>v. v \<noteq> proposer) (v # vs). sh v)"
      using IH(4) False by (simp add: sum_amounts_add_reward [OF Cons.prems(2)] add.assoc)
    have run: "foldG (distribute_to_voter info (GetValMapByPubkey info) rm fee voted proposer) (prs, rest) (v # vs) =
        Inr (prs', rest - (\<Sum>v\<leftarrow>filter (\<lambda>v. v \<noteq> proposer) (v # vs). sh v))"
      using step IH(1) False by (simp add: diff_diff_eq)
    show ?thesis
      by (rule exI [of _ prs'], intro conjI) (fact run IH(2) pend tot am addr len)+
  qed
qed

text \<open>
  The result of the distribution with known voters and a known proposer: the shares of
  the other voters, and the rest of the fee to the proposer.
\<close>

definition total_power :: "StakingInfo \<Rightarrow> int64" where
  "total_power info = (\<Sum>val\<leftarrow>GetActiveValidators info MinimumStakingAmount. VotingPower val)"

definition voted_power :: "StakingInfo \<Rightarrow> bytes32 list \<Rightarrow> int64" where
  "voted_power info voters = (\<Sum>voter\<leftarrow>voters. VotingPower (val_of info voter))"

definition shared_fee :: "StakingInfo \<Rightarrow> u256 \<Rightarrow> bytes32 list \<Rightarrow> u256" where
  "shared_fee info fee voters =
     (let (b, x) = proposer_fees fee (voted_power info voters) (total_power info) in fee - b - x)"

definition final_share :: "StakingInfo \<Rightarrow> u256 \<Rightarrow> bytes32 list \<Rightarrow> bytes32 \<Rightarrow> u256" where
  "final_share info fee voters = share_of info (shared_fee info fee voters) (voted_power info voters)"

lemma distribute_rewards_spec:
  fixes info fee voters proposer
  assumes wf: "wf_info info" and "list_all (known info) voters" and "known info proposer"
  defines "sh \<equiv> final_share info fee voters"
  defines "own \<equiv> fee - (\<Sum>v\<leftarrow>filter (\<lambda>v. v \<noteq> proposer) voters. sh v)"
  shows "\<exists>prs. distribute_rewards info fee proposer voters = Inr (info\<lparr>PendingRewards := prs\<rparr>) \<and>
    wf_info (info\<lparr>PendingRewards := prs\<rparr>) \<and> length prs \<le> length (PendingRewards info) + length voters + 1 \<and>
    (\<forall>b. pending_of prs b = pending_of (PendingRewards info) b +
       (\<Sum>v\<leftarrow>filter (\<lambda>v. v \<noteq> proposer \<and> Address (val_of info v) = b) voters. sh v) +
       (if Address (val_of info proposer) = b then own else 0)) \<and>
    (\<Sum>r\<leftarrow>prs. Amount r) = (\<Sum>r\<leftarrow>PendingRewards info. Amount r) + fee \<and>
    amounts prs \<le> amounts (PendingRewards info) +
      (\<Sum>v\<leftarrow>filter (\<lambda>v. v \<noteq> proposer) voters. unat (sh v)) + unat own"
proof -
  obtain b x where bx: "proposer_fees fee (voted_power info voters) (total_power info) = (b, x)" by fastforce
  then have fee: "shared_fee info fee voters = fee - b - x" by (simp add: shared_fee_def)
  let ?S = "\<Sum>v\<leftarrow>filter (\<lambda>v. v \<noteq> proposer) voters. sh v"
  let ?rm = "GetCurrRewardMapByAddr info"
  let ?a = "Address (val_of info proposer)"
  from distribute_loop [OF assms(2) indexes_GetCurrRewardMapByAddr, where fee = "fee - b - x" and
      voted = "voted_power info voters" and proposer = proposer and rest = "fee - b - x"]
  obtain prs where loop: "foldG (distribute_to_voter info (GetValMapByPubkey info) ?rm (fee - b - x)
        (voted_power info voters) proposer) (PendingRewards info, fee - b - x) voters = Inr (prs, fee - b - x - ?S)"
    and ix: "indexes ?rm prs"
    and pend: "\<forall>b. pending_of prs b = pending_of (PendingRewards info) b +
       (\<Sum>v\<leftarrow>filter (\<lambda>v. v \<noteq> proposer \<and> Address (val_of info v) = b) voters. sh v)"
    and tot: "(\<Sum>r\<leftarrow>prs. Amount r) = (\<Sum>r\<leftarrow>PendingRewards info. Amount r) + ?S"
    and am: "amounts prs \<le> amounts (PendingRewards info) +
        (\<Sum>v\<leftarrow>filter (\<lambda>v. v \<noteq> proposer) voters. unat (sh v))"
    and addr: "PR_Address ` set prs \<subseteq> PR_Address ` set (PendingRewards info) \<union> Address ` set (Validators info)"
    and len: "length prs \<le> length (PendingRewards info) + length voters"
    unfolding sh_def final_share_def fee by blast
  let ?prs = "add_reward ?rm (CurrEpochNum info) prs ?a own"
  obtain i where i: "GetValMapByPubkey info proposer = Some i" "val_of info proposer = Validators info ! i"
    using assms(3) known_lookup by blast
  have own: "b + x + (fee - b - x - ?S) = own" by (simp add: own_def)
  have run: "distribute_rewards info fee proposer voters = Inr (info\<lparr>PendingRewards := ?prs\<rparr>)"
    using bx loop i own
    by (simp add: distribute_rewards_def sum_voter_powers_eq [OF assms(2)] Let_def
        voted_power_def [symmetric] total_power_def [symmetric])
  have "PR_Address ` set prs \<subseteq> Address ` set (Validators info)"
    using addr Un_least [OF wf [unfolded wf_info_def, THEN conjunct2, THEN conjunct2] order_refl]
    by (rule order_trans)
  with imageI [OF val_of_in [OF assms(3)], of Address]
  have "insert ?a (PR_Address ` set prs) \<subseteq> Address ` set (Validators info)" by simp
  with add_reward_addresses [OF ix] have "PR_Address ` set ?prs \<subseteq> Address ` set (Validators info)"
    by (rule order_trans)
  with wf have wf': "wf_info (info\<lparr>PendingRewards := ?prs\<rparr>)" by (simp add: wf_info_def)
  have pend': "\<forall>b. pending_of ?prs b = pending_of (PendingRewards info) b +
       (\<Sum>v\<leftarrow>filter (\<lambda>v. v \<noteq> proposer \<and> Address (val_of info v) = b) voters. sh v) +
       (if ?a = b then own else 0)"
    using pend by (simp add: pending_of_add_reward [OF ix])
  have tot': "(\<Sum>r\<leftarrow>?prs. Amount r) = (\<Sum>r\<leftarrow>PendingRewards info. Amount r) + fee"
    using tot by (simp add: sum_amounts_add_reward [OF ix] own_def)
  have am': "amounts ?prs \<le> amounts (PendingRewards info) +
      (\<Sum>v\<leftarrow>filter (\<lambda>v. v \<noteq> proposer) voters. unat (sh v)) + unat own"
    using am amounts_add_reward [OF ix, of "CurrEpochNum info" ?a own] by linarith
  have len': "length ?prs \<le> length (PendingRewards info) + length voters + 1"
    using len length_add_reward [of ?rm "CurrEpochNum info" prs ?a own] by simp
  show ?thesis by (rule exI [of _ ?prs], intro conjI) (fact run wf' len' pend' tot' am')+
qed

section \<open>The shares do not exceed the fee\<close>

lemma add_div_le: "(a :: nat) div k + b div k \<le> (a + b) div k"
  by (metis add.commute add_le_mono1 div_add1_eq le_add1)

lemma sum_div_le: "(\<Sum>x\<leftarrow>xs. f x div (k :: nat)) \<le> (\<Sum>x\<leftarrow>xs. f x) div k"
proof (induction xs)
  case (Cons x xs)
  then have "(\<Sum>x\<leftarrow>x # xs. f x div k) \<le> f x div k + (\<Sum>x\<leftarrow>xs. f x) div k" by simp
  also have "\<dots> \<le> (f x + (\<Sum>x\<leftarrow>xs. f x)) div k" by (rule add_div_le)
  finally show ?case by simp
qed simp

lemma unat_mult_le:
  fixes a b :: u256
  assumes "unat a * unat b < 2 ^ 256"
  shows "unat (a * b) = unat a * unat b"
  using assms by (simp add: unat_word_ariths)

lemma unat_ucast_power [simp]: "unat (ucast p :: u256) = unat (p :: int64)"
proof -
  have "unat p < 2 ^ LENGTH(64)" by (rule unsigned_less)
  also have "(2 :: nat) ^ LENGTH(64) < 2 ^ 256" by simp
  finally show ?thesis by (simp add: unsigned_ucast_eq take_bit_nat_eq_self)
qed

lemma shares_le_fee:
  assumes "\<And>v. v \<in> set vs \<Longrightarrow> unat fee * unat (pw v) < 2 ^ 256"
    and "(\<Sum>v\<leftarrow>vs. unat (pw v)) \<le> unat voted"
  shows "(\<Sum>v\<leftarrow>vs. unat (voter_share fee (pw v) voted)) \<le> unat fee"
proof -
  have "unat (voter_share fee (pw v) voted) = unat fee * unat (pw v) div unat voted" if "v \<in> set vs" for v
    using unat_mult_le [of fee "ucast (pw v)"] assms(1) [OF that] by (simp add: voter_share_def unat_div)
  then have "(\<Sum>v\<leftarrow>vs. unat (voter_share fee (pw v) voted)) = (\<Sum>v\<leftarrow>vs. unat fee * unat (pw v) div unat voted)"
    by (metis (no_types, lifting) map_eq_conv)
  also have "\<dots> \<le> (\<Sum>v\<leftarrow>vs. unat fee * unat (pw v)) div unat voted" by (rule sum_div_le)
  also have "\<dots> = (unat fee * (\<Sum>v\<leftarrow>vs. unat (pw v))) div unat voted" by (simp add: sum_list_const_mult)
  also have "\<dots> \<le> (unat fee * unat voted) div unat voted" by (intro div_le_mono mult_le_mono2 assms(2))
  also have "\<dots> \<le> unat fee" by simp
  finally show ?thesis .
qed

lemma proposer_fees_bound:
  assumes "proposer_fees fee voted tp = (b, x)"
    and "unat voted \<le> unat tp" and "100 * unat tp < 2 ^ 64" and "15 * unat fee * (1 + unat tp) < 2 ^ 256"
  shows "unat b = 15 * unat fee div 100" and "unat b + unat x \<le> unat fee"
proof -
  have "unat (fee * BaseProposerPercentage) = unat fee * 15"
    using unat_mult_le [of fee BaseProposerPercentage] assms(4) by (simp add: BaseProposerPercentage_def)
  moreover have b: "b = fee * BaseProposerPercentage div 100"
    using assms(1) by (auto simp: proposer_fees_def Let_def)
  ultimately show ub: "unat b = 15 * unat fee div 100" by (simp add: unat_div mult.commute)
  then have "b \<le> fee" by (simp add: word_le_nat_alt)
  then have f1: "unat (fee - b) = unat fee - unat b" by (rule unat_diff_le)
  let ?f = "fee - b"
  have x: "x = ?f * ExtraProposerPercentage * ucast voted div ucast (100 * tp)"
    using assms(1) b by (auto simp: proposer_fees_def Let_def)
  have "unat ?f * 15 * unat tp \<le> 15 * unat fee * (1 + unat tp)"
    by (simp add: f1 algebra_simps)
  then have lt: "unat ?f * 15 * unat tp < 2 ^ 256" using assms(4) by linarith
  have "unat ?f * 15 * unat voted \<le> unat ?f * 15 * unat tp" using assms(2) by simp
  with lt have lt': "unat ?f * 15 * unat voted < 2 ^ 256" by linarith
  have "unat ?f * 15 \<le> 15 * unat fee * (1 + unat tp)" by (simp add: f1)
  then have "unat (?f * ExtraProposerPercentage) = unat ?f * 15"
    using unat_mult_le [of ?f ExtraProposerPercentage] assms(4) by (simp add: ExtraProposerPercentage_def)
  then have m: "unat (?f * ExtraProposerPercentage * ucast voted) = unat ?f * 15 * unat voted"
    using unat_mult_le [of "?f * ExtraProposerPercentage" "ucast voted"] lt' by simp
  have t: "unat (100 * tp) = 100 * unat tp" using assms(3) by (simp add: unat_word_ariths)
  have "unat x = unat ?f * 15 * unat voted div (100 * unat tp)"
    unfolding x by (simp add: unat_div m t)
  also have "\<dots> \<le> unat ?f * (100 * unat tp) div (100 * unat tp)"
    by (rule div_le_mono) (use assms(2) in simp)
  also have "\<dots> \<le> unat ?f" by simp
  finally show "unat b + unat x \<le> unat fee" using f1 \<open>b \<le> fee\<close> by (simp add: word_le_nat_alt)
qed

section \<open>Voters that are active validators\<close>

definition active_power :: "StakingInfo \<Rightarrow> nat" where
  "active_power info = (\<Sum>v\<leftarrow>GetActiveValidators info MinimumStakingAmount. unat (VotingPower v))"

lemma active_subset: "set (GetActiveValidators info m) \<subseteq> set (Validators info)"
  by (auto simp: GetActiveValidators_def Let_def dest: in_set_takeD)

lemma distinct_active: "distinct (Validators info) \<Longrightarrow> distinct (GetActiveValidators info m)"
  by (simp add: GetActiveValidators_def Let_def)

lemma sum_list_distinct_le:
  fixes f :: "'a \<Rightarrow> nat"
  assumes "distinct xs" and "distinct ys" and "set xs \<subseteq> set ys"
  shows "(\<Sum>x\<leftarrow>xs. f x) \<le> (\<Sum>y\<leftarrow>ys. f y)"
  unfolding sum_list_distinct_conv_sum_set [OF assms(1)] sum_list_distinct_conv_sum_set [OF assms(2)]
  by (rule sum_mono2) (use assms(3) in simp_all)

lemma val_of_active:
  assumes "wf_info info" and "pubkey \<in> Pubkey ` set (GetActiveValidators info m)"
  shows "known info pubkey" and "val_of info pubkey \<in> set (GetActiveValidators info m)"
proof -
  from assms(2) obtain v where v: "v \<in> set (GetActiveValidators info m)" "Pubkey v = pubkey" by blast
  then have vin: "v \<in> set (Validators info)" using active_subset by blast
  with v(2) show k: "known info pubkey" by (auto simp: known_def)
  have "inj_on Pubkey (set (Validators info))" using wf_infoD(2) [OF assms(1)] by (simp add: distinct_map)
  then have "val_of info pubkey = v"
    by (rule inj_onD) (simp_all add: val_of_in [OF k] val_of_pubkey [OF k] vin v(2))
  with v(1) show "val_of info pubkey \<in> set (GetActiveValidators info m)" by simp
qed

lemma voters_power_le:
  assumes "wf_info info" and "distinct voters"
    and "set voters \<subseteq> Pubkey ` set (GetActiveValidators info MinimumStakingAmount)"
  shows "(\<Sum>v\<leftarrow>voters. unat (VotingPower (val_of info v))) \<le> active_power info"
proof -
  have k: "known info v" "val_of info v \<in> set (GetActiveValidators info MinimumStakingAmount)"
    if "v \<in> set voters" for v
    using val_of_active [OF assms(1) subsetD [OF assms(3) that]] .
  have "inj_on (val_of info) (set voters)" by (rule inj_onI) (metis k(1) val_of_pubkey)
  then have "distinct (map (val_of info) voters)" using assms(2) by (simp add: distinct_map)
  moreover have "distinct (GetActiveValidators info MinimumStakingAmount)"
    using wf_infoD(1) [OF assms(1)] by (simp add: distinct_active distinct_map)
  moreover have "set (map (val_of info) voters) \<subseteq> set (GetActiveValidators info MinimumStakingAmount)"
    using k(2) by auto
  ultimately have "(\<Sum>x\<leftarrow>map (val_of info) voters. unat (VotingPower x)) \<le> active_power info"
    unfolding active_power_def by (rule sum_list_distinct_le)
  then show ?thesis by (simp add: comp_def)
qed

text \<open>The premises under which the arithmetic of the distribution does not wrap around.\<close>

definition fair_block :: "StakingInfo \<Rightarrow> u256 \<Rightarrow> bytes32 \<Rightarrow> bytes32 list \<Rightarrow> bool" where
  "fair_block info fee proposer voters \<longleftrightarrow>
     distinct voters \<and> set voters \<subseteq> Pubkey ` set (GetActiveValidators info MinimumStakingAmount) \<and>
     known info proposer \<and> 100 * active_power info < 2 ^ 64 \<and> 15 * unat fee * (1 + active_power info) < 2 ^ 256"

lemma fair_block_known:
  assumes "wf_info info" and "fair_block info fee proposer voters"
  shows "list_all (known info) voters" and "known info proposer"
proof -
  from assms(2) have sub: "set voters \<subseteq> Pubkey ` set (GetActiveValidators info MinimumStakingAmount)"
    by (simp add: fair_block_def)
  have "known info v" if "v \<in> set voters" for v
    using val_of_active(1) [OF assms(1) subsetD [OF sub that]] .
  then show "list_all (known info) voters" by (simp add: list_all_iff)
  show "known info proposer" using assms(2) by (simp add: fair_block_def)
qed

lemma filter_the_one: "distinct xs \<Longrightarrow> x \<in> set xs \<Longrightarrow> filter (\<lambda>y. y = x) xs = [x]"
  by (induction xs) (auto simp: filter_empty_conv)

lemma fair_block_shares:
  assumes "wf_info info" and "fair_block info fee proposer voters"
  shows "(\<Sum>v\<leftarrow>filter (\<lambda>v. v \<noteq> proposer) voters. unat (final_share info fee voters v)) \<le> unat fee"
    and "(\<Sum>v\<leftarrow>filter (\<lambda>v. v \<noteq> proposer) voters. unat (final_share info fee voters v)) +
         unat (fee - (\<Sum>v\<leftarrow>filter (\<lambda>v. v \<noteq> proposer) voters. final_share info fee voters v)) = unat fee"
proof -
  let ?vs = "filter (\<lambda>v. v \<noteq> proposer) voters" and ?sh = "final_share info fee voters"
  let ?pw = "\<lambda>v. VotingPower (val_of info v)"
  have fair: "distinct voters" "set voters \<subseteq> Pubkey ` set (GetActiveValidators info MinimumStakingAmount)"
    "100 * active_power info < 2 ^ 64" "15 * unat fee * (1 + active_power info) < 2 ^ 256"
    using assms(2) by (auto simp: fair_block_def)
  have le: "(\<Sum>v\<leftarrow>voters. unat (?pw v)) \<le> active_power info"
    by (rule voters_power_le [OF assms(1) fair(1,2)])
  have t: "unat (total_power info) = active_power info"
    unfolding total_power_def active_power_def
    by (rule unat_sum_list_words) (use fair(3) in \<open>simp add: active_power_def\<close>)
  have v: "unat (voted_power info voters) = (\<Sum>v\<leftarrow>voters. unat (?pw v))"
    unfolding voted_power_def by (rule unat_sum_list_words) (use fair(3) le in simp)
  obtain b x where bx: "proposer_fees fee (voted_power info voters) (total_power info) = (b, x)" by fastforce
  have "unat b + unat x \<le> unat fee"
    by (rule proposer_fees_bound [OF bx]) (use t v le fair(3,4) in simp_all)
  moreover have b: "b \<le> fee" using calculation by (simp add: word_le_nat_alt)
  moreover have "x \<le> fee - b" using calculation by (simp add: word_le_nat_alt unat_diff_le)
  ultimately have sf: "unat (shared_fee info fee voters) \<le> unat fee"
    by (simp add: shared_fee_def bx unat_diff_le)
  have "(\<Sum>v\<leftarrow>?vs. unat (?pw v)) \<le> (\<Sum>v\<leftarrow>voters. unat (?pw v))"
    by (induction voters) auto
  moreover have "unat (shared_fee info fee voters) * unat (?pw v) < 2 ^ 256" if "v \<in> set ?vs" for v
  proof -
    have "unat (?pw v) \<le> (\<Sum>v\<leftarrow>voters. unat (?pw v))" using that by (intro member_le_sum_list) auto
    with le sf have "unat (shared_fee info fee voters) * unat (?pw v) \<le> unat fee * active_power info"
      by (intro mult_le_mono) simp_all
    also have "\<dots> \<le> 15 * unat fee * (1 + active_power info)" by simp
    finally show ?thesis using fair(4) by linarith
  qed
  ultimately have "(\<Sum>v\<leftarrow>?vs. unat (?sh v)) \<le> unat (shared_fee info fee voters)"
    unfolding final_share_def share_of_def by (intro shares_le_fee) (simp_all add: v)
  with sf show N: "(\<Sum>v\<leftarrow>?vs. unat (?sh v)) \<le> unat fee" by simp
  have "(\<Sum>v\<leftarrow>?vs. unat (?sh v)) < 2 ^ LENGTH(256)" using N unsigned_less [of fee] by (rule le_less_trans)
  then have "unat (\<Sum>v\<leftarrow>?vs. ?sh v) = (\<Sum>v\<leftarrow>?vs. unat (?sh v))" by (rule unat_sum_list_words)
  then show "(\<Sum>v\<leftarrow>?vs. unat (?sh v)) + unat (fee - (\<Sum>v\<leftarrow>?vs. ?sh v)) = unat fee"
    using N by (simp add: unat_diff_le word_le_nat_alt)
qed

lemma amounts_exact:
  assumes "(\<Sum>r\<leftarrow>prs'. Amount r) = (\<Sum>r\<leftarrow>prs. Amount r) + fee"
    and "amounts prs' \<le> amounts prs + unat fee" and "amounts prs + unat fee < 2 ^ 256"
  shows "amounts prs' = amounts prs + unat fee"
proof -
  have "amounts prs' < 2 ^ LENGTH(256)" "amounts prs < 2 ^ LENGTH(256)" using assms(2,3) by simp_all
  then have "unat (\<Sum>r\<leftarrow>prs'. Amount r) = amounts prs'" "unat (\<Sum>r\<leftarrow>prs. Amount r) = amounts prs"
    unfolding amounts_def by (auto intro: unat_sum_list_words)
  moreover from this assms(3) have "unat ((\<Sum>r\<leftarrow>prs. Amount r) + fee) = amounts prs + unat fee"
    by (subst unat_add_no_overflow) simp_all
  ultimately show ?thesis using assms(1) by simp
qed

section \<open>Properties of the distribution\<close>

lemma DistributeFee_run:
  assumes "evm_laws E" and "codec_laws M" and "staking_inv E M ctx"
    and "LoadStakingAcc E M ctx = Inr (acc, info)"
    and "fair_block info fee proposer voters"
    and "unat (Balance E acc) + unat fee < 2 ^ 256"
    and "length (PendingRewards info) + length voters + 1 < 2 ^ 32"
  shows "\<exists>ctx' acc' info'.
    DistributeFee E M ctx ro (Some fee) proposer voters = Inr (ctx', Some info') \<and>
    LoadStakingAcc E M ctx' = Inr (acc', info') \<and> staking_inv E M ctx' \<and>
    Validators info' = Validators info \<and> owed info' = owed info + unat fee \<and>
    unat (Balance E acc') = unat (Balance E acc) + unat fee \<and>
    (\<forall>b. b \<noteq> StakingContractAddress \<longrightarrow> GetAccount E ctx' b = GetAccount E ctx b)"
proof -
  let ?vs = "filter (\<lambda>v. v \<noteq> proposer) voters"
  from assms(3,4) have inv: "wf_info info" "storable_info info" "owed info \<le> unat (Balance E acc)"
    by (simp_all add: staking_inv_def)
  have known: "list_all (known info) voters" "known info proposer"
    using fair_block_known [OF inv(1) assms(5)] .
  from distribute_rewards_spec [OF inv(1) known, of fee] obtain prs where
    run: "distribute_rewards info fee proposer voters = Inr (info\<lparr>PendingRewards := prs\<rparr>)"
    and wf: "wf_info (info\<lparr>PendingRewards := prs\<rparr>)"
    and len: "length prs \<le> length (PendingRewards info) + length voters + 1"
    and tot: "(\<Sum>r\<leftarrow>prs. Amount r) = (\<Sum>r\<leftarrow>PendingRewards info. Amount r) + fee"
    and am: "amounts prs \<le> amounts (PendingRewards info) +
      (\<Sum>v\<leftarrow>?vs. unat (final_share info fee voters v)) + unat (fee - (\<Sum>v\<leftarrow>?vs. final_share info fee voters v))"
    by blast
  let ?info = "info\<lparr>PendingRewards := prs\<rparr>"
  from am fair_block_shares(2) [OF inv(1) assms(5)]
  have "amounts prs \<le> amounts (PendingRewards info) + unat fee" by linarith
  from amounts_exact [OF tot this] inv(3) assms(6) have owed': "owed ?info = owed info + unat fee"
    by (simp add: owed_def amounts_def pending_total_def staked_total_def)
  let ?acc = "UpdateBalance E acc (Balance E acc + fee)"
  let ?ctx = "SetAccount E ctx StakingContractAddress ?acc"
  have op: "DistributeFee E M ctx ro (Some fee) proposer voters = Inr (SaveStakingInfo E M ?ctx ?acc ?info, Some ?info)"
    by (simp add: DistributeFee_def assms(4) run Let_def)
  have sto: "storable_info ?info" using inv(2) len assms(7) by (simp add: storable_info_def)
  have load: "LoadStakingAcc E M (SaveStakingInfo E M ?ctx ?acc ?info) = Inr (?acc, ?info)"
    by (rule LoadStakingAcc_Save [OF assms(1,2) sto]) (simp_all add: evm_simps [OF assms(1)])
  have b: "unat (Balance E ?acc) = unat (Balance E acc) + unat fee"
    unfolding evm_account(2) [OF assms(1)] using assms(6) by (intro unat_add_no_overflow) simp
  have "staking_inv E M (SaveStakingInfo E M ?ctx ?acc ?info)"
    by (rule staking_invI [OF load wf sto]) (use owed' inv(3) b in simp)
  moreover have "\<forall>b. b \<noteq> StakingContractAddress \<longrightarrow>
      GetAccount E (SaveStakingInfo E M ?ctx ?acc ?info) b = GetAccount E ctx b"
    by (simp add: GetAccount_SaveStakingInfo evm_simps assms(1))
  moreover have "Validators ?info = Validators info" by simp
  ultimately show ?thesis using op load owed' b by blast
qed

text \<open>
  (C1) Distributing the fee of a block keeps the state of the contract in order and loses no coin:
  with distinct voters that are active validators and a known proposer, it does not panic, the
  contract's balance and what it owes both grow by exactly the fee, with no rounding loss and no
  wrap-around, no validator changes, no other account changes, and the information returned as
  the read-only copy is the stored one.
\<close>

theorem DistributeFee_conserves:
  assumes "evm_laws E" and "codec_laws M" and "staking_inv E M ctx"
    and "LoadStakingAcc E M ctx = Inr (acc, info)"
    and "fair_block info fee proposer voters"
    and "unat (Balance E acc) + unat fee < 2 ^ 256"
    and "length (PendingRewards info) + length voters + 1 < 2 ^ 32"
  shows "\<exists>ctx' acc' info'.
    DistributeFee E M ctx ro (Some fee) proposer voters = Inr (ctx', Some info') \<and>
    LoadStakingAcc E M ctx' = Inr (acc', info') \<and> staking_inv E M ctx' \<and>
    Validators info' = Validators info \<and> owed info' = owed info + unat fee \<and>
    unat (Balance E acc') = unat (Balance E acc) + unat fee \<and>
    (\<forall>b. b \<noteq> StakingContractAddress \<longrightarrow> GetAccount E ctx' b = GetAccount E ctx b)"
  by (rule DistributeFee_run [OF assms])

text \<open>
  (C23) The shares: with known voters and a known proposer, whatever the powers and the fee, each
  voter other than the proposer gets the shared fee times its power divided by the voted power,
  rounded down; the proposer gets all the rest of the fee; nobody else gets anything. In the
  arithmetic of 256-bit words the pending rewards grow by exactly the fee.
\<close>

theorem DistributeFee_shares:
  assumes "wf_info info" and "list_all (known info) voters" and "known info proposer" and "distinct voters"
  shows "\<exists>info'. distribute_rewards info fee proposer voters = Inr info' \<and>
    Validators info' = Validators info \<and>
    (\<forall>v \<in> set voters. v \<noteq> proposer \<longrightarrow>
       pending_of (PendingRewards info') (Address (val_of info v)) =
       pending_of (PendingRewards info) (Address (val_of info v)) +
       shared_fee info fee voters * ucast (VotingPower (val_of info v)) div ucast (voted_power info voters)) \<and>
    pending_of (PendingRewards info') (Address (val_of info proposer)) =
      pending_of (PendingRewards info) (Address (val_of info proposer)) +
      (fee - (\<Sum>v\<leftarrow>filter (\<lambda>v. v \<noteq> proposer) voters. final_share info fee voters v)) \<and>
    (\<forall>a. a \<notin> Address ` val_of info ` (insert proposer (set voters)) \<longrightarrow>
       pending_of (PendingRewards info') a = pending_of (PendingRewards info) a) \<and>
    (\<Sum>r\<leftarrow>PendingRewards info'. Amount r) = (\<Sum>r\<leftarrow>PendingRewards info. Amount r) + fee"
proof -
  let ?sh = "final_share info fee voters"
  let ?addr = "\<lambda>v. Address (val_of info v)"
  from distribute_rewards_spec [OF assms(1-3), of fee] obtain prs where
    run: "distribute_rewards info fee proposer voters = Inr (info\<lparr>PendingRewards := prs\<rparr>)"
    and pend: "\<And>b. pending_of prs b = pending_of (PendingRewards info) b +
       (\<Sum>v\<leftarrow>filter (\<lambda>v. v \<noteq> proposer \<and> ?addr v = b) voters. ?sh v) +
       (if ?addr proposer = b then fee - (\<Sum>v\<leftarrow>filter (\<lambda>v. v \<noteq> proposer) voters. ?sh v) else 0)"
    and tot: "(\<Sum>r\<leftarrow>prs. Amount r) = (\<Sum>r\<leftarrow>PendingRewards info. Amount r) + fee" by blast
  have "inj_on Address (set (Validators info))" using wf_infoD(1) [OF assms(1)] by (simp add: distinct_map)
  then have same: "?addr v = ?addr w \<longleftrightarrow> v = w" if "known info v" "known info w" for v w
    using that by (metis inj_onD val_of_in val_of_pubkey)
  have kv: "known info v" if "v \<in> set voters" for v using assms(2) that by (simp add: list_all_iff)
  have "filter (\<lambda>w. w \<noteq> proposer \<and> ?addr w = ?addr v) voters = [v]" if "v \<in> set voters" "v \<noteq> proposer" for v
  proof -
    have "filter (\<lambda>w. w \<noteq> proposer \<and> ?addr w = ?addr v) voters = filter (\<lambda>w. w = v) voters"
      by (rule filter_cong) (use that kv same in auto)
    also have "\<dots> = [v]" using assms(4) that(1) by (simp add: filter_the_one)
    finally show ?thesis .
  qed
  then have "pending_of prs (?addr v) = pending_of (PendingRewards info) (?addr v) + ?sh v"
    if "v \<in> set voters" "v \<noteq> proposer" for v
    using that same [OF assms(3) kv] by (auto simp: pend)
  moreover have "pending_of prs (?addr proposer) = pending_of (PendingRewards info) (?addr proposer) +
      (fee - (\<Sum>v\<leftarrow>filter (\<lambda>v. v \<noteq> proposer) voters. ?sh v))"
  proof -
    have "filter (\<lambda>v. v \<noteq> proposer \<and> ?addr v = ?addr proposer) voters = []"
      using kv same [OF _ assms(3)] by (auto simp: filter_empty_conv)
    then show ?thesis by (simp add: pend)
  qed
  moreover have "pending_of prs a = pending_of (PendingRewards info) a"
    if "a \<notin> Address ` val_of info ` (insert proposer (set voters))" for a
  proof -
    have "filter (\<lambda>v. v \<noteq> proposer \<and> ?addr v = a) voters = []" "?addr proposer \<noteq> a"
      using that by (auto simp: filter_empty_conv)
    then show ?thesis by (simp add: pend)
  qed
  ultimately show ?thesis
    using run tot by (intro exI [of _ "info\<lparr>PendingRewards := prs\<rparr>"])
      (simp add: final_share_def share_of_def voter_share_def)
qed

definition active_witness :: StakingInfo where
  "active_witness = \<lparr>CurrEpochNum = 5,
     Validators = [witness_validator 1 101 3 MinimumStakingAmount, witness_validator 2 102 7 MinimumStakingAmount],
     PendingRewards = [\<lparr>PR_Address = 1, EpochNum = 5, Amount = 40\<rparr>]\<rparr>"

definition active_funds :: u256 where
  "active_funds = 2000 * 1000000000000000000"

lemma active_witness_inv:
  "wf_info active_witness" "storable_info active_witness"
  "staking_inv mem_evm mp_codec (witness_world active_witness active_funds)"
proof -
  show "wf_info active_witness" and sto: "storable_info active_witness"
    by (simp_all add: wf_info_def storable_info_def active_witness_def witness_validator_def)
  then show "staking_inv mem_evm mp_codec (witness_world active_witness active_funds)"
    by (intro staking_invI [OF witness_world_load [OF sto]])
      (simp_all add: active_witness_def witness_validator_def active_funds_def owed_def staked_total_def
        pending_total_def mem_evm_def MinimumStakingAmount_def)
qed

lemma active_witness_active:
  "GetActiveValidators active_witness MinimumStakingAmount =
     [witness_validator 2 102 7 MinimumStakingAmount, witness_validator 1 101 3 MinimumStakingAmount]"
  by (simp add: GetActiveValidators_def active_witness_def witness_validator_def eligible_def
      MaxActiveValidatorNum_def word_sless_alt)

lemma active_witness_fair: "fair_block active_witness 1000 101 [101, 102]"
  by (simp add: fair_block_def active_witness_active known_def active_power_def)
    (simp add: active_witness_def witness_validator_def)

theorem DistributeFee_conserves_witness:
  "\<exists>ctx' info'. DistributeFee mem_evm mp_codec (witness_world active_witness active_funds) None
       (Some 1000) 101 [101, 102] = Inr (ctx', Some info') \<and>
     staking_inv mem_evm mp_codec ctx' \<and> owed info' = owed active_witness + 1000"
proof -
  let ?acc = "\<lparr>mem_balance = active_funds, mem_sequence = StakingContractSequence\<rparr>"
  have "unat (Balance mem_evm ?acc) + unat (1000 :: u256) < 2 ^ 256"
    "length (PendingRewards active_witness) + length [101 :: bytes32, 102] + 1 < 2 ^ 32"
    by (simp_all add: mem_evm_def active_funds_def active_witness_def)
  from DistributeFee_conserves [OF mem_evm_laws mp_codec_laws active_witness_inv(3)
      witness_world_load [OF active_witness_inv(2)] active_witness_fair this, of None]
  show ?thesis by auto
qed

theorem DistributeFee_shares_witness:
  "\<exists>info'. distribute_rewards active_witness 1000 101 [101, 102] = Inr info' \<and>
     (\<Sum>r\<leftarrow>PendingRewards info'. Amount r) = 1040"
proof -
  have "list_all (known active_witness) [101, 102]" "known active_witness 101" "distinct [101 :: bytes32, 102]"
    using fair_block_known [OF active_witness_inv(1) active_witness_fair] by simp_all
  from DistributeFee_shares [OF active_witness_inv(1) this, of 1000]
  show ?thesis by (auto simp: active_witness_def)
qed

lemma sum_voter_powers_unknown:
  assumes "v \<in> set voters" and "\<not> known info v"
  shows "sum_voter_powers info (GetValMapByPubkey info) voters = Inl NilDeref"
proof -
  have none: "GetValMapByPubkey info w = None" if "\<not> known info w" for w
    using that by (auto simp: known_def GetValMapByPubkey_def index_map_None)
  have "foldG (\<lambda>votedPower voter. case GetValMapByPubkey info voter of
        None \<Rightarrow> Inl NilDeref
      | Some i \<Rightarrow> Inr (votedPower + VotingPower (Validators info ! i))) s voters = Inl NilDeref" for s
    using assms(1) by (induction voters arbitrary: s) (auto simp: none [OF assms(2)] split: option.split)
  then show ?thesis by (simp add: sum_voter_powers_def)
qed

text \<open>
  \<^verbatim>\<open>DistributeFee\<close> relies on the caller to name validators of the staking information: when the
  fee is present and the state can be read, it dereferences nil exactly when a voter or the
  proposer is not the public key of a validator, and returns otherwise. Without a fee it does
  nothing.
\<close>

lemma DistributeFee_panics_iff:
  assumes "LoadStakingAcc E M ctx = Inr (acc, info)" and "wf_info info"
  shows "(DistributeFee E M ctx ro (Some fee) proposer voters = Inl NilDeref \<longleftrightarrow>
            (\<exists>v \<in> insert proposer (set voters). v \<notin> Pubkey ` set (Validators info))) \<and>
         (\<exists>r. DistributeFee E M ctx ro (Some fee) proposer voters \<in> {Inl NilDeref, Inr r}) \<and>
         DistributeFee E M ctx ro None proposer voters = Inr (ctx, ro)"
proof -
  have "distribute_rewards info fee proposer voters = Inl NilDeref"
    if v: "v \<in> insert proposer (set voters)" "\<not> known info v" for v
  proof (cases "list_all (known info) voters")
    case False
    then obtain w where "w \<in> set voters" "\<not> known info w" by (auto simp: list_all_iff)
    then show ?thesis by (simp add: distribute_rewards_def Let_def sum_voter_powers_unknown)
  next
    case True
    with v have "\<not> known info proposer" by (auto simp: list_all_iff)
    then have none: "GetValMapByPubkey info proposer = None"
      by (auto simp: known_def GetValMapByPubkey_def index_map_None)
    from distribute_loop [OF True indexes_GetCurrRewardMapByAddr]
    have "\<exists>prs t. foldG (distribute_to_voter info (GetValMapByPubkey info) (GetCurrRewardMapByAddr info) f p proposer)
        (PendingRewards info, f) voters = Inr (prs, t)" for f p by blast
    then show ?thesis
      by (simp add: distribute_rewards_def Let_def sum_voter_powers_eq [OF True] none split: prod.split)
        (metis bindG_simps(2) case_prod_conv)
  qed
  moreover have "\<exists>info'. distribute_rewards info fee proposer voters = Inr info'"
    if "\<forall>v \<in> insert proposer (set voters). known info v"
    using distribute_rewards_spec [OF assms(2), of voters proposer fee] that by (auto simp: list_all_iff)
  ultimately have cases: "(\<exists>v \<in> insert proposer (set voters). \<not> known info v) \<and>
      distribute_rewards info fee proposer voters = Inl NilDeref \<or>
      (\<forall>v \<in> insert proposer (set voters). known info v) \<and>
      (\<exists>info'. distribute_rewards info fee proposer voters = Inr info')" by blast
  then have "(DistributeFee E M ctx ro (Some fee) proposer voters = Inl NilDeref \<longleftrightarrow>
            (\<exists>v \<in> insert proposer (set voters). \<not> known info v))"
    by (auto simp: DistributeFee_def assms(1) Let_def)
  moreover from cases have "\<exists>r. DistributeFee E M ctx ro (Some fee) proposer voters \<in> {Inl NilDeref, Inr r}"
    by (auto simp: DistributeFee_def assms(1) Let_def)
  ultimately show ?thesis by (simp add: DistributeFee_def known_def)
qed

lemma DistributeFee_panics_iff_witness:
  "DistributeFee mem_evm mp_codec (witness_world active_witness active_funds) None (Some 1000) 0 [101] =
     Inl NilDeref"
proof -
  have "\<exists>v \<in> insert 0 (set [101]). v \<notin> Pubkey ` set (Validators active_witness)"
    by (simp add: active_witness_def witness_validator_def)
  with DistributeFee_panics_iff [OF witness_world_load [OF active_witness_inv(2)] active_witness_inv(1)]
  show ?thesis by blast
qed

section \<open>Properties of slashing\<close>

definition slashed_amount :: "StakingInfo \<Rightarrow> Validator \<Rightarrow> u256 \<Rightarrow> u256" where
  "slashed_amount info val amount = min (StakedCoins val) amount + pending_of (PendingRewards info) (Address val)"

lemma Slash_eq:
  assumes "LoadStakingAcc E M ctx = Inr (acc, info)" and "GetValidatorByPubkey info pubkey = Some i"
  shows "Slash E M ctx pubkey amount =
    (let s = slashed_amount info (Validators info ! i) amount
     in bindG (incrAllBurnt E (snd (TransferFromSenderAccToBlackHoleAcc E ctx StakingContractAddress s)) acc s)
          (\<lambda>ctx. Inr (ctx, Some s)))"
proof -
  have "min (StakedCoins v) amount = (if StakedCoins v < amount then StakedCoins v else amount)" for v
    by (simp add: min_def) (metis le_less linorder_not_less)
  then show ?thesis
    using assms by (simp add: Slash_def Let_def ClearRewardsOf_eq slashed_amount_def pending_of_def split: prod.split)
qed

lemma incrAllBurnt_load:
  assumes "evm_laws E" and "incrAllBurnt E ctx acc v = Inr ctx'"
  shows "GetAccount E ctx' a = GetAccount E ctx a" and "bal E ctx' a = bal E ctx a"
    and "GetStorageAt E ctx' t SlotStakingInfo = GetStorageAt E ctx t SlotStakingInfo"
  using assms by (auto simp: incrAllBurnt_def Let_def evm_simps split: if_splits option.splits)

text \<open>
  (C24) Slashing a validator burns its slashed stake and all its pending rewards: the coins leave
  the contract's account for the black hole account and the counter of burnt coins grows by the
  same amount. But the stored staking information is not changed: the validator keeps its stake and
  its rewards on record, so that a contract whose balance was exactly what it owes can no longer
  pay it after slashing a positive amount.
\<close>

theorem Slash_burns_but_keeps_info:
  assumes "evm_laws E" and "LoadStakingAcc E M ctx = Inr (acc, info)"
    and "GetValidatorByPubkey info pubkey = Some i" and "StakingContractAddress \<noteq> BlackHole E"
    and "GetStorageAt E ctx (Sequence E acc) SlotAllBurnt = Some (be_bytes 32 burnt)"
    and "slashed_amount info (Validators info ! i) amount = s" and "s \<le> Balance E acc"
  shows "\<exists>ctx' acc'. Slash E M ctx pubkey amount = Inr (ctx', Some s) \<and>
    bal E ctx' StakingContractAddress = bal E ctx StakingContractAddress - s \<and>
    bal E ctx' (BlackHole E) = bal E ctx (BlackHole E) + s \<and>
    GetStorageAt E ctx' (Sequence E acc) SlotAllBurnt = Some (be_bytes 32 (burnt + s)) \<and>
    LoadStakingAcc E M ctx' = Inr (acc', info) \<and>
    (0 < s \<and> owed info = unat (Balance E acc) \<longrightarrow> \<not> staking_inv E M ctx')"
proof -
  have acc: "GetAccount E ctx StakingContractAddress = Some acc" by (rule LoadStakingAcc_account [OF assms(2)])
  obtain ctx1 where tr: "TransferFromSenderAccToBlackHoleAcc E ctx StakingContractAddress s = (True, ctx1)"
    and a1: "GetAccount E ctx1 StakingContractAddress = Some (UpdateBalance E acc (Balance E acc - s))"
    and hole: "bal E ctx1 (BlackHole E) = bal E ctx (BlackHole E) + s"
    and st: "\<And>t k. GetStorageAt E ctx1 t k = GetStorageAt E ctx t k"
    using evm_burn [OF assms(1,4) acc assms(7)] by metis
  let ?acc = "UpdateBalance E acc (Balance E acc - s)"
  let ?ctx = "SetStorageAt E ctx1 (Sequence E acc) SlotAllBurnt (be_bytes 32 (burnt + s))"
  have inc: "incrAllBurnt E ctx1 acc s = Inr ?ctx"
    using assms(5) by (simp add: incrAllBurnt_def st Let_def)
  have op: "Slash E M ctx pubkey amount = Inr (?ctx, Some s)"
    by (simp add: Slash_eq [OF assms(2,3)] assms(6) tr inc Let_def)
  have load: "LoadStakingAcc E M ?ctx = Inr (?acc, info)"
    by (rule LoadStakingAcc_cong [OF assms(2)]) (simp_all add: evm_simps [OF assms(1)] a1 st)
  have "\<not> staking_inv E M ?ctx" if "0 < s" "owed info = unat (Balance E acc)"
  proof -
    have "unat (Balance E acc - s) = unat (Balance E acc) - unat s" using assms(7) by (rule unat_diff_le)
    moreover have "0 < unat s" "unat s \<le> unat (Balance E acc)"
      using that(1) assms(7) by (simp_all add: word_le_nat_alt word_less_nat_alt)
    ultimately have "\<not> owed info \<le> unat (Balance E acc - s)" using that(2) by simp
    then show ?thesis using load by (simp add: staking_inv_def evm_simps [OF assms(1)])
  qed
  then show ?thesis
    using op load hole a1 acc by (intro exI [of _ ?ctx] exI [of _ ?acc]) (simp add: evm_simps [OF assms(1)] bal_def)
qed

definition slash_world :: mem_world where
  "slash_world = (let ctx = witness_world active_witness active_funds
     in ctx\<lparr>mem_storage := (mem_storage ctx)((StakingContractSequence, SlotAllBurnt) \<mapsto> be_bytes 32 (0 :: u256))\<rparr>)"

theorem Slash_burns_but_keeps_info_witness:
  "\<exists>ctx' acc'. Slash mem_evm mp_codec slash_world 101 SlashedStakingAmount = Inr (ctx', Some (SlashedStakingAmount + 40)) \<and>
     LoadStakingAcc mem_evm mp_codec ctx' = Inr (acc', active_witness)"
proof -
  let ?acc = "\<lparr>mem_balance = active_funds, mem_sequence = StakingContractSequence\<rparr>"
  note load0 = witness_world_load [OF active_witness_inv(2), of active_funds]
  have load: "LoadStakingAcc mem_evm mp_codec slash_world = Inr (?acc, active_witness)"
    using LoadStakingAcc_account [OF load0]
    by (intro LoadStakingAcc_cong [OF load0]) (simp_all add: slash_world_def mem_evm_def Let_def)
  have val: "GetValidatorByPubkey active_witness 101 = Some 0"
    by (simp add: GetValidatorByPubkey_def active_witness_def witness_validator_def)
  have "StakingContractAddress \<noteq> BlackHole mem_evm"
    "GetStorageAt mem_evm slash_world (Sequence mem_evm ?acc) SlotAllBurnt = Some (be_bytes 32 (0 :: u256))"
    "slashed_amount active_witness (Validators active_witness ! 0) SlashedStakingAmount = SlashedStakingAmount + 40"
    "SlashedStakingAmount + 40 \<le> Balance mem_evm ?acc"
    by (simp_all add: mem_evm_def mem_hole_def StakingContractAddress_def slash_world_def Let_def
        slashed_amount_def active_witness_def witness_validator_def pending_of_def SlashedStakingAmount_def
        active_funds_def min_def word_le_nat_alt MinimumStakingAmount_def)
  from Slash_burns_but_keeps_info [OF mem_evm_laws load val this]
  show ?thesis by blast
qed

end
