(* ===== verification/Staking_Epoch.thy ===== *)
theory Staking_Epoch
  imports Staking_Rewards "HOL-Library.AList"
begin

text \<open>
  Switching to a new epoch (\<^verbatim>\<open>staking/staking.go\<close>: \<^verbatim>\<open>SwitchEpoch\<close>, \<^verbatim>\<open>endEpoch\<close>,
  \<^verbatim>\<open>updateVotingPower\<close> and \<^verbatim>\<open>clearUp\<close>). The code ranges over four Go maps, whose iteration order
  is not specified: a map is the list of its entries with distinct keys, and the order in which a
  loop visits them is a function on such lists, one field of the record \<open>orders\<close> for each loop.
  The loop of \<^verbatim>\<open>clearUp\<close> that deletes from the slice it ranges over is modelled on the backing
  array of the slice.
\<close>

section \<open>The order of iteration\<close>

record orders =
  ord_nominations :: "(bytes32 \<times> Nomination) list \<Rightarrow> (bytes32 \<times> Nomination) list"
  ord_rewards :: "(address \<times> u256) list \<Rightarrow> (address \<times> u256) list"
  ord_powers :: "(bytes32 \<times> int64) list \<Rightarrow> (bytes32 \<times> int64) list"
  ord_useless :: "address list \<Rightarrow> address list"

definition orders_ok :: "orders \<Rightarrow> bool" where
  "orders_ok q \<longleftrightarrow> (\<forall>xs. mset (ord_nominations q xs) = mset xs) \<and> (\<forall>xs. mset (ord_rewards q xs) = mset xs) \<and>
     (\<forall>xs. mset (ord_powers q xs) = mset xs) \<and> (\<forall>xs. mset (ord_useless q xs) = mset xs)"

section \<open>The end of the old epoch\<close>

definition immature :: "StakingInfo \<Rightarrow> PendingReward \<Rightarrow> bool" where
  "immature info pr \<longleftrightarrow> CurrEpochNum info - EpochCountBeforeRewardMature \<le>s EpochNum pr"

definition collect_reward ::
  "StakingInfo \<Rightarrow> (address \<rightharpoonup> nat) \<Rightarrow> PendingReward list \<times> (address \<times> u256) list \<Rightarrow> PendingReward \<Rightarrow>
   (PendingReward list \<times> (address \<times> u256) list) go" where
  "collect_reward info valMapByAddr = (\<lambda>(newPRList, rewardMap) pr.
     if immature info pr then Inr (newPRList @ [pr], rewardMap)
     else (case valMapByAddr (PR_Address pr) of
             None \<Rightarrow> Inl NilDeref
           | Some i \<Rightarrow>
               let to = RewardTo (Validators info ! i);
                   sofar = (case map_of rewardMap to of None \<Rightarrow> 0 | Some x \<Rightarrow> x)
               in Inr (newPRList, AList.update to (sofar + Amount pr) rewardMap)))"

definition endEpoch ::
  "('c, 'a) evm \<Rightarrow> 'e codec \<Rightarrow> orders \<Rightarrow> 'c \<Rightarrow> ('c \<times> 'a \<times> StakingInfo) go" where
  "endEpoch E M q ctx =
     bindG (LoadStakingAcc E M ctx) (\<lambda>(stakingAcc, info).
     let info = info\<lparr>CurrEpochNum := CurrEpochNum info + 1\<rparr> in
     bindG (foldG (collect_reward info (GetValMapByAddr info)) ([], []) (PendingRewards info))
       (\<lambda>(newPRList, rewardMap).
     let (ctx, stakingAccBalance) =
           foldl (\<lambda>(ctx, stakingAccBalance) (addr, rwd). (pay E ctx (addr, rwd), stakingAccBalance - rwd))
             (ctx, Balance E stakingAcc) (ord_rewards q rewardMap)
     in Inr (ctx, UpdateBalance E stakingAcc stakingAccBalance, info\<lparr>PendingRewards := newPRList\<rparr>)))"

section \<open>New voting powers\<close>

definition assign_power :: "(bytes32 \<rightharpoonup> nat) \<Rightarrow> Validator list \<Rightarrow> bytes32 \<times> int64 \<Rightarrow> Validator list" where
  "assign_power valMapByPubkey vals = (\<lambda>(pubkey, vp).
     case valMapByPubkey pubkey of
       None \<Rightarrow> vals
     | Some i \<Rightarrow>
         if IsRetiring (vals ! i) then vals
         else if MinimumStakingAmount \<le> StakedCoins (vals ! i) then vals[i := (vals ! i)\<lparr>VotingPower := vp\<rparr>]
         else vals)"

definition updateVotingPower :: "orders \<Rightarrow> StakingInfo \<Rightarrow> (bytes32 \<times> int64) list \<Rightarrow> StakingInfo" where
  "updateVotingPower q info pubkey2power =
     (let info = info\<lparr>Validators := map (\<lambda>val. val\<lparr>VotingPower := 0\<rparr>) (Validators info)\<rparr>;
          valMapByPubkey = GetValMapByPubkey info
      in info\<lparr>Validators := foldl (assign_power valMapByPubkey) (Validators info) (ord_powers q pubkey2power)\<rparr>)"

section \<open>Clearing up\<close>

text \<open>
  One step of the loop \<^verbatim>\<open>for i, v := range info.Validators\<close>: \<open>a\<close> is the array behind the slice the
  loop ranges over, which the deletions write to, and \<open>m\<close> the length of \<^verbatim>\<open>info.Validators\<close>. The
  expression \<^verbatim>\<open>info.Validators[i+1:]\<close> panics when \<open>i + 1\<close> is beyond that length.
\<close>

definition delete_step :: "address list \<Rightarrow> Validator list \<times> nat \<Rightarrow> nat \<Rightarrow> (Validator list \<times> nat) go" where
  "delete_step uselessValMap = (\<lambda>(a, m) i.
     if Address (a ! i) \<in> set uselessValMap then
       if i + 1 \<le> m then Inr (take i a @ take (m - (i + 1)) (drop (i + 1) a) @ drop (m - 1) a, m - 1)
       else Inl OutOfBounds
     else Inr (a, m))"

definition delete_useless :: "address list \<Rightarrow> Validator list \<Rightarrow> Validator list go" where
  "delete_useless uselessValMap vals =
     bindG (foldG (delete_step uselessValMap) (vals, length vals) [0..<length vals]) (\<lambda>(a, m). Inr (take m a))"

definition repay_useless ::
  "('c, 'a) evm \<Rightarrow> StakingInfo \<Rightarrow> (address \<rightharpoonup> nat) \<Rightarrow> 'c \<times> u256 \<Rightarrow> address \<Rightarrow> ('c \<times> u256) go" where
  "repay_useless E info valMapByAddr = (\<lambda>(ctx, stakingAccBalance) addr.
     case valMapByAddr addr of
       None \<Rightarrow> Inl NilDeref
     | Some i \<Rightarrow>
         let val = Validators info ! i; coins = StakedCoins val
         in Inr (pay E ctx (RewardTo val, coins), stakingAccBalance - coins))"

definition clearUp ::
  "('c, 'a) evm \<Rightarrow> orders \<Rightarrow> 'c \<Rightarrow> 'a \<Rightarrow> StakingInfo \<Rightarrow> ('c \<times> 'a \<times> StakingInfo) go" where
  "clearUp E q ctx stakingAcc info =
     (let uselessValMap = GetUselessValidators info;
          valMapByAddr = GetValMapByAddr info
      in
      bindG (foldG (repay_useless E info valMapByAddr) (ctx, Balance E stakingAcc) (ord_useless q uselessValMap))
        (\<lambda>(ctx, stakingAccBalance).
      bindG (delete_useless uselessValMap (Validators info)) (\<lambda>vals.
      let stakingAcc = UpdateBalance E stakingAcc stakingAccBalance
      in Inr (SetAccount E ctx StakingContractAddress stakingAcc, stakingAcc, info\<lparr>Validators := vals\<rparr>))))"

definition SwitchEpoch ::
  "('c, 'a) evm \<Rightarrow> 'e codec \<Rightarrow> orders \<Rightarrow> 'c \<Rightarrow> Epoch \<Rightarrow> ('c \<times> Validator list) go" where
  "SwitchEpoch E M q ctx epoch =
     (let pubkey2power = foldl (\<lambda>m (_, v). AList.update (Nom_Pubkey v) (NominatedCount v) m) []
            (ord_nominations q (ValMapByPubkey epoch))
      in
      bindG (endEpoch E M q ctx) (\<lambda>(ctx, stakingAcc, info).
      let info = updateVotingPower q info pubkey2power in
      bindG (clearUp E q ctx stakingAcc info) (\<lambda>(ctx, stakingAcc, info).
      let activeValidators = GetActiveValidators info MinimumStakingAmount;
          info = info\<lparr>PendingRewards := PendingRewards info @
            map (\<lambda>val. \<lparr>PR_Address = Address val, EpochNum = CurrEpochNum info, Amount = 0\<rparr>) activeValidators\<rparr>
      in Inr (SaveStakingInfo E M ctx stakingAcc info, activeValidators))))"

section \<open>The deletion loop\<close>

lemma upt_split: "i < n \<Longrightarrow> [0..<n] = [0..<i] @ i # [Suc i..<n]"
  using upt_add_eq_append [of 0 i "n - i"] by (simp add: upt_conv_Cons)

lemma delete_steps_idle:
  assumes "\<And>i. i \<in> set is \<Longrightarrow> Address (a ! i) \<notin> set U"
  shows "foldG (delete_step U) (a, m) is = Inr (a, m)"
  using assms by (induction "is") (auto simp: delete_step_def)

lemma delete_step_take:
  assumes "delete_step U (a, m) i = Inr (a', m')" and "m \<le> length a"
  shows "length a' = length a" and "m' \<le> m"
    and "subseq (take m' a') (take m a)"
    and "filter (\<lambda>v. Address v \<notin> set U) (take m' a') = filter (\<lambda>v. Address v \<notin> set U) (take m a)"
    and "length a - 1 < length a \<Longrightarrow> a' ! (length a - 1) = a ! (length a - 1)"
    and "m' = m \<Longrightarrow> a' = a \<and> Address (a ! i) \<notin> set U"
proof -
  have "length a' = length a \<and> m' \<le> m \<and> subseq (take m' a') (take m a) \<and>
    filter (\<lambda>v. Address v \<notin> set U) (take m' a') = filter (\<lambda>v. Address v \<notin> set U) (take m a) \<and>
    (length a - 1 < length a \<longrightarrow> a' ! (length a - 1) = a ! (length a - 1)) \<and>
    (m' = m \<longrightarrow> a' = a \<and> Address (a ! i) \<notin> set U)"
  proof (cases "Address (a ! i) \<in> set U")
    case False
    with assms(1) show ?thesis by (simp add: delete_step_def)
  next
    case True
    with assms(1) have im: "i + 1 \<le> m" and m': "m' = m - 1"
      and a': "a' = take i a @ take (m - (i + 1)) (drop (i + 1) a) @ drop (m - 1) a"
      by (auto simp: delete_step_def split: if_splits)
    have split: "take m a = take i a @ a ! i # take (m - (i + 1)) (drop (i + 1) a)"
    proof -
      have "take m a = take i a @ take (m - i) (drop i a)"
        using im by (metis add_leD1 le_add_diff_inverse take_add)
      also have "drop i a = a ! i # drop (i + 1) a"
        using im assms(2) by (simp add: Cons_nth_drop_Suc)
      finally show ?thesis using im by (simp add: take_Cons' Suc_diff_Suc)
    qed
    have tk: "take m' a' = take i a @ take (m - (i + 1)) (drop (i + 1) a)"
      using im assms(2) by (simp add: a' m')
    have len: "length a' = length a" using im assms(2) by (simp add: a')
    have "a' ! (length a - 1) = a ! (length a - 1)"
      using im assms(2) by (simp add: a' nth_append)
    moreover have "subseq (take m' a') (take m a)"
      unfolding tk split by (intro list_emb_append_mono subseq_order.order_refl) (rule subseq_Cons', rule subseq_order.order_refl)
    moreover have "filter (\<lambda>v. Address v \<notin> set U) (take m' a') = filter (\<lambda>v. Address v \<notin> set U) (take m a)"
      unfolding tk split using True by simp
    moreover have "m' < m" using im m' by simp
    ultimately show ?thesis using len by simp
  qed
  then show "length a' = length a" and "m' \<le> m"
    and "subseq (take m' a') (take m a)"
    and "filter (\<lambda>v. Address v \<notin> set U) (take m' a') = filter (\<lambda>v. Address v \<notin> set U) (take m a)"
    and "length a - 1 < length a \<Longrightarrow> a' ! (length a - 1) = a ! (length a - 1)"
    and "m' = m \<Longrightarrow> a' = a \<and> Address (a ! i) \<notin> set U" by blast+
qed

lemma delete_useless_keeps:
  assumes "delete_useless U vals = Inr vals'"
  shows "subseq vals' vals"
    and "filter (\<lambda>v. Address v \<notin> set U) vals' = filter (\<lambda>v. Address v \<notin> set U) vals"
proof -
  let ?I = "\<lambda>(a, m). length a = length vals \<and> m \<le> length vals \<and> subseq (take m a) vals \<and>
    filter (\<lambda>v. Address v \<notin> set U) (take m a) = filter (\<lambda>v. Address v \<notin> set U) vals"
  from assms obtain a m where run: "foldG (delete_step U) (vals, length vals) [0..<length vals] = Inr (a, m)"
    and vals': "vals' = take m a" by (auto simp: delete_useless_def)
  have "?I (a, m)"
  proof (rule foldG_invariant [OF run, where I = ?I])
    fix s i s'
    assume "?I s" and "delete_step U s i = Inr s'"
    moreover obtain a m a' m' where "s = (a, m)" "s' = (a', m')" by (cases s, cases s')
    ultimately show "?I s'"
      using delete_step_take(1-4) [of U a m i a' m'] by (auto dest: subseq_order.order_trans)
  qed simp
  then show "subseq vals' vals"
    and "filter (\<lambda>v. Address v \<notin> set U) vals' = filter (\<lambda>v. Address v \<notin> set U) vals"
    by (simp_all add: vals')
qed

lemma delete_useless_one:
  assumes "distinct (map Address vals)" and "length U \<le> 1"
  shows "delete_useless U vals = Inr (filter (\<lambda>v. Address v \<notin> set U) vals)"
proof (cases "\<exists>v \<in> set vals. Address v \<in> set U")
  case False
  then have "foldG (delete_step U) (vals, length vals) [0..<length vals] = Inr (vals, length vals)"
    by (intro delete_steps_idle) auto
  moreover have "filter (\<lambda>v. Address v \<notin> set U) vals = vals" using False by (auto simp: filter_id_conv)
  ultimately show ?thesis by (simp add: delete_useless_def)
next
  case True
  then obtain v where v: "v \<in> set vals" "Address v \<in> set U" by blast
  with assms(2) have U: "set U = {Address v}" by (cases U) auto
  from v(1) obtain xs ys where vals: "vals = xs @ v # ys" by (meson split_list)
  have "Address v \<notin> Address ` (set xs \<union> set ys)" using assms(1) by (simp add: vals image_Un)
  then have other: "Address w \<noteq> Address v" if "w \<in> set xs \<union> set ys" for w
    using that by (metis imageI)
  let ?a = "xs @ ys @ [last (v # ys)]"
  have "foldG (delete_step U) (vals, length vals) [0..<length xs] = Inr (vals, length vals)"
    by (rule delete_steps_idle) (use other in \<open>auto simp: U vals nth_append\<close>)
  moreover have "delete_step U (vals, length vals) (length xs) = Inr (?a, length vals - 1)"
    using v(2) by (cases ys rule: rev_cases) (simp_all add: delete_step_def vals)
  moreover have "foldG (delete_step U) (?a, length vals - 1) [Suc (length xs)..<length vals] =
      Inr (?a, length vals - 1)"
  proof (rule delete_steps_idle)
    fix i
    assume "i \<in> set [Suc (length xs)..<length vals]"
    then have "?a ! i \<in> set ys" by (cases ys rule: rev_cases) (auto simp: vals nth_append)
    with other show "Address (?a ! i) \<notin> set U" by (auto simp: U)
  qed
  moreover have "[0..<length vals] = [0..<length xs] @ length xs # [Suc (length xs)..<length vals]"
    by (rule upt_split) (simp add: vals)
  ultimately have "delete_useless U vals = Inr (take (length vals - 1) ?a)"
    by (simp add: delete_useless_def foldG_append)
  moreover have "filter (\<lambda>w. Address w \<notin> set U) vals = xs @ ys"
    using other by (auto simp: vals U filter_id_conv)
  ultimately show ?thesis by (simp add: vals)
qed

lemma delete_steps_progress:
  assumes "k \<le> length vals - 1"
  shows "foldG (delete_step U) (vals, length vals) [0..<k] = Inl OutOfBounds \<or>
    (\<exists>a m. foldG (delete_step U) (vals, length vals) [0..<k] = Inr (a, m) \<and> length a = length vals \<and>
       m \<le> length vals \<and> a ! (length vals - 1) = vals ! (length vals - 1) \<and>
       (m = length vals \<longrightarrow> a = vals \<and> (\<forall>i < k. Address (vals ! i) \<notin> set U)))"
  using assms
proof (induction k)
  case 0
  then show ?case by simp
next
  case (Suc k)
  from Suc consider "foldG (delete_step U) (vals, length vals) [0..<k] = Inl OutOfBounds"
    | a m where "foldG (delete_step U) (vals, length vals) [0..<k] = Inr (a, m)" "length a = length vals"
       "m \<le> length vals" "a ! (length vals - 1) = vals ! (length vals - 1)"
       "m = length vals \<Longrightarrow> a = vals \<and> (\<forall>i < k. Address (vals ! i) \<notin> set U)" by auto
  then show ?case
  proof cases
    case 1
    then show ?thesis by (simp add: foldG_append)
  next
    case (2 a m)
    show ?thesis
    proof (cases "delete_step U (a, m) k")
      case (Inl e)
      then have "e = OutOfBounds" by (auto simp: delete_step_def split: if_splits)
      with Inl 2 show ?thesis by (simp add: foldG_append)
    next
      case (Inr s)
      obtain a' m' where s: "s = (a', m')" by fastforce
      have "length vals - 1 < length a" using Suc.prems 2(2) by linarith
      then have lt: "length a - 1 < length a" by linarith
      note st = delete_step_take [OF Inr [unfolded s]]
      have le: "m \<le> length a" using 2(2,3) by simp
      have full: "a' = vals \<and> (\<forall>i < Suc k. Address (vals ! i) \<notin> set U)" if "m' = length vals"
        using st(2,6) [OF le] 2(3,5) that by (auto simp: less_Suc_eq)
      from Inr s 2 st(1,2) [OF le] st(5) [OF le lt] full show ?thesis
        by (simp add: foldG_append)
    qed
  qed
qed

lemma delete_useless_panics:
  assumes "i < length vals - 1" and "Address (vals ! i) \<in> set U"
    and "Address (vals ! (length vals - 1)) \<in> set U"
  shows "delete_useless U vals = Inl OutOfBounds"
proof -
  let ?k = "length vals - 1"
  have split: "[0..<length vals] = [0..<?k] @ [?k]" using assms(1) by (cases "length vals") simp_all
  from delete_steps_progress [OF order_refl, where vals = vals and U = U] show ?thesis
    using assms by (auto simp: delete_useless_def split foldG_append delete_step_def)
qed

lemma delete_useless_adjacent:
  assumes "Address u1 \<in> set U" and "rest \<noteq> []"
    and "\<And>v. v \<in> set rest \<Longrightarrow> Address v \<notin> set U"
  shows "delete_useless U (u1 # u2 # rest) = Inr (u2 # rest)"
proof -
  let ?vals = "u1 # u2 # rest" and ?a = "u2 # rest @ [last rest]"
  have "delete_step U (?vals, length ?vals) 0 = Inr (?a, length ?vals - 1)"
    using assms(1,2) by (cases rest rule: rev_cases) (simp_all add: delete_step_def)
  moreover have "foldG (delete_step U) (?a, length ?vals - 1) [1..<length ?vals] = Inr (?a, length ?vals - 1)"
  proof (rule delete_steps_idle)
    fix i
    assume "i \<in> set [1..<length ?vals]"
    then have "?a ! i \<in> set rest" using assms(2) by (auto simp: nth_append nth_Cons')
    with assms(3) show "Address (?a ! i) \<notin> set U" by blast
  qed
  moreover have "[0..<length ?vals] = 0 # [1..<length ?vals]" by (simp add: upt_conv_Cons del: upt_Suc)
  ultimately show ?thesis by (simp add: delete_useless_def del: upt_Suc)
qed

section \<open>Collecting the mature rewards\<close>

definition credit_of :: "(address \<times> u256) list \<Rightarrow> address \<Rightarrow> u256" where
  "credit_of rm b = (\<Sum>p\<leftarrow>filter (\<lambda>p. fst p = b) rm. snd p)"

definition add_credit :: "(address \<times> u256) list \<Rightarrow> address \<Rightarrow> u256 \<Rightarrow> (address \<times> u256) list" where
  "add_credit rm a v = AList.update a ((case map_of rm a of None \<Rightarrow> 0 | Some x \<Rightarrow> x) + v) rm"

lemma add_credit_of:
  assumes "distinct (map fst rm)"
  shows "credit_of (add_credit rm a v) b = credit_of rm b + (if a = b then v else 0)"
  using assms
proof (induction rm)
  case Nil
  then show ?case by (simp add: credit_of_def add_credit_def)
next
  case (Cons p rm)
  show ?case
  proof (cases "fst p = a")
    case True
    then show ?thesis by (auto simp: credit_of_def add_credit_def split: prod.splits)
  next
    case False
    then have "add_credit (p # rm) a v = p # add_credit rm a v"
      by (cases p) (simp add: add_credit_def)
    with Cons show ?thesis by (cases "a = b") (simp_all add: credit_of_def)
  qed
qed

lemma add_credit_total:
  "distinct (map fst rm) \<Longrightarrow> (\<Sum>p\<leftarrow>add_credit rm a v. snd p) = (\<Sum>p\<leftarrow>rm. snd p) + v"
proof (induction rm)
  case (Cons p rm)
  then show ?case
    by (cases p; cases "fst p = a") (simp_all add: add_credit_def algebra_simps)
qed (simp add: add_credit_def)

lemma add_credit_keys:
  "distinct (map fst rm) \<Longrightarrow> distinct (map fst (add_credit rm a v))"
  "fst ` set (add_credit rm a v) = insert a (fst ` set rm)"
  by (simp_all add: add_credit_def distinct_update dom_update)

definition reward_to :: "StakingInfo \<Rightarrow> address \<Rightarrow> address" where
  "reward_to info a = RewardTo (Validators info ! the (GetValMapByAddr info a))"

lemma collect_rewards:
  assumes "\<forall>pr \<in> set prs. PR_Address pr \<in> Address ` set (Validators info)" and "distinct (map fst rm)"
  shows "\<exists>rm'. foldG (collect_reward info (GetValMapByAddr info)) (l, rm) prs =
      Inr (l @ filter (immature info) prs, rm') \<and> distinct (map fst rm') \<and>
    (\<forall>b. credit_of rm' b = credit_of rm b + (\<Sum>pr\<leftarrow>filter (\<lambda>pr. \<not> immature info pr \<and>
        reward_to info (PR_Address pr) = b) prs. Amount pr)) \<and>
    (\<Sum>p\<leftarrow>rm'. snd p) = (\<Sum>p\<leftarrow>rm. snd p) + (\<Sum>pr\<leftarrow>filter (\<lambda>pr. \<not> immature info pr) prs. Amount pr) \<and>
    fst ` set rm' \<subseteq> fst ` set rm \<union> RewardTo ` set (Validators info)"
  using assms
proof (induction prs arbitrary: l rm)
  case Nil
  then show ?case by simp
next
  case (Cons pr prs)
  from Cons.prems(1) have rest: "\<forall>pr \<in> set prs. PR_Address pr \<in> Address ` set (Validators info)" by simp
  show ?case
  proof (cases "immature info pr")
    case True
    with Cons.IH [OF rest Cons.prems(2), of "l @ [pr]"] show ?thesis by (simp add: collect_reward_def)
  next
    case False
    from Cons.prems(1) have "GetValMapByAddr info (PR_Address pr) \<noteq> None"
      by (auto simp: GetValMapByAddr_None)
    then obtain i where i: "GetValMapByAddr info (PR_Address pr) = Some i" by auto
    then have "i < length (Validators info)"
      using index_map_SomeD [of "\<lambda>_. True" Address "Validators info"] by (simp add: GetValMapByAddr_def)
    with i have r: "reward_to info (PR_Address pr) \<in> RewardTo ` set (Validators info)"
      by (simp add: reward_to_def)
    let ?rm = "add_credit rm (reward_to info (PR_Address pr)) (Amount pr)"
    have step: "collect_reward info (GetValMapByAddr info) (l, rm) pr = Inr (l, ?rm)"
      using False i by (simp add: collect_reward_def add_credit_def reward_to_def Let_def)
    note dk = add_credit_keys(1) [OF Cons.prems(2), of "reward_to info (PR_Address pr)" "Amount pr"]
    have keys: "fst ` set ?rm \<union> RewardTo ` set (Validators info) = fst ` set rm \<union> RewardTo ` set (Validators info)"
      using r by (simp add: add_credit_keys(2) insert_absorb)
    from Cons.IH [OF rest dk, of l] obtain rm' where
      "foldG (collect_reward info (GetValMapByAddr info)) (l, ?rm) prs = Inr (l @ filter (immature info) prs, rm')"
      "distinct (map fst rm')"
      "\<forall>b. credit_of rm' b = credit_of ?rm b + (\<Sum>pr\<leftarrow>filter (\<lambda>pr. \<not> immature info pr \<and>
        reward_to info (PR_Address pr) = b) prs. Amount pr)"
      "(\<Sum>p\<leftarrow>rm'. snd p) = (\<Sum>p\<leftarrow>?rm. snd p) + (\<Sum>pr\<leftarrow>filter (\<lambda>pr. \<not> immature info pr) prs. Amount pr)"
      "fst ` set rm' \<subseteq> fst ` set rm \<union> RewardTo ` set (Validators info)"
      unfolding keys by blast
    with False step show ?thesis
      by (intro exI [of _ rm'])
        (simp add: add_credit_of [OF Cons.prems(2)] add_credit_total [OF Cons.prems(2)] add.assoc)
  qed
qed

lemma perm_sum_list:
  fixes f :: "'a \<Rightarrow> 'b::comm_monoid_add"
  assumes "mset xs = mset ys"
  shows "(\<Sum>x\<leftarrow>xs. f x) = (\<Sum>x\<leftarrow>ys. f x)"
  by (metis assms mset_map sum_mset_sum_list)

lemma credit_of_perm: "mset xs = mset ys \<Longrightarrow> credit_of xs b = credit_of ys b"
  unfolding credit_of_def by (rule perm_sum_list) simp

lemma pay_loop:
  "foldl (\<lambda>(ctx, b) (addr, rwd). (pay E ctx (addr, rwd), b - rwd)) (ctx, b) ps =
     (foldl (pay E) ctx ps, b - (\<Sum>p\<leftarrow>ps. snd p))"
  by (induction ps arbitrary: ctx b) (auto simp: diff_diff_eq)

definition next_epoch :: "StakingInfo \<Rightarrow> StakingInfo" where
  "next_epoch info = info\<lparr>CurrEpochNum := CurrEpochNum info + 1\<rparr>"

definition mature :: "StakingInfo \<Rightarrow> PendingReward list" where
  "mature info = filter (\<lambda>pr. \<not> immature (next_epoch info) pr) (PendingRewards info)"

lemma next_epoch_simps [simp]:
  "Validators (next_epoch info) = Validators info" "PendingRewards (next_epoch info) = PendingRewards info"
  "GetValMapByAddr (next_epoch info) = GetValMapByAddr info" "reward_to (next_epoch info) = reward_to info"
  by (simp_all add: next_epoch_def GetValMapByAddr_def reward_to_def fun_eq_iff)

lemma endEpoch_eq:
  assumes "orders_ok q" and "LoadStakingAcc E M ctx = Inr (acc, info)" and "wf_info info"
  shows "\<exists>ps. endEpoch E M q ctx = Inr (foldl (pay E) ctx ps,
      UpdateBalance E acc (Balance E acc - (\<Sum>pr\<leftarrow>mature info. Amount pr)),
      (next_epoch info)\<lparr>PendingRewards := filter (immature (next_epoch info)) (PendingRewards info)\<rparr>) \<and>
    (\<forall>b. credit_of ps b = (\<Sum>pr\<leftarrow>filter (\<lambda>pr. reward_to info (PR_Address pr) = b) (mature info). Amount pr)) \<and>
    (\<Sum>p\<leftarrow>ps. snd p) = (\<Sum>pr\<leftarrow>mature info. Amount pr) \<and>
    fst ` set ps \<subseteq> RewardTo ` set (Validators info)"
proof -
  let ?info = "next_epoch info"
  from assms(3) have "\<forall>pr \<in> set (PendingRewards info). PR_Address pr \<in> Address ` set (Validators ?info)"
    by (auto simp: wf_info_def)
  from collect_rewards [OF this, of "[]" "[]"] obtain rm where
    run: "foldG (collect_reward ?info (GetValMapByAddr ?info)) ([], []) (PendingRewards info) =
      Inr (filter (immature ?info) (PendingRewards info), rm)"
    and cr: "\<forall>b. credit_of rm b = (\<Sum>pr\<leftarrow>filter (\<lambda>pr. \<not> immature ?info pr \<and>
        reward_to info (PR_Address pr) = b) (PendingRewards info). Amount pr)"
    and tot: "(\<Sum>p\<leftarrow>rm. snd p) = (\<Sum>pr\<leftarrow>mature info. Amount pr)"
    and sub: "fst ` set rm \<subseteq> RewardTo ` set (Validators info)"
    by (auto simp: credit_of_def mature_def)
  let ?ps = "ord_rewards q rm"
  from assms(1) have perm: "mset ?ps = mset rm" by (simp add: orders_ok_def)
  note sum = perm_sum_list [OF perm, of snd, unfolded tot]
  have op: "endEpoch E M q ctx = Inr (foldl (pay E) ctx ?ps,
      UpdateBalance E acc (Balance E acc - (\<Sum>pr\<leftarrow>mature info. Amount pr)),
      ?info\<lparr>PendingRewards := filter (immature ?info) (PendingRewards info)\<rparr>)"
    using run by (simp add: endEpoch_def assms(2) Let_def next_epoch_def [symmetric] pay_loop sum)
  have crs: "\<forall>b. credit_of ?ps b = (\<Sum>pr\<leftarrow>filter (\<lambda>pr. reward_to info (PR_Address pr) = b) (mature info). Amount pr)"
    using cr by (simp add: credit_of_perm [OF perm] mature_def conj_commute)
  have "fst ` set ?ps \<subseteq> RewardTo ` set (Validators info)" using sub mset_eq_setD [OF perm] by simp
  with op crs sum show ?thesis by blast
qed

section \<open>The new powers\<close>

definition power_val :: "(bytes32 \<rightharpoonup> int64) \<Rightarrow> Validator \<Rightarrow> Validator" where
  "power_val noms v = v\<lparr>VotingPower :=
     (if \<not> IsRetiring v \<and> MinimumStakingAmount \<le> StakedCoins v
      then (case noms (Pubkey v) of None \<Rightarrow> 0 | Some p \<Rightarrow> p) else 0)\<rparr>"

lemma power_val_simps [simp]:
  "Address (power_val m v) = Address v" "Pubkey (power_val m v) = Pubkey v"
  "RewardTo (power_val m v) = RewardTo v" "StakedCoins (power_val m v) = StakedCoins v"
  "IsRetiring (power_val m v) = IsRetiring v" "Introduction (power_val m v) = Introduction v"
  by (simp_all add: power_val_def)

lemma assign_power_loop:
  assumes "\<And>k i. vm k = Some i \<longleftrightarrow> i < length vals \<and> Pubkey (vals ! i) = k"
    and "distinct (map fst es)"
  shows "foldl (assign_power vm) (map (power_val Map.empty) vals) es = map (power_val (map_of es)) vals"
  using assms(2)
proof (induction es rule: rev_induct)
  case Nil
  then show ?case by simp
next
  case (snoc e es)
  obtain k p where e: "e = (k, p)" by fastforce
  let ?L = "map (power_val (map_of es)) vals"
  from snoc.prems have new: "map_of es k = None" by (simp add: e map_of_eq_None_iff)
  have L: "foldl (assign_power vm) (map (power_val Map.empty) vals) es = ?L" using snoc by simp
  have same: "power_val (map_of (es @ [e])) v = power_val (map_of es) v" if "Pubkey v \<noteq> k" for v
    using that by (simp add: e power_val_def map_add_def split: option.splits)
  show ?case
  proof (cases "vm k")
    case None
    with assms(1) [of k] have "Pubkey v \<noteq> k" if "v \<in> set vals" for v
      using that by (metis in_set_conv_nth option.distinct(1))
    then have "map (power_val (map_of (es @ [e]))) vals = ?L" using same by simp
    moreover have "assign_power vm ?L (k, p) = ?L" by (simp add: assign_power_def None)
    ultimately show ?thesis using L by (simp add: e)
  next
    case (Some i)
    with assms(1) have i: "i < length vals" "Pubkey (vals ! i) = k" by blast+
    have other: "Pubkey (vals ! j) \<noteq> k" if "j < length vals" "j \<noteq> i" for j
      using that Some assms(1) [of k j] by auto
    have "assign_power vm ?L (k, p) = map (power_val (map_of (es @ [e]))) vals"
    proof (rule nth_equalityI)
      fix j
      assume j: "j < length (assign_power vm ?L (k, p))"
      then have jl: "j < length vals" by (simp add: assign_power_def Some split: if_splits)
      show "assign_power vm ?L (k, p) ! j = map (power_val (map_of (es @ [e]))) vals ! j"
      proof (cases "j = i")
        case True
        with i new show ?thesis by (auto simp: assign_power_def Some e power_val_def map_add_def)
      next
        case False
        with other [OF jl False] same jl show ?thesis by (auto simp: assign_power_def Some)
      qed
    qed (simp add: assign_power_def Some)
    then show ?thesis using L by (simp add: e)
  qed
qed

lemma updateVotingPower_eq:
  assumes "orders_ok q" and "distinct (map Pubkey (Validators info))" and "distinct (map fst p2p)"
  shows "updateVotingPower q info p2p = info\<lparr>Validators := map (power_val (map_of p2p)) (Validators info)\<rparr>"
proof -
  let ?es = "ord_powers q p2p"
  from assms(1) have perm: "mset ?es = mset p2p" by (simp add: orders_ok_def)
  then have d: "distinct (map fst ?es)" using assms(3) by (metis mset_eq_imp_distinct_iff mset_map)
  have m: "map_of ?es = map_of p2p"
    by (rule map_of_inject_set [OF d assms(3), THEN iffD2]) (rule mset_eq_setD [OF perm])
  have zero: "map (\<lambda>val. val\<lparr>VotingPower := 0\<rparr>) (Validators info) = map (power_val Map.empty) (Validators info)"
    by (simp add: power_val_def)
  have vm: "GetValMapByPubkey (info\<lparr>Validators := map (power_val Map.empty) (Validators info)\<rparr>) k = Some i \<longleftrightarrow>
      i < length (Validators info) \<and> Pubkey (Validators info ! i) = k" for k i
    using index_map_distinct [of Pubkey "map (power_val Map.empty) (Validators info)" "\<lambda>_. True" k i] assms(2)
    by (auto simp: GetValMapByPubkey_def comp_def)
  show ?thesis
    unfolding updateVotingPower_def Let_def zero
    using assign_power_loop [OF vm d] by (simp add: m)
qed

definition epoch_ok :: "Epoch \<Rightarrow> bool" where
  "epoch_ok epoch \<longleftrightarrow> distinct (map fst (ValMapByPubkey epoch)) \<and>
     (\<forall>(k, v) \<in> set (ValMapByPubkey epoch). Nom_Pubkey v = k)"

definition nominated :: "Epoch \<Rightarrow> bytes32 \<rightharpoonup> int64" where
  "nominated epoch k = map_option NominatedCount (map_of (ValMapByPubkey epoch) k)"

abbreviation collect_powers :: "(bytes32 \<times> Nomination) list \<Rightarrow> (bytes32 \<times> int64) list" where
  "collect_powers es \<equiv> foldl (\<lambda>m (_, v). AList.update (Nom_Pubkey v) (NominatedCount v) m) [] es"

lemma collect_powers_distinct: "distinct (map fst (collect_powers es))"
proof -
  have "distinct (map fst m) \<Longrightarrow>
      distinct (map fst (foldl (\<lambda>m (_, v). AList.update (Nom_Pubkey v) (NominatedCount v) m) m es))" for m
    by (induction es arbitrary: m) (auto simp: distinct_update)
  then show ?thesis by simp
qed

lemma collect_powers_map:
  assumes "orders_ok q" and "epoch_ok epoch"
  shows "map_of (collect_powers (ord_nominations q (ValMapByPubkey epoch))) = nominated epoch"
proof -
  let ?es = "ord_nominations q (ValMapByPubkey epoch)"
  from assms(1) have perm: "mset ?es = mset (ValMapByPubkey epoch)" by (simp add: orders_ok_def)
  then have d: "distinct (map fst ?es)"
    using assms(2) by (metis epoch_ok_def mset_eq_imp_distinct_iff mset_map)
  have m: "map_of ?es = map_of (ValMapByPubkey epoch)"
    using map_of_inject_set [OF d, of "ValMapByPubkey epoch"] assms(2) mset_eq_setD [OF perm]
    by (simp add: epoch_ok_def)
  have key: "\<forall>(k, v) \<in> set ?es. Nom_Pubkey v = k"
    using assms(2) mset_eq_setD [OF perm] by (simp add: epoch_ok_def)
  have "map_of (foldl (\<lambda>m (_, v). AList.update (Nom_Pubkey v) (NominatedCount v) m) m0 es) =
      map_of m0 ++ (\<lambda>k. map_option NominatedCount (map_of es k))"
    if "distinct (map fst es)" "\<forall>(k, v) \<in> set es. Nom_Pubkey v = k" for m0 es
    using that
  proof (induction es arbitrary: m0)
    case (Cons e es)
    obtain k v where e: "e = (k, v)" by fastforce
    from Cons.prems have "k \<notin> fst ` set es" "Nom_Pubkey v = k" by (auto simp: e)
    then have none: "map_of es k = None" by (simp add: map_of_eq_None_iff)
    from Cons show ?case
      by (auto simp: e update_conv fun_eq_iff map_add_def none split: option.splits)
  qed (simp add: map_add_def fun_eq_iff)
  from this [OF d key, of "[]"] show ?thesis by (simp add: m nominated_def fun_eq_iff map_add_def split: option.splits)
qed

section \<open>Repaying the useless validators\<close>

definition val_at :: "StakingInfo \<Rightarrow> address \<Rightarrow> Validator" where
  "val_at info a = Validators info ! the (GetValMapByAddr info a)"

definition useless :: "StakingInfo \<Rightarrow> Validator list" where
  "useless info = filter (\<lambda>v. Address v \<in> set (GetUselessValidators info)) (Validators info)"

lemma useless_in: "a \<in> set (GetUselessValidators info) \<Longrightarrow> a \<in> Address ` set (Validators info)"
  by (auto simp: set_GetUselessValidators)

lemma val_at_lookup:
  assumes "a \<in> Address ` set (Validators info)"
  obtains i where "GetValMapByAddr info a = Some i" and "val_at info a = Validators info ! i"
    and "val_at info a \<in> set (Validators info)" and "Address (val_at info a) = a"
proof -
  from assms have "GetValMapByAddr info a \<noteq> None" by (auto simp: GetValMapByAddr_None)
  then obtain i where i: "GetValMapByAddr info a = Some i" by auto
  then have "i < length (Validators info) \<and> Address (Validators info ! i) = a"
    using index_map_SomeD [of "\<lambda>_. True" Address "Validators info" a i] by (simp add: GetValMapByAddr_def)
  with i that [of i] show thesis by (simp add: val_at_def)
qed

lemma repay_loop:
  assumes "set as \<subseteq> Address ` set (Validators info)"
  shows "foldG (repay_useless E info (GetValMapByAddr info)) (ctx, b) as =
    Inr (foldl (pay E) ctx (map (\<lambda>a. (RewardTo (val_at info a), StakedCoins (val_at info a))) as),
         b - (\<Sum>a\<leftarrow>as. StakedCoins (val_at info a)))"
  using assms
proof (induction as arbitrary: ctx b)
  case (Cons a as)
  then have "a \<in> Address ` set (Validators info)" by simp
  then obtain i where "GetValMapByAddr info a = Some i" "val_at info a = Validators info ! i"
    by (rule val_at_lookup)
  with Cons show ?case by (simp add: repay_useless_def Let_def diff_diff_eq)
qed simp

lemma useless_perm:
  assumes "distinct (map Address (Validators info))" and "mset as = mset (GetUselessValidators info)"
  shows "mset (map (val_at info) as) = mset (useless info)"
proof -
  have set_as: "set as = set (GetUselessValidators info)" by (rule mset_eq_setD [OF assms(2)])
  have d: "distinct as" using assms(2) distinct_GetUselessValidators [of info] by (metis mset_eq_imp_distinct_iff)
  have at: "val_at info a \<in> set (Validators info)" "Address (val_at info a) = a"
    if "a \<in> set (GetUselessValidators info)" for a
    using val_at_lookup [OF useless_in [OF that]] by metis+
  have inj: "inj_on Address (set (Validators info))" using assms(1) by (simp add: distinct_map)
  have "inj_on (val_at info) (set as)" by (rule inj_onI) (metis at(2) set_as)
  then have "distinct (map (val_at info) as)" using d by (simp add: distinct_map)
  moreover have "distinct (useless info)" using assms(1) by (simp add: useless_def distinct_map)
  moreover have "set (map (val_at info) as) = set (useless info)"
  proof
    show "set (map (val_at info) as) \<subseteq> set (useless info)" using at by (auto simp: useless_def set_as)
    show "set (useless info) \<subseteq> set (map (val_at info) as)"
    proof
      fix v
      assume "v \<in> set (useless info)"
      then have v: "v \<in> set (Validators info)" "Address v \<in> set (GetUselessValidators info)"
        by (auto simp: useless_def)
      with at [OF v(2)] inj have "val_at info (Address v) = v" by (meson inj_onD)
      with v(2) show "v \<in> set (map (val_at info) as)" by (simp add: set_as) (metis imageI)
    qed
  qed
  ultimately show ?thesis using set_eq_iff_mset_eq_distinct by blast
qed

section \<open>The switch as a whole\<close>

text \<open>
  The specification of the switch, without maps, loops or the order of iteration: the
  information after the new powers are assigned, what is paid to an address, and what is paid
  in all.
\<close>

definition powered :: "StakingInfo \<Rightarrow> Epoch \<Rightarrow> StakingInfo" where
  "powered info epoch = (next_epoch info)\<lparr>
     Validators := map (power_val (nominated epoch)) (Validators info),
     PendingRewards := filter (immature (next_epoch info)) (PendingRewards info)\<rparr>"

definition payout :: "StakingInfo \<Rightarrow> Epoch \<Rightarrow> address \<Rightarrow> u256" where
  "payout info epoch b =
     (\<Sum>pr\<leftarrow>filter (\<lambda>pr. reward_to info (PR_Address pr) = b) (mature info). Amount pr) +
     (\<Sum>v\<leftarrow>filter (\<lambda>v. RewardTo v = b) (useless (powered info epoch)). StakedCoins v)"

definition paid :: "StakingInfo \<Rightarrow> Epoch \<Rightarrow> u256" where
  "paid info epoch = (\<Sum>pr\<leftarrow>mature info. Amount pr) + (\<Sum>v\<leftarrow>useless (powered info epoch). StakedCoins v)"

definition with_rewards :: "StakingInfo \<Rightarrow> StakingInfo" where
  "with_rewards info = info\<lparr>PendingRewards := PendingRewards info @
     map (\<lambda>val. \<lparr>PR_Address = Address val, EpochNum = CurrEpochNum info, Amount = 0\<rparr>)
       (GetActiveValidators info MinimumStakingAmount)\<rparr>"

lemma powered_simps [simp]:
  "Validators (powered info epoch) = map (power_val (nominated epoch)) (Validators info)"
  "PendingRewards (powered info epoch) = filter (immature (next_epoch info)) (PendingRewards info)"
  "CurrEpochNum (powered info epoch) = CurrEpochNum info + 1"
  by (simp_all add: powered_def next_epoch_def)

lemma wf_powered:
  assumes "wf_info info"
  shows "wf_info (powered info epoch)"
  unfolding wf_info_def
proof (intro conjI)
  show "distinct (map Address (Validators (powered info epoch)))"
    "distinct (map Pubkey (Validators (powered info epoch)))"
    using wf_infoD(1,2) [OF assms] by (simp_all add: comp_def)
  have "PR_Address ` set (PendingRewards (powered info epoch)) \<subseteq> PR_Address ` set (PendingRewards info)"
    by auto
  also have "\<dots> \<subseteq> Address ` set (Validators info)" using assms by (simp add: wf_info_def)
  also have "\<dots> = Address ` set (Validators (powered info epoch))" by (simp add: image_image)
  finally show "PR_Address ` set (PendingRewards (powered info epoch)) \<subseteq>
      Address ` set (Validators (powered info epoch))" .
qed

lemma clearUp_eq:
  assumes "orders_ok q" and "distinct (map Address (Validators info))"
  shows "\<exists>ps. clearUp E q ctx acc info =
      bindG (delete_useless (GetUselessValidators info) (Validators info)) (\<lambda>vals.
        let acc' = UpdateBalance E acc (Balance E acc - (\<Sum>v\<leftarrow>useless info. StakedCoins v))
        in Inr (SetAccount E (foldl (pay E) ctx ps) StakingContractAddress acc', acc', info\<lparr>Validators := vals\<rparr>)) \<and>
    (\<forall>b. credit_of ps b = (\<Sum>v\<leftarrow>filter (\<lambda>v. RewardTo v = b) (useless info). StakedCoins v)) \<and>
    (\<Sum>p\<leftarrow>ps. snd p) = (\<Sum>v\<leftarrow>useless info. StakedCoins v) \<and>
    fst ` set ps \<subseteq> RewardTo ` set (Validators info)"
proof -
  let ?as = "ord_useless q (GetUselessValidators info)"
  let ?ps = "map (\<lambda>a. (RewardTo (val_at info a), StakedCoins (val_at info a))) ?as"
  from assms(1) have perm: "mset ?as = mset (GetUselessValidators info)" by (simp add: orders_ok_def)
  note vperm = useless_perm [OF assms(2) perm]
  have sub: "set ?as \<subseteq> Address ` set (Validators info)"
    using useless_in mset_eq_setD [OF perm] by blast
  have "(\<Sum>a\<leftarrow>?as. StakedCoins (val_at info a)) = (\<Sum>v\<leftarrow>map (val_at info) ?as. StakedCoins v)"
    by (simp add: comp_def)
  also have "\<dots> = (\<Sum>v\<leftarrow>useless info. StakedCoins v)" by (rule perm_sum_list [OF vperm])
  finally have tot: "(\<Sum>a\<leftarrow>?as. StakedCoins (val_at info a)) = (\<Sum>v\<leftarrow>useless info. StakedCoins v)" .
  have "credit_of ?ps b = (\<Sum>v\<leftarrow>filter (\<lambda>v. RewardTo v = b) (useless info). StakedCoins v)" for b
  proof -
    have "credit_of ?ps b = (\<Sum>v\<leftarrow>filter (\<lambda>v. RewardTo v = b) (map (val_at info) ?as). StakedCoins v)"
      by (simp add: credit_of_def filter_map comp_def)
    also have "\<dots> = (\<Sum>v\<leftarrow>filter (\<lambda>v. RewardTo v = b) (useless info). StakedCoins v)"
      by (rule perm_sum_list) (simp only: mset_filter vperm)
    finally show ?thesis .
  qed
  moreover have "fst ` set ?ps \<subseteq> RewardTo ` set (Validators info)"
  proof -
    have "val_at info a \<in> set (Validators info)" if "a \<in> set ?as" for a
      using val_at_lookup [OF subsetD [OF sub that]] by metis
    then show ?thesis by auto
  qed
  moreover have "clearUp E q ctx acc info =
      bindG (delete_useless (GetUselessValidators info) (Validators info)) (\<lambda>vals.
        let acc' = UpdateBalance E acc (Balance E acc - (\<Sum>v\<leftarrow>useless info. StakedCoins v))
        in Inr (SetAccount E (foldl (pay E) ctx ?ps) StakingContractAddress acc', acc', info\<lparr>Validators := vals\<rparr>))"
    by (simp add: clearUp_def Let_def repay_loop [OF sub] tot)
  moreover have "(\<Sum>p\<leftarrow>?ps. snd p) = (\<Sum>v\<leftarrow>useless info. StakedCoins v)" by (simp add: comp_def tot)
  ultimately show ?thesis by blast
qed

lemma SwitchEpoch_eq:
  assumes "evm_laws E" and "orders_ok q" and "epoch_ok epoch"
    and "LoadStakingAcc E M ctx = Inr (acc, info)" and "wf_info info"
  shows "\<exists>ps acc'. SwitchEpoch E M q ctx epoch =
      bindG (delete_useless (GetUselessValidators (powered info epoch)) (Validators (powered info epoch))) (\<lambda>vals.
        let info' = (powered info epoch)\<lparr>Validators := vals\<rparr>
        in Inr (SaveStakingInfo E M (SetAccount E (foldl (pay E) ctx ps) StakingContractAddress acc') acc'
                  (with_rewards info'), GetActiveValidators info' MinimumStakingAmount)) \<and>
    Balance E acc' = Balance E acc - paid info epoch \<and> Sequence E acc' = Sequence E acc \<and>
    (\<forall>b. credit_of ps b = payout info epoch b) \<and> (\<Sum>p\<leftarrow>ps. snd p) = paid info epoch \<and>
    fst ` set ps \<subseteq> RewardTo ` set (Validators info)"
proof -
  let ?P = "powered info epoch"
  from endEpoch_eq [OF assms(2,4,5)] obtain ps1 where
    e: "endEpoch E M q ctx = Inr (foldl (pay E) ctx ps1,
      UpdateBalance E acc (Balance E acc - (\<Sum>pr\<leftarrow>mature info. Amount pr)),
      (next_epoch info)\<lparr>PendingRewards := filter (immature (next_epoch info)) (PendingRewards info)\<rparr>)"
    and c1: "\<And>b. credit_of ps1 b = (\<Sum>pr\<leftarrow>filter (\<lambda>pr. reward_to info (PR_Address pr) = b) (mature info). Amount pr)"
    and t1: "(\<Sum>p\<leftarrow>ps1. snd p) = (\<Sum>pr\<leftarrow>mature info. Amount pr)"
    and s1: "fst ` set ps1 \<subseteq> RewardTo ` set (Validators info)" by blast
  let ?acc = "UpdateBalance E acc (Balance E acc - (\<Sum>pr\<leftarrow>mature info. Amount pr))"
  let ?info = "(next_epoch info)\<lparr>PendingRewards := filter (immature (next_epoch info)) (PendingRewards info)\<rparr>"
  let ?p2p = "collect_powers (ord_nominations q (ValMapByPubkey epoch))"
  have dp: "distinct (map Pubkey (Validators ?info))" using wf_infoD(2) [OF assms(5)] by simp
  have u: "updateVotingPower q ?info ?p2p = ?P"
    using updateVotingPower_eq [OF assms(2) dp collect_powers_distinct]
    by (simp add: powered_def collect_powers_map [OF assms(2,3)])
  from clearUp_eq [OF assms(2) wf_infoD(1) [OF wf_powered [OF assms(5), of epoch]], of E "foldl (pay E) ctx ps1" ?acc]
  obtain ps2 where
    cl: "clearUp E q (foldl (pay E) ctx ps1) ?acc ?P =
      bindG (delete_useless (GetUselessValidators ?P) (Validators ?P)) (\<lambda>vals.
        let acc' = UpdateBalance E ?acc (Balance E ?acc - (\<Sum>v\<leftarrow>useless ?P. StakedCoins v))
        in Inr (SetAccount E (foldl (pay E) (foldl (pay E) ctx ps1) ps2) StakingContractAddress acc', acc',
                ?P\<lparr>Validators := vals\<rparr>))"
    and c2: "\<And>b. credit_of ps2 b = (\<Sum>v\<leftarrow>filter (\<lambda>v. RewardTo v = b) (useless ?P). StakedCoins v)"
    and t2: "(\<Sum>p\<leftarrow>ps2. snd p) = (\<Sum>v\<leftarrow>useless ?P. StakedCoins v)"
    and s2: "fst ` set ps2 \<subseteq> RewardTo ` set (Validators ?P)" by blast
  let ?ps = "ps1 @ ps2" and ?acc' = "UpdateBalance E ?acc (Balance E ?acc - (\<Sum>v\<leftarrow>useless ?P. StakedCoins v))"
  have op: "SwitchEpoch E M q ctx epoch =
      bindG (delete_useless (GetUselessValidators ?P) (Validators ?P)) (\<lambda>vals.
        let info' = ?P\<lparr>Validators := vals\<rparr>
        in Inr (SaveStakingInfo E M (SetAccount E (foldl (pay E) ctx ?ps) StakingContractAddress ?acc') ?acc'
                  (with_rewards info'), GetActiveValidators info' MinimumStakingAmount))"
    unfolding SwitchEpoch_def Let_def e bindG_simps case_prod_conv u cl bindG_assoc
    by (simp add: with_rewards_def)
  have "Balance E ?acc' = Balance E acc - paid info epoch" "Sequence E ?acc' = Sequence E acc"
    by (simp_all add: evm_simps [OF assms(1)] paid_def diff_diff_eq)
  moreover have "\<forall>b. credit_of ?ps b = payout info epoch b"
    using c1 c2 by (simp add: credit_of_def payout_def)
  moreover have "(\<Sum>p\<leftarrow>?ps. snd p) = paid info epoch" by (simp add: t1 t2 paid_def)
  moreover have "fst ` set ?ps \<subseteq> RewardTo ` set (Validators info)"
    using s1 s2 by (auto simp: image_image)
  ultimately show ?thesis using op by blast
qed

section \<open>What the contract owes after the switch\<close>

text \<open>The information the switch is to produce: without the useless validators, with new entries.\<close>

definition switched :: "StakingInfo \<Rightarrow> Epoch \<Rightarrow> StakingInfo" where
  "switched info epoch = (let P = powered info epoch in
     P\<lparr>Validators := filter (\<lambda>v. Address v \<notin> set (GetUselessValidators P)) (Validators P)\<rparr>)"

definition paid_nat :: "StakingInfo \<Rightarrow> Epoch \<Rightarrow> nat" where
  "paid_nat info epoch = (\<Sum>pr\<leftarrow>mature info. unat (Amount pr)) +
     (\<Sum>v\<leftarrow>useless (powered info epoch). unat (StakedCoins v))"

lemma owed_switched: "owed (with_rewards (switched info epoch)) + paid_nat info epoch = owed info"
proof -
  let ?P = "powered info epoch"
  have st: "staked_total ?P = staked_total info" by (simp add: staked_total_def comp_def)
  have v: "staked_total ?P = (\<Sum>v\<leftarrow>useless ?P. unat (StakedCoins v)) + staked_total (switched info epoch)"
    unfolding staked_total_def useless_def switched_def Let_def
    using sum_list_filter_split [of "\<lambda>v. unat (StakedCoins v)" "Validators ?P"
        "\<lambda>v. Address v \<in> set (GetUselessValidators ?P)"] by simp
  have "pending_total (with_rewards si) = pending_total si" for si
    by (simp add: pending_total_def with_rewards_def comp_def)
  moreover have "pending_total info = (\<Sum>pr\<leftarrow>mature info. unat (Amount pr)) + pending_total (switched info epoch)"
    unfolding pending_total_def mature_def switched_def Let_def
    using sum_list_filter_split [of "\<lambda>pr. unat (Amount pr)" "PendingRewards info" "\<lambda>pr. \<not> immature (next_epoch info) pr"]
    by simp
  moreover have "staked_total (with_rewards si) = staked_total si" for si
    by (simp add: staked_total_def with_rewards_def)
  ultimately show ?thesis using v st by (simp add: owed_def paid_nat_def)
qed

lemma unat_paid:
  assumes "owed info < 2 ^ 256"
  shows "unat (paid info epoch) = paid_nat info epoch"
proof -
  have le: "paid_nat info epoch < 2 ^ LENGTH(256)" using owed_switched [of info epoch] assms by simp
  then have "unat (\<Sum>pr\<leftarrow>mature info. Amount pr) = (\<Sum>pr\<leftarrow>mature info. unat (Amount pr))"
    "unat (\<Sum>v\<leftarrow>useless (powered info epoch). StakedCoins v) =
      (\<Sum>v\<leftarrow>useless (powered info epoch). unat (StakedCoins v))"
    by (auto simp: paid_nat_def intro!: unat_sum_list_words)
  with le show ?thesis by (simp add: paid_def paid_nat_def unat_add_no_overflow)
qed

lemma wf_with_rewards: "wf_info info \<Longrightarrow> wf_info (with_rewards info)"
  using active_subset [of info MinimumStakingAmount] by (auto simp: wf_info_def with_rewards_def)

lemma wf_switched:
  assumes "wf_info info"
  shows "wf_info (switched info epoch)"
proof -
  let ?P = "powered info epoch"
  note wf = wf_powered [OF assms, of epoch]
  have "PR_Address pr \<in> Address ` set (Validators (switched info epoch))" if "pr \<in> set (PendingRewards ?P)" for pr
  proof -
    from wf_infoD(3) [OF wf that] obtain v where v: "v \<in> set (Validators ?P)" "Address v = PR_Address pr" by blast
    moreover from that v(2) have "Address v \<notin> set (GetUselessValidators ?P)"
      by (auto simp: set_GetUselessValidators)
    ultimately show ?thesis by (force simp: switched_def Let_def)
  qed
  moreover have "PendingRewards (switched info epoch) = PendingRewards ?P" by (simp add: switched_def Let_def)
  ultimately show ?thesis
    using wf_infoD(1,2) [OF wf] by (auto simp: wf_info_def switched_def Let_def distinct_map_filter)
qed

lemma storable_switched:
  assumes "storable_info info" and "length (PendingRewards info) + MaxActiveValidatorNum < 2 ^ 32"
  shows "storable_info (with_rewards (switched info epoch))"
proof -
  have v: "length (Validators (switched info epoch)) \<le> length (Validators info)"
    "length (PendingRewards (switched info epoch)) \<le> length (PendingRewards info)"
    by (simp_all add: switched_def Let_def order_trans [OF length_filter_le])
  have "length (GetActiveValidators si m) \<le> MaxActiveValidatorNum" for si m
    by (simp add: GetActiveValidators_def Let_def)
  from this [of "switched info epoch" MinimumStakingAmount] v(2) assms(2)
  have "length (PendingRewards (with_rewards (switched info epoch))) < 2 ^ 32"
    by (simp add: with_rewards_def)
  moreover have "\<forall>v \<in> set (Validators (switched info epoch)). length (Introduction v) < 2 ^ 32"
    using assms(1) by (auto simp: storable_info_def list_all_iff switched_def Let_def)
  ultimately show ?thesis
    using v(1) assms(1) by (simp add: storable_info_def list_all_iff with_rewards_def)
qed

text \<open>The world after the payments \<open>ps\<close>, with the contract's account and information set.\<close>

definition switch_ctx ::
  "('c, 'a) evm \<Rightarrow> 'e codec \<Rightarrow> 'c \<Rightarrow> (address \<times> u256) list \<Rightarrow> 'a \<Rightarrow> StakingInfo \<Rightarrow> 'c" where
  "switch_ctx E M ctx ps acc' info' =
     SaveStakingInfo E M (SetAccount E (foldl (pay E) ctx ps) StakingContractAddress acc') acc' info'"

lemma bal_switch_ctx:
  "evm_laws E \<Longrightarrow> bal E (switch_ctx E M ctx ps acc' info') b =
     (if b = StakingContractAddress then Balance E acc' else bal E (foldl (pay E) ctx ps) b)"
  by (simp add: switch_ctx_def bal_SaveStakingInfo evm_simps)

text \<open>The run of the switch when the deletion loop has at most one validator to delete.\<close>

lemma SwitchEpoch_run:
  assumes "evm_laws E" and "codec_laws M" and "orders_ok q" and "epoch_ok epoch"
    and "LoadStakingAcc E M ctx = Inr (acc, info)" and "wf_info info" and "storable_info info"
    and "length (PendingRewards info) + MaxActiveValidatorNum < 2 ^ 32"
    and "length (GetUselessValidators (powered info epoch)) \<le> 1"
  obtains ps acc' where
    "SwitchEpoch E M q ctx epoch = Inr
       (switch_ctx E M ctx ps acc' (with_rewards (switched info epoch)), GetActiveValidators (switched info epoch) MinimumStakingAmount)"
    and "LoadStakingAcc E M (switch_ctx E M ctx ps acc' (with_rewards (switched info epoch))) = Inr (acc', with_rewards (switched info epoch))"
    and "Balance E acc' = Balance E acc - paid info epoch"
    and "\<And>b. credit_of ps b = payout info epoch b" and "(\<Sum>p\<leftarrow>ps. snd p) = paid info epoch"
    and "fst ` set ps \<subseteq> RewardTo ` set (Validators info)"
proof -
  let ?P = "powered info epoch" and ?S = "switched info epoch"
  from SwitchEpoch_eq [OF assms(1,3,4,5,6)] obtain ps acc' where
    op: "SwitchEpoch E M q ctx epoch = bindG (delete_useless (GetUselessValidators ?P) (Validators ?P)) (\<lambda>vals.
        let info' = ?P\<lparr>Validators := vals\<rparr>
        in Inr (SaveStakingInfo E M (SetAccount E (foldl (pay E) ctx ps) StakingContractAddress acc') acc'
                  (with_rewards info'), GetActiveValidators info' MinimumStakingAmount))"
    and rest: "Balance E acc' = Balance E acc - paid info epoch"
      "\<And>b. credit_of ps b = payout info epoch b" "(\<Sum>p\<leftarrow>ps. snd p) = paid info epoch"
      "fst ` set ps \<subseteq> RewardTo ` set (Validators info)" by blast
  have del: "delete_useless (GetUselessValidators ?P) (Validators ?P) = Inr (Validators ?S)"
    using delete_useless_one [OF wf_infoD(1) [OF wf_powered [OF assms(6)]] assms(9)]
    by (simp add: switched_def Let_def)
  have S: "?P\<lparr>Validators := Validators ?S\<rparr> = ?S" by (simp add: switched_def Let_def)
  have "LoadStakingAcc E M (switch_ctx E M ctx ps acc' (with_rewards ?S)) = Inr (acc', with_rewards ?S)"
    unfolding switch_ctx_def
    by (rule LoadStakingAcc_Save [OF assms(1,2) storable_switched [OF assms(7,8)]])
      (simp_all add: evm_simps [OF assms(1)])
  from that [OF op [unfolded del bindG_simps Let_def S, folded switch_ctx_def] this rest] show thesis .
qed

section \<open>Properties\<close>

text \<open>
  (C2) The switch to a new epoch implements its specification when at most one validator becomes
  useless and no reward address is the contract's own: it does not panic; the stored information
  is that of the specification (voting powers from the nominations for the validators that stake
  enough and do not retire, mature rewards and the useless validator gone, empty reward entries
  for the new active validators, which are returned); every account is credited exactly its
  mature rewards and repaid stakes, and the contract's account is debited their sum.
\<close>

theorem SwitchEpoch_refines:
  assumes "evm_laws E" and "codec_laws M" and "orders_ok q" and "epoch_ok epoch"
    and "LoadStakingAcc E M ctx = Inr (acc, info)" and "wf_info info" and "storable_info info"
    and "length (PendingRewards info) + MaxActiveValidatorNum < 2 ^ 32"
    and "StakingContractAddress \<notin> RewardTo ` set (Validators info)"
    and "length (GetUselessValidators (powered info epoch)) \<le> 1"
  shows "\<exists>ctx' acc'. SwitchEpoch E M q ctx epoch =
      Inr (ctx', GetActiveValidators (switched info epoch) MinimumStakingAmount) \<and>
    LoadStakingAcc E M ctx' = Inr (acc', with_rewards (switched info epoch)) \<and>
    Balance E acc' = Balance E acc - paid info epoch \<and>
    (\<forall>b. b \<noteq> StakingContractAddress \<longrightarrow> bal E ctx' b = bal E ctx b + payout info epoch b)"
proof -
  from SwitchEpoch_run [OF assms(1-8,10)] obtain ps acc' where
    run: "SwitchEpoch E M q ctx epoch = Inr
       (switch_ctx E M ctx ps acc' (with_rewards (switched info epoch)), GetActiveValidators (switched info epoch) MinimumStakingAmount)"
    and rest: "LoadStakingAcc E M (switch_ctx E M ctx ps acc' (with_rewards (switched info epoch))) =
        Inr (acc', with_rewards (switched info epoch))"
      "Balance E acc' = Balance E acc - paid info epoch"
    and cr: "\<And>b. credit_of ps b = payout info epoch b" by metis
  have "bal E (switch_ctx E M ctx ps acc' (with_rewards (switched info epoch))) b =
      bal E ctx b + payout info epoch b" if "b \<noteq> StakingContractAddress" for b
    using that cr [of b] evm_ledger.balance_credits [OF assms(1), of ctx ps b]
    by (simp add: bal_switch_ctx [OF assms(1)] credit_of_def)
  with run rest show ?thesis by blast
qed

text \<open>
  (C19) On a well-formed and solvent state, when at most one validator becomes useless (with two the code
  may panic) and no reward address is the contract's own (a payment to it would be overwritten),
  the switch does not panic, keeps the state of the contract in order and creates or loses no coin:
  what the contract owes and its balance go down by the same amount,
  and the sum of the balances over any finite set of addresses that contains the contract and
  all the reward addresses is the same before and after. The epoch files every
  nomination under its own public key, and the number of pending entries fits in 32 bits.
\<close>

theorem SwitchEpoch_conserves:
  assumes "evm_laws E" and "codec_laws M" and "orders_ok q" and "epoch_ok epoch"
    and "staking_inv E M ctx" and "LoadStakingAcc E M ctx = Inr (acc, info)"
    and "length (PendingRewards info) + MaxActiveValidatorNum < 2 ^ 32"
    and "StakingContractAddress \<notin> RewardTo ` set (Validators info)"
    and "length (GetUselessValidators (powered info epoch)) \<le> 1"
    and "finite S" and "StakingContractAddress \<in> S" and "RewardTo ` set (Validators info) \<subseteq> S"
  shows "\<exists>ctx' vals acc' info'. SwitchEpoch E M q ctx epoch = Inr (ctx', vals) \<and>
    LoadStakingAcc E M ctx' = Inr (acc', info') \<and> staking_inv E M ctx' \<and>
    owed info - owed info' = unat (Balance E acc) - unat (Balance E acc') \<and>
    owed info' \<le> owed info \<and> Balance E acc' \<le> Balance E acc \<and>
    (\<Sum>b\<in>S. bal E ctx' b) = (\<Sum>b\<in>S. bal E ctx b)"
proof -
  let ?S = "switched info epoch"
  from assms(5,6) have inv: "wf_info info" "storable_info info" "owed info \<le> unat (Balance E acc)"
    by (simp_all add: staking_inv_def)
  from SwitchEpoch_run [OF assms(1-4,6) inv(1,2) assms(7,9)] obtain ps acc' where
    run: "SwitchEpoch E M q ctx epoch = Inr
       (switch_ctx E M ctx ps acc' (with_rewards ?S), GetActiveValidators ?S MinimumStakingAmount)"
    and load: "LoadStakingAcc E M (switch_ctx E M ctx ps acc' (with_rewards ?S)) = Inr (acc', with_rewards ?S)"
    and acc': "Balance E acc' = Balance E acc - paid info epoch"
    and tot: "(\<Sum>p\<leftarrow>ps. snd p) = paid info epoch"
    and sub: "fst ` set ps \<subseteq> RewardTo ` set (Validators info)" by metis
  let ?c = "foldl (pay E) ctx ps" and ?ctx = "switch_ctx E M ctx ps acc' (with_rewards ?S)"
  have "owed info < 2 ^ LENGTH(256)" using inv(3) unsigned_less [of "Balance E acc"] by (rule le_less_trans)
  then have up: "unat (paid info epoch) = paid_nat info epoch" by (intro unat_paid) simp
  note ow = owed_switched [of info epoch]
  have le: "paid info epoch \<le> Balance E acc" using up ow inv(3) by (simp add: word_le_nat_alt)
  then have ba: "unat (Balance E acc') = unat (Balance E acc) - paid_nat info epoch"
    by (simp add: acc' unat_diff_le up)
  have i: "staking_inv E M ?ctx"
    by (rule staking_invI [OF load wf_with_rewards [OF wf_switched [OF inv(1)]] storable_switched [OF inv(2) assms(7)]])
      (use ow ba inv(3) in linarith)
  have b0: "bal E ctx StakingContractAddress = Balance E acc"
    using LoadStakingAcc_account [OF assms(6)] by (simp add: bal_def)
  have bc: "bal E ?c StakingContractAddress = Balance E acc"
    using evm_ledger.credits_other [OF assms(1), of StakingContractAddress ps ctx] sub assms(8) b0 by auto
  let ?k = StakingContractAddress
  have "(\<Sum>b\<in>S. bal E ?ctx b) = bal E ?ctx ?k + (\<Sum>b\<in>S - {?k}. bal E ?ctx b)"
    by (rule sum.remove [OF assms(10,11)])
  also have "bal E ?ctx ?k = bal E ?c ?k - paid info epoch"
    by (simp add: bal_switch_ctx [OF assms(1)] acc' bc)
  also have "(\<Sum>b\<in>S - {?k}. bal E ?ctx b) = (\<Sum>b\<in>S - {?k}. bal E ?c b)"
    by (rule sum.cong) (auto simp: bal_switch_ctx [OF assms(1)])
  also have "bal E ?c ?k - paid info epoch + (\<Sum>b\<in>S - {?k}. bal E ?c b) = (\<Sum>b\<in>S. bal E ?c b) - paid info epoch"
    by (simp add: sum.remove [OF assms(10,11)])
  also have "\<dots> = (\<Sum>b\<in>S. bal E ctx b)"
    using evm_ledger.credits_total [OF assms(1,10), of ps ctx] sub assms(12) tot by (simp add: subset_trans)
  finally have "(\<Sum>b\<in>S. bal E ?ctx b) = (\<Sum>b\<in>S. bal E ctx b)" .
  moreover have "owed info - owed (with_rewards ?S) = unat (Balance E acc) - unat (Balance E acc')"
    "owed (with_rewards ?S) \<le> owed info" "Balance E acc' \<le> Balance E acc"
    using ow ba inv(3) by (simp_all add: word_le_nat_alt)
  ultimately show ?thesis using run load i by blast
qed

definition id_orders :: orders where
  "id_orders = \<lparr>ord_nominations = id, ord_rewards = id, ord_powers = id, ord_useless = id\<rparr>"

definition rev_orders :: orders where
  "rev_orders = \<lparr>ord_nominations = rev, ord_rewards = rev, ord_powers = rev, ord_useless = rev\<rparr>"

definition witness_epoch :: Epoch where
  "witness_epoch = \<lparr>StartHeight = 0, EndTime = 10, Duration = 10,
     ValMapByPubkey = [(101, \<lparr>Nom_Pubkey = 101, NominatedCount = 5\<rparr>)]\<rparr>"

lemma witness_orders: "orders_ok id_orders" "orders_ok rev_orders"
  by (simp_all add: orders_ok_def id_orders_def rev_orders_def)

lemma witness_epoch_ok: "epoch_ok witness_epoch"
  by (simp add: epoch_ok_def witness_epoch_def)

lemma witness_epoch_useless: "GetUselessValidators (powered active_witness witness_epoch) = [2]"
  by (simp add: GetUselessValidators_def power_val_def nominated_def witness_epoch_def active_witness_def
      witness_validator_def immature_def next_epoch_def EpochCountBeforeRewardMature_def)

lemma witness_epoch_small:
  "length (PendingRewards active_witness) + MaxActiveValidatorNum < 2 ^ 32"
  "StakingContractAddress \<notin> RewardTo ` set (Validators active_witness)"
  "length (GetUselessValidators (powered active_witness witness_epoch)) \<le> 1"
proof -
  show "length (GetUselessValidators (powered active_witness witness_epoch)) \<le> 1"
    by (simp add: witness_epoch_useless)
qed (simp_all add: active_witness_def witness_validator_def MaxActiveValidatorNum_def StakingContractAddress_def)

theorem SwitchEpoch_refines_witness:
  "\<exists>ctx' acc'. SwitchEpoch mem_evm mp_codec rev_orders (witness_world active_witness active_funds) witness_epoch =
      Inr (ctx', GetActiveValidators (switched active_witness witness_epoch) MinimumStakingAmount) \<and>
    LoadStakingAcc mem_evm mp_codec ctx' = Inr (acc', with_rewards (switched active_witness witness_epoch))"
  using SwitchEpoch_refines [OF mem_evm_laws mp_codec_laws witness_orders(2) witness_epoch_ok
      witness_world_load [OF active_witness_inv(2)] active_witness_inv(1,2) witness_epoch_small]
  by blast

theorem SwitchEpoch_conserves_witness:
  "\<exists>ctx' vals. SwitchEpoch mem_evm mp_codec id_orders (witness_world active_witness active_funds) witness_epoch =
      Inr (ctx', vals) \<and> staking_inv mem_evm mp_codec ctx' \<and>
    (\<Sum>b\<in>{StakingContractAddress, 1001, 1002}. bal mem_evm ctx' b) =
    (\<Sum>b\<in>{StakingContractAddress, 1001, 1002}. bal mem_evm (witness_world active_witness active_funds) b)"
proof -
  let ?S = "{StakingContractAddress, 1001, 1002} :: address set"
  have "finite ?S" "StakingContractAddress \<in> ?S" "RewardTo ` set (Validators active_witness) \<subseteq> ?S"
    by (simp_all add: active_witness_def witness_validator_def)
  from SwitchEpoch_conserves [OF mem_evm_laws mp_codec_laws witness_orders(1) witness_epoch_ok
      active_witness_inv(3) witness_world_load [OF active_witness_inv(2)] witness_epoch_small this]
  show ?thesis by blast
qed

text \<open>
  (C20) The switch does not depend on the order in which Go iterates over its maps, which differs
  from node to node: with any two orders, from the same state and the same epoch, it panics with the
  same panic, or it returns the same validators and leaves the same balance of every account and the
  same contents of every storage slot.
\<close>

theorem SwitchEpoch_deterministic:
  assumes "evm_laws E" and "codec_laws M" and "orders_ok q1" and "orders_ok q2" and "epoch_ok epoch"
    and "LoadStakingAcc E M ctx = Inr (acc, info)" and "wf_info info"
  shows "case (SwitchEpoch E M q1 ctx epoch, SwitchEpoch E M q2 ctx epoch) of
      (Inl e1, Inl e2) \<Rightarrow> e1 = e2
    | (Inr (ctx1, vals1), Inr (ctx2, vals2)) \<Rightarrow> vals1 = vals2 \<and> (\<forall>b. bal E ctx1 b = bal E ctx2 b) \<and>
        (\<forall>s k. GetStorageAt E ctx1 s k = GetStorageAt E ctx2 s k)
    | _ \<Rightarrow> False"
proof -
  let ?P = "powered info epoch"
  let ?run = "\<lambda>ps acc'. bindG (delete_useless (GetUselessValidators ?P) (Validators ?P)) (\<lambda>vals.
        let info' = ?P\<lparr>Validators := vals\<rparr>
        in Inr (switch_ctx E M ctx ps acc' (with_rewards info'), GetActiveValidators info' MinimumStakingAmount))"
  note eq = SwitchEpoch_eq [OF assms(1) _ assms(5-7), folded switch_ctx_def]
  from eq [OF assms(3)] obtain ps1 acc1 where r1: "SwitchEpoch E M q1 ctx epoch = ?run ps1 acc1"
    and a1: "Balance E acc1 = Balance E acc - paid info epoch" "Sequence E acc1 = Sequence E acc"
    and c1: "\<And>b. credit_of ps1 b = payout info epoch b" by blast
  from eq [OF assms(4)] obtain ps2 acc2 where r2: "SwitchEpoch E M q2 ctx epoch = ?run ps2 acc2"
    and a2: "Balance E acc2 = Balance E acc - paid info epoch" "Sequence E acc2 = Sequence E acc"
    and c2: "\<And>b. credit_of ps2 b = payout info epoch b" by blast
  have b: "bal E (switch_ctx E M ctx ps1 acc1 i) b = bal E (switch_ctx E M ctx ps2 acc2 i) b" for i b
    using c1 [of b] c2 [of b]
    by (simp add: bal_switch_ctx [OF assms(1)] a1 a2 evm_ledger.balance_credits [OF assms(1)] credit_of_def)
  have st: "GetStorageAt E (switch_ctx E M ctx ps1 acc1 i) s k = GetStorageAt E (switch_ctx E M ctx ps2 acc2 i) s k" for i s k
    by (simp add: switch_ctx_def SaveStakingInfo_def Let_def evm_simps [OF assms(1)] marshal_nonempty [OF assms(2)]
        pay_storage [OF assms(1)] a1 a2)
  show ?thesis
    by (cases "delete_useless (GetUselessValidators ?P) (Validators ?P)")
      (simp_all add: r1 r2 b st Let_def del: powered_simps)
qed

theorem SwitchEpoch_deterministic_witness:
  "case (SwitchEpoch mem_evm mp_codec id_orders (witness_world active_witness active_funds) witness_epoch,
         SwitchEpoch mem_evm mp_codec rev_orders (witness_world active_witness active_funds) witness_epoch) of
      (Inl e1, Inl e2) \<Rightarrow> e1 = e2
    | (Inr (ctx1, vals1), Inr (ctx2, vals2)) \<Rightarrow> vals1 = vals2 \<and> (\<forall>b. bal mem_evm ctx1 b = bal mem_evm ctx2 b) \<and>
        (\<forall>s k. GetStorageAt mem_evm ctx1 s k = GetStorageAt mem_evm ctx2 s k)
    | _ \<Rightarrow> False"
  by (rule SwitchEpoch_deterministic [OF mem_evm_laws mp_codec_laws witness_orders witness_epoch_ok
      witness_world_load [OF active_witness_inv(2)] active_witness_inv(1)])

text \<open>
  Two useless validators are not handled: when the last validator is useless and another one
  before it too, the loop of \<^verbatim>\<open>clearUp\<close> slices beyond the length of the slice it has shortened, and
  the switch panics.
\<close>

lemma SwitchEpoch_panics_on_two_useless:
  assumes "evm_laws E" and "orders_ok q" and "epoch_ok epoch"
    and "LoadStakingAcc E M ctx = Inr (acc, info)" and "wf_info info"
    and "i < length (Validators info) - 1"
    and "Address (Validators info ! i) \<in> set (GetUselessValidators (powered info epoch))"
    and "Address (last (Validators info)) \<in> set (GetUselessValidators (powered info epoch))"
  shows "SwitchEpoch E M q ctx epoch = Inl OutOfBounds"
proof -
  let ?V = "Validators (powered info epoch)"
  have ne: "Validators info \<noteq> []" using assms(6) by auto
  have "Address (?V ! i) = Address (Validators info ! i)"
    "Address (?V ! (length ?V - 1)) = Address (last (Validators info))"
    using assms(6) ne by (simp_all add: last_conv_nth)
  with assms(6-8) have "delete_useless (GetUselessValidators (powered info epoch)) ?V = Inl OutOfBounds"
    by (intro delete_useless_panics [of i]) simp_all
  with SwitchEpoch_eq [OF assms(1-5)] show ?thesis by (auto simp del: powered_simps)
qed

definition no_nominations :: Epoch where
  "no_nominations = \<lparr>StartHeight = 0, EndTime = 10, Duration = 10, ValMapByPubkey = []\<rparr>"

definition idle_info :: "address list \<Rightarrow> StakingInfo" where
  "idle_info addrs = \<lparr>CurrEpochNum = 5,
     Validators = map (\<lambda>a. witness_validator a (ucast a) 0 MinimumStakingAmount) addrs, PendingRewards = []\<rparr>"

lemma idle_info_ok:
  "wf_info (idle_info [1, 2])" "storable_info (idle_info [1, 2])" "epoch_ok no_nominations"
  "GetUselessValidators (powered (idle_info [1, 2]) no_nominations) = [2, 1]"
  by (simp_all add: wf_info_def storable_info_def epoch_ok_def idle_info_def no_nominations_def witness_validator_def
      GetUselessValidators_def power_val_def nominated_def)

lemma SwitchEpoch_panics_on_two_useless_witness:
  "SwitchEpoch mem_evm mp_codec id_orders (witness_world (idle_info [1, 2]) 0) no_nominations = Inl OutOfBounds"
proof -
  have "0 < length (Validators (idle_info [1, 2])) - 1"
    "Address (Validators (idle_info [1, 2]) ! 0) \<in> set (GetUselessValidators (powered (idle_info [1, 2]) no_nominations))"
    "Address (last (Validators (idle_info [1, 2]))) \<in> set (GetUselessValidators (powered (idle_info [1, 2]) no_nominations))"
    by (simp_all add: idle_info_ok(4)) (simp_all add: idle_info_def witness_validator_def)
  from SwitchEpoch_panics_on_two_useless [OF mem_evm_laws witness_orders(1) idle_info_ok(3)
      witness_world_load [OF idle_info_ok(2)] idle_info_ok(1) this]
  show ?thesis .
qed

text \<open>
  When the first two validators are the useless ones, the switch does not panic, but the
  second one is repaid and kept: both stakes are paid out of the contract's account, and the stored
  information still has the second validator with its whole stake, so that it can be repaid again.
  Its stake is then missing from the contract's balance.
\<close>

lemma SwitchEpoch_keeps_repaid_validator:
  assumes "evm_laws E" and "codec_laws M" and "orders_ok q" and "epoch_ok epoch"
    and "LoadStakingAcc E M ctx = Inr (acc, info)" and "wf_info info" and "storable_info info"
    and "length (PendingRewards info) + MaxActiveValidatorNum < 2 ^ 32"
    and "Validators info = u1 # u2 # rest" and "rest \<noteq> []"
    and "useless (powered info epoch) = map (power_val (nominated epoch)) [u1, u2]"
  shows "\<exists>ctx' vals acc' info'. SwitchEpoch E M q ctx epoch = Inr (ctx', vals) \<and>
    LoadStakingAcc E M ctx' = Inr (acc', info') \<and>
    (\<exists>v \<in> set (Validators info'). Address v = Address u2 \<and> StakedCoins v = StakedCoins u2) \<and>
    Balance E acc' = Balance E acc - ((\<Sum>pr\<leftarrow>mature info. Amount pr) + StakedCoins u1 + StakedCoins u2)"
proof -
  let ?P = "powered info epoch" and ?f = "power_val (nominated epoch)"
  let ?U = "GetUselessValidators ?P"
  from SwitchEpoch_eq [OF assms(1,3-6), folded switch_ctx_def] obtain ps acc' where
    op: "SwitchEpoch E M q ctx epoch = bindG (delete_useless ?U (Validators ?P)) (\<lambda>vals.
        let info' = ?P\<lparr>Validators := vals\<rparr>
        in Inr (switch_ctx E M ctx ps acc' (with_rewards info'), GetActiveValidators info' MinimumStakingAmount))"
    and bal: "Balance E acc' = Balance E acc - paid info epoch" by blast
  have V: "Validators ?P = ?f u1 # ?f u2 # map ?f rest" by (simp add: assms(9))
  have "?f u1 \<in> set (useless ?P)" by (simp add: assms(11))
  then have u: "Address (?f u1) \<in> set ?U" by (auto simp: useless_def)
  have r: "Address v \<notin> set ?U" if "v \<in> set (map ?f rest)" for v
  proof
    assume "Address v \<in> set ?U"
    moreover have "v \<in> set (Validators ?P)" using that unfolding V by simp
    ultimately have "v \<in> set (useless ?P)" by (simp add: useless_def del: powered_simps)
    then have "Address v \<in> {Address u1, Address u2}" by (auto simp: assms(11))
    moreover have "Address v \<in> Address ` set rest" using that by auto
    ultimately show False using wf_infoD(1) [OF assms(6)] by (auto simp: assms(9))
  qed
  let ?V' = "?f u2 # map ?f rest"
  have del: "delete_useless ?U (Validators ?P) = Inr ?V'"
    unfolding V by (rule delete_useless_adjacent [OF u _ r]) (simp_all add: assms(10))
  let ?I = "?P\<lparr>Validators := ?V'\<rparr>"
  have run: "SwitchEpoch E M q ctx epoch =
      Inr (switch_ctx E M ctx ps acc' (with_rewards ?I), GetActiveValidators ?I MinimumStakingAmount)"
    unfolding op del by (simp add: Let_def)
  have "length (GetActiveValidators ?I MinimumStakingAmount) \<le> MaxActiveValidatorNum"
    by (simp add: GetActiveValidators_def Let_def)
  moreover have "length (PendingRewards ?P) \<le> length (PendingRewards info)" by simp
  ultimately have "length (PendingRewards (with_rewards ?I)) < 2 ^ 32"
    using assms(8) by (simp add: with_rewards_def del: powered_simps)
  then have "storable_info (with_rewards ?I)"
    using assms(7) by (simp add: storable_info_def with_rewards_def list_all_iff assms(9))
  then have load: "LoadStakingAcc E M (switch_ctx E M ctx ps acc' (with_rewards ?I)) = Inr (acc', with_rewards ?I)"
    unfolding switch_ctx_def by (intro LoadStakingAcc_Save assms(1,2)) (simp_all add: evm_simps [OF assms(1)])
  have "paid info epoch = (\<Sum>pr\<leftarrow>mature info. Amount pr) + StakedCoins u1 + StakedCoins u2"
    by (simp add: paid_def assms(11))
  with bal have "Balance E acc' =
      Balance E acc - ((\<Sum>pr\<leftarrow>mature info. Amount pr) + StakedCoins u1 + StakedCoins u2)" by simp
  moreover have "\<exists>v \<in> set (Validators (with_rewards ?I)). Address v = Address u2 \<and> StakedCoins v = StakedCoins u2"
    by (simp add: with_rewards_def)
  ultimately show ?thesis using run load by blast
qed

lemma idle_info_three:
  "wf_info (idle_info [1, 2, 3])" "storable_info (idle_info [1, 2, 3])"
  by (simp_all add: wf_info_def storable_info_def idle_info_def witness_validator_def)

definition one_nomination :: Epoch where
  "one_nomination = \<lparr>StartHeight = 0, EndTime = 10, Duration = 10,
     ValMapByPubkey = [(3, \<lparr>Nom_Pubkey = 3, NominatedCount = 5\<rparr>)]\<rparr>"

lemma SwitchEpoch_keeps_repaid_validator_witness:
  "\<exists>ctx' vals acc' info'.
     SwitchEpoch mem_evm mp_codec id_orders (witness_world (idle_info [1, 2, 3]) active_funds) one_nomination =
       Inr (ctx', vals) \<and>
     LoadStakingAcc mem_evm mp_codec ctx' = Inr (acc', info') \<and> (\<exists>v \<in> set (Validators info'). Address v = 2)"
proof -
  let ?v = "\<lambda>a. witness_validator a (ucast a) 0 MinimumStakingAmount"
  have ep: "epoch_ok one_nomination" by (simp add: epoch_ok_def one_nomination_def)
  have "length (PendingRewards (idle_info [1, 2, 3])) + MaxActiveValidatorNum < 2 ^ 32"
    "Validators (idle_info [1, 2, 3]) = ?v 1 # ?v 2 # [?v 3]" "[?v 3] \<noteq> []"
    by (simp_all add: idle_info_def MaxActiveValidatorNum_def)
  moreover have "useless (powered (idle_info [1, 2, 3]) one_nomination) =
      map (power_val (nominated one_nomination)) [?v 1, ?v 2]"
    by (simp add: useless_def GetUselessValidators_def idle_info_def)
      (simp add: witness_validator_def power_val_def nominated_def one_nomination_def)
  ultimately show ?thesis
    using SwitchEpoch_keeps_repaid_validator [OF mem_evm_laws mp_codec_laws witness_orders(1) ep
        witness_world_load [OF idle_info_three(2)] idle_info_three, of "?v 1" "?v 2" "[?v 3]" active_funds]
    by (auto simp: witness_validator_def)
qed

end
