(* ===== verification/App_Mempool.thy ===== *)
theory App_Mempool
  imports Staking_Epoch Chain_Types
begin

text \<open>
  The state of the application (\<^verbatim>\<open>app/app.go\<close>) and the checks a transaction passes before it enters
  the mempool: \<^verbatim>\<open>CheckTx\<close> with its cache of recovered senders, and \<^verbatim>\<open>checkTx\<close>. The stores \<^verbatim>\<open>trunk\<close> and
  \<^verbatim>\<open>checkTrunk\<close> are the world states that contexts over them read and, when they are closed
  dirty, write; \<^verbatim>\<open>root\<close> is the committed world state, and of \<^verbatim>\<open>mads\<close>, the database below it, the heights
  it was told to prune are kept. Transactions and signatures belong to go-ethereum, nonces and fees to
  \<^verbatim>\<open>moeingevm\<close>: they are the fields of \<open>txlib\<close>. A map that is only looked up for membership is a set;
  the cache, over which the code iterates, is the list of its entries, and the order of an
  iteration is an argument. Go's \<^verbatim>\<open>int\<close> counters are integers.
\<close>

section \<open>State\<close>

record SenderAndHeight =
  SH_Sender :: address
  SH_Height :: int64

record modb_Tx =
  mtx_HashId :: bytes32
  mtx_SrcAddr :: address
  mtx_DstAddr :: address
  mtx_Content :: bytes
  mtx_LogList :: "(address \<times> bytes32 list) list"

record modb_Block =
  mdb_Height :: int64
  mdb_BlockHash :: bytes32
  mdb_BlockInfo :: bytes
  mdb_TxList :: "modb_Tx list"

record exec_info =
  Coinbase :: address
  Number :: int64
  BI_Timestamp :: int64
  ChainId :: u256
  Hash :: bytes32

record chain_event =
  ev_Hash :: bytes32
  ev_Header :: Header
  ev_Block :: modb_Block
  ev_Logs :: "Log list"

record ('c, 'x) App =
  chainId :: u256
  retainBlocks :: int64
  numKeptBlocks :: int64
  historyStore :: "modb_Block list"
  currHeight :: int64
  trunk :: 'c
  checkTrunk :: 'c
  block :: Block
  blockInfo :: "exec_info option"
  slashValidators :: "address list"
  lastCommitInfo :: "bytes list"
  lastProposer :: address
  lastGasUsed :: uint64
  lastGasRefund :: u256
  lastGasFee :: u256
  lastMinGasPrice :: uint64
  chainFeed :: "chain_event list"
  logsFeed :: "Log list list"
  txEngine :: 'x
  reorderSeed :: int64
  touchedAddrs :: "address set"
  watcherChan :: "Epoch list"
  epochQueue :: "Epoch list"
  currValidators :: "Validator list"
  sigCache :: "(bytes32 \<times> SenderAndHeight) list"
  sigCacheSize :: int
  sep206SenderSet :: "address set"
  recheckCounter :: int
  recheckThreshold :: int
  readonlyInfo :: "StakingInfo option"
  rootStore :: 'c
  pruneCalls :: "int64 list"

section \<open>The libraries as parameters\<close>

record ('t, 'c, 'a) txlib =
  DecodeRLP :: "bytes \<Rightarrow> 't option"
  tx_hash :: "'t \<Rightarrow> bytes32"
  signer_Sender :: "'t \<Rightarrow> string + address"
  tx_Gas :: "'t \<Rightarrow> uint64"
  tx_Nonce :: "'t \<Rightarrow> uint64"
  tx_GasPrice :: "'t \<Rightarrow> int"
  MaxTxGasLimit :: uint64
  CheckNonce :: "'c \<Rightarrow> address \<Rightarrow> uint64 \<Rightarrow> string + 'a"
  DeductTxFee :: "'c \<Rightarrow> address \<Rightarrow> 'a \<Rightarrow> uint64 \<Rightarrow> u256 \<Rightarrow> string + 'c"

section \<open>Checking a transaction\<close>

datatype CheckTxType = CheckTxType_New | CheckTxType_Recheck

record ResponseCheckTx =
  resp_Code :: uint32
  resp_Info :: string
  resp_GasWanted :: int64

definition CodeTypeOK :: uint32 where "CodeTypeOK = 0"
definition CannotDecodeTx :: uint32 where "CannotDecodeTx = 101"
definition CannotRecoverSender :: uint32 where "CannotRecoverSender = 102"
definition AccountNonceMismatch :: uint32 where "AccountNonceMismatch = 104"
definition CannotPayGasFee :: uint32 where "CannotPayGasFee = 105"
definition GasLimitInvalid :: uint32 where "GasLimitInvalid = 106"
definition InvalidMinGasPrice :: uint32 where "InvalidMinGasPrice = 107"
definition HasPendingTx :: uint32 where "HasPendingTx = 108"
definition MempoolBusy :: uint32 where "MempoolBusy = 109"

definition reject :: "uint32 \<Rightarrow> string \<Rightarrow> ResponseCheckTx" where
  "reject code info = \<lparr>resp_Code = code, resp_Info = info, resp_GasWanted = 0\<rparr>"

definition accept :: "uint64 \<Rightarrow> ResponseCheckTx" where
  "accept gas = \<lparr>resp_Code = CodeTypeOK, resp_Info = [], resp_GasWanted = gas\<rparr>"

text \<open>\<^verbatim>\<open>uint256.FromBig\<close> keeps the low 256 bits; the overflow it reports is ignored.\<close>

definition checkTx ::
  "('t, 'c, 'a) txlib \<Rightarrow> ('c, 'x) App \<Rightarrow> 't \<Rightarrow> address \<Rightarrow> ResponseCheckTx \<times> ('c, 'x) App" where
  "checkTx T app tx sender =
     (let ctx = checkTrunk app in
      if MaxTxGasLimit T < tx_Gas T tx then (reject GasLimitInvalid ''invalid gas limit'', app)
      else
        (case CheckNonce T ctx sender (tx_Nonce T tx) of
           Inl e \<Rightarrow> (reject AccountNonceMismatch (''bad nonce: '' @ e), app)
         | Inr acc \<Rightarrow>
             let gasPrice = word_of_int (tx_GasPrice T tx) :: u256 in
             if gasPrice < ucast (lastMinGasPrice app) then (reject InvalidMinGasPrice ''gas price too small'', app)
             else
               (case DeductTxFee T ctx sender acc (tx_Gas T tx) gasPrice of
                  Inl e \<Rightarrow> (reject CannotPayGasFee ''failed to deduct tx fee'', app)
                | Inr ctx \<Rightarrow> (accept (tx_Gas T tx), app\<lparr>checkTrunk := ctx\<rparr>))))"

text \<open>The entry to evict: the oldest of the first six entries of an iteration over the cache.\<close>

fun evict_key :: "nat \<Rightarrow> int64 \<Rightarrow> bytes32 \<Rightarrow> (bytes32 \<times> SenderAndHeight) list \<Rightarrow> bytes32" where
  "evict_key steps minHeight delKey [] = delKey"
| "evict_key steps minHeight delKey ((key, value) # entries) =
     (let (minHeight, delKey) =
            (if SH_Height value <s minHeight then (SH_Height value, key) else (minHeight, delKey));
          steps = steps - 1
      in if steps = 0 then delKey else evict_key steps minHeight delKey entries)"

definition MaxInt64 :: int64 where "MaxInt64 = 0x7fffffffffffffff"

definition add_to_cache ::
  "((bytes32 \<times> SenderAndHeight) list \<Rightarrow> (bytes32 \<times> SenderAndHeight) list) \<Rightarrow> bytes32 \<Rightarrow> address \<Rightarrow>
   ('c, 'x) App \<Rightarrow> ('c, 'x) App" where
  "add_to_cache order txid sender app =
     (let cache = (if sigCacheSize app < int (length (sigCache app))
                   then AList.delete (evict_key 6 MaxInt64 0 (order (sigCache app))) (sigCache app)
                   else sigCache app)
      in app\<lparr>sigCache := AList.update txid \<lparr>SH_Sender = sender, SH_Height = currHeight app\<rparr> cache\<rparr>)"

definition check_sender ::
  "('t, 'c, 'a) txlib \<Rightarrow> CheckTxType \<Rightarrow> 't \<Rightarrow> address \<Rightarrow> ('c, 'x) App \<Rightarrow> ResponseCheckTx \<times> ('c, 'x) App" where
  "check_sender T ty tx sender app =
     (if sender \<in> touchedAddrs app then (reject HasPendingTx ''still has pending transaction'', app)
      else if ty = CheckTxType_Recheck \<and> sender \<notin> sep206SenderSet app then (accept (tx_Gas T tx), app)
      else checkTx T app tx sender)"

definition CheckTx ::
  "('t, 'c, 'a) txlib \<Rightarrow> ((bytes32 \<times> SenderAndHeight) list \<Rightarrow> (bytes32 \<times> SenderAndHeight) list) \<Rightarrow>
   ('c, 'x) App \<Rightarrow> CheckTxType \<Rightarrow> bytes \<Rightarrow> ResponseCheckTx \<times> ('c, 'x) App" where
  "CheckTx T order app ty txbz =
     (if ty \<noteq> CheckTxType_Recheck \<and> recheckThreshold app < recheckCounter app
      then (reject MempoolBusy ''mempool is too busy'', app)
      else
        let app = (if ty = CheckTxType_Recheck then app\<lparr>recheckCounter := recheckCounter app + 1\<rparr> else app) in
        (case DecodeRLP T txbz of
           None \<Rightarrow> (reject CannotDecodeTx [], app)
         | Some tx \<Rightarrow>
             let txid = tx_hash T tx in
             (case map_of (sigCache app) txid of
                Some senderAndHeight \<Rightarrow> check_sender T ty tx (SH_Sender senderAndHeight) app
              | None \<Rightarrow>
                  (case signer_Sender T tx of
                     Inl e \<Rightarrow> (reject CannotRecoverSender (''invalid sender: '' @ e), app)
                   | Inr sender \<Rightarrow> check_sender T ty tx sender (add_to_cache order txid sender app)))))"

section \<open>The cache\<close>

text \<open>
  The cache is correct when every entry has the sender that would be recovered; a hash covers
  the signature, so that transactions with the same hash have the same sender.
\<close>

definition hash_law :: "('t, 'c, 'a) txlib \<Rightarrow> bool" where
  "hash_law T \<longleftrightarrow> (\<forall>tx tx'. tx_hash T tx = tx_hash T tx' \<longrightarrow> signer_Sender T tx = signer_Sender T tx')"

definition cache_ok :: "('t, 'c, 'a) txlib \<Rightarrow> ('c, 'x) App \<Rightarrow> bool" where
  "cache_ok T app \<longleftrightarrow> distinct (map fst (sigCache app)) \<and>
     (\<forall>(k, v) \<in> set (sigCache app). SH_Height v <s MaxInt64 \<and>
        (\<forall>tx. tx_hash T tx = k \<longrightarrow> signer_Sender T tx = Inr (SH_Sender v))) \<and>
     0 \<le> sigCacheSize app \<and> int (length (sigCache app)) \<le> sigCacheSize app + 1"

lemma evict_key_in: "evict_key n m d xs \<in> insert d (fst ` set xs)"
proof (induction xs arbitrary: n m d)
  case Nil
  then show ?case by simp
next
  case (Cons x xs)
  obtain k v where x: "x = (k, v)" by fastforce
  from Cons.IH [of "n - 1" "SH_Height v" k] Cons.IH [of "n - 1" m d] show ?case by (auto simp: x)
qed

lemma evict_key_hit:
  assumes "xs \<noteq> []" and "\<forall>(k, v) \<in> set xs. SH_Height v <s MaxInt64"
  shows "evict_key n MaxInt64 d xs \<in> fst ` set xs"
proof -
  obtain k v ys where xs: "xs = (k, v) # ys" using assms(1) by (metis list.exhaust prod.exhaust)
  with assms(2) have "evict_key n MaxInt64 d xs = (if n - 1 = 0 then k else evict_key (n - 1) (SH_Height v) k ys)"
    by simp
  with evict_key_in [of "n - 1" "SH_Height v" k ys] xs show ?thesis by auto
qed

lemma length_delete_less:
  assumes "k \<in> fst ` set al"
  shows "length (AList.delete k al) < length al"
  using assms unfolding AList.delete_eq by (auto intro: length_filter_less)

lemma length_update_new: "k \<notin> fst ` set al \<Longrightarrow> length (AList.update k v al) = length al + 1"
  by (induction al) auto

lemma set_update_new: "k \<notin> fst ` set al \<Longrightarrow> set (AList.update k v al) = insert (k, v) (set al)"
  by (induction al) auto

lemma check_sender_keeps [simp]:
  "sigCache (snd (check_sender T ty tx s app)) = sigCache app"
  "sigCacheSize (snd (check_sender T ty tx s app)) = sigCacheSize app"
  by (simp_all add: check_sender_def checkTx_def Let_def split: sum.split)

lemma check_sender_cache:
  "check_sender T ty tx s (app\<lparr>sigCache := c\<rparr>) = map_prod id (sigCache_update (\<lambda>_. c)) (check_sender T ty tx s app)"
  by (simp add: check_sender_def checkTx_def Let_def split: sum.split)

lemma cache_ok_update:
  assumes "cache_ok T app" and "hash_law T" and "\<And>xs. mset (order xs) = mset xs"
    and "signer_Sender T tx = Inr s" and "map_of (sigCache app) (tx_hash T tx) = None"
    and "currHeight app <s MaxInt64"
  shows "cache_ok T (add_to_cache order (tx_hash T tx) s app)"
proof -
  let ?c = "sigCache app" and ?k = "tx_hash T tx"
  let ?d = "if sigCacheSize app < int (length ?c)
      then AList.delete (evict_key 6 MaxInt64 0 (order ?c)) ?c else ?c"
  let ?new = "\<lparr>SH_Sender = s, SH_Height = currHeight app\<rparr>"
  have sub: "set ?d \<subseteq> set ?c" by (auto simp: AList.delete_eq)
  moreover have k: "?k \<notin> fst ` set ?c" using assms(5) by (simp add: map_of_eq_None_iff)
  ultimately have kd: "?k \<notin> fst ` set ?d" by blast
  have dist: "distinct (map fst ?d)" using assms(1) by (simp add: cache_ok_def distinct_delete)
  have small: "int (length ?d) \<le> sigCacheSize app"
  proof (cases "sigCacheSize app < int (length ?c)")
    case True
    have set: "set (order ?c) = set ?c" by (metis assms(3) set_mset_mset)
    have "evict_key 6 MaxInt64 0 (order ?c) \<in> fst ` set (order ?c)"
    proof (rule evict_key_hit)
      show "order ?c \<noteq> []" using True assms(1) set by (auto simp: cache_ok_def)
      show "\<forall>(k, v) \<in> set (order ?c). SH_Height v <s MaxInt64" using assms(1) unfolding set cache_ok_def by blast
    qed
    then have "length ?d < length ?c" using True set by (simp add: length_delete_less)
    moreover have "int (length ?c) \<le> sigCacheSize app + 1" using assms(1) by (simp add: cache_ok_def)
    ultimately show ?thesis by linarith
  qed simp
  have new: "sigCache (add_to_cache order ?k s app) = AList.update ?k ?new ?d"
    by (simp add: add_to_cache_def Let_def)
  have "\<forall>(k, v) \<in> set (AList.update ?k ?new ?d). SH_Height v <s MaxInt64 \<and>
      (\<forall>tx. tx_hash T tx = k \<longrightarrow> signer_Sender T tx = Inr (SH_Sender v))"
  proof -
    have "\<forall>tx'. tx_hash T tx' = ?k \<longrightarrow> signer_Sender T tx' = Inr s" using assms(2,4) unfolding hash_law_def by metis
    moreover have "\<forall>(k, v) \<in> set ?d. SH_Height v <s MaxInt64 \<and>
        (\<forall>tx. tx_hash T tx = k \<longrightarrow> signer_Sender T tx = Inr (SH_Sender v))"
      using assms(1) sub unfolding cache_ok_def by blast
    ultimately show ?thesis unfolding set_update_new [OF kd] using assms(6) by simp
  qed
  moreover have "distinct (map fst (AList.update ?k ?new ?d))" by (rule distinct_update [OF dist])
  moreover have "int (length (AList.update ?k ?new ?d)) \<le> sigCacheSize app + 1"
    using small by (simp add: length_update_new [OF kd] del: AList.update.simps)
  moreover have "0 \<le> sigCacheSize app" using assms(1) by (simp add: cache_ok_def)
  ultimately show ?thesis
    unfolding cache_ok_def new by (simp add: add_to_cache_def Let_def)
qed

lemma cache_ok_cong:
  "sigCache app' = sigCache app \<Longrightarrow> sigCacheSize app' = sigCacheSize app \<Longrightarrow> cache_ok T app' = cache_ok T app"
  by (simp add: cache_ok_def)

lemma cache_ok_sender:
  assumes "cache_ok T app" and "map_of (sigCache app) (tx_hash T tx) = Some v"
  shows "signer_Sender T tx = Inr (SH_Sender v)"
  using assms map_of_SomeD [OF assms(2)] unfolding cache_ok_def by blast

text \<open>The answer of \<^verbatim>\<open>CheckTx\<close> without the cache.\<close>

definition CheckTx_uncached ::
  "('t, 'c, 'a) txlib \<Rightarrow> ('c, 'x) App \<Rightarrow> CheckTxType \<Rightarrow> bytes \<Rightarrow> ResponseCheckTx \<times> ('c, 'x) App" where
  "CheckTx_uncached T app ty txbz =
     (if ty \<noteq> CheckTxType_Recheck \<and> recheckThreshold app < recheckCounter app
      then (reject MempoolBusy ''mempool is too busy'', app)
      else
        let app = (if ty = CheckTxType_Recheck then app\<lparr>recheckCounter := recheckCounter app + 1\<rparr> else app) in
        (case DecodeRLP T txbz of
           None \<Rightarrow> (reject CannotDecodeTx [], app)
         | Some tx \<Rightarrow>
             (case signer_Sender T tx of
                Inl e \<Rightarrow> (reject CannotRecoverSender (''invalid sender: '' @ e), app)
              | Inr sender \<Rightarrow> check_sender T ty tx sender app)))"

lemma sigCache_self: "sigCache (snd r) = c \<Longrightarrow> map_prod id (sigCache_update (\<lambda>_. c)) r = r"
  by (cases r) auto

lemma CheckTx_eq:
  assumes "cache_ok T app"
  shows "\<exists>c. CheckTx T order app ty txbz = map_prod id (sigCache_update (\<lambda>_. c)) (CheckTx_uncached T app ty txbz)"
proof (cases "ty \<noteq> CheckTxType_Recheck \<and> recheckThreshold app < recheckCounter app")
  case True
  then show ?thesis by (intro exI [of _ "sigCache app"]) (simp add: CheckTx_def CheckTx_uncached_def)
next
  case notbusy: False
  define a where "a = (if ty = CheckTxType_Recheck then app\<lparr>recheckCounter := recheckCounter app + 1\<rparr> else app)"
  have same: "sigCache a = sigCache app" by (simp add: a_def)
  note defs = CheckTx_def CheckTx_uncached_def if_not_P [OF notbusy] a_def [symmetric] Let_def
  show ?thesis
  proof (cases "DecodeRLP T txbz")
    case None
    then show ?thesis unfolding defs by (intro exI [of _ "sigCache app"]) (simp add: same sigCache_self)
  next
    case tx: (Some tx)
    show ?thesis
    proof (cases "map_of (sigCache app) (tx_hash T tx)")
      case (Some v)
      with cache_ok_sender [OF assms Some] tx show ?thesis
        unfolding defs by (intro exI [of _ "sigCache app"]) (simp add: same sigCache_self)
    next
      case None
      show ?thesis
      proof (cases "signer_Sender T tx")
        case (Inl e)
        with None tx show ?thesis unfolding defs by (intro exI [of _ "sigCache app"]) (simp add: same sigCache_self)
      next
        case (Inr s)
        have "\<exists>c. add_to_cache order (tx_hash T tx) s a = a\<lparr>sigCache := c\<rparr>"
          unfolding add_to_cache_def Let_def by blast
        then obtain c where "add_to_cache order (tx_hash T tx) s a = a\<lparr>sigCache := c\<rparr>" by blast
        with Inr None tx show ?thesis
          unfolding defs by (intro exI [of _ c]) (simp add: same check_sender_cache)
      qed
    qed
  qed
qed

lemma CheckTx_cache_ok:
  assumes "cache_ok T app" and "hash_law T" and "\<And>xs. mset (order xs) = mset xs" and "currHeight app <s MaxInt64"
  shows "cache_ok T (snd (CheckTx T order app ty txbz))"
proof -
  let ?app = "if ty = CheckTxType_Recheck then app\<lparr>recheckCounter := recheckCounter app + 1\<rparr> else app"
  have ok: "cache_ok T ?app" using assms(1) by (simp add: cache_ok_def)
  have keep: "cache_ok T (snd (check_sender T ty tx s a)) = cache_ok T a" for ty tx s a by (rule cache_ok_cong) simp_all
  have "cache_ok T (add_to_cache order (tx_hash T tx) s ?app)"
    if "signer_Sender T tx = Inr s" "map_of (sigCache ?app) (tx_hash T tx) = None" for tx s
    by (rule cache_ok_update [OF ok assms(2,3) that]) (use assms(4) in simp)
  with ok assms(1) show ?thesis
    by (auto simp: CheckTx_def Let_def keep split: option.split sum.split)
qed

lemma CheckTx_accepts:
  assumes "cache_ok T app" and "CheckTx T order app CheckTxType_New txbz = (r, app')"
  shows "(resp_Code r = CodeTypeOK \<longleftrightarrow> recheckCounter app \<le> recheckThreshold app \<and>
      (\<exists>tx s acc ctx. DecodeRLP T txbz = Some tx \<and> signer_Sender T tx = Inr s \<and> s \<notin> touchedAddrs app \<and>
        tx_Gas T tx \<le> MaxTxGasLimit T \<and> CheckNonce T (checkTrunk app) s (tx_Nonce T tx) = Inr acc \<and>
        ucast (lastMinGasPrice app) \<le> (word_of_int (tx_GasPrice T tx) :: u256) \<and>
        DeductTxFee T (checkTrunk app) s acc (tx_Gas T tx) (word_of_int (tx_GasPrice T tx)) = Inr ctx \<and>
        checkTrunk app' = ctx)) \<and>
    (resp_Code r \<noteq> CodeTypeOK \<longrightarrow> checkTrunk app' = checkTrunk app)"
proof -
  from CheckTx_eq [OF assms(1), of order CheckTxType_New txbz] assms(2) obtain c
    where "(r, app') = map_prod id (sigCache_update (\<lambda>_. c)) (CheckTx_uncached T app CheckTxType_New txbz)" by auto
  then have r: "r = fst (CheckTx_uncached T app CheckTxType_New txbz)"
    and t: "checkTrunk app' = checkTrunk (snd (CheckTx_uncached T app CheckTxType_New txbz))"
    by (simp_all add: prod_eq_iff)
  show ?thesis
    unfolding r t CheckTx_uncached_def check_sender_def checkTx_def Let_def
    by (auto simp: reject_def accept_def CodeTypeOK_def MempoolBusy_def CannotDecodeTx_def CannotRecoverSender_def
        HasPendingTx_def GasLimitInvalid_def AccountNonceMismatch_def InvalidMinGasPrice_def CannotPayGasFee_def
        not_less split: option.splits sum.splits if_splits)
qed

section \<open>Properties\<close>

text \<open>
  (C8) The cache of senders is only a cache: with a cache that is correct, whatever entry the
  iteration evicts, \<^verbatim>\<open>CheckTx\<close> answers what it would answer by recovering the sender of every
  transaction, and changes the state in the same way except for the cache; the cache stays
  correct, and it never has more than one entry above its configured size.
\<close>

theorem CheckTx_cache_transparent:
  assumes "cache_ok T app" and "hash_law T" and "\<And>xs. mset (order xs) = mset xs" and "currHeight app <s MaxInt64"
  shows "fst (CheckTx T order app ty txbz) = fst (CheckTx_uncached T app ty txbz) \<and>
    (\<exists>c. snd (CheckTx T order app ty txbz) = (snd (CheckTx_uncached T app ty txbz))\<lparr>sigCache := c\<rparr>) \<and>
    cache_ok T (snd (CheckTx T order app ty txbz)) \<and>
    int (length (sigCache (snd (CheckTx T order app ty txbz)))) \<le> sigCacheSize app + 1"
proof -
  from CheckTx_eq [OF assms(1)] obtain c where
    eq: "CheckTx T order app ty txbz = map_prod id (sigCache_update (\<lambda>_. c)) (CheckTx_uncached T app ty txbz)" by blast
  have "sigCacheSize (snd (CheckTx T order app ty txbz)) = sigCacheSize app"
    unfolding eq by (simp add: CheckTx_uncached_def Let_def split: option.split sum.split)
  with CheckTx_cache_ok [OF assms, of ty txbz] have "int (length (sigCache (snd (CheckTx T order app ty txbz)))) \<le> sigCacheSize app + 1"
    by (simp add: cache_ok_def)
  with CheckTx_cache_ok [OF assms, of ty txbz] eq show ?thesis by auto
qed

text \<open>
  (C9) What lets a new transaction into the mempool: the mempool is not busy, the transaction
  decodes and has a sender that the last block did not touch, its gas limit is allowed, its
  nonce is right, its gas price is at least the minimum, and its sender can pay the fee. Only
  then is the fee deducted from the state that later transactions are checked against.
\<close>

theorem CheckTx_accepts_iff:
  assumes "cache_ok T app" and "CheckTx T order app CheckTxType_New txbz = (r, app')"
  shows "(resp_Code r = CodeTypeOK \<longleftrightarrow> recheckCounter app \<le> recheckThreshold app \<and>
      (\<exists>tx s acc ctx. DecodeRLP T txbz = Some tx \<and> signer_Sender T tx = Inr s \<and> s \<notin> touchedAddrs app \<and>
        tx_Gas T tx \<le> MaxTxGasLimit T \<and> CheckNonce T (checkTrunk app) s (tx_Nonce T tx) = Inr acc \<and>
        ucast (lastMinGasPrice app) \<le> (word_of_int (tx_GasPrice T tx) :: u256) \<and>
        DeductTxFee T (checkTrunk app) s acc (tx_Gas T tx) (word_of_int (tx_GasPrice T tx)) = Inr ctx \<and>
        checkTrunk app' = ctx)) \<and>
    (resp_Code r \<noteq> CodeTypeOK \<longrightarrow> checkTrunk app' = checkTrunk app)"
  by (rule CheckTx_accepts [OF assms])

section \<open>Witnesses\<close>

text \<open>A transaction is its hash, whose low bits are its sender; fees are not charged.\<close>

definition witness_txlib :: "(bytes32, mem_world, mem_account) txlib" where
  "witness_txlib = \<lparr>DecodeRLP = (\<lambda>bz. if length bz = 32 then Some (be_word bz) else None),
     tx_hash = (\<lambda>t. t), signer_Sender = (\<lambda>t. Inr (ucast t)),
     tx_Gas = (\<lambda>_. 21000), tx_Nonce = (\<lambda>_. 0), tx_GasPrice = (\<lambda>_. 10), MaxTxGasLimit = 1000000,
     CheckNonce = (\<lambda>ctx a n. case mem_accounts ctx a of None \<Rightarrow> Inl ''no account'' | Some acc \<Rightarrow> Inr acc),
     DeductTxFee = (\<lambda>ctx a acc gas price. Inr (mem_set ctx a acc))\<rparr>"

definition empty_block :: Block where
  "empty_block = \<lparr>blk_Number = 0, blk_Hash = 0, blk_ParentHash = 0, blk_LogsBloom = 0, blk_TransactionsRoot = 0,
     blk_StateRoot = 0, blk_Miner = 0, blk_Size = 0, blk_GasUsed = 0, blk_Timestamp = 0, blk_Transactions = []\<rparr>"

definition start_app :: "'c \<Rightarrow> 'x \<Rightarrow> ('c, 'x) App" where
  "start_app ctx x = \<lparr>chainId = 1, retainBlocks = - 1, numKeptBlocks = 10000, historyStore = [], currHeight = 5,
     trunk = ctx, checkTrunk = ctx, block = empty_block, blockInfo = None, slashValidators = [], lastCommitInfo = [],
     lastProposer = 0, lastGasUsed = 0, lastGasRefund = 0, lastGasFee = 0, lastMinGasPrice = 0, chainFeed = [],
     logsFeed = [], txEngine = x, reorderSeed = 0, touchedAddrs = {}, watcherChan = [], epochQueue = [],
     currValidators = [], sigCache = [], sigCacheSize = 1, sep206SenderSet = {}, recheckCounter = 0,
     recheckThreshold = 1000, readonlyInfo = None, rootStore = ctx, pruneCalls = []\<rparr>"

definition witness_app :: "(mem_world, unit) App" where
  "witness_app = (start_app (mem_set mem_empty 7 mem_zero) ())\<lparr>
     sigCache := [(7, \<lparr>SH_Sender = 7, SH_Height = 3\<rparr>), (8, \<lparr>SH_Sender = 8, SH_Height = 4\<rparr>)]\<rparr>"

lemma witness_cache_ok: "cache_ok witness_txlib witness_app"
  by (simp add: cache_ok_def witness_app_def start_app_def witness_txlib_def MaxInt64_def word_sless_alt)

theorem CheckTx_cache_transparent_witness:
  "fst (CheckTx witness_txlib id witness_app CheckTxType_New (be_bytes 32 (9 :: bytes32))) =
     fst (CheckTx_uncached witness_txlib witness_app CheckTxType_New (be_bytes 32 (9 :: bytes32))) \<and>
   length (sigCache (snd (CheckTx witness_txlib id witness_app CheckTxType_New (be_bytes 32 (9 :: bytes32))))) \<le> 2"
  using CheckTx_cache_transparent [OF witness_cache_ok, of id CheckTxType_New "be_bytes 32 (9 :: bytes32)"]
  by (simp add: hash_law_def witness_txlib_def witness_app_def start_app_def MaxInt64_def word_sless_alt)

theorem CheckTx_accepts_iff_witness:
  "resp_Code (fst (CheckTx witness_txlib id witness_app CheckTxType_New (be_bytes 32 (7 :: bytes32)))) = CodeTypeOK \<and>
   resp_Code (fst (CheckTx witness_txlib id witness_app CheckTxType_New (be_bytes 32 (9 :: bytes32)))) \<noteq> CodeTypeOK"
proof -
  have word: "(be_word (be_bytes 32 x) :: bytes32) = x" for x :: bytes32 by (rule be_word_be_bytes) simp
  note iff = CheckTx_accepts_iff [OF witness_cache_ok surjective_pairing, THEN conjunct1]
  show ?thesis
    unfolding iff
    by (simp add: witness_txlib_def witness_app_def start_app_def word CheckTx_def check_sender_def checkTx_def
        mem_set_def mem_empty_def Let_def)
qed

end
