(* ===== verification/App_Blocks.thy ===== *)
theory App_Blocks
  imports App_Mempool Log_Filters
begin

text \<open>
  The life of a block in the application (\<^verbatim>\<open>app/app.go\<close>): the genesis state, \<^verbatim>\<open>BeginBlock\<close>,
  \<^verbatim>\<open>DeliverTx\<close>, \<^verbatim>\<open>EndBlock\<close> and \<^verbatim>\<open>Commit\<close>, which switches epochs, slashes, distributes the fees of the
  previous block, records the block in the history and publishes it. What belongs to
  \<^verbatim>\<open>moeingevm\<close>, \<^verbatim>\<open>moeingads\<close> and tendermint are the fields of \<open>lib\<close>: the system account, the block kept
  in the world state, the root hash, addresses of public keys, encoders, and the engine that
  executes transactions, whose operations take the world state they run on. \<^verbatim>\<open>postCommit\<close>, which the
  code starts in a goroutine that holds the application's lock until it is done, is the last
  step of a commit. Logging changes no state of the model.
\<close>

section \<open>The libraries as parameters\<close>

record GenesisData =
  gd_Validators :: "Validator list"
  gd_Alloc :: "(address \<times> int) list"

record ('c, 'a, 'e, 'x, 't) lib =
  lib_evm :: "('c, 'a) evm"
  lib_codec :: "'e codec"
  lib_orders :: orders
  GetSystemBalance :: "'c \<Rightarrow> u256"
  SubSystemAccBalance :: "'c \<Rightarrow> u256 \<Rightarrow> string + 'c"
  GetCurrBlockBasicInfo :: "'c \<Rightarrow> Block option"
  SetCurrBlockBasicInfo :: "'c \<Rightarrow> Block \<Rightarrow> 'c"
  GetRootHash :: "'c \<Rightarrow> bytes"
  PubKey_Address :: "bytes32 \<Rightarrow> bytes"
  Block_MarshalMsg :: "Block \<Rightarrow> string + bytes"
  Tx_MarshalMsg :: "Log Transaction \<Rightarrow> string + bytes"
  TransferEvent :: bytes32
  Unmarshal_Genesis :: "bytes \<Rightarrow> string + GenesisData"
  CollectTx :: "'x \<Rightarrow> 't \<Rightarrow> 'x"
  Prepare :: "'x \<Rightarrow> 'c \<Rightarrow> int64 \<Rightarrow> uint64 \<Rightarrow> address set \<times> 'x \<times> 'c"
  Execute :: "'x \<Rightarrow> 'c \<Rightarrow> exec_info \<Rightarrow> 'x \<times> 'c"
  GasUsedInfo :: "'x \<Rightarrow> uint64 \<times> u256 \<times> u256"
  StandbyQLen :: "'x \<Rightarrow> nat"
  CommittedTxs :: "'x \<Rightarrow> Log Transaction list"

section \<open>Genesis\<close>

definition createGenesisAccs :: "('c, 'a, 'e, 'x, 't) lib \<Rightarrow> (address \<times> int) list \<Rightarrow> 'c \<Rightarrow> 'c" where
  "createGenesisAccs L alloc ctx =
     foldl (\<lambda>ctx (addr, balance).
       let amt = word_of_int balance :: u256;
           v = UpdateBalance (lib_evm L) (ZeroAccountInfo (lib_evm L)) amt
       in SetAccount (lib_evm L) ctx addr v) ctx alloc"

definition genesis_rewards :: "nat \<Rightarrow> Validator list \<Rightarrow> PendingReward list go" where
  "genesis_rewards n genesisValidators =
     (if n \<le> length genesisValidators
      then Inr (map (\<lambda>v. \<lparr>PR_Address = Address v, EpochNum = 0, Amount = 0\<rparr>) (take n genesisValidators))
      else Inl OutOfBounds)"

definition validator_updates :: "Validator list \<Rightarrow> (bytes32 \<times> int64) list" where
  "validator_updates vals = map (\<lambda>v. (Pubkey v, VotingPower v)) vals"

definition BlockMaxBytes :: int64 where "BlockMaxBytes = 24 * 1024 * 1024"
definition BlockMaxGas :: int64 where "BlockMaxGas = 900000000000"

record ResponseInitChain =
  MaxBytes :: int64
  MaxGas :: int64
  ic_Validators :: "(bytes32 \<times> int64) list"

definition InitChain ::
  "('c, 'a, 'e, 'x, 't) lib \<Rightarrow> ('c, 'x) App \<Rightarrow> bytes \<Rightarrow> (ResponseInitChain \<times> ('c, 'x) App) go" where
  "InitChain L app appStateBytes =
     bindG (if length appStateBytes \<noteq> 0 then
              (case Unmarshal_Genesis L appStateBytes of
                 Inl e \<Rightarrow> Inl PanicErr
               | Inr genesisData \<Rightarrow>
                   Inr (gd_Validators genesisData, createGenesisAccs L (gd_Alloc genesisData) (trunk app)))
            else Inr ([], trunk app)) (\<lambda>(genesisValidators, ctx).
     if length genesisValidators = 0 then Inl (PanicMsg ''no genesis validator in genesis.json'')
     else
       (case GetAccount (lib_evm L) ctx StakingContractAddress of
          None \<Rightarrow> Inl (PanicMsg ''Cannot find staking contract'')
        | Some stakingAcc \<Rightarrow>
            bindG (genesis_rewards (length (currValidators app)) genesisValidators) (\<lambda>rewards.
            let info = \<lparr>CurrEpochNum = 0, Validators = genesisValidators, PendingRewards = rewards\<rparr>;
                ctx = SaveStakingInfo (lib_evm L) (lib_codec L) ctx stakingAcc info;
                activeValidator = filter (eligible MinimumStakingAmount) genesisValidators
            in Inr (\<lparr>MaxBytes = BlockMaxBytes, MaxGas = BlockMaxGas, ic_Validators = validator_updates activeValidator\<rparr>,
                    app\<lparr>trunk := ctx, currValidators := activeValidator\<rparr>))))"

section \<open>The beginning of a block\<close>

record RequestBeginBlock =
  rq_Height :: int64
  rq_Time :: int64
  rq_Size :: int64
  rq_Hash :: bytes
  ProposerAddress :: bytes
  LastBlockIdHash :: bytes
  DataHash :: bytes
  AppHash :: bytes
  Votes :: "(bool \<times> bytes) list"
  ByzantineValidators :: "(bool \<times> bytes) list"

definition le_uint64 :: "bytes \<Rightarrow> uint64" where
  "le_uint64 bz = be_word (rev bz)"

text \<open>
  Votes are pairs of \<^verbatim>\<open>SignedLastBlock\<close> and the validator's address; evidence are pairs of whether it
  is a duplicate vote and the address. The variable \<^verbatim>\<open>addr\<close> is declared outside of the loop.
\<close>

definition collect_evidence :: "(bool \<times> bytes) list \<Rightarrow> address list" where
  "collect_evidence evs = snd (foldl (\<lambda>(addr, res) (dup, bz).
     if dup then (let addr = copy_array 20 addr bz in (addr, res @ [addr])) else (addr, res)) (0, []) evs)"

definition BeginBlock :: "('c, 'x) App \<Rightarrow> RequestBeginBlock \<Rightarrow> ('c, 'x) App" where
  "BeginBlock app req =
     (let blk = \<lparr>blk_Number = rq_Height req, blk_Hash = copy_array 32 0 (rq_Hash req),
                 blk_ParentHash = copy_array 32 0 (LastBlockIdHash req), blk_LogsBloom = 0,
                 blk_TransactionsRoot = copy_array 32 0 (DataHash req),
                 blk_StateRoot = copy_array 32 0 (AppHash req),
                 blk_Miner = copy_array 20 0 (ProposerAddress req), blk_Size = rq_Size req,
                 blk_GasUsed = 0, blk_Timestamp = rq_Time req, blk_Transactions = []\<rparr>
      in app\<lparr>block := blk,
             lastProposer := copy_array 20 (lastProposer app) (ProposerAddress req),
             lastCommitInfo := lastCommitInfo app @ map snd (filter fst (Votes req)),
             reorderSeed := (if 8 \<le> length (DataHash req) then le_uint64 (take 8 (DataHash req)) else 0),
             currHeight := rq_Height req,
             slashValidators := slashValidators app @ collect_evidence (ByzantineValidators req)\<rparr>)"

definition DecodeTx :: "('t, 'c, 'a) txlib \<Rightarrow> bytes \<Rightarrow> 't option" where
  "DecodeTx T data = DecodeRLP T data"

definition DeliverTx ::
  "('c, 'a, 'e, 'x, 't) lib \<Rightarrow> ('t, 'c, 'a) txlib \<Rightarrow> ('c, 'x) App \<Rightarrow> int64 \<Rightarrow> bytes \<Rightarrow> ('c, 'x) App" where
  "DeliverTx L T app reqSize txbz =
     (let app = app\<lparr>block := (block app)\<lparr>blk_Size := blk_Size (block app) + reqSize\<rparr>\<rparr> in
      case DecodeTx T txbz of
        None \<Rightarrow> app
      | Some tx \<Rightarrow> app\<lparr>txEngine := CollectTx L (txEngine app) tx\<rparr>)"

definition EndBlock :: "('c, 'x) App \<Rightarrow> (bytes32 \<times> int64) list" where
  "EndBlock app = validator_updates (currValidators app)"

section \<open>The parts of a commit\<close>

definition receive_epoch :: "('c, 'x) App \<Rightarrow> ('c, 'x) App" where
  "receive_epoch app = (case watcherChan app of
       [] \<Rightarrow> app
     | epoch # epochs \<Rightarrow> app\<lparr>watcherChan := epochs, epochQueue := epochQueue app @ [epoch]\<rparr>)"

definition commit_epoch ::
  "('c, 'a, 'e, 'x, 't) lib \<Rightarrow> StakingInfo \<Rightarrow> ('c, 'x) App \<Rightarrow> ('c, 'x) App go" where
  "commit_epoch L info app =
     (let app = receive_epoch app in
      case epochQueue app of
        [] \<Rightarrow> Inr (app\<lparr>currValidators := GetActiveValidators info MinimumStakingAmount\<rparr>)
      | epoch # epochs \<Rightarrow>
          if EndTime epoch + 100 * 10 * 60 <s blk_Timestamp (block app) then
            bindG (SwitchEpoch (lib_evm L) (lib_codec L) (lib_orders L) (trunk app) epoch) (\<lambda>(ctx, vals).
              Inr (app\<lparr>trunk := ctx, currValidators := vals, epochQueue := epochs\<rparr>))
          else Inr app)"

definition pubkeyMapByConsAddr :: "('c, 'a, 'e, 'x, 't) lib \<Rightarrow> StakingInfo \<Rightarrow> address \<rightharpoonup> bytes32" where
  "pubkeyMapByConsAddr L info = snd (foldl (\<lambda>(consAddr, m) v.
     let consAddr = copy_array 20 consAddr (PubKey_Address L (Pubkey v)) in (consAddr, m(consAddr \<mapsto> Pubkey v)))
     (0, Map.empty) (Validators info))"

text \<open>Looking up a key that is not in the map gives the zero public key.\<close>

definition pubkey_at :: "(address \<rightharpoonup> bytes32) \<Rightarrow> address \<Rightarrow> bytes32" where
  "pubkey_at m a = (case m a of None \<Rightarrow> 0 | Some k \<Rightarrow> k)"

definition commit_slash ::
  "('c, 'a, 'e, 'x, 't) lib \<Rightarrow> (address \<rightharpoonup> bytes32) \<Rightarrow> ('c, 'x) App \<Rightarrow> ('c, 'x) App go" where
  "commit_slash L m app =
     bindG (foldG (\<lambda>ctx v. bindG (Slash (lib_evm L) (lib_codec L) ctx (pubkey_at m v) SlashedStakingAmount)
                             (\<lambda>(ctx, _). Inr ctx)) (trunk app) (slashValidators app))
       (\<lambda>ctx. Inr (app\<lparr>trunk := ctx, slashValidators := []\<rparr>))"

definition commit_voters :: "(address \<rightharpoonup> bytes32) \<Rightarrow> bytes list \<Rightarrow> bytes32 list" where
  "commit_voters m cs = snd (foldl (\<lambda>(tmpAddr, voters) c.
     let tmpAddr = copy_array 20 tmpAddr c in (tmpAddr, voters @ [pubkey_at m tmpAddr])) (0, []) cs)"

definition commit_fees ::
  "('c, 'a, 'e, 'x, 't) lib \<Rightarrow> (address \<rightharpoonup> bytes32) \<Rightarrow> ('c, 'x) App \<Rightarrow> ('c, 'x) App go" where
  "commit_fees L m app =
     (let ctx = trunk app; voters = commit_voters m (lastCommitInfo app) in
      bindG (if lastGasFee app \<noteq> 0 \<and> lastGasRefund app \<noteq> 0 then
               (case SubSystemAccBalance L ctx (lastGasRefund app) of Inl e \<Rightarrow> Inl PanicErr | Inr ctx \<Rightarrow> Inr ctx)
             else Inr ctx) (\<lambda>ctx.
      let sysB = GetSystemBalance L ctx in
      if sysB < lastGasFee app then Inl (PanicMsg ''system balance not enough!'')
      else
        let blockReward = (if StandbyQLen L (txEngine app) \<noteq> 0 then lastGasFee app else sysB) in
        bindG (if blockReward \<noteq> 0 then
                 (case SubSystemAccBalance L ctx blockReward of Inl e \<Rightarrow> Inl PanicErr | Inr ctx \<Rightarrow> Inr ctx)
               else Inr ctx) (\<lambda>ctx.
        if currHeight app \<noteq> 1 then
          bindG (DistributeFee (lib_evm L) (lib_codec L) ctx (readonlyInfo app) (Some blockReward)
                   (pubkey_at m (lastProposer app)) voters) (\<lambda>(ctx, ro).
            Inr (app\<lparr>trunk := ctx, readonlyInfo := ro\<rparr>))
        else
          bindG (LoadReadonlyValiatorsInfo (lib_evm L) (lib_codec L) ctx) (\<lambda>info.
            Inr (app\<lparr>trunk := ctx, readonlyInfo := Some info\<rparr>)))))"

section \<open>Recording and publishing a block\<close>

definition sep206Addr :: address where "sep206Addr = 0x2711"

definition getSep206SenderSet :: "('c, 'a, 'e, 'x, 't) lib \<Rightarrow> 'x \<Rightarrow> address set" where
  "getSep206SenderSet L x =
     set (concat (map (\<lambda>tx. concat (map (\<lambda>log.
       if log_Address log = sep206Addr \<and> length (log_Topics log) = 2 \<and> log_Topics log ! 0 = TransferEvent L
       then [copy_array 20 0 (drop 12 (be_bytes 32 (log_Topics log ! 1)))] else []) (tx_Logs tx)))
       (CommittedTxs L x)))"

definition modb_tx :: "('c, 'a, 'e, 'x, 't) lib \<Rightarrow> Log Transaction \<Rightarrow> modb_Tx go" where
  "modb_tx L tx = (case Tx_MarshalMsg L tx of
       Inl e \<Rightarrow> Inl PanicErr
     | Inr txContent \<Rightarrow>
         Inr \<lparr>mtx_HashId = tx_Hash tx, mtx_SrcAddr = tx_From tx, mtx_DstAddr = tx_To tx, mtx_Content = txContent,
              mtx_LogList = map (\<lambda>l. (log_Address l, log_Topics l)) (tx_Logs tx)\<rparr>)"

definition collectAllGethLogs :: "modb_Block \<Rightarrow> Log list" where
  "collectAllGethLogs mdbBlock =
     concat (map (\<lambda>mdbTx. map (\<lambda>(a, ts). \<lparr>log_Address = a, log_Topics = ts, log_BlockNumber = 0, log_TxHash = 0\<rparr>)
       (mtx_LogList mdbTx)) (mdb_TxList mdbBlock))"

definition publishNewBlock :: "modb_Block \<Rightarrow> ('c, 'x) App \<Rightarrow> ('c, 'x) App" where
  "publishNewBlock mdbBlock app =
     (let chainEvent = \<lparr>ev_Hash = mdb_BlockHash mdbBlock,
            ev_Header = \<lparr>hdr_Number = mdb_Height mdbBlock, hdr_BlockHash = mdb_BlockHash mdbBlock, hdr_Bloom = 0\<rparr>,
            ev_Block = mdbBlock, ev_Logs = collectAllGethLogs mdbBlock\<rparr>;
          app = app\<lparr>chainFeed := chainFeed app @ [chainEvent]\<rparr>
      in if 0 < length (ev_Logs chainEvent) then app\<lparr>logsFeed := logsFeed app @ [ev_Logs chainEvent]\<rparr> else app)"

definition history_block :: "('c, 'a, 'e, 'x, 't) lib \<Rightarrow> ('c, 'x) App \<Rightarrow> Block \<Rightarrow> modb_Block go" where
  "history_block L app prevBlk =
     (let txs = CommittedTxs L (txEngine app);
          prevBlk = prevBlk\<lparr>blk_StateRoot := blk_StateRoot (block app), blk_GasUsed := lastGasUsed app,
            blk_Transactions := map tx_Hash txs\<rparr>
      in
      case Block_MarshalMsg L prevBlk of
        Inl e \<Rightarrow> Inl PanicErr
      | Inr blkInfo \<Rightarrow>
          bindG (foldG (\<lambda>ts tx. bindG (modb_tx L tx) (\<lambda>t. Inr (ts @ [t]))) [] txs) (\<lambda>txList.
            Inr \<lparr>mdb_Height = blk_Number prevBlk, mdb_BlockHash = blk_Hash prevBlk, mdb_BlockInfo = blkInfo,
                 mdb_TxList = txList\<rparr>))"

definition PruneEveryN :: int where "PruneEveryN = 10"

definition prune :: "Block option \<Rightarrow> ('c, 'x) App \<Rightarrow> ('c, 'x) App" where
  "prune prevBlkInfo app = (case prevBlkInfo of
       None \<Rightarrow> app
     | Some prevBlk \<Rightarrow>
         if sint (blk_Number prevBlk) mod PruneEveryN = 0 \<and> numKeptBlocks app <s blk_Number prevBlk
         then app\<lparr>pruneCalls := pruneCalls app @ [blk_Number prevBlk - numKeptBlocks app]\<rparr> else app)"

definition refresh :: "('c, 'a, 'e, 'x, 't) lib \<Rightarrow> ('c, 'x) App \<Rightarrow> ('c, 'x) App go" where
  "refresh L app =
     (let ctx = trunk app;
          prevBlkInfo = GetCurrBlockBasicInfo L ctx;
          ctx = SetCurrBlockBasicInfo L ctx (block app)
      in
      bindG (LoadMinGasPrice (lib_evm L) ctx False) (\<lambda>mGP.
      bindG (SaveMinGasPrice (lib_evm L) ctx mGP True) (\<lambda>ctx.
      let app = app\<lparr>lastMinGasPrice := mGP, trunk := ctx, rootStore := ctx\<rparr>;
          app = prune prevBlkInfo app;
          appHash = GetRootHash L (rootStore app);
          app = app\<lparr>block := (block app)\<lparr>blk_StateRoot := copy_array 32 (blk_StateRoot (block app)) appHash\<rparr>\<rparr>
      in
      bindG (case prevBlkInfo of
               None \<Rightarrow> Inr app
             | Some prevBlk \<Rightarrow>
                 let app = app\<lparr>sep206SenderSet := getSep206SenderSet L (txEngine app)\<rparr> in
                 bindG (history_block L app prevBlk) (\<lambda>blk.
                   Inr (publishNewBlock blk (app\<lparr>historyStore := historyStore app @ [blk]\<rparr>)))) (\<lambda>app.
      Inr (app\<lparr>recheckCounter := 0, lastProposer := blk_Miner (block app), lastCommitInfo := [],
               checkTrunk := trunk app\<rparr>)))))"

definition syncBlockInfo :: "('c, 'x) App \<Rightarrow> exec_info \<times> ('c, 'x) App" where
  "syncBlockInfo app =
     (let bi = \<lparr>Coinbase = blk_Miner (block app), Number = blk_Number (block app),
                BI_Timestamp = blk_Timestamp (block app), ChainId = chainId app, Hash = blk_Hash (block app)\<rparr>
      in (bi, app\<lparr>blockInfo := Some bi\<rparr>))"

definition postCommit :: "('c, 'a, 'e, 'x, 't) lib \<Rightarrow> exec_info \<Rightarrow> ('c, 'x) App \<Rightarrow> ('c, 'x) App" where
  "postCommit L bi app =
     (let (x, ctx) = Execute L (txEngine app) (trunk app) bi;
          (gasUsed, refund, fee) = GasUsedInfo L x
      in app\<lparr>txEngine := x, trunk := ctx, lastGasUsed := gasUsed, lastGasRefund := refund, lastGasFee := fee\<rparr>)"

section \<open>Commit\<close>

record ResponseCommit =
  rc_Data :: bytes
  RetainHeight :: int64

definition retain_height :: "('c, 'x) App \<Rightarrow> int64" where
  "retain_height app =
     (if 0 <s retainBlocks app \<and> retainBlocks app \<le>s currHeight app \<and> sint (currHeight app) mod 100 = 0
      then currHeight app - retainBlocks app + 1 else 0)"

definition Commit :: "('c, 'a, 'e, 'x, 't) lib \<Rightarrow> ('c, 'x) App \<Rightarrow> (ResponseCommit \<times> ('c, 'x) App) go" where
  "Commit L app =
     bindG (LoadStakingAcc (lib_evm L) (lib_codec L) (trunk app)) (\<lambda>(_, info).
     bindG (commit_epoch L info app) (\<lambda>app.
     let m = pubkeyMapByConsAddr L info in
     bindG (commit_slash L m app) (\<lambda>app.
     bindG (commit_fees L m app) (\<lambda>app.
     let (touched, x, ctx) = Prepare L (txEngine app) (trunk app) (reorderSeed app) (lastMinGasPrice app);
         app = app\<lparr>touchedAddrs := touched, txEngine := x, trunk := ctx\<rparr>
     in
     bindG (refresh L app) (\<lambda>app.
     let (bi, app) = syncBlockInfo app;
         res = \<lparr>rc_Data = be_bytes 32 (blk_StateRoot (block app)), RetainHeight = retain_height app\<rparr>
     in Inr (res, postCommit L bi app))))))"


section \<open>Starting again\<close>

text \<open>
  What \<^verbatim>\<open>NewApp\<close> makes of the block it finds in the world state, and \<^verbatim>\<open>reload\<close>, which executes the
  transactions that the last commit before the restart had prepared.
\<close>

definition zero_Block :: Block where
  "zero_Block = \<lparr>blk_Number = 0, blk_Hash = 0, blk_ParentHash = 0, blk_LogsBloom = 0, blk_TransactionsRoot = 0,
     blk_StateRoot = 0, blk_Miner = 0, blk_Size = 0, blk_GasUsed = 0, blk_Timestamp = 0, blk_Transactions = []\<rparr>"

definition restore_block :: "('c, 'a, 'e, 'x, 't) lib \<Rightarrow> 'c \<Rightarrow> ('c, 'x) App \<Rightarrow> ('c, 'x) App" where
  "restore_block L ctx app = (case GetCurrBlockBasicInfo L ctx of
       None \<Rightarrow> app\<lparr>block := zero_Block\<rparr>
     | Some prevBlk \<Rightarrow> app\<lparr>block := zero_Block\<lparr>blk_Number := blk_Number prevBlk\<rparr>, currHeight := blk_Number prevBlk\<rparr>)"

definition reload :: "('c, 'a, 'e, 'x, 't) lib \<Rightarrow> ('c, 'x) App \<Rightarrow> ('c, 'x) App" where
  "reload L app = (let (bi, app) = syncBlockInfo app in postCommit L bi app)"

definition Info :: "('c, 'a, 'e, 'x, 't) lib \<Rightarrow> ('c, 'x) App \<Rightarrow> int64 \<times> bytes" where
  "Info L app = (blk_Number (block app), GetRootHash L (rootStore app))"

section \<open>What the fees rely on\<close>

text \<open>
  The system account, which collects the gas fees, is an account like the others: its balance can be
  read, and an amount it has can be taken from it, which changes nothing else.
\<close>

definition paid_out :: "('c, 'a, 'e, 'x, 't) lib \<Rightarrow> address \<Rightarrow> 'c \<Rightarrow> u256 \<Rightarrow> 'c \<Rightarrow> bool" where
  "paid_out L sys ctx v ctx' \<longleftrightarrow> bal (lib_evm L) ctx' sys = bal (lib_evm L) ctx sys - v \<and>
     (\<forall>b. b \<noteq> sys \<longrightarrow> GetAccount (lib_evm L) ctx' b = GetAccount (lib_evm L) ctx b) \<and>
     (\<forall>s k. GetStorageAt (lib_evm L) ctx' s k = GetStorageAt (lib_evm L) ctx s k)"

definition system_laws :: "('c, 'a, 'e, 'x, 't) lib \<Rightarrow> address \<Rightarrow> bool" where
  "system_laws L sys \<longleftrightarrow> sys \<noteq> StakingContractAddress \<and>
     (\<forall>ctx. GetSystemBalance L ctx = bal (lib_evm L) ctx sys) \<and>
     (\<forall>ctx v. v \<le> bal (lib_evm L) ctx sys \<longrightarrow>
        (\<exists>ctx'. SubSystemAccBalance L ctx v = Inr ctx' \<and> paid_out L sys ctx v ctx'))"

text \<open>Paying from the system account when the amount is not zero, as the code does twice.\<close>

definition sub_system :: "('c, 'a, 'e, 'x, 't) lib \<Rightarrow> bool \<Rightarrow> 'c \<Rightarrow> u256 \<Rightarrow> 'c go" where
  "sub_system L b ctx v =
     (if b then (case SubSystemAccBalance L ctx v of Inl e \<Rightarrow> Inl PanicErr | Inr ctx \<Rightarrow> Inr ctx) else Inr ctx)"

lemma sub_system_ok:
  assumes "system_laws L sys" and "b \<Longrightarrow> v \<le> bal (lib_evm L) ctx sys"
  shows "\<exists>ctx'. sub_system L b ctx v = Inr ctx' \<and> paid_out L sys ctx (if b then v else 0) ctx'"
proof (cases b)
  case True
  with assms(2) have "v \<le> bal (lib_evm L) ctx sys" .
  with assms(1) obtain ctx' where "SubSystemAccBalance L ctx v = Inr ctx'" "paid_out L sys ctx v ctx'"
    unfolding system_laws_def by blast
  with True show ?thesis by (simp add: sub_system_def)
next
  case False
  then show ?thesis by (simp add: sub_system_def paid_out_def)
qed

lemma paid_out_load:
  assumes "system_laws L sys" and "paid_out L sys ctx v ctx'"
    and "LoadStakingAcc (lib_evm L) M ctx = Inr (acc, info)"
  shows "LoadStakingAcc (lib_evm L) M ctx' = Inr (acc, info)"
proof -
  from assms(1) have "StakingContractAddress \<noteq> sys" by (auto simp: system_laws_def)
  then show ?thesis
    using LoadStakingAcc_account [OF assms(3)] assms(2)
    by (intro LoadStakingAcc_cong [OF assms(3)]) (simp_all add: paid_out_def)
qed

lemma paid_out_bal:
  assumes "paid_out L sys ctx v ctx'" and "v \<le> bal (lib_evm L) ctx sys"
  shows "unat (bal (lib_evm L) ctx' sys) = unat (bal (lib_evm L) ctx sys) - unat v"
  using assms by (simp add: paid_out_def unat_diff_le)

lemma staking_inv_cong:
  assumes "LoadStakingAcc E M ctx' = LoadStakingAcc E M ctx"
  shows "staking_inv E M ctx' = staking_inv E M ctx"
  by (simp add: staking_inv_def assms)

text \<open>The refund the system account pays out, and the reward of a block.\<close>

definition refund_of :: "('c, 'x) App \<Rightarrow> u256" where
  "refund_of app = (if lastGasFee app = 0 then 0 else lastGasRefund app)"

definition reward_of :: "('c, 'a, 'e, 'x, 't) lib \<Rightarrow> ('c, 'x) App \<Rightarrow> u256 \<Rightarrow> u256" where
  "reward_of L app sysB = (if StandbyQLen L (txEngine app) \<noteq> 0 then lastGasFee app else sysB - refund_of app)"

lemma length_commit_voters: "length (commit_voters m cs) = length cs"
proof -
  have "length (snd (foldl (\<lambda>(tmpAddr, voters) c.
     let tmpAddr = copy_array 20 tmpAddr c in (tmpAddr, voters @ [pubkey_at m tmpAddr])) (t, vs) cs)) =
     length vs + length cs" for t vs
    by (induction cs arbitrary: t vs) (simp_all add: Let_def)
  then show ?thesis by (simp add: commit_voters_def)
qed

lemma commit_fees_eq:
  "commit_fees L m app =
     bindG (sub_system L (lastGasFee app \<noteq> 0 \<and> lastGasRefund app \<noteq> 0) (trunk app) (lastGasRefund app)) (\<lambda>ctx.
     let sysB = GetSystemBalance L ctx in
     if sysB < lastGasFee app then Inl (PanicMsg ''system balance not enough!'')
     else
       let blockReward = (if StandbyQLen L (txEngine app) \<noteq> 0 then lastGasFee app else sysB) in
       bindG (sub_system L (blockReward \<noteq> 0) ctx blockReward) (\<lambda>ctx.
       if currHeight app \<noteq> 1 then
         bindG (DistributeFee (lib_evm L) (lib_codec L) ctx (readonlyInfo app) (Some blockReward)
                  (pubkey_at m (lastProposer app)) (commit_voters m (lastCommitInfo app))) (\<lambda>(ctx, ro).
           Inr (app\<lparr>trunk := ctx, readonlyInfo := ro\<rparr>))
       else
         bindG (LoadReadonlyValiatorsInfo (lib_evm L) (lib_codec L) ctx) (\<lambda>info.
           Inr (app\<lparr>trunk := ctx, readonlyInfo := Some info\<rparr>))))"
  unfolding commit_fees_def sub_system_def Let_def by (simp only:)

text \<open>
  (C4) The part of a commit that pays the fees, on a staking state that is well-formed and solvent, when the
  system account holds the refund and the fee of the previous block. At every height but the
  first, if the last proposer is a known validator and the voters are different active validators
  (an unknown one is a nil dereference), and the amounts are not so large that the arithmetic
  wraps around, it neither panics nor makes or loses coins: the system account pays the refund and
  the reward, the staking contract's balance and what it owes grow by exactly the reward, no other
  account changes, and the contract stays well-formed and solvent. The reward is the fee, or all
  that the system account has when no transaction is left in the standby queue. At height one it
  does not panic either, but the reward is lost: the system account pays it and nobody gets it.
\<close>

theorem commit_fees_conserve:
  assumes "evm_laws (lib_evm L)" and "codec_laws (lib_codec L)" and "system_laws L sys"
    and "staking_inv (lib_evm L) (lib_codec L) (trunk app)"
    and "LoadStakingAcc (lib_evm L) (lib_codec L) (trunk app) = Inr (acc, info)"
    and "bal (lib_evm L) (trunk app) sys = sysB"
    and "unat (refund_of app) + unat (lastGasFee app) \<le> unat sysB"
    and "reward_of L app sysB = reward"
    and "currHeight app \<noteq> 1 \<longrightarrow>
      fair_block info reward (pubkey_at m (lastProposer app)) (commit_voters m (lastCommitInfo app))"
    and "unat (Balance (lib_evm L) acc) + unat reward < 2 ^ 256"
    and "length (PendingRewards info) + length (lastCommitInfo app) + 1 < 2 ^ 32"
    and "credited = (if currHeight app = 1 then 0 else unat reward)"
  shows "\<exists>app' acc' info'. commit_fees L m app = Inr app' \<and>
    LoadStakingAcc (lib_evm L) (lib_codec L) (trunk app') = Inr (acc', info') \<and>
    staking_inv (lib_evm L) (lib_codec L) (trunk app') \<and> readonlyInfo app' = Some info' \<and>
    Validators info' = Validators info \<and> owed info' = owed info + credited \<and>
    unat (Balance (lib_evm L) acc') = unat (Balance (lib_evm L) acc) + credited \<and>
    unat (bal (lib_evm L) (trunk app') sys) + unat (refund_of app) + unat reward = unat sysB \<and>
    (\<forall>b. b \<noteq> sys \<and> b \<noteq> StakingContractAddress \<longrightarrow>
       GetAccount (lib_evm L) (trunk app') b = GetAccount (lib_evm L) (trunk app) b)"
proof -
  let ?E = "lib_evm L" and ?M = "lib_codec L" and ?fee = "lastGasFee app"
  let ?b = "?fee \<noteq> 0 \<and> lastGasRefund app \<noteq> 0"
  have refund: "(if ?b then lastGasRefund app else 0) = refund_of app" by (auto simp: refund_of_def)
  have le: "refund_of app \<le> bal ?E (trunk app) sys" using assms(6,7) by (simp add: word_le_nat_alt)
  then have "?b \<Longrightarrow> lastGasRefund app \<le> bal ?E (trunk app) sys" by (simp add: refund_of_def)
  with sub_system_ok [OF assms(3), of ?b "lastGasRefund app" "trunk app", unfolded refund]
  obtain c1 where c1: "sub_system L ?b (trunk app) (lastGasRefund app) = Inr c1"
    "paid_out L sys (trunk app) (refund_of app) c1" by blast
  have b1: "unat (bal ?E c1 sys) = unat sysB - unat (refund_of app)"
    using paid_out_bal [OF c1(2) le] by (simp add: assms(6))
  have sysB: "GetSystemBalance L c1 = sysB - refund_of app" "bal ?E c1 sys = sysB - refund_of app"
    using c1(2) assms(3,6) by (simp_all add: paid_out_def system_laws_def)
  have enough: "?fee \<le> bal ?E c1 sys" unfolding word_le_nat_alt b1 using assms(7) by simp
  then have "\<not> GetSystemBalance L c1 < ?fee" unfolding sysB by (simp add: linorder_not_less)
  note enough = this enough
  have rwd: "(if StandbyQLen L (txEngine app) \<noteq> 0 then ?fee else GetSystemBalance L c1) = reward"
    unfolding sysB using assms(8) by (simp only: reward_of_def)
  then have le2: "reward \<le> bal ?E c1 sys" using enough(2) sysB by (auto split: if_splits)
  have zero: "(if reward \<noteq> 0 then reward else 0) = reward" by simp
  from sub_system_ok [OF assms(3), of "reward \<noteq> 0" reward c1, unfolded zero] le2
  obtain c2 where c2: "sub_system L (reward \<noteq> 0) c1 reward = Inr c2" "paid_out L sys c1 reward c2" by blast
  have load: "LoadStakingAcc ?E ?M c2 = Inr (acc, info)"
    by (rule paid_out_load [OF assms(3) c2(2) paid_out_load [OF assms(3) c1(2) assms(5)]])
  have inv: "staking_inv ?E ?M c2"
    using assms(4) staking_inv_cong [of ?E ?M c2 "trunk app"] by (simp add: load assms(5))
  have sys: "StakingContractAddress \<noteq> sys" using assms(3) by (auto simp: system_laws_def)
  have paid: "unat (bal ?E c2 sys) + unat (refund_of app) + unat reward = unat sysB"
    using paid_out_bal [OF c2(2) le2] le2 le b1 assms(6) by (simp add: word_le_nat_alt)
  have others: "GetAccount ?E c2 b = GetAccount ?E (trunk app) b" if "b \<noteq> sys" for b
    using c1(2) c2(2) that by (simp add: paid_out_def)
  show ?thesis
  proof (cases "currHeight app = 1")
    case True
    then have "commit_fees L m app = Inr (app\<lparr>trunk := c2, readonlyInfo := Some info\<rparr>)"
      unfolding commit_fees_eq c1(1) Let_def bindG_simps if_not_P [OF enough(1)] rwd c2(1)
      by (simp add: LoadReadonlyValiatorsInfo_def load)
    then show ?thesis using load inv paid others assms(12) True by (intro exI) auto
  next
    case height: False
    have len: "length (PendingRewards info) + length (commit_voters m (lastCommitInfo app)) + 1 < 2 ^ 32"
      using assms(11) by (simp add: length_commit_voters)
    from DistributeFee_run [OF assms(1,2) inv load _ assms(10) len, of "pubkey_at m (lastProposer app)" "readonlyInfo app"]
      assms(9) height
    obtain c3 acc' info' where d: "DistributeFee ?E ?M c2 (readonlyInfo app) (Some reward)
        (pubkey_at m (lastProposer app)) (commit_voters m (lastCommitInfo app)) = Inr (c3, Some info')"
      "LoadStakingAcc ?E ?M c3 = Inr (acc', info')" "staking_inv ?E ?M c3" "Validators info' = Validators info"
      "owed info' = owed info + unat reward" "unat (Balance ?E acc') = unat (Balance ?E acc) + unat reward"
      "\<forall>b. b \<noteq> StakingContractAddress \<longrightarrow> GetAccount ?E c3 b = GetAccount ?E c2 b" by blast
    have run: "commit_fees L m app = Inr (app\<lparr>trunk := c3, readonlyInfo := Some info'\<rparr>)"
      unfolding commit_fees_eq c1(1) Let_def bindG_simps if_not_P [OF enough(1)] rwd c2(1) if_P [OF height] d(1)
      by simp
    have "bal ?E c3 sys = bal ?E c2 sys" using d(7) sys by (auto simp: bal_def)
    then show ?thesis using run d(2-7) paid others assms(12) height by (intro exI) auto
  qed
qed

section \<open>Genesis and restart\<close>

lemma createGenesisAccs_account:
  assumes "evm_laws (lib_evm L)" and "a \<notin> fst ` set alloc"
  shows "GetAccount (lib_evm L) (createGenesisAccs L alloc ctx) a = GetAccount (lib_evm L) ctx a"
  using assms(2) unfolding createGenesisAccs_def
  by (induction alloc arbitrary: ctx) (auto simp: Let_def evm_simps [OF assms(1)])

lemma createGenesisAccs_bal:
  assumes "evm_laws (lib_evm L)" and "distinct (map fst alloc)" and "(a, v) \<in> set alloc"
  shows "bal (lib_evm L) (createGenesisAccs L alloc ctx) a = word_of_int v"
  using assms(2,3)
proof (induction alloc arbitrary: ctx)
  case Nil
  then show ?case by simp
next
  case (Cons p alloc)
  obtain b w where p: "p = (b, w)" by fastforce
  let ?ctx = "SetAccount (lib_evm L) ctx b (UpdateBalance (lib_evm L) (ZeroAccountInfo (lib_evm L)) (word_of_int w))"
  have step: "createGenesisAccs L (p # alloc) ctx = createGenesisAccs L alloc ?ctx"
    by (simp add: createGenesisAccs_def p Let_def)
  show ?case
  proof (cases "(a, v) = p")
    case True
    with Cons.prems have "a \<notin> fst ` set alloc" by (auto simp: p)
    from createGenesisAccs_account [OF assms(1) this] True show ?thesis
      unfolding step by (simp add: bal_def p evm_simps [OF assms(1)])
  next
    case False
    with Cons show ?thesis unfolding step by simp
  qed
qed

text \<open>
  (C15) The genesis block stores all the validators of the genesis file and announces the eligible
  ones, and gives every listed account its balance. But the stakes of the validators
  are not backed: the contract's account keeps the balance it had, so the staking state is in
  order only if that balance already covers the sum of the stakes, which the account that
  \<^verbatim>\<open>Init\<close> makes does not unless all stakes are zero.
\<close>

theorem InitChain_stakes_unbacked:
  assumes "evm_laws (lib_evm L)" and "codec_laws (lib_codec L)"
    and "bz \<noteq> []" and "Unmarshal_Genesis L bz = Inr \<lparr>gd_Validators = vals, gd_Alloc = alloc\<rparr>" and "vals \<noteq> []"
    and "StakingContractAddress \<notin> fst ` set alloc" and "distinct (map fst alloc)"
    and "GetAccount (lib_evm L) (trunk app) StakingContractAddress = Some acc" and "currValidators app = []"
    and "storable_info \<lparr>CurrEpochNum = 0, Validators = vals, PendingRewards = []\<rparr>"
  shows "\<exists>res app'. InitChain L app bz = Inr (res, app') \<and>
    ic_Validators res = map (\<lambda>v. (Pubkey v, VotingPower v)) (filter (eligible MinimumStakingAmount) vals) \<and>
    LoadStakingAcc (lib_evm L) (lib_codec L) (trunk app') =
      Inr (acc, \<lparr>CurrEpochNum = 0, Validators = vals, PendingRewards = []\<rparr>) \<and>
    (\<forall>(a, v) \<in> set alloc. bal (lib_evm L) (trunk app') a = word_of_int v) \<and>
    (staking_inv (lib_evm L) (lib_codec L) (trunk app') \<longrightarrow>
       (\<Sum>v\<leftarrow>vals. unat (StakedCoins v)) \<le> unat (Balance (lib_evm L) acc))"
proof -
  let ?E = "lib_evm L" and ?M = "lib_codec L"
  let ?info = "\<lparr>CurrEpochNum = 0, Validators = vals, PendingRewards = []\<rparr>"
  let ?ctx = "createGenesisAccs L alloc (trunk app)"
  let ?app = "app\<lparr>trunk := SaveStakingInfo ?E ?M ?ctx acc ?info, currValidators := filter (eligible MinimumStakingAmount) vals\<rparr>"
  have acc: "GetAccount ?E ?ctx StakingContractAddress = Some acc"
    by (simp add: createGenesisAccs_account [OF assms(1,6)] assms(8))
  let ?res = "\<lparr>MaxBytes = BlockMaxBytes, MaxGas = BlockMaxGas,
    ic_Validators = validator_updates (filter (eligible MinimumStakingAmount) vals)\<rparr>"
  have run: "InitChain L app bz = Inr (?res, ?app)"
    using assms(3-5,9) by (simp add: InitChain_def acc genesis_rewards_def Let_def)
  have load: "LoadStakingAcc ?E ?M (trunk ?app) = Inr (acc, ?info)"
    by (simp add: LoadStakingAcc_Save [OF assms(1,2,10) acc])
  moreover have "\<forall>(a, v) \<in> set alloc. bal ?E (trunk ?app) a = word_of_int v"
    using createGenesisAccs_bal [OF assms(1,7)] by (auto simp: bal_SaveStakingInfo [OF assms(1)])
  moreover have "staking_inv ?E ?M (trunk ?app) \<longrightarrow> (\<Sum>v\<leftarrow>vals. unat (StakedCoins v)) \<le> unat (Balance ?E acc)"
    using load by (simp add: staking_inv_def owed_def staked_total_def pending_total_def)
  moreover have "ic_Validators ?res = map (\<lambda>v. (Pubkey v, VotingPower v)) (filter (eligible MinimumStakingAmount) vals)"
    by (simp add: validator_updates_def)
  ultimately show ?thesis using run by blast
qed

text \<open>
  (C16) A restarted node does not execute the prepared transactions in the block they belong to.
  A running node passes the proposer, the time and the hash of the block to the engine after a
  commit; a node that starts on the same world state passes only the number of the block, and
  the two agree only when the other three are zero.
\<close>

theorem reload_forgets_block:
  assumes "GetCurrBlockBasicInfo L (trunk app) = Some b" and "blk_Number b = blk_Number (block app)"
  shows "(let app' = postCommit L (fst (syncBlockInfo app)) (snd (syncBlockInfo app)) in (txEngine app', trunk app')) =
      Execute L (txEngine app) (trunk app) \<lparr>Coinbase = blk_Miner (block app), Number = blk_Number (block app),
        BI_Timestamp = blk_Timestamp (block app), ChainId = chainId app, Hash = blk_Hash (block app)\<rparr> \<and>
    (let app' = reload L (restore_block L (trunk app) app) in (txEngine app', trunk app')) =
      Execute L (txEngine app) (trunk app) \<lparr>Coinbase = 0, Number = blk_Number (block app),
        BI_Timestamp = 0, ChainId = chainId app, Hash = 0\<rparr> \<and>
    (fst (syncBlockInfo (restore_block L (trunk app) app)) = fst (syncBlockInfo app) \<longleftrightarrow>
       blk_Miner (block app) = 0 \<and> blk_Timestamp (block app) = 0 \<and> blk_Hash (block app) = 0)"
  using assms
  by (auto simp: reload_def restore_block_def syncBlockInfo_def zero_Block_def postCommit_def Let_def split: prod.split)

text \<open>
  The fee of a block goes to the proposer of the next one. \<^verbatim>\<open>BeginBlock\<close> replaces the proposer
  that the previous commit recorded, so what that commit recorded has no influence on how the
  next commit distributes the fee; the key that is rewarded is the one of the block under way.
\<close>

lemma BeginBlock_replaces_proposer:
  assumes "length (ProposerAddress req) = 20"
  shows "commit_fees L m (BeginBlock (app\<lparr>lastProposer := p\<rparr>) req) = commit_fees L m (BeginBlock app req) \<and>
    pubkey_at m (lastProposer (BeginBlock app req)) = pubkey_at m (blk_Miner (block (BeginBlock app req)))"
proof -
  have copy: "copy_array 20 a (ProposerAddress req) = copy_array 20 b (ProposerAddress req)" for a b :: address
    using assms by (simp add: copy_array_full)
  then have "BeginBlock (app\<lparr>lastProposer := p\<rparr>) req = BeginBlock app req"
    by (simp add: BeginBlock_def Let_def)
  moreover have "lastProposer (BeginBlock app req) = blk_Miner (block (BeginBlock app req))"
    using copy by (simp add: BeginBlock_def Let_def)
  ultimately show ?thesis by simp
qed

section \<open>Witnesses\<close>

text \<open>
  The engine is the last block it executed a transaction in; the account \<open>1\<close> is the system account;
  a genesis file lists one validator, whose stake is in the file.
\<close>

definition witness_lib :: "(mem_world, mem_account, unit, exec_info option, unit) lib" where
  "witness_lib = \<lparr>lib_evm = mem_evm, lib_codec = mp_codec, lib_orders = id_orders,
     GetSystemBalance = (\<lambda>ctx. bal mem_evm ctx 1),
     SubSystemAccBalance = (\<lambda>ctx v. case mem_accounts ctx 1 of
        None \<Rightarrow> if v = 0 then Inr ctx else Inl ''no system account''
      | Some acc \<Rightarrow> if mem_balance acc < v then Inl ''not enough'' else Inr (mem_set ctx 1 (acc\<lparr>mem_balance := mem_balance acc - v\<rparr>))),
     GetCurrBlockBasicInfo = (\<lambda>ctx. Some (zero_Block\<lparr>blk_Number := 5\<rparr>)),
     SetCurrBlockBasicInfo = (\<lambda>ctx b. ctx),
     GetRootHash = (\<lambda>ctx. []), PubKey_Address = (\<lambda>k. be_bytes 20 k), Block_MarshalMsg = (\<lambda>b. Inr []),
     Tx_MarshalMsg = (\<lambda>t. Inr []), TransferEvent = 0,
     Unmarshal_Genesis = (\<lambda>bz. Inr \<lparr>gd_Validators = [witness_validator 1 101 3 MinimumStakingAmount],
       gd_Alloc = [(7, 1000)]\<rparr>),
     CollectTx = (\<lambda>x t. x), Prepare = (\<lambda>x c seed p. ({}, x, c)),
     Execute = (\<lambda>x c bi. (Some bi, c)), GasUsedInfo = (\<lambda>x. (0, 0, 0)), StandbyQLen = (\<lambda>x. 1),
     CommittedTxs = (\<lambda>x. [])\<rparr>"

lemma witness_system_laws: "system_laws witness_lib 1"
  by (auto simp: system_laws_def paid_out_def witness_lib_def bal_def mem_evm_def mem_set_def StakingContractAddress_def
      split: option.split)

definition fees_app :: "(mem_world, exec_info option) App" where
  "fees_app = (start_app (witness_world active_witness active_funds) None)\<lparr>lastGasFee := 300, lastGasRefund := 100,
     lastProposer := 101, lastCommitInfo := [be_bytes 20 (101 :: address), be_bytes 20 (102 :: address)],
     block := zero_Block\<lparr>blk_Number := 5, blk_Timestamp := 1627574400\<rparr>\<rparr>"

definition fees_keys :: "address \<rightharpoonup> bytes32" where
  "fees_keys = [101 \<mapsto> 101, 102 \<mapsto> 102]"

lemma fees_fair: "fair_block active_witness 300 101 [101, 102]"
  by (simp add: fair_block_def active_witness_active known_def active_power_def)
    (simp add: active_witness_def witness_validator_def)

lemma copy_address [simp]: "copy_array 20 dst (be_bytes 20 (a :: address)) = a"
  by (rule copy_array_be_bytes) simp

theorem commit_fees_conserve_witness:
  "\<exists>app' acc' info'. commit_fees witness_lib fees_keys fees_app = Inr app' \<and>
     LoadStakingAcc mem_evm mp_codec (trunk app') = Inr (acc', info') \<and> owed info' = owed active_witness + 300 \<and>
     unat (bal mem_evm (trunk app') 1) = 100"
proof -
  let ?acc = "\<lparr>mem_balance = active_funds, mem_sequence = StakingContractSequence\<rparr>"
  have lib: "lib_evm witness_lib = mem_evm" "lib_codec witness_lib = mp_codec" "StandbyQLen witness_lib = (\<lambda>x. 1)"
    by (simp_all add: witness_lib_def)
  have app: "trunk fees_app = witness_world active_witness active_funds" "lastGasFee fees_app = 300"
    "refund_of fees_app = 100" "currHeight fees_app \<noteq> 1" "length (lastCommitInfo fees_app) = 2"
    "pubkey_at fees_keys (lastProposer fees_app) = 101"
    "commit_voters fees_keys (lastCommitInfo fees_app) = [101, 102]"
    by (simp_all add: fees_app_def start_app_def refund_of_def fees_keys_def pubkey_at_def commit_voters_def Let_def)
  have "bal mem_evm (trunk fees_app) 1 = 500" by (simp add: app bal_def witness_world_account) (simp add: mem_evm_def)
  moreover have "unat (refund_of fees_app) + unat (lastGasFee fees_app) \<le> unat (500 :: u256)"
    "reward_of witness_lib fees_app 500 = 300"
    "unat (Balance mem_evm ?acc) + unat (300 :: u256) < 2 ^ 256"
    "length (PendingRewards active_witness) + length (lastCommitInfo fees_app) + 1 < 2 ^ 32"
    by (simp_all add: app lib reward_of_def mem_evm_def active_funds_def active_witness_def)
  ultimately show ?thesis
    using commit_fees_conserve [of witness_lib 1 fees_app ?acc active_witness 500 300 fees_keys, unfolded lib app(1,6,7),
        OF mem_evm_laws mp_codec_laws witness_system_laws active_witness_inv(3)
          witness_world_load [OF active_witness_inv(2)] _ _ _ impI [OF fees_fair] _ _ refl]
    app(4) by (auto simp: app)
qed

theorem InitChain_stakes_unbacked_witness:
  "\<exists>res app'. InitChain witness_lib (start_app (Init mem_evm mem_empty) None) [1] = Inr (res, app') \<and>
     ic_Validators res = [(101, 3)] \<and> \<not> staking_inv mem_evm mp_codec (trunk app')"
proof -
  let ?acc = "\<lparr>mem_balance = 0, mem_sequence = StakingContractSequence\<rparr>"
  let ?vals = "[witness_validator 1 101 3 MinimumStakingAmount]" and ?app = "start_app (Init mem_evm mem_empty) None"
  have lib: "lib_evm witness_lib = mem_evm" "lib_codec witness_lib = mp_codec"
    "Unmarshal_Genesis witness_lib [1] = Inr \<lparr>gd_Validators = ?vals, gd_Alloc = [(7, 1000)]\<rparr>"
    by (simp_all add: witness_lib_def)
  have "GetAccount mem_evm (trunk ?app) StakingContractAddress = Some ?acc" "currValidators ?app = []"
    "storable_info \<lparr>CurrEpochNum = 0, Validators = ?vals, PendingRewards = []\<rparr>"
    "StakingContractAddress \<notin> fst ` set [(7 :: address, 1000 :: int)]" "distinct (map fst [(7 :: address, 1000 :: int)])"
    "?vals \<noteq> []" "[1 :: byte] \<noteq> []"
    by (simp_all add: start_app_def Init_def mem_evm_def mem_empty_def mem_set_def mem_zero_def storable_info_def
        witness_validator_def StakingContractAddress_def)
  note facts = this
  from InitChain_stakes_unbacked [of witness_lib "[1]" ?vals "[(7, 1000)]" ?app ?acc, unfolded lib,
      OF mem_evm_laws mp_codec_laws facts(7) refl facts(6,4,5,1,2,3)]
  obtain res app' where run: "InitChain witness_lib ?app [1] = Inr (res, app')"
    "ic_Validators res = map (\<lambda>v. (Pubkey v, VotingPower v)) (filter (eligible MinimumStakingAmount) ?vals)"
    and inv: "staking_inv mem_evm mp_codec (trunk app') \<longrightarrow>
      (\<Sum>v\<leftarrow>?vals. unat (StakedCoins v)) \<le> unat (Balance mem_evm ?acc)" by blast
  have "map (\<lambda>v. (Pubkey v, VotingPower v)) (filter (eligible MinimumStakingAmount) ?vals) = [(101, 3)]"
    "\<not> (\<Sum>v\<leftarrow>?vals. unat (StakedCoins v)) \<le> unat (Balance mem_evm ?acc)"
    by (simp_all add: eligible_def witness_validator_def word_sless_alt MinimumStakingAmount_def mem_evm_def)
  with run inv show ?thesis by auto
qed

theorem reload_forgets_block_witness:
  "txEngine (reload witness_lib (restore_block witness_lib (trunk fees_app) fees_app)) =
     Some \<lparr>Coinbase = 0, Number = 5, BI_Timestamp = 0, ChainId = 1, Hash = 0\<rparr> \<and>
   fst (syncBlockInfo (restore_block witness_lib (trunk fees_app) fees_app)) \<noteq> fst (syncBlockInfo fees_app)"
proof -
  have "GetCurrBlockBasicInfo witness_lib (trunk fees_app) = Some (zero_Block\<lparr>blk_Number := 5\<rparr>)"
    "blk_Number (zero_Block\<lparr>blk_Number := 5\<rparr>) = blk_Number (block fees_app)"
    by (simp_all add: witness_lib_def fees_app_def)
  from reload_forgets_block [OF this] show ?thesis
    by (simp add: Let_def witness_lib_def fees_app_def start_app_def zero_Block_def)
qed

end
