(* ===== verification/Eth_Api.thy ===== *)
theory Eth_Api
  imports Api_Backend App_Mempool Bch_Rpc
begin

text \<open>
  The JSON-RPC namespaces \<^verbatim>\<open>eth\<close> and \<^verbatim>\<open>sbch\<close> (\<^verbatim>\<open>rpc/api/eth_api.go\<close>, \<^verbatim>\<open>eth_api_utils.go\<close>, \<^verbatim>\<open>sbch_api.go\<close>,
  \<^verbatim>\<open>errors.go\<close>) over the backend of \<^verbatim>\<open>api/backend.go\<close>, and the helpers of \<^verbatim>\<open>internal/ethutils\<close> they use.
  Keys and Ethereum transactions belong to go-ethereum, the mempool to tendermint, running a call to
  \<^verbatim>\<open>moeingevm\<close>: they are the fields of \<open>keylib\<close>, \<open>mempool\<close> and \<open>caller\<close>. A result that is a JSON object is a
  map from names to values; an object, number or transaction that may be nil is an option. Text is a
  list of characters below 256.
\<close>

section \<open>The libraries as parameters\<close>

record ('k, 't) keylib =
  ToECDSA :: "bytes \<Rightarrow> string + 'k"
  PubkeyToAddress :: "'k \<Rightarrow> address"
  NewTransaction :: "uint64 \<Rightarrow> address \<Rightarrow> int option \<Rightarrow> uint64 \<Rightarrow> int \<Rightarrow> bytes \<Rightarrow> 't"
  NewContractCreation :: "uint64 \<Rightarrow> int option \<Rightarrow> uint64 \<Rightarrow> int \<Rightarrow> bytes \<Rightarrow> 't"
  signer_Hash :: "int \<Rightarrow> 't \<Rightarrow> bytes32"
  crypto_Sign :: "bytes32 \<Rightarrow> 'k \<Rightarrow> string + bytes"
  WithSignature :: "'t \<Rightarrow> int \<Rightarrow> bytes \<Rightarrow> string + 't"
  EncodeRLP :: "'t \<Rightarrow> string + bytes"
  DecodeErr :: "bytes \<Rightarrow> string"
  HexToHash :: "string \<Rightarrow> bytes32"
  Address_Hex :: "address \<Rightarrow> string"

record 's mempool =
  mp_CheckTx :: "'s \<Rightarrow> bytes \<Rightarrow> (string + ResponseCheckTx) \<times> 's"
  tm_Hash :: "bytes \<Rightarrow> bytes"
  resp_String :: "ResponseCheckTx \<Rightarrow> string"

record 't caller =
  RunTxForRpc :: "'t \<Rightarrow> address \<Rightarrow> bool \<Rightarrow> (int \<times> bytes) \<times> int64"
  StatusIsFailure :: "int \<Rightarrow> bool"
  StatusToStr :: "int \<Rightarrow> string"
  UnpackRevert :: "bytes \<Rightarrow> string option"

section \<open>Helpers for keys and transactions\<close>

definition is_space :: "char \<Rightarrow> bool" where
  "is_space c \<longleftrightarrow> of_char c \<in> {9, 10, 11, 12, 13, 32, 0x85, 0xa0 :: nat}"

definition TrimSpace :: "string \<Rightarrow> string" where
  "TrimSpace s = rev (dropWhile is_space (rev (dropWhile is_space s)))"

definition TrimPrefix :: "string \<Rightarrow> string \<Rightarrow> string" where
  "TrimPrefix s pre = (if take (length pre) s = pre then drop (length pre) s else s)"

definition HexToPrivKey :: "('k, 't) keylib \<Rightarrow> string \<Rightarrow> 'k option \<times> bytes \<times> go_error option" where
  "HexToPrivKey K key =
     (let key = TrimPrefix (TrimSpace key) ''0x'' in
      case hex_DecodeString key of
        (_, Some e) \<Rightarrow> (None, [], Some e)
      | (data, None) \<Rightarrow>
          (case ToECDSA K data of
             Inl e \<Rightarrow> (None, data, Some (LibError e))
           | Inr privKey \<Rightarrow> (Some privKey, data, None)))"

definition HexToPubKey :: "string \<Rightarrow> bytes \<times> bytes \<times> go_error option" where
  "HexToPubKey key =
     (let key = TrimPrefix (TrimSpace key) ''0x'' in
      case hex_DecodeString key of (_, Some e) \<Rightarrow> ([], [], Some e) | (data, None) \<Rightarrow> (data, data, None))"

definition SignTx :: "('k, 't) keylib \<Rightarrow> 't \<Rightarrow> int \<Rightarrow> 'k \<Rightarrow> string + 't" where
  "SignTx K tx chainID key =
     (let txHash = signer_Hash K chainID tx in
      bindG (crypto_Sign K txHash key) (\<lambda>sig. WithSignature K tx chainID sig))"

definition EncodeTx :: "('k, 't) keylib \<Rightarrow> 't \<Rightarrow> string + bytes" where
  "EncodeTx K tx = bindG (EncodeRLP K tx) (\<lambda>buf. Inr buf)"

definition BytesToHash :: "bytes \<Rightarrow> bytes32" where
  "BytesToHash b = be_word (drop (length b - 32) b)"

section \<open>Sending to the mempool\<close>

definition broadcastTxSync :: "'s mempool \<Rightarrow> 's \<Rightarrow> bytes \<Rightarrow> (bytes32 \<times> string option) \<times> 's" where
  "broadcastTxSync MP s tx =
     (case mp_CheckTx MP s tx of
        (Inl e, s) \<Rightarrow> ((0, Some e), s)
      | (Inr r, s) \<Rightarrow>
          if resp_Code r \<noteq> CodeTypeOK then ((0, Some (resp_String MP r)), s)
          else ((BytesToHash (tm_Hash MP tx), None), s))"

definition SendRawTx :: "'s mempool \<Rightarrow> 's \<Rightarrow> bytes \<Rightarrow> (bytes32 \<times> string option) \<times> 's" where
  "SendRawTx MP s signedTx = broadcastTxSync MP s signedTx"

section \<open>Arguments and results\<close>

definition DefaultGasPrice :: int where "DefaultGasPrice = 20000000000"
definition DefaultRPCGasLimit :: uint64 where "DefaultRPCGasLimit = 10000000"
definition blockGasLimit :: uint64 where "blockGasLimit = 200000000"
definition defaultErrorCode :: int where "defaultErrorCode = - 32000"
definition protocolVersion :: int where "protocolVersion = 63"

record SendTxArgs =
  sa_From :: address
  sa_To :: "address option"
  sa_Gas :: "uint64 option"
  sa_GasPrice :: "int option"
  sa_Value :: "int option"
  sa_Nonce :: "uint64 option"
  sa_Data :: "bytes option"
  sa_Input :: "bytes option"

record CallArgs =
  ca_From :: "address option"
  ca_To :: "address option"
  ca_Gas :: "uint64 option"
  ca_GasPrice :: "int option"
  ca_Value :: "int option"
  ca_Data :: "bytes option"

record rpc_Transaction =
  rt_BlockHash :: bytes32
  rt_BlockNumber :: int
  rt_From :: address
  rt_Gas :: uint64
  rt_GasPrice :: int
  rt_Hash :: bytes32
  rt_Input :: bytes
  rt_Nonce :: uint64
  rt_To :: address
  rt_TransactionIndex :: uint64
  rt_Value :: int
  rt_VRS :: "(int \<times> int \<times> int) option"

datatype rpc_value =
    VUint64 uint64
  | VBytes bytes
  | VHash bytes32
  | VAddress address
  | VBloom Bloom
  | VHashes "bytes32 list"
  | VTransactions "rpc_Transaction list"
  | VLogs "Log list"
  | VStrings "string list"
  | VString string
  | VNil

type_synonym rpc_object = "string \<rightharpoonup> rpc_value"

datatype call_error = CallError string int | RevertError string string

definition txToRpcResp :: "'l Transaction \<Rightarrow> rpc_Transaction" where
  "txToRpcResp tx = \<lparr>rt_BlockHash = tx_BlockHash tx, rt_BlockNumber = sint (tx_BlockNumber tx), rt_From = tx_From tx,
     rt_Gas = txd_Gas tx, rt_GasPrice = uint (txd_GasPrice tx), rt_Hash = tx_Hash tx,
     rt_Input = txd_Input tx, rt_Nonce = txd_Nonce tx, rt_To = tx_To tx, rt_TransactionIndex = tx_TransactionIndex tx,
     rt_Value = uint (txd_Value tx), rt_VRS = None\<rparr>"

definition txsToRpcResp :: "'l Transaction list \<Rightarrow> rpc_Transaction list" where
  "txsToRpcResp txs = map txToRpcResp txs"

definition blockToRpcResp :: "Block \<Rightarrow> 'l Transaction list \<Rightarrow> rpc_object" where
  "blockToRpcResp blk txs =
     (let result = [
            ''number'' \<mapsto> VUint64 (blk_Number blk),
            ''hash'' \<mapsto> VBytes (be_bytes 32 (blk_Hash blk)),
            ''parentHash'' \<mapsto> VBytes (be_bytes 32 (blk_ParentHash blk)),
            ''nonce'' \<mapsto> VBytes (replicate 8 0),
            ''sha3Uncles'' \<mapsto> VHash 0,
            ''logsBloom'' \<mapsto> VBloom 0,
            ''transactionsRoot'' \<mapsto> VBytes (be_bytes 32 (blk_TransactionsRoot blk)),
            ''stateRoot'' \<mapsto> VBytes (be_bytes 32 (blk_StateRoot blk)),
            ''miner'' \<mapsto> VBytes (be_bytes 20 (blk_Miner blk)),
            ''mixHash'' \<mapsto> VHash 0,
            ''difficulty'' \<mapsto> VUint64 0,
            ''totalDifficulty'' \<mapsto> VUint64 0,
            ''extraData'' \<mapsto> VBytes [],
            ''size'' \<mapsto> VUint64 (blk_Size blk),
            ''gasLimit'' \<mapsto> VUint64 blockGasLimit,
            ''gasUsed'' \<mapsto> VUint64 (blk_GasUsed blk),
            ''timestamp'' \<mapsto> VUint64 (blk_Timestamp blk),
            ''transactions'' \<mapsto> VHashes (blk_Transactions blk),
            ''uncles'' \<mapsto> VStrings [],
            ''receiptsRoot'' \<mapsto> VHash 0]
      in if 0 < length txs then result(''transactions'' \<mapsto> VTransactions (map txToRpcResp txs)) else result)"

fun all_zero :: "bytes \<Rightarrow> bool" where
  "all_zero [] = True"
| "all_zero (b # bs) = (if b \<noteq> 0 then False else all_zero bs)"

definition isZeroAddress :: "address \<Rightarrow> bool" where
  "isZeroAddress addr = all_zero (be_bytes 20 addr)"

definition ReceiptStatusFailed :: uint64 where "ReceiptStatusFailed = 0"

definition txToReceiptRpcResp :: "'l history \<Rightarrow> 'l Transaction \<Rightarrow> rpc_object" where
  "txToReceiptRpcResp H tx =
     (let resp = [
            ''transactionHash'' \<mapsto> VHash (tx_Hash tx),
            ''transactionIndex'' \<mapsto> VUint64 (tx_TransactionIndex tx),
            ''blockHash'' \<mapsto> VHash (tx_BlockHash tx),
            ''blockNumber'' \<mapsto> VUint64 (tx_BlockNumber tx),
            ''from'' \<mapsto> VAddress (tx_From tx),
            ''to'' \<mapsto> VAddress (tx_To tx),
            ''cumulativeGasUsed'' \<mapsto> VUint64 (txd_CumulativeGasUsed tx),
            ''contractAddress'' \<mapsto> VNil,
            ''gasUsed'' \<mapsto> VUint64 (txd_GasUsed tx),
            ''logs'' \<mapsto> VLogs (ToGethLogs H (tx_Logs tx)),
            ''logsBloom'' \<mapsto> VBytes (be_bytes 256 (txd_LogsBloom tx)),
            ''status'' \<mapsto> VUint64 (txd_Status tx)];
          resp = (if \<not> isZeroAddress (txd_ContractAddress tx)
                  then resp(''contractAddress'' \<mapsto> VAddress (txd_ContractAddress tx)) else resp)
      in if txd_Status tx = ReceiptStatusFailed then resp(''statusStr'' \<mapsto> VString (txd_StatusStr tx)) else resp)"

definition txsToReceiptRpcResp :: "'l history \<Rightarrow> 'l Transaction list \<Rightarrow> rpc_object list" where
  "txsToReceiptRpcResp H txs = map (txToReceiptRpcResp H) txs"

section \<open>Accounts\<close>

text \<open>The comparison of two addresses byte by byte, and sorting with it.\<close>

fun bytes_less :: "bytes \<Rightarrow> bytes \<Rightarrow> bool" where
  "bytes_less (a # as) (b # bs) = (if a < b then True else if b < a then False else bytes_less as bs)"
| "bytes_less _ _ = False"

definition addr_less :: "address \<Rightarrow> address \<Rightarrow> bool" where
  "addr_less a b = bytes_less (be_bytes 20 a) (be_bytes 20 b)"

fun insert_by :: "('a \<Rightarrow> 'a \<Rightarrow> bool) \<Rightarrow> 'a \<Rightarrow> 'a list \<Rightarrow> 'a list" where
  "insert_by lt x [] = [x]"
| "insert_by lt x (y # ys) = (if lt y x then y # insert_by lt x ys else x # y # ys)"

definition sort_Slice :: "('a \<Rightarrow> 'a \<Rightarrow> bool) \<Rightarrow> 'a list \<Rightarrow> 'a list" where
  "sort_Slice lt xs = foldr (insert_by lt) xs []"

definition loadTestAccounts :: "('k, 't) keylib \<Rightarrow> string list \<Rightarrow> (address \<times> 'k) list" where
  "loadTestAccounts K testKeys = foldl (\<lambda>accs testKey.
     case HexToPrivKey K testKey of
       (Some key, _, None) \<Rightarrow> AList.update (PubkeyToAddress K key) key accs
     | _ \<Rightarrow> accs) [] testKeys"

definition eth_Accounts :: "(address list \<Rightarrow> address list) \<Rightarrow> (address \<times> 'k) list \<Rightarrow> address list" where
  "eth_Accounts order accounts = sort_Slice addr_less (order (map fst accounts))"

section \<open>Reading the chain\<close>

definition eth_BlockNumber :: "'l apiBackend \<Rightarrow> uint64" where
  "eth_BlockNumber B = LatestHeight B"

definition eth_Coinbase :: address where "eth_Coinbase = 0"

definition eth_GasPrice :: int where "eth_GasPrice = 0"

definition eth_GetBalance :: "('c, 'a) rpc_state \<Rightarrow> address \<Rightarrow> int64 \<Rightarrow> string + int" where
  "eth_GetBalance R addr blockNum =
     (case backend_GetBalance R addr LatestBlockNumber of
        Inl e \<Rightarrow> if e = ErrAccNotFound R then Inr 0 else Inl e
      | Inr b \<Rightarrow> Inr b)"

definition eth_GetCode :: "('c, 'a) rpc_state \<Rightarrow> address \<Rightarrow> int64 \<Rightarrow> bytes" where
  "eth_GetCode R addr blockNum = fst (backend_GetCode R addr LatestBlockNumber)"

definition eth_GetStorageAt ::
  "('k, 't) keylib \<Rightarrow> ('c, 'a) rpc_state \<Rightarrow> address \<Rightarrow> string \<Rightarrow> int64 \<Rightarrow> bytes option" where
  "eth_GetStorageAt K R addr key blockNum =
     backend_GetStorageAt R addr (be_bytes 32 (HexToHash K key)) LatestBlockNumber"

definition eth_GetTransactionCount :: "('c, 'a) rpc_state \<Rightarrow> address \<Rightarrow> int64 \<Rightarrow> string + uint64" where
  "eth_GetTransactionCount R addr blockNum = backend_GetNonce R addr"

definition getBlockByNum :: "'l apiBackend \<Rightarrow> int64 \<Rightarrow> Block option \<times> string option" where
  "getBlockByNum B blockNum =
     (let height = blockNum in if height \<le>s 0 then CurrentBlock B else BlockByNumber B height)"

text \<open>The common part of \<^verbatim>\<open>GetBlockByHash\<close> and \<^verbatim>\<open>GetBlockByNumber\<close>, after the block has been looked up.\<close>

definition block_response ::
  "'l apiBackend \<Rightarrow> bool \<Rightarrow> Block option \<times> string option \<Rightarrow> (string + rpc_object option) go" where
  "block_response B fullTx r =
     (case r of
        (_, Some e) \<Rightarrow> Inr (if e = ErrBlockNotFound (hist B) then Inr None else Inl e)
      | (None, None) \<Rightarrow> Inl NilDeref
      | (Some blk, None) \<Rightarrow>
          Inr (bindG (if fullTx then backend_GetTxListByHeight B (ucast (blk_Number blk)) else Inr [])
                 (\<lambda>txs. Inr (Some (blockToRpcResp blk txs)))))"

definition eth_GetBlockByHash :: "'l apiBackend \<Rightarrow> bytes32 \<Rightarrow> bool \<Rightarrow> (string + rpc_object option) go" where
  "eth_GetBlockByHash B hash fullTx = block_response B fullTx (BlockByHash B hash)"

definition eth_GetBlockByNumber :: "'l apiBackend \<Rightarrow> int64 \<Rightarrow> bool \<Rightarrow> (string + rpc_object option) go" where
  "eth_GetBlockByNumber B blockNum fullTx = block_response B fullTx (getBlockByNum B blockNum)"

definition tx_count :: "Block option \<times> string option \<Rightarrow> uint64 option go" where
  "tx_count r = (case r of
       (_, Some e) \<Rightarrow> Inr None
     | (None, None) \<Rightarrow> Inl NilDeref
     | (Some blk, None) \<Rightarrow> Inr (Some (of_nat (length (blk_Transactions blk)))))"

definition GetBlockTransactionCountByHash :: "'l apiBackend \<Rightarrow> bytes32 \<Rightarrow> uint64 option go" where
  "GetBlockTransactionCountByHash B hash = tx_count (BlockByHash B hash)"

definition GetBlockTransactionCountByNumber :: "'l apiBackend \<Rightarrow> int64 \<Rightarrow> uint64 option go" where
  "GetBlockTransactionCountByNumber B blockNum = tx_count (getBlockByNum B blockNum)"

definition eth_GetTransactionByHash :: "'l apiBackend \<Rightarrow> bytes32 \<Rightarrow> string + rpc_Transaction option" where
  "eth_GetTransactionByHash B hash =
     (case backend_GetTransaction B hash of
        (_, _, _, _, Some e) \<Rightarrow> Inl e
      | (tx, _, _, _, None) \<Rightarrow> Inr (map_option txToRpcResp tx))"

definition getTxByIdx :: "'l apiBackend \<Rightarrow> Block \<Rightarrow> uint64 \<Rightarrow> string + rpc_Transaction option" where
  "getTxByIdx B blk idx =
     (if of_nat (length (blk_Transactions blk)) \<le> idx then Inr None
      else
        (let txHash = blk_Transactions blk ! unat idx in
         case backend_GetTransaction B txHash of
           (_, _, _, _, Some e) \<Rightarrow> Inl e
         | (tx, _, _, _, None) \<Rightarrow> Inr (map_option txToRpcResp tx)))"

definition tx_in_block ::
  "'l apiBackend \<Rightarrow> uint64 \<Rightarrow> Block option \<times> string option \<Rightarrow> (string + rpc_Transaction option) go" where
  "tx_in_block B idx r = (case r of
       (_, Some e) \<Rightarrow> Inr (Inl e)
     | (None, None) \<Rightarrow> Inl NilDeref
     | (Some blk, None) \<Rightarrow> Inr (getTxByIdx B blk idx))"

definition GetTransactionByBlockHashAndIndex ::
  "'l apiBackend \<Rightarrow> bytes32 \<Rightarrow> uint64 \<Rightarrow> (string + rpc_Transaction option) go" where
  "GetTransactionByBlockHashAndIndex B hash idx = tx_in_block B idx (BlockByHash B hash)"

definition GetTransactionByBlockNumberAndIndex ::
  "'l apiBackend \<Rightarrow> int64 \<Rightarrow> uint64 \<Rightarrow> (string + rpc_Transaction option) go" where
  "GetTransactionByBlockNumberAndIndex B blockNum idx = tx_in_block B idx (getBlockByNum B blockNum)"

definition GetTransactionReceipt :: "'l apiBackend \<Rightarrow> bytes32 \<Rightarrow> rpc_object option" where
  "GetTransactionReceipt B hash =
     (case backend_GetTransaction B hash of
        (_, _, _, _, Some e) \<Rightarrow> None
      | (tx, _, _, _, None) \<Rightarrow> map_option (txToReceiptRpcResp (hist B)) tx)"

section \<open>Sending and calling\<close>

definition SendRawTransaction ::
  "('k, 't) keylib \<Rightarrow> ('t, 'c, 'a) txlib \<Rightarrow> 's mempool \<Rightarrow> 's \<Rightarrow> bytes \<Rightarrow> (bytes32 \<times> string option) \<times> 's" where
  "SendRawTransaction K T MP s data =
     (case DecodeRLP T data of
        None \<Rightarrow> ((0, Some (DecodeErr K data)), s)
      | Some tx \<Rightarrow>
          (case SendRawTx MP s data of
             ((tmTxHash, Some e), s) \<Rightarrow> ((tmTxHash, Some e), s)
           | ((tmTxHash, None), s) \<Rightarrow> ((tx_hash T tx, None), s)))"

definition createGethTxFromSendTxArgs :: "('k, 't) keylib \<Rightarrow> SendTxArgs \<Rightarrow> string + 't" where
  \<open>createGethTxFromSendTxArgs K args =
     (let amount = sa_Value args;
          gasPrice = (case sa_GasPrice args of None \<Rightarrow> DefaultGasPrice | Some p \<Rightarrow> p)
      in
      case sa_Nonce args of
        None \<Rightarrow> Inl ''no nonce''
      | Some nonce \<Rightarrow>
          if sa_Data args \<noteq> None \<and> sa_Input args \<noteq> None \<and> sa_Data args \<noteq> sa_Input args
          then Inl ''both "data" and "input" are set and not equal. Please use "input" to pass transaction call data''
          else
            let input = (case sa_Input args of
                  Some i \<Rightarrow> i
                | None \<Rightarrow> (case sa_Data args of Some d \<Rightarrow> d | None \<Rightarrow> []))
            in
            if sa_To args = None \<and> length input = 0 then Inl ''contract creation without any data provided''
            else
              let gasLimit = (case sa_Gas args of None \<Rightarrow> DefaultRPCGasLimit | Some g \<Rightarrow> g)
              in case sa_To args of
                   Some to \<Rightarrow> Inr (NewTransaction K nonce to amount gasLimit gasPrice input)
                 | None \<Rightarrow> Inr (NewContractCreation K nonce amount gasLimit gasPrice input))\<close>

definition SendTransaction ::
  "('k, 't) keylib \<Rightarrow> ('t, 'c, 'a) txlib \<Rightarrow> ('c, 'a) rpc_state \<Rightarrow> int \<Rightarrow> (address \<times> 'k) list \<Rightarrow> 's mempool \<Rightarrow> 's \<Rightarrow>
   SendTxArgs \<Rightarrow> (bytes32 \<times> string option) \<times> 's" where
  "SendTransaction K T R chainID accounts MP s args =
     (case map_of accounts (sa_From args) of
        None \<Rightarrow> ((0, Some (''unknown account: '' @ Address_Hex K (sa_From args))), s)
      | Some privKey \<Rightarrow>
          let args = (if sa_Nonce args = None then
                        (case backend_GetNonce R (sa_From args) of
                           Inr nonce \<Rightarrow> args\<lparr>sa_Nonce := Some nonce\<rparr>
                         | Inl e \<Rightarrow> args)
                      else args)
          in
          (case bindG (createGethTxFromSendTxArgs K args) (\<lambda>tx.
                bindG (SignTx K tx chainID privKey) (\<lambda>tx.
                bindG (EncodeTx K tx) (\<lambda>txBytes. Inr (tx, txBytes)))) of
             Inl e \<Rightarrow> ((0, Some e), s)
           | Inr (tx, txBytes) \<Rightarrow>
               (case SendRawTx MP s txBytes of
                  ((tmTxHash, Some e), s) \<Rightarrow> ((tmTxHash, Some e), s)
                | ((tmTxHash, None), s) \<Rightarrow> ((tx_hash T tx, None), s))))"

definition createGethTxFromCallArgs :: "('k, 't) keylib \<Rightarrow> CallArgs \<Rightarrow> 't \<times> address" where
  "createGethTxFromCallArgs K args =
     (let from = (case ca_From args of None \<Rightarrow> 0 | Some a \<Rightarrow> a);
          to = (case ca_To args of None \<Rightarrow> 0 | Some a \<Rightarrow> a);
          val = (case ca_Value args of None \<Rightarrow> 0 | Some v \<Rightarrow> v);
          gasLimit = (case ca_Gas args of None \<Rightarrow> DefaultRPCGasLimit | Some g \<Rightarrow> g);
          gasPrice = (case ca_GasPrice args of None \<Rightarrow> DefaultGasPrice | Some p \<Rightarrow> p);
          data = (case ca_Data args of None \<Rightarrow> [] | Some d \<Rightarrow> d)
      in (NewTransaction K 0 to (Some val) gasLimit gasPrice data, from))"

definition newRevertError :: "'t caller \<Rightarrow> bytes \<Rightarrow> call_error" where
  "newRevertError C retData =
     (let e = (if 0 < length retData
                 then (case UnpackRevert C retData of
                         Some reason \<Rightarrow> ''execution reverted: '' @ reason
                       | None \<Rightarrow> ''execution reverted'')
                 else ''execution reverted'')
      in RevertError e (''0x'' @ hex_EncodeToString retData))"

definition toCallErr :: "'t caller \<Rightarrow> int \<Rightarrow> bytes \<Rightarrow> call_error" where
  "toCallErr C statusCode retData =
     (let statusStr = StatusToStr C statusCode in
      if statusStr = ''revert'' then newRevertError C retData
      else if statusStr = ''invalid-instruction'' then CallError ''invalid opcode'' defaultErrorCode
      else CallError statusStr defaultErrorCode)"

definition eth_ErrorCode :: "call_error \<Rightarrow> int" where
  "eth_ErrorCode e = (case e of CallError _ code \<Rightarrow> code | RevertError _ _ \<Rightarrow> 3)"

definition eth_Call :: "('k, 't) keylib \<Rightarrow> 't caller \<Rightarrow> CallArgs \<Rightarrow> int64 \<Rightarrow> call_error + bytes" where
  "eth_Call K C args blockNr =
     (let (tx, from) = createGethTxFromCallArgs K args;
          ((statusCode, retData), _) = RunTxForRpc C tx from False
      in if \<not> StatusIsFailure C statusCode then Inr retData else Inl (toCallErr C statusCode retData))"

definition eth_EstimateGas :: "('k, 't) keylib \<Rightarrow> 't caller \<Rightarrow> CallArgs \<Rightarrow> call_error + uint64" where
  "eth_EstimateGas K C args =
     (let (tx, from) = createGethTxFromCallArgs K args;
          ((statusCode, retData), gas) = RunTxForRpc C tx from True
      in if \<not> StatusIsFailure C statusCode then Inr gas else Inl (toCallErr C statusCode retData))"

section \<open>The namespace sbch\<close>

definition sbch_GetTxListByHeight :: "'l apiBackend \<Rightarrow> int64 \<Rightarrow> string + rpc_object list" where
  "sbch_GetTxListByHeight B height =
     (let height = (if height = LatestBlockNumber then LatestHeight B else height) in
      bindG (backend_GetTxListByHeight B (ucast height)) (\<lambda>txs. Inr (txsToReceiptRpcResp (hist B) txs)))"

definition prepareHeightRange :: "'l apiBackend \<Rightarrow> int64 \<Rightarrow> int64 \<Rightarrow> uint32 \<times> uint32" where
  "prepareHeightRange B startHeight endHeight =
     (let startHeight = (if startHeight = LatestBlockNumber then LatestHeight B else startHeight);
          endHeight = (if endHeight = LatestBlockNumber then LatestHeight B else endHeight);
          (startHeight, endHeight) =
            (if endHeight <s startHeight then (startHeight + 1, endHeight) else (startHeight, endHeight + 1))
      in (ucast startHeight, ucast endHeight))"

definition sbch_QueryTxBySrc ::
  "'l apiBackend \<Rightarrow> address \<Rightarrow> int64 \<Rightarrow> int64 \<Rightarrow> uint64 \<Rightarrow> string + rpc_Transaction list" where
  "sbch_QueryTxBySrc B addr startHeight endHeight limit =
     (let (s, t) = prepareHeightRange B startHeight endHeight in
      bindG (backend_QueryTxBySrc B addr s t (ucast limit)) (\<lambda>txs. Inr (txsToRpcResp txs)))"

definition sbch_QueryTxByDst ::
  "'l apiBackend \<Rightarrow> address \<Rightarrow> int64 \<Rightarrow> int64 \<Rightarrow> uint64 \<Rightarrow> string + rpc_Transaction list" where
  "sbch_QueryTxByDst B addr startHeight endHeight limit =
     (let (s, t) = prepareHeightRange B startHeight endHeight in
      bindG (backend_QueryTxByDst B addr s t (ucast limit)) (\<lambda>txs. Inr (txsToRpcResp txs)))"

definition sbch_QueryTxByAddr ::
  "'l apiBackend \<Rightarrow> address \<Rightarrow> int64 \<Rightarrow> int64 \<Rightarrow> uint64 \<Rightarrow> string + rpc_Transaction list" where
  "sbch_QueryTxByAddr B addr startHeight endHeight limit =
     (let (s, t) = prepareHeightRange B startHeight endHeight in
      bindG (backend_QueryTxByAddr B addr s t (ucast limit)) (\<lambda>txs. Inr (txsToRpcResp txs)))"

definition sbch_QueryLogs ::
  "'l apiBackend \<Rightarrow> address \<Rightarrow> bytes32 list \<Rightarrow> int64 \<Rightarrow> int64 \<Rightarrow> uint64 \<Rightarrow> string + Log list" where
  "sbch_QueryLogs B addr topics startHeight endHeight limit =
     (let startHeight = (if startHeight = LatestBlockNumber then LatestHeight B else startHeight);
          endHeight = (if endHeight = LatestBlockNumber then LatestHeight B else endHeight)
      in bindG (SbchQueryLogs B addr topics (ucast startHeight) (ucast endHeight) (ucast limit))
           (\<lambda>logs. Inr (ToGethLogs (hist B) logs)))"

definition address_count :: "string \<Rightarrow> int64 \<Rightarrow> int64 \<Rightarrow> uint64" where
  "address_count kind fromAll toAll =
     (let fromCount = (if kind = ''from'' \<or> kind = ''both'' then fromAll else 0);
          toCount = (if kind = ''to'' \<or> kind = ''both'' then toAll else 0)
      in if kind = ''from'' then fromCount
         else if kind = ''to'' then toCount
         else if kind = ''both'' then fromCount + toCount
         else 0)"

definition GetAddressCount :: "'l apiBackend \<Rightarrow> string \<Rightarrow> address \<Rightarrow> uint64" where
  "GetAddressCount B kind addr = address_count kind (GetFromAddressCount B addr) (GetToAddressCount B addr)"

definition GetSep20AddressCount :: "'l apiBackend \<Rightarrow> string \<Rightarrow> address \<Rightarrow> address \<Rightarrow> uint64" where
  "GetSep20AddressCount B kind contract addr =
     address_count kind (GetSep20FromAddressCount B contract addr) (GetSep20ToAddressCount B contract addr)"

section \<open>Comparing bytes and numbers\<close>

lemma be_nat_foldl: "foldl (\<lambda>a b. a * 256 + unat b) x bs = x * 256 ^ length bs + be_nat bs"
proof (induction bs arbitrary: x)
  case Nil
  then show ?case by (simp add: be_nat_def)
next
  case (Cons b bs)
  have "be_nat (b # bs) = foldl (\<lambda>a b. a * 256 + unat b) (unat b) bs" by (simp add: be_nat_def)
  with Cons [of "unat b"] Cons [of "x * 256 + unat b"] show ?case by (simp add: algebra_simps)
qed

lemma be_nat_Cons: "be_nat (b # bs) = unat b * 256 ^ length bs + be_nat bs"
  using be_nat_foldl [of "unat b" bs] by (simp add: be_nat_def)

lemma be_nat_Nil: "be_nat [] = 0"
  by (simp add: be_nat_def)

lemma bytes_less_iff: "length as = length bs \<Longrightarrow> bytes_less as bs \<longleftrightarrow> be_nat as < be_nat bs"
proof (induction as bs rule: list_induct2)
  case Nil
  then show ?case by simp
next
  case (Cons a as b bs)
  have lt: "be_nat as < 256 ^ length bs" "be_nat bs < 256 ^ length bs"
    using be_nat_less [of as] be_nat_less [of bs] Cons.hyps by simp_all
  have step: "unat x * 256 ^ length bs + k < unat y * 256 ^ length bs + l"
    if "unat x < unat y" "k < 256 ^ length bs" for x y :: byte and k l
  proof -
    have "(unat x + 1) * 256 ^ length bs \<le> unat y * 256 ^ length bs" using that(1) by (intro mult_right_mono) simp_all
    with that(2) show ?thesis by simp
  qed
  have same: "unat a = unat b \<longleftrightarrow> a = b" by (rule word_unat_eq_iff [symmetric])
  show ?case
  proof (cases a b rule: linorder_cases)
    case less
    then show ?thesis using step [of a b "be_nat as" "be_nat bs"] lt Cons.hyps by (simp add: be_nat_Cons word_less_nat_alt)
  next
    case equal
    then show ?thesis using Cons by (simp add: be_nat_Cons)
  next
    case greater
    then show ?thesis using step [of b a "be_nat bs" "be_nat as"] lt Cons.hyps by (simp add: be_nat_Cons word_less_nat_alt)
  qed
qed

lemma be_nat_be_bytes20: "be_nat (be_bytes 20 (a :: address)) = unat a"
proof -
  have "unat a < 2 ^ 160" using unsigned_less [of a] by simp
  then show ?thesis by (simp add: be_bytes_def be_nat_nat_be)
qed

lemma addr_less_iff: "addr_less a b \<longleftrightarrow> a < b"
  by (simp add: addr_less_def bytes_less_iff be_nat_be_bytes20 word_less_nat_alt)

lemma all_zero_iff: "all_zero bs \<longleftrightarrow> be_nat bs = 0"
  by (induction bs) (auto simp: be_nat_Cons be_nat_Nil unsigned_eq_0_iff)

lemma isZeroAddress_iff: "isZeroAddress a \<longleftrightarrow> a = 0"
  by (simp add: isZeroAddress_def all_zero_iff be_nat_be_bytes20 unsigned_eq_0_iff)

lemma sort_Slice_less: "sort_Slice (<) xs = sort (xs :: 'a::linorder list)"
proof -
  have "insert_by (<) x ys = insort x ys" for x :: 'a and ys by (induction ys) auto
  then show ?thesis by (induction xs) (simp_all add: sort_Slice_def)
qed

lemma sort_Slice_addresses: "sort_Slice addr_less xs = sort xs"
proof -
  have "addr_less = (<)" by (intro ext) (rule addr_less_iff)
  then show ?thesis by (simp add: sort_Slice_less)
qed

lemma loadTestAccounts_keys:
  "fst ` set (loadTestAccounts K keys) =
     {PubkeyToAddress K k | k t d. t \<in> set keys \<and> HexToPrivKey K t = (Some k, d, None)} \<and>
   distinct (map fst (loadTestAccounts K keys))"
proof (induction keys rule: rev_induct)
  case Nil
  then show ?case by (simp add: loadTestAccounts_def)
next
  case (snoc t keys)
  let ?accs = "loadTestAccounts K keys"
  consider k d where "HexToPrivKey K t = (Some k, d, None)" | "\<nexists>k d. HexToPrivKey K t = (Some k, d, None)" by blast
  then show ?case
  proof cases
    case (1 k d)
    then have "loadTestAccounts K (keys @ [t]) = AList.update (PubkeyToAddress K k) k ?accs"
      by (simp add: loadTestAccounts_def)
    moreover have "fst ` set (AList.update a k ?accs) = insert a (fst ` set ?accs)" for a
      using dom_update [of a k ?accs] by (simp add: dom_map_of_conv_image_fst)
    ultimately show ?thesis using snoc 1 by (auto simp: distinct_update)
  next
    case 2
    then have "loadTestAccounts K (keys @ [t]) = ?accs"
      by (auto simp: loadTestAccounts_def split: option.split prod.split)
    with snoc 2 show ?thesis by auto
  qed
qed

section \<open>Properties\<close>

text \<open>
  \<^verbatim>\<open>eth_accounts\<close> lists the addresses of exactly the valid test keys, each once, in the order of
  their numbers, however Go iterates over the map of accounts and however often a key
  was given: comparing byte by byte is comparing the numbers.
\<close>

lemma Accounts_sorted:
  assumes "\<And>xs. mset (order xs) = mset xs"
  shows "eth_Accounts order (loadTestAccounts K keys) =
    sorted_list_of_set {PubkeyToAddress K k | k t d. t \<in> set keys \<and> HexToPrivKey K t = (Some k, d, None)}"
proof -
  let ?as = "map fst (loadTestAccounts K keys)"
  have "mset (sort (order ?as)) = mset ?as" using assms by simp
  moreover from loadTestAccounts_keys [of K keys] have "distinct ?as" by simp
  ultimately have "distinct (sort (order ?as))" "set (sort (order ?as)) = set ?as"
    using assms by (metis mset_eq_imp_distinct_iff, metis mset_eq_setD)
  then have "sort (order ?as) = sorted_list_of_set (set ?as)"
    by (metis sorted_list_of_set.idem_if_sorted_distinct sorted_sort)
  then show ?thesis using loadTestAccounts_keys [of K keys] by (simp add: eth_Accounts_def sort_Slice_addresses)
qed

text \<open>
  The interface through which blocks are read: what is found under a height is found under its hash.
\<close>

locale block_store =
  fixes by_hash :: "bytes32 \<Rightarrow> Block option \<times> string option"
    and by_height :: "int64 \<Rightarrow> Block option \<times> string option"
    and ok :: bool
  assumes same_block: "ok \<Longrightarrow> by_height n = (Some b, None) \<Longrightarrow> by_hash (blk_Hash b) = (Some b, None)"
begin

lemma views_agree:
  assumes ok and "by_height n = (Some b, None)"
  shows "block_response B fullTx (by_hash (blk_Hash b)) = block_response B fullTx (by_height n)"
    and "tx_count (by_hash (blk_Hash b)) = tx_count (by_height n)"
    and "tx_in_block B idx (by_hash (blk_Hash b)) = tx_in_block B idx (by_height n)"
  using assms by (simp_all add: same_block)

end

definition same_blocks :: "'l apiBackend \<Rightarrow> bool" where
  "same_blocks B \<longleftrightarrow> (\<forall>n b. h_GetBlockByHeight (hist B) n = (Some b, None) \<longrightarrow>
     h_GetBlockByHash (hist B) (blk_Hash b) = (Some b, None))"

lemma getBlockByNum_height:
  assumes "getBlockByNum B n = (Some b, None)"
  shows "\<exists>h. h_GetBlockByHeight (hist B) h = (Some b, None)"
  using assms
  by (auto simp: getBlockByNum_def CurrentBlock_def BlockByNumber_def Let_def split: if_splits prod.splits option.splits)

interpretation backend_blocks: block_store "BlockByHash B" "getBlockByNum B" "same_blocks B" for B
proof
  fix n b
  assume "same_blocks B" and "getBlockByNum B n = (Some b, None)"
  with getBlockByNum_height [of B n b] show "BlockByHash B (blk_Hash b) = (Some b, None)"
    by (auto simp: same_blocks_def BlockByHash_def)
qed

lemma tx_in_block_found:
  assumes "length (blk_Transactions b) < 2 ^ 64"
  shows "i < length (blk_Transactions b) \<Longrightarrow>
      tx_in_block B (of_nat i) (Some b, None) = Inr (eth_GetTransactionByHash B (blk_Transactions b ! i))"
    and "of_nat (length (blk_Transactions b)) \<le> idx \<Longrightarrow> tx_in_block B idx (Some b, None) = Inr (Inr None)"
proof -
  have u: "unat (of_nat k :: uint64) = k" if "k \<le> length (blk_Transactions b)" for k
    using that assms by (simp add: unat_of_nat take_bit_nat_eq_self)
  then show "tx_in_block B (of_nat i) (Some b, None) = Inr (eth_GetTransactionByHash B (blk_Transactions b ! i))"
    if "i < length (blk_Transactions b)"
    using that u [of i] u [of "length (blk_Transactions b)"]
    by (simp add: tx_in_block_def getTxByIdx_def eth_GetTransactionByHash_def word_le_nat_alt)
  show "tx_in_block B idx (Some b, None) = Inr (Inr None)" if "of_nat (length (blk_Transactions b)) \<le> idx"
    using that by (simp add: tx_in_block_def getTxByIdx_def)
qed

text \<open>
  (C32) The views of a block agree: when the store has a block at a height, asking for it by number or
  by hash gives the same answer, the two counts are its number of transactions, and asking for
  its transaction at an index gives what asking for the transaction by its hash gives, or
  nothing beyond the last one. A number that is not positive, so also the tag earliest, which
  is zero, asks for the latest block.
\<close>

theorem block_views_agree:
  assumes "same_blocks B" and "getBlockByNum B n = (Some b, None)" and "length (blk_Transactions b) < 2 ^ 64"
  shows "eth_GetBlockByNumber B n fullTx = eth_GetBlockByHash B (blk_Hash b) fullTx \<and>
    GetBlockTransactionCountByNumber B n = Inr (Some (of_nat (length (blk_Transactions b)))) \<and>
    GetBlockTransactionCountByHash B (blk_Hash b) = GetBlockTransactionCountByNumber B n \<and>
    GetTransactionByBlockHashAndIndex B (blk_Hash b) idx = GetTransactionByBlockNumberAndIndex B n idx \<and>
    (\<forall>i < length (blk_Transactions b). GetTransactionByBlockNumberAndIndex B n (of_nat i) =
       Inr (eth_GetTransactionByHash B (blk_Transactions b ! i))) \<and>
    (of_nat (length (blk_Transactions b)) \<le> idx \<longrightarrow> GetTransactionByBlockNumberAndIndex B n idx = Inr (Inr None)) \<and>
    (n \<le>s 0 \<longrightarrow> (Some b, None) = CurrentBlock B)"
proof -
  have "n \<le>s 0 \<longrightarrow> (Some b, None) = CurrentBlock B"
    using assms(2) by (auto simp: getBlockByNum_def Let_def)
  moreover have "tx_count (Some b, None) = Inr (Some (of_nat (length (blk_Transactions b))))" by (simp add: tx_count_def)
  ultimately show ?thesis
    unfolding eth_GetBlockByNumber_def eth_GetBlockByHash_def GetBlockTransactionCountByNumber_def
      GetBlockTransactionCountByHash_def GetTransactionByBlockHashAndIndex_def GetTransactionByBlockNumberAndIndex_def
      backend_blocks.views_agree [OF assms(1,2)] assms(2)
    using tx_in_block_found [OF assms(3), where B = B] by simp
qed

subsection \<open>Ranges of heights\<close>

definition tagged :: "'l apiBackend \<Rightarrow> int64 \<Rightarrow> int64" where
  "tagged B n = (if n = LatestBlockNumber then LatestHeight B else n)"

lemma unat_ucast_height:
  assumes "0 \<le> sint (h :: int64)" and "sint h < 2 ^ 32"
  shows "unat (ucast h :: uint32) = nat (sint h)"
proof -
  have "uint (ucast h :: uint32) = take_bit 32 (uint h)" by (simp add: unsigned_ucast_eq take_bit_word_eq_self)
  also have "\<dots> = sint h" using assms by (simp add: uint_sint take_bit_int_eq_self)
  finally show ?thesis using assms(1) by (simp add: unat_eq_nat_uint)
qed

text \<open>
  The range of heights that \<^verbatim>\<open>sbch_queryTxBySrc\<close> and its two siblings ask the store for, which has
  an excluded bound, is exactly the range between the two heights with both included, in
  either direction; the tag latest stands for the latest height. Only for the last
  height of 32 bits does the bound wrap around to zero.
\<close>

lemma prepareHeightRange_inclusive:
  assumes "prepareHeightRange B x y = (s, t)" and "tagged B x = a" and "tagged B y = b"
    and "0 \<le> sint a" and "sint a < 2 ^ 32" and "0 \<le> sint b" and "sint b < 2 ^ 32"
  shows "(sint a \<le> sint b \<and> sint b < 2 ^ 32 - 1 \<longrightarrow> {unat s..<unat t} = {nat (sint a)..nat (sint b)}) \<and>
    (sint b < sint a \<and> sint a < 2 ^ 32 - 1 \<longrightarrow> {unat t..<unat s} = {nat (sint b)..nat (sint a)}) \<and>
    (sint a \<le> sint b \<and> sint b = 2 ^ 32 - 1 \<longrightarrow> t = 0)"
proof -
  have pre: "prepareHeightRange B x y =
      (if sint b < sint a then (ucast (a + 1), ucast b) else (ucast a, ucast (b + 1)))"
    using assms(2,3) by (auto simp: prepareHeightRange_def tagged_def word_sless_alt Let_def)
  have a1: "sint (a + 1) = sint a + 1" and b1: "sint (b + 1) = sint b + 1"
    using assms(4-7) sint_add64 [of a 1] sint_add64 [of b 1] by simp_all
  have "t = 0" if "sint a \<le> sint b" "sint b = 2 ^ 32 - 1"
  proof -
    have "b = 0xffffffff" using that(2) by (simp add: sint_inject [symmetric])
    then show ?thesis using that pre assms(1) by simp
  qed
  then show ?thesis
    using pre assms unat_ucast_height [of a] unat_ucast_height [of b] unat_ucast_height [of "a + 1"]
      unat_ucast_height [of "b + 1"] a1 b1
    by (auto split: if_splits)
qed

subsection \<open>Sending transactions\<close>

text \<open>
  What tendermint's mempool does with a transaction: it may refuse it on its own, and otherwise asks
  the application, whose state is a part \<open>app\<close> of the state, and hands the answer back.
\<close>

definition mempool_laws ::
  "'s mempool \<Rightarrow> ('t, 'c, 'a) txlib \<Rightarrow>
   ((bytes32 \<times> SenderAndHeight) list \<Rightarrow> (bytes32 \<times> SenderAndHeight) list) \<Rightarrow> ('s \<Rightarrow> ('c, 'x) App) \<Rightarrow> bool" where
  "mempool_laws MP T order app \<longleftrightarrow> (\<forall>s tx. case mp_CheckTx MP s tx of
       (Inl e, s') \<Rightarrow> app s' = app s
     | (Inr r, s') \<Rightarrow> CheckTx T order (app s) CheckTxType_New tx = (r, app s'))"

lemma SendRawTransaction_eq:
  assumes "DecodeRLP T data = Some tx" and "mp_CheckTx MP s data = (res, s1)"
  shows "SendRawTransaction K T MP s data =
    (case res of
       Inl e \<Rightarrow> ((0, Some e), s1)
     | Inr r \<Rightarrow> ((if resp_Code r = CodeTypeOK then (tx_hash T tx, None) else (0, Some (resp_String MP r))), s1))"
  using assms by (simp add: SendRawTransaction_def SendRawTx_def broadcastTxSync_def split: sum.split)

text \<open>
  (C10) \<^verbatim>\<open>eth_sendRawTransaction\<close> returns without an error only for a transaction that passed all the
  checks of the application's \<^verbatim>\<open>CheckTx\<close>: it returns the hash of the transaction and the fee
  has been deducted from the state that later transactions are checked against. With an error it
  returns the zero hash and that state is as before.
\<close>

theorem SendRawTransaction_checked:
  assumes "mempool_laws MP T order app" and "cache_ok T (app s)" and "SendRawTransaction K T MP s data = ((h, e), s')"
  shows "(e = None \<longrightarrow> (\<exists>tx sender acc. DecodeRLP T data = Some tx \<and> h = tx_hash T tx \<and>
      signer_Sender T tx = Inr sender \<and> sender \<notin> touchedAddrs (app s) \<and> tx_Gas T tx \<le> MaxTxGasLimit T \<and>
      CheckNonce T (checkTrunk (app s)) sender (tx_Nonce T tx) = Inr acc \<and>
      ucast (lastMinGasPrice (app s)) \<le> (word_of_int (tx_GasPrice T tx) :: u256) \<and>
      DeductTxFee T (checkTrunk (app s)) sender acc (tx_Gas T tx) (word_of_int (tx_GasPrice T tx)) =
        Inr (checkTrunk (app s')))) \<and>
    (e \<noteq> None \<longrightarrow> h = 0 \<and> checkTrunk (app s') = checkTrunk (app s))"
proof (cases "DecodeRLP T data")
  case None
  with assms(3) show ?thesis by (auto simp: SendRawTransaction_def)
next
  case (Some tx)
  obtain res s1 where mp: "mp_CheckTx MP s data = (res, s1)" by (rule prod.exhaust)
  have law: "case mp_CheckTx MP s data of (Inl e, s') \<Rightarrow> app s' = app s
      | (Inr r, s') \<Rightarrow> CheckTx T order (app s) CheckTxType_New data = (r, app s')"
    using assms(1) unfolding mempool_laws_def by (elim allE)
  note sent = assms(3) [unfolded SendRawTransaction_eq [OF Some mp]]
  show ?thesis
  proof (cases res)
    case (Inl e')
    with law mp sent show ?thesis by auto
  next
    case (Inr r)
    with law mp sent have chk: "CheckTx T order (app s) CheckTxType_New data = (r, app s')"
      and he: "(h, e) = (if resp_Code r = CodeTypeOK then (tx_hash T tx, None) else (0, Some (resp_String MP r)))"
      by simp_all
    from CheckTx_accepts [OF assms(2) chk] Some he show ?thesis
      by (cases "resp_Code r = CodeTypeOK") auto
  qed
qed

text \<open>
  How an address without an account looks: its balance is zero, but asking for its transaction
  count is an error instead of zero, and sending from it with a test key fails for lack of a
  nonce, unless the arguments have one.
\<close>

lemma absent_account_views:
  assumes "GetAccount (rs_evm R) (rs_ctx R) a = None" and "rs_GetBalance R a LatestBlockNumber = Inl (ErrAccNotFound R)"
    and "map_of accounts a = Some key" and "sa_From args = a" and "sa_Nonce args = None"
  shows "eth_GetBalance R a n = Inr 0 \<and> eth_GetTransactionCount R a n = Inl (ErrAccNotFound R) \<and>
    SendTransaction K T R chainID accounts MP s args = ((0, Some ''no nonce''), s)"
  using assms
  by (simp add: eth_GetBalance_def backend_GetBalance_def eth_GetTransactionCount_def backend_GetNonce_def
      SendTransaction_def createGethTxFromSendTxArgs_def Let_def)

section \<open>Witnesses\<close>

text \<open>A key is a number, which is its address; a transaction is its hash.\<close>

definition witness_keylib :: "(nat, bytes32) keylib" where
  "witness_keylib = \<lparr>ToECDSA = (\<lambda>bz. if bz = [] then Inl ''empty'' else Inr (be_nat bz)), PubkeyToAddress = of_nat,
     NewTransaction = (\<lambda>n to v g p d. of_nat (unat n)), NewContractCreation = (\<lambda>n v g p d. 0),
     signer_Hash = (\<lambda>c t. t), crypto_Sign = (\<lambda>h k. Inr [1]), WithSignature = (\<lambda>t c sig. Inr t),
     EncodeRLP = (\<lambda>t. Inr (be_bytes 32 t)), DecodeErr = (\<lambda>bz. ''rlp''), HexToHash = (\<lambda>s. 0), Address_Hex = (\<lambda>a. ''0x'')\<rparr>"

definition witness_mempool :: "(mem_world, unit) App mempool" where
  "witness_mempool = \<lparr>mp_CheckTx = (\<lambda>app tx. case CheckTx witness_txlib id app CheckTxType_New tx of (r, app) \<Rightarrow> (Inr r, app)),
     tm_Hash = (\<lambda>tx. tx), resp_String = resp_Info\<rparr>"

lemma witness_mempool_laws: "mempool_laws witness_mempool witness_txlib id (\<lambda>app. app)"
  by (simp add: mempool_laws_def witness_mempool_def split: prod.split)

lemma Accounts_sorted_witness:
  "eth_Accounts rev (loadTestAccounts witness_keylib [''0x03'', '' 02'', ''0x03'', ''zz'']) =
     sorted_list_of_set {PubkeyToAddress witness_keylib k | k t d. t \<in> set [''0x03'', '' 02'', ''0x03'', ''zz''] \<and>
       HexToPrivKey witness_keylib t = (Some k, d, None)} \<and>
   eth_Accounts rev (loadTestAccounts witness_keylib [''0x03'', '' 02'', ''0x03'', ''zz'']) = [2, 3]"
proof -
  have "HexToPrivKey witness_keylib ''0x03'' = (Some 3, [3], None)" "HexToPrivKey witness_keylib '' 02'' = (Some 2, [2], None)"
    by (simp_all add: HexToPrivKey_def TrimSpace_def TrimPrefix_def is_space_def fromHexChar_def witness_keylib_def
        be_nat_Cons be_nat_Nil)
  moreover have "\<exists>e. HexToPrivKey witness_keylib ''zz'' = (None, [], Some e)"
    by (simp add: HexToPrivKey_def TrimSpace_def TrimPrefix_def is_space_def fromHexChar_def)
  moreover have "PubkeyToAddress witness_keylib = of_nat" by (simp add: witness_keylib_def)
  ultimately have "loadTestAccounts witness_keylib [''0x03'', '' 02'', ''0x03'', ''zz''] = [(3, 3), (2, 2)]"
    by (auto simp: loadTestAccounts_def)
  then have "eth_Accounts rev (loadTestAccounts witness_keylib [''0x03'', '' 02'', ''0x03'', ''zz'']) = [2, 3]"
    by (simp add: eth_Accounts_def sort_Slice_addresses)
  moreover have "mset (rev xs) = mset xs" for xs :: "address list" by simp
  ultimately show ?thesis using Accounts_sorted [of rev witness_keylib] by metis
qed

lemma witness_same_blocks: "same_blocks witness_backend"
  by (simp add: same_blocks_def witness_backend_def Api_Backend.witness_stored_def)

theorem block_views_agree_witness:
  "eth_GetBlockByNumber witness_backend 1 True = eth_GetBlockByHash witness_backend 11 True \<and>
   GetTransactionByBlockNumberAndIndex witness_backend 0 0 = Inr (eth_GetTransactionByHash witness_backend 5)"
proof -
  have b: "getBlockByNum witness_backend 1 = (Some Api_Backend.witness_stored, None)"
    "getBlockByNum witness_backend 0 = (Some Api_Backend.witness_stored, None)"
    "blk_Hash Api_Backend.witness_stored = 11" "blk_Transactions Api_Backend.witness_stored = [5]"
    by (simp_all add: getBlockByNum_def BlockByNumber_def CurrentBlock_def witness_backend_def Api_Backend.witness_stored_def word_sle_eq)
  have l: "length (blk_Transactions Api_Backend.witness_stored) < 2 ^ 64" by (simp add: b)
  from block_views_agree [OF witness_same_blocks b(1) l] block_views_agree [OF witness_same_blocks b(2) l]
  have "eth_GetBlockByNumber witness_backend 1 True = eth_GetBlockByHash witness_backend (blk_Hash Api_Backend.witness_stored) True"
    "\<forall>i < length (blk_Transactions Api_Backend.witness_stored). GetTransactionByBlockNumberAndIndex witness_backend 0 (of_nat i) =
       Inr (eth_GetTransactionByHash witness_backend (blk_Transactions Api_Backend.witness_stored ! i))" by blast+
  then show ?thesis by (simp add: b)
qed

lemma prepareHeightRange_inclusive_witness:
  "(case prepareHeightRange witness_backend 5 (- 1) of (s, t) \<Rightarrow> {unat t..<unat s} = {1..5})"
proof -
  obtain s t where p: "prepareHeightRange witness_backend 5 (- 1) = (s, t)" by fastforce
  have "tagged witness_backend 5 = 5" "tagged witness_backend (- 1) = 1"
    by (simp_all add: tagged_def LatestBlockNumber_def LatestHeight_def witness_backend_def)
  from prepareHeightRange_inclusive [OF p this] p show ?thesis by simp
qed

theorem SendRawTransaction_checked_witness:
  "\<exists>h s'. SendRawTransaction witness_keylib witness_txlib witness_mempool witness_app (be_bytes 32 (7 :: bytes32)) =
      ((h, None), s') \<and> h = 7 \<and>
    fst (fst (SendRawTransaction witness_keylib witness_txlib witness_mempool witness_app [1])) = 0"
proof -
  have word: "(be_word (be_bytes 32 x) :: bytes32) = x" for x :: bytes32 by (rule be_word_be_bytes) simp
  let ?r = "SendRawTransaction witness_keylib witness_txlib witness_mempool witness_app"
  have "snd (fst (?r (be_bytes 32 (7 :: bytes32)))) = None" "snd (fst (?r [1])) \<noteq> None"
    by (simp_all add: SendRawTransaction_def SendRawTx_def broadcastTxSync_def witness_mempool_def CheckTx_def
        check_sender_def checkTx_def witness_txlib_def witness_app_def start_app_def word mem_set_def mem_empty_def
        accept_def CodeTypeOK_def Let_def)
  then obtain h e s' h' e' s'' where r: "?r (be_bytes 32 (7 :: bytes32)) = ((h, e), s')" "e = None"
    "?r [1] = ((h', e'), s'')" "e' \<noteq> None"
    by (metis prod.collapse)
  from SendRawTransaction_checked [OF witness_mempool_laws witness_cache_ok r(1)] r(2) have "h = 7"
    by (auto simp: witness_txlib_def word)
  moreover from SendRawTransaction_checked [OF witness_mempool_laws witness_cache_ok r(3)] r(4) have "h' = 0" by blast
  ultimately show ?thesis using r by simp
qed

definition empty_state :: "(mem_world, mem_account) rpc_state" where
  "empty_state = \<lparr>rs_evm = mem_evm, rs_ctx = mem_empty, rs_Nonce = (\<lambda>acc. 0), rs_GetCode = (\<lambda>a. None),
     rs_GetBalance = (\<lambda>a h. Inl ''account not found''), ErrAccNotFound = ''account not found''\<rparr>"

definition witness_args :: SendTxArgs where
  "witness_args = \<lparr>sa_From = 2, sa_To = Some 3, sa_Gas = None, sa_GasPrice = None, sa_Value = Some 1, sa_Nonce = None,
     sa_Data = None, sa_Input = None\<rparr>"

lemma absent_account_views_witness:
  "eth_GetBalance empty_state 2 0 = Inr 0 \<and> eth_GetTransactionCount empty_state 2 0 = Inl ''account not found'' \<and>
   SendTransaction witness_keylib witness_txlib empty_state 1 [(2, 2)] witness_mempool witness_app witness_args =
     ((0, Some ''no nonce''), witness_app)"
proof -
  have "GetAccount (rs_evm empty_state) (rs_ctx empty_state) 2 = None"
    "rs_GetBalance empty_state 2 LatestBlockNumber = Inl (ErrAccNotFound empty_state)"
    "map_of [(2, 2)] 2 = Some (2 :: nat)" "sa_From witness_args = 2" "sa_Nonce witness_args = None"
    "ErrAccNotFound empty_state = ''account not found''"
    by (simp_all add: empty_state_def witness_args_def mem_evm_def mem_empty_def)
  with absent_account_views [OF this(1-5)] show ?thesis by metis
qed

end
