(* ===== verification/App_Node.thy ===== *)
theory App_Node
  imports App_Blocks
begin

text \<open>
  Starting a node (\<^verbatim>\<open>NewApp\<close> of \<^verbatim>\<open>app/app.go\<close>, with the configuration of \<^verbatim>\<open>param/config.go\<close>), the contexts
  the application hands out, and running a call for the RPC service. A new node finds a
  committed world state and a history; the watcher it starts has no client and sends nothing.
  A context is a view of the store below it: it reads what it has written itself, and otherwise what
  the store holds at the time of the read; closed dirty, it writes what it changed to the store.
  Both are the function \<open>WriteBack\<close> of the libraries. What every operation of a block leaves alone in the
  world state is the locale \<open>world_frame\<close>.
\<close>

section \<open>Configuration\<close>

record ChainConfig =
  RpcEthGetLogsMaxResults :: int
  cfg_RetainBlocks :: int64
  UseLiteDB :: bool
  cfg_NumKeptBlocks :: int64
  cfg_SigCacheSize :: int
  cfg_RecheckThreshold :: int

definition DefaultConfig :: ChainConfig where
  "DefaultConfig = \<lparr>RpcEthGetLogsMaxResults = 10000, cfg_RetainBlocks = - 1, UseLiteDB = False,
     cfg_NumKeptBlocks = 10000, cfg_SigCacheSize = 20000, cfg_RecheckThreshold = 1000\<rparr>"

section \<open>Starting\<close>

text \<open>
  \<open>WriteBack base written store\<close>: what is read through a context that started on the store \<open>base\<close>, and has
  written what makes \<open>written\<close> of it, when the store below it has become \<open>store\<close>. It is also the store
  after the context has been closed dirty. The context of \<^verbatim>\<open>NewApp\<close> writes in \<^verbatim>\<open>Init\<close> only, and it reads the
  staking information and the minimal gas price after \<^verbatim>\<open>reload\<close> has executed the pending
  transactions on the store below it.
\<close>

type_synonym 'c write_back = "'c \<Rightarrow> 'c \<Rightarrow> 'c \<Rightarrow> 'c"

definition write_back_laws :: "'c write_back \<Rightarrow> bool" where
  "write_back_laws WB \<longleftrightarrow> (\<forall>b s. WB b b s = s) \<and> (\<forall>b v. WB b v b = v)"

definition NewApp ::
  "('c, 'a, 'e, 'x, 't) lib \<Rightarrow> 'c write_back \<Rightarrow> ChainConfig \<Rightarrow> u256 \<Rightarrow> 'c \<Rightarrow> modb_Block list \<Rightarrow> 'x \<Rightarrow>
   ('c, 'x) App go" where
  "NewApp L WB config chain_id world history engine =
     (let app = \<lparr>chainId = chain_id, retainBlocks = cfg_RetainBlocks config, numKeptBlocks = cfg_NumKeptBlocks config,
            historyStore = history, currHeight = 0, trunk = world, checkTrunk = world, block = zero_Block,
            blockInfo = None, slashValidators = [], lastCommitInfo = [], lastProposer = 0, lastGasUsed = 0,
            lastGasRefund = 0, lastGasFee = 0, lastMinGasPrice = 0, chainFeed = [], logsFeed = [],
            txEngine = engine, reorderSeed = 0, touchedAddrs = {}, watcherChan = [], epochQueue = [],
            currValidators = [], sigCache = [], sigCacheSize = cfg_SigCacheSize config, sep206SenderSet = {},
            recheckCounter = 0, recheckThreshold = cfg_RecheckThreshold config, readonlyInfo = None,
            rootStore = world, pruneCalls = []\<rparr>;
          ctx = Init (lib_evm L) (trunk app);
          app = restore_block L ctx app;
          app = (if currHeight app \<noteq> 0 then reload L app else app);
          ctx = WB world ctx (trunk app)
      in
      bindG (LoadStakingAcc (lib_evm L) (lib_codec L) ctx) (\<lambda>(_, stakingInfo).
      bindG (LoadMinGasPrice (lib_evm L) ctx True) (\<lambda>price.
        Inr (app\<lparr>currValidators := GetActiveValidators stakingInfo MinimumStakingAmount,
                 lastMinGasPrice := price, trunk := ctx\<rparr>))))"

section \<open>Contexts\<close>

datatype ContextMode = CheckTxMode | RunTxMode | RpcMode | HistoryOnlyMode

record 'c Context =
  ctx_Height :: uint64
  ctx_Rbt :: "'c option"
  ctx_Db :: "modb_Block list option"

definition GetContext :: "('c, 'x) App \<Rightarrow> ContextMode \<Rightarrow> 'c Context" where
  "GetContext app mode =
     (let c = \<lparr>ctx_Height = currHeight app, ctx_Rbt = None, ctx_Db = None\<rparr> in
      case mode of
        CheckTxMode \<Rightarrow> c\<lparr>ctx_Rbt := Some (checkTrunk app)\<rparr>
      | RunTxMode \<Rightarrow> c\<lparr>ctx_Rbt := Some (trunk app), ctx_Db := Some (historyStore app)\<rparr>
      | RpcMode \<Rightarrow> c\<lparr>ctx_Rbt := Some (rootStore app), ctx_Db := Some (historyStore app)\<rparr>
      | HistoryOnlyMode \<Rightarrow> c\<lparr>ctx_Rbt := None, ctx_Db := Some (historyStore app)\<rparr>)"

definition GetRpcContext :: "('c, 'x) App \<Rightarrow> 'c Context" where
  "GetRpcContext app = GetContext app RpcMode"

definition GetRunTxContext :: "('c, 'x) App \<Rightarrow> 'c Context" where
  "GetRunTxContext app = GetContext app RunTxMode"

definition GetHistoryOnlyContext :: "('c, 'x) App \<Rightarrow> 'c Context" where
  "GetHistoryOnlyContext app = GetContext app HistoryOnlyMode"

definition GetCheckTxContext :: "('c, 'x) App \<Rightarrow> 'c Context" where
  "GetCheckTxContext app = GetContext app CheckTxMode"

definition GetLatestBlockNum :: "('c, 'x) App \<Rightarrow> int64" where
  "GetLatestBlockNum app = currHeight app"

definition BlockNum :: "('c, 'x) App \<Rightarrow> int64" where
  "BlockNum app = blk_Number (block app)"

definition GetLastGasUsed :: "('c, 'x) App \<Rightarrow> uint64" where
  "GetLastGasUsed app = lastGasUsed app"

section \<open>Calls for the RPC service\<close>

text \<open>
  The transaction to run is made from the arguments, and a library function runs it in a
  context with the information of a block; the first part of the result is the runner's status
  and output.
\<close>

type_synonym ('r, 'c) rpc_runner = "exec_info \<Rightarrow> bool \<Rightarrow> 'c Context \<Rightarrow> 'r \<Rightarrow> (int \<times> bytes) \<times> int64"

definition App_RunTxForRpc ::
  "('t \<Rightarrow> address \<Rightarrow> uint64 \<Rightarrow> 'r) \<Rightarrow> ('r, 'c) rpc_runner \<Rightarrow> ('c, 'x) App \<Rightarrow> 't \<Rightarrow> address \<Rightarrow> bool \<Rightarrow>
   ((int \<times> bytes) \<times> int64) go" where
  "App_RunTxForRpc FromGethTx runTx app gethTx sender estimateGas =
     (let txToRun = FromGethTx gethTx sender (currHeight app);
          ctx = GetRpcContext app
      in
      case blockInfo app of
        None \<Rightarrow> Inl (PanicMsg ''interface conversion: interface {} is nil, not *types.BlockInfo'')
      | Some bi \<Rightarrow> Inr (runTx bi estimateGas ctx txToRun))"

section \<open>What the operations of a block leave alone\<close>

text \<open>
  Something that can be observed of the world state and does not depend on accounts and storage:
  whatever changes only these leaves the observation alone.
\<close>

locale world_frame =
  fixes E :: "('c, 'a) evm" and f :: "'c \<Rightarrow> 'd" and ok :: bool
  assumes frame_account: "ok \<Longrightarrow> f (SetAccount E ctx a acc) = f ctx"
    and frame_storage: "ok \<Longrightarrow> f (SetStorageAt E ctx s k v) = f ctx"
    and frame_burn: "ok \<Longrightarrow> f (snd (TransferFromSenderAccToBlackHoleAcc E ctx a coins)) = f ctx"
begin

lemma frame_Init: "ok \<Longrightarrow> f (Init E ctx) = f ctx"
  by (simp add: Init_def frame_account split: option.split)

lemma frame_SaveStakingInfo: "ok \<Longrightarrow> f (SaveStakingInfo E M ctx acc info) = f ctx"
  by (simp add: SaveStakingInfo_def frame_storage Let_def)

lemma frame_SaveMinGasPrice: "ok \<Longrightarrow> SaveMinGasPrice E ctx p l = Inr ctx' \<Longrightarrow> f ctx' = f ctx"
  by (auto simp: SaveMinGasPrice_def frame_storage split: option.splits)

lemma frame_pay: "ok \<Longrightarrow> f (pay E ctx p) = f ctx"
  by (simp add: pay_def frame_account Let_def split: prod.split)

lemma frame_incrAllBurnt: "ok \<Longrightarrow> incrAllBurnt E ctx acc v = Inr ctx' \<Longrightarrow> f ctx' = f ctx"
  by (auto simp: incrAllBurnt_def frame_storage Let_def)

lemma frame_Slash:
  assumes ok and "Slash E M ctx k v = Inr (ctx', r)"
  shows "f ctx' = f ctx"
  using assms(2) frame_incrAllBurnt [OF assms(1)] frame_burn [OF assms(1)]
  by (auto simp: Slash_def Let_def split: option.splits prod.splits) (metis snd_conv)+

lemma frame_DistributeFee:
  assumes ok and "DistributeFee E M ctx ro fee p vs = Inr (ctx', ro')"
  shows "f ctx' = f ctx"
  using assms
  by (auto simp: DistributeFee_def Let_def frame_SaveStakingInfo frame_account split: option.splits)

lemma frame_pays: "ok \<Longrightarrow> f (fst (foldl (\<lambda>x p. (pay E (fst x) p, snd x - snd p)) x ps)) = f (fst x)"
  by (induction ps arbitrary: x) (auto simp: frame_pay)

lemma frame_endEpoch:
  assumes ok and "endEpoch E M q ctx = Inr (ctx', acc, info)"
  shows "f ctx' = f ctx"
  using assms(2) frame_pays [OF assms(1)]
  by (auto simp: endEpoch_def Let_def case_prod_beta')

lemma frame_repay:
  assumes ok and "foldG (repay_useless E info m) (ctx, b) as = Inr (ctx', b')"
  shows "f ctx' = f ctx"
proof -
  have "case (ctx', b') of (c, b) \<Rightarrow> f c = f ctx"
    using assms(2) by (rule foldG_invariant) (auto simp: repay_useless_def frame_pay [OF assms(1)] Let_def split: option.splits)
  then show ?thesis by simp
qed

lemma frame_SwitchEpoch:
  assumes ok and "SwitchEpoch E M q ctx epoch = Inr (ctx', vals)"
  shows "f ctx' = f ctx"
proof -
  from assms(2) obtain c1 a1 i1 pw c2 a2 i2 i3 where end1: "endEpoch E M q ctx = Inr (c1, a1, i1)"
    and clear: "clearUp E q c1 a1 (updateVotingPower q i1 pw) = Inr (c2, a2, i2)"
    and ctx': "ctx' = SaveStakingInfo E M c2 a2 i3"
    by (auto simp: SwitchEpoch_def Let_def)
  have "f c1 = f ctx" by (rule frame_endEpoch [OF assms(1) end1])
  moreover from clear obtain c b acc m us where "foldG (repay_useless E (updateVotingPower q i1 pw) m) (c1, Balance E a1) us = Inr (c, b)"
    "c2 = SetAccount E c StakingContractAddress acc"
    by (auto simp: clearUp_def Let_def)
  ultimately show ?thesis
    by (simp add: ctx' frame_SaveStakingInfo [OF assms(1)] frame_account [OF assms(1)] frame_repay [OF assms(1)])
qed

end

section \<open>The block in the world state\<close>

text \<open>
  The library keeps the block under way in the world state, apart from accounts and storage: what is
  read back has the number and the hash of the block that was set.
\<close>

definition block_frame_laws :: "('c, 'a, 'e, 'x, 't) lib \<Rightarrow> bool" where
  "block_frame_laws L \<longleftrightarrow>
     (\<forall>ctx a acc. GetCurrBlockBasicInfo L (SetAccount (lib_evm L) ctx a acc) = GetCurrBlockBasicInfo L ctx) \<and>
     (\<forall>ctx s k v. GetCurrBlockBasicInfo L (SetStorageAt (lib_evm L) ctx s k v) = GetCurrBlockBasicInfo L ctx) \<and>
     (\<forall>ctx a v. GetCurrBlockBasicInfo L (snd (TransferFromSenderAccToBlackHoleAcc (lib_evm L) ctx a v)) =
        GetCurrBlockBasicInfo L ctx) \<and>
     (\<forall>ctx v ctx'. SubSystemAccBalance L ctx v = Inr ctx' \<longrightarrow> GetCurrBlockBasicInfo L ctx' = GetCurrBlockBasicInfo L ctx) \<and>
     (\<forall>x ctx seed p. GetCurrBlockBasicInfo L (snd (snd (Prepare L x ctx seed p))) = GetCurrBlockBasicInfo L ctx) \<and>
     (\<forall>x ctx bi. GetCurrBlockBasicInfo L (snd (Execute L x ctx bi)) = GetCurrBlockBasicInfo L ctx)"

definition block_set_laws :: "('c, 'a, 'e, 'x, 't) lib \<Rightarrow> bool" where
  "block_set_laws L \<longleftrightarrow>
     (\<forall>ctx b. \<exists>b'. GetCurrBlockBasicInfo L (SetCurrBlockBasicInfo L ctx b) = Some b' \<and>
        blk_Number b' = blk_Number b \<and> blk_Hash b' = blk_Hash b) \<and>
     (\<forall>ctx b a. GetAccount (lib_evm L) (SetCurrBlockBasicInfo L ctx b) a = GetAccount (lib_evm L) ctx a) \<and>
     (\<forall>ctx b s k. GetStorageAt (lib_evm L) (SetCurrBlockBasicInfo L ctx b) s k = GetStorageAt (lib_evm L) ctx s k)"

interpretation block_frame: world_frame "lib_evm L" "GetCurrBlockBasicInfo L" "block_frame_laws L" for L
  by unfold_locales (simp_all add: block_frame_laws_def)

text \<open>What each part of a commit changes.\<close>

definition kept :: "('c, 'x) App \<Rightarrow> Block \<times> int64 \<times> u256 \<times> modb_Block list \<times> chain_event list \<times> int64" where
  "kept app = (block app, currHeight app, chainId app, historyStore app, chainFeed app, numKeptBlocks app)"

lemma commit_epoch_frame:
  assumes "commit_epoch L info app = Inr app'"
  shows "kept app' = kept app"
    and "block_frame_laws L \<Longrightarrow> GetCurrBlockBasicInfo L (trunk app') = GetCurrBlockBasicInfo L (trunk app)"
proof -
  define a where "a = receive_epoch app"
  have a: "kept a = kept app" "trunk a = trunk app"
    by (simp_all add: a_def receive_epoch_def kept_def split: list.split)
  have run: "(case epochQueue a of
      [] \<Rightarrow> Inr (a\<lparr>currValidators := GetActiveValidators info MinimumStakingAmount\<rparr>)
    | epoch # epochs \<Rightarrow>
        if EndTime epoch + 100 * 10 * 60 <s blk_Timestamp (block a) then
          bindG (SwitchEpoch (lib_evm L) (lib_codec L) (lib_orders L) (trunk a) epoch) (\<lambda>(ctx, vals).
            Inr (a\<lparr>trunk := ctx, currValidators := vals, epochQueue := epochs\<rparr>))
        else Inr a) = Inr app'"
    using assms unfolding commit_epoch_def Let_def a_def .
  then show "kept app' = kept app"
    unfolding a(1) [symmetric] by (auto simp: kept_def split: list.splits if_splits)
  show "GetCurrBlockBasicInfo L (trunk app') = GetCurrBlockBasicInfo L (trunk app)" if "block_frame_laws L"
    using run block_frame.frame_SwitchEpoch [OF that] unfolding a(2) [symmetric]
    by (auto split: list.splits if_splits)
qed

lemma commit_slash_frame:
  assumes "commit_slash L m app = Inr app'"
  shows "kept app' = kept app" and "epochQueue app' = epochQueue app" and "currValidators app' = currValidators app"
    and "block_frame_laws L \<Longrightarrow> GetCurrBlockBasicInfo L (trunk app') = GetCurrBlockBasicInfo L (trunk app)"
proof -
  from assms obtain ctx where
    run: "foldG (\<lambda>ctx v. bindG (Slash (lib_evm L) (lib_codec L) ctx (pubkey_at m v) SlashedStakingAmount)
        (\<lambda>(ctx, _). Inr ctx)) (trunk app) (slashValidators app) = Inr ctx"
    and app': "app' = app\<lparr>trunk := ctx, slashValidators := []\<rparr>"
    by (auto simp: commit_slash_def)
  from app' show "kept app' = kept app" "epochQueue app' = epochQueue app" "currValidators app' = currValidators app"
    by (simp_all add: kept_def)
  assume ok: "block_frame_laws L"
  from run have "GetCurrBlockBasicInfo L ctx = GetCurrBlockBasicInfo L (trunk app)"
    by (rule foldG_invariant) (auto simp: block_frame.frame_Slash [OF ok])
  with app' show "GetCurrBlockBasicInfo L (trunk app') = GetCurrBlockBasicInfo L (trunk app)" by simp
qed

lemma sub_system_frame:
  assumes "block_frame_laws L" and "sub_system L b ctx v = Inr ctx'"
  shows "GetCurrBlockBasicInfo L ctx' = GetCurrBlockBasicInfo L ctx"
  using assms by (auto simp: sub_system_def block_frame_laws_def split: if_splits sum.splits)

lemma commit_fees_frame:
  assumes "commit_fees L m app = Inr app'"
  shows "kept app' = kept app" and "epochQueue app' = epochQueue app" and "currValidators app' = currValidators app"
    and "block_frame_laws L \<Longrightarrow> GetCurrBlockBasicInfo L (trunk app') = GetCurrBlockBasicInfo L (trunk app)"
proof -
  let ?b = "lastGasFee app \<noteq> 0 \<and> lastGasRefund app \<noteq> 0"
  from assms obtain c1 where c1: "sub_system L ?b (trunk app) (lastGasRefund app) = Inr c1"
    unfolding commit_fees_eq by (elim bindG_InrE)
  note run = assms [unfolded commit_fees_eq c1 bindG_simps Let_def]
  from run have enough: "\<not> GetSystemBalance L c1 < lastGasFee app" by (cases "GetSystemBalance L c1 < lastGasFee app") simp_all
  define v where "v = (if StandbyQLen L (txEngine app) \<noteq> 0 then lastGasFee app else GetSystemBalance L c1)"
  from run obtain c2 where c2: "sub_system L (v \<noteq> 0) c1 v = Inr c2"
    unfolding if_not_P [OF enough] v_def by (elim bindG_InrE)
  note run = run [unfolded if_not_P [OF enough] v_def [symmetric] c2 bindG_simps]
  obtain ro where app': "app' = app\<lparr>trunk := trunk app', readonlyInfo := ro\<rparr>"
    and c3: "trunk app' = c2 \<or> (\<exists>ro fee p vs ro'. DistributeFee (lib_evm L) (lib_codec L) c2 ro fee p vs = Inr (trunk app', ro'))"
  proof (cases "currHeight app = 1")
    case True
    with run obtain info where a: "app' = app\<lparr>trunk := c2, readonlyInfo := Some info\<rparr>" by auto
    show ?thesis by (rule that [of "Some info"]) (simp_all add: a)
  next
    case False
    with run obtain ctx ro where d: "DistributeFee (lib_evm L) (lib_codec L) c2 (readonlyInfo app) (Some v)
        (pubkey_at m (lastProposer app)) (commit_voters m (lastCommitInfo app)) = Inr (ctx, ro)"
      and a: "app' = app\<lparr>trunk := ctx, readonlyInfo := ro\<rparr>"
      by auto
    show ?thesis
    proof (rule that [of ro])
      show "app' = app\<lparr>trunk := trunk app', readonlyInfo := ro\<rparr>" by (simp add: a)
      show "trunk app' = c2 \<or> (\<exists>ro fee p vs ro'. DistributeFee (lib_evm L) (lib_codec L) c2 ro fee p vs = Inr (trunk app', ro'))"
        using d by (auto simp: a)
    qed
  qed
  let ?a = "\<lambda>ctx. app\<lparr>trunk := ctx, readonlyInfo := ro\<rparr>"
  have "kept (?a ctx) = kept app" "epochQueue (?a ctx) = epochQueue app" "currValidators (?a ctx) = currValidators app" for ctx
    by (simp_all add: kept_def)
  with app' show "kept app' = kept app" "epochQueue app' = epochQueue app" "currValidators app' = currValidators app" by metis+
  assume ok: "block_frame_laws L"
  from c3 block_frame.frame_DistributeFee [OF ok]
  have "GetCurrBlockBasicInfo L (trunk app') = GetCurrBlockBasicInfo L c2" by metis
  also note sub_system_frame [OF ok c2]
  also note sub_system_frame [OF ok c1]
  finally show "GetCurrBlockBasicInfo L (trunk app') = GetCurrBlockBasicInfo L (trunk app)" .
qed

text \<open>What \<^verbatim>\<open>refresh\<close> records and publishes of the previous block.\<close>

definition recorded :: "Block option \<Rightarrow> (int64 \<times> bytes32) list" where
  "recorded prev = (case prev of None \<Rightarrow> [] | Some b \<Rightarrow> [(blk_Number b, blk_Hash b)])"

definition history_index :: "('c, 'x) App \<Rightarrow> (int64 \<times> bytes32) list" where
  "history_index app = map (\<lambda>b. (mdb_Height b, mdb_BlockHash b)) (historyStore app)"

definition published_index :: "('c, 'x) App \<Rightarrow> (int64 \<times> bytes32) list" where
  "published_index app = map (\<lambda>ev. (hdr_Number (ev_Header ev), hdr_BlockHash (ev_Header ev))) (chainFeed app)"

lemma history_block_index:
  "history_block L app prev = Inr b \<Longrightarrow> mdb_Height b = blk_Number prev \<and> mdb_BlockHash b = blk_Hash prev"
  by (auto simp: history_block_def Let_def split: sum.splits)

lemma prune_keeps [simp]:
  "kept (prune prev app) = kept app" "trunk (prune prev app) = trunk app"
  "rootStore (prune prev app) = rootStore app" "lastMinGasPrice (prune prev app) = lastMinGasPrice app"
  "block (prune prev app) = block app" "txEngine (prune prev app) = txEngine app"
  by (simp_all add: prune_def kept_def split: option.split)

lemma publishNewBlock_index:
  "history_index (publishNewBlock b app) = history_index app"
  "published_index (publishNewBlock b app) = published_index app @ [(mdb_Height b, mdb_BlockHash b)]"
  by (simp_all add: publishNewBlock_def history_index_def published_index_def Let_def)

lemma publishNewBlock_keeps [simp]:
  "trunk (publishNewBlock b app) = trunk app" "rootStore (publishNewBlock b app) = rootStore app"
  "block (publishNewBlock b app) = block app" "currHeight (publishNewBlock b app) = currHeight app"
  "chainId (publishNewBlock b app) = chainId app" "lastMinGasPrice (publishNewBlock b app) = lastMinGasPrice app"
  "epochQueue (publishNewBlock b app) = epochQueue app" "currValidators (publishNewBlock b app) = currValidators app"
  by (simp_all add: publishNewBlock_def Let_def)

lemma refresh_result:
  assumes "refresh L app = Inr app'"
  shows "\<exists>ctx mGP. LoadMinGasPrice (lib_evm L) (SetCurrBlockBasicInfo L (trunk app) (block app)) False = Inr mGP \<and>
    SaveMinGasPrice (lib_evm L) (SetCurrBlockBasicInfo L (trunk app) (block app)) mGP True = Inr ctx \<and>
    trunk app' = ctx \<and> rootStore app' = ctx \<and> checkTrunk app' = ctx \<and> lastMinGasPrice app' = mGP \<and>
    block app' = (block app)\<lparr>blk_StateRoot := copy_array 32 (blk_StateRoot (block app)) (GetRootHash L ctx)\<rparr> \<and>
    currHeight app' = currHeight app \<and> chainId app' = chainId app \<and>
    epochQueue app' = epochQueue app \<and> currValidators app' = currValidators app \<and>
    history_index app' = history_index app @ recorded (GetCurrBlockBasicInfo L (trunk app)) \<and>
    published_index app' = published_index app @ recorded (GetCurrBlockBasicInfo L (trunk app))"
proof -
  let ?set = "SetCurrBlockBasicInfo L (trunk app) (block app)" and ?prev = "GetCurrBlockBasicInfo L (trunk app)"
  from assms obtain mGP where mGP: "LoadMinGasPrice (lib_evm L) ?set False = Inr mGP"
    unfolding refresh_def Let_def by (elim bindG_InrE)
  note run = assms [unfolded refresh_def Let_def mGP bindG_simps]
  from run obtain ctx where ctx: "SaveMinGasPrice (lib_evm L) ?set mGP True = Inr ctx" by (elim bindG_InrE)
  note run = run [unfolded ctx bindG_simps]
  define a where "a = prune ?prev (app\<lparr>lastMinGasPrice := mGP, trunk := ctx, rootStore := ctx\<rparr>)"
  define a' where "a' = a\<lparr>block := (block a)\<lparr>blk_StateRoot := copy_array 32 (blk_StateRoot (block a)) (GetRootHash L (rootStore a))\<rparr>\<rparr>"
  note run = run [folded a_def, folded a'_def]
  have a: "trunk a' = ctx" "rootStore a' = ctx" "lastMinGasPrice a' = mGP" "currHeight a' = currHeight app"
    "block a' = (block app)\<lparr>blk_StateRoot := copy_array 32 (blk_StateRoot (block app)) (GetRootHash L ctx)\<rparr>"
    "chainId a' = chainId app" "epochQueue a' = epochQueue app" "currValidators a' = currValidators app"
    "history_index a' = history_index app" "published_index a' = published_index app"
    by (simp_all add: a'_def a_def prune_def history_index_def published_index_def split: option.split)
  show ?thesis
  proof (cases ?prev)
    case None
    with run show ?thesis using mGP ctx a by (auto simp: recorded_def history_index_def published_index_def)
  next
    case (Some b)
    with run obtain blk where blk: "history_block L (a'\<lparr>sep206SenderSet := getSep206SenderSet L (txEngine a')\<rparr>) b = Inr blk"
      by (auto simp: Let_def)
    define d where "d = publishNewBlock blk (a'\<lparr>sep206SenderSet := getSep206SenderSet L (txEngine a'),
        historyStore := historyStore a' @ [blk]\<rparr>)"
    have app': "app' = d\<lparr>recheckCounter := 0, lastProposer := blk_Miner (block d), lastCommitInfo := [],
        checkTrunk := trunk d\<rparr>"
      using run Some blk by (simp add: Let_def d_def)
    have "history_index app' = history_index d" "published_index app' = published_index d"
      by (simp_all add: app' history_index_def published_index_def)
    moreover have "history_index d = history_index app @ recorded ?prev" "published_index d = published_index app @ recorded ?prev"
      unfolding d_def publishNewBlock_index using history_block_index [OF blk] Some a(9,10)
      by (simp_all add: recorded_def history_index_def published_index_def)
    ultimately show ?thesis using mGP ctx a by (simp add: app' d_def)
  qed
qed

lemma postCommit_keeps [simp]:
  "kept (postCommit L bi app) = kept app" "rootStore (postCommit L bi app) = rootStore app"
  "checkTrunk (postCommit L bi app) = checkTrunk app" "lastMinGasPrice (postCommit L bi app) = lastMinGasPrice app"
  "epochQueue (postCommit L bi app) = epochQueue app" "currValidators (postCommit L bi app) = currValidators app"
  "blockInfo (postCommit L bi app) = blockInfo app"
  "block_frame_laws L \<Longrightarrow> GetCurrBlockBasicInfo L (trunk (postCommit L bi app)) = GetCurrBlockBasicInfo L (trunk app)"
  by (simp_all add: postCommit_def kept_def block_frame_laws_def split: prod.split) (metis snd_conv)

lemma syncBlockInfo_keeps [simp]:
  "kept (snd (syncBlockInfo app)) = kept app" "rootStore (snd (syncBlockInfo app)) = rootStore app"
  "checkTrunk (snd (syncBlockInfo app)) = checkTrunk app" "lastMinGasPrice (snd (syncBlockInfo app)) = lastMinGasPrice app"
  "epochQueue (snd (syncBlockInfo app)) = epochQueue app" "currValidators (snd (syncBlockInfo app)) = currValidators app"
  "trunk (snd (syncBlockInfo app)) = trunk app" "blockInfo (snd (syncBlockInfo app)) = Some (fst (syncBlockInfo app))"
  by (simp_all add: syncBlockInfo_def kept_def Let_def)

lemma Commit_parts:
  assumes "Commit L app = Inr (res, app')"
  obtains acc info a1 a a' where "LoadStakingAcc (lib_evm L) (lib_codec L) (trunk app) = Inr (acc, info)"
    and "commit_epoch L info app = Inr a1" and "kept a = kept app"
    and "epochQueue a = epochQueue a1" and "currValidators a = currValidators a1"
    and "block_frame_laws L \<Longrightarrow> GetCurrBlockBasicInfo L (trunk a) = GetCurrBlockBasicInfo L (trunk app)"
    and "refresh L a = Inr a'"
    and "app' = postCommit L (fst (syncBlockInfo a')) (snd (syncBlockInfo a'))"
    and "rc_Data res = be_bytes 32 (blk_StateRoot (block a'))"
proof -
  from assms obtain acc info where load: "LoadStakingAcc (lib_evm L) (lib_codec L) (trunk app) = Inr (acc, info)"
    unfolding Commit_def by (elim bindG_InrE) auto
  note run = assms [unfolded Commit_def load bindG_simps split]
  from run obtain a1 where a1: "commit_epoch L info app = Inr a1" by (elim bindG_InrE)
  note run = run [unfolded a1 bindG_simps Let_def]
  from run obtain a2 where a2: "commit_slash L (pubkeyMapByConsAddr L info) a1 = Inr a2" by (elim bindG_InrE)
  note run = run [unfolded a2 bindG_simps]
  from run obtain a3 where a3: "commit_fees L (pubkeyMapByConsAddr L info) a2 = Inr a3" by (elim bindG_InrE)
  note run = run [unfolded a3 bindG_simps]
  obtain touched x ctx where prep: "Prepare L (txEngine a3) (trunk a3) (reorderSeed a3) (lastMinGasPrice a3) = (touched, x, ctx)"
    by (metis prod_cases3)
  define a where "a = a3\<lparr>touchedAddrs := touched, txEngine := x, trunk := ctx\<rparr>"
  note run = run [unfolded prep split, folded a_def]
  from run obtain a' where a': "refresh L a = Inr a'" by (elim bindG_InrE)
  from run have fin: "app' = postCommit L (fst (syncBlockInfo a')) (snd (syncBlockInfo a'))"
      "rc_Data res = be_bytes 32 (blk_StateRoot (block a'))"
    unfolding a' bindG_simps by (auto simp: syncBlockInfo_def Let_def)
  show ?thesis
  proof (rule that [OF load a1 _ _ _ _ a' fin])
    show "kept a = kept app"
      using commit_fees_frame(1) [OF a3] commit_slash_frame(1) [OF a2] commit_epoch_frame(1) [OF a1]
      by (simp add: a_def kept_def)
    show "epochQueue a = epochQueue a1" "currValidators a = currValidators a1"
      using commit_fees_frame(2,3) [OF a3] commit_slash_frame(2,3) [OF a2] by (simp_all add: a_def)
    assume ok: "block_frame_laws L"
    then have "GetCurrBlockBasicInfo L ctx = GetCurrBlockBasicInfo L (trunk a3)"
      using prep unfolding block_frame_laws_def by (metis snd_conv)
    also note commit_fees_frame(4) [OF a3 ok]
    also note commit_slash_frame(4) [OF a2 ok]
    also note commit_epoch_frame(2) [OF a1 ok]
    finally show "GetCurrBlockBasicInfo L (trunk a) = GetCurrBlockBasicInfo L (trunk app)" by (simp add: a_def)
  qed
qed

lemma Commit_height:
  assumes "Commit L app = Inr (res, app')"
  shows "currHeight app' = currHeight app"
proof -
  from assms obtain a a' where "kept a = kept app" "refresh L a = Inr a'"
    "app' = postCommit L (fst (syncBlockInfo a')) (snd (syncBlockInfo a'))"
    by (rule Commit_parts)
  moreover from this(3) have "kept app' = kept a'" by simp
  ultimately show ?thesis using refresh_result [of L a a'] by (auto simp: kept_def)
qed

section \<open>A node that is started again\<close>

lemma commit_epoch_waiting:
  assumes "commit_epoch L info app = Inr app'" and "epochQueue (receive_epoch app) = e # es"
    and "\<not> EndTime e + 60000 <s blk_Timestamp (block app)"
  shows "epochQueue app' = e # es \<and> currValidators app' = currValidators app"
proof -
  have "block (receive_epoch app) = block app" "currValidators (receive_epoch app) = currValidators app"
    by (simp_all add: receive_epoch_def split: list.split)
  with assms show ?thesis by (auto simp: commit_epoch_def Let_def)
qed

lemma reload_keeps:
  "block (reload L app) = block app" "currHeight (reload L app) = currHeight app"
  "rootStore (reload L app) = rootStore app" "checkTrunk (reload L app) = checkTrunk app"
  "epochQueue (reload L app) = epochQueue app"
  by (simp_all add: reload_def syncBlockInfo_def postCommit_def Let_def split: prod.split)

text \<open>
  (C13) A node that is started on the world state of the last commit knows where the chain is: it
  executes the pending transactions, reports the same height and root hash as the node that made
  the commit and checks transactions against the same state. Its validators are those that are
  active in the staking information after the pending transactions, and its minimal gas price is
  the one they leave, which is that of the running node if they leave it unchanged. And epochs that
  wait for their time are lost: when a commit leaves an epoch waiting, the running node keeps its
  epoch and its old validators, and the started node has no epoch.
\<close>

theorem restart_recovers:
  assumes "evm_laws (lib_evm L)" and "block_frame_laws L" and "block_set_laws L" and "write_back_laws WB"
    and "Commit L app = Inr (res, app')" and "currHeight app = blk_Number (block app)" and "currHeight app \<noteq> 0"
    and "LoadStakingAcc (lib_evm L) (lib_codec L) (rootStore app') = Inr (acc, info)"
    and "Execute L engine (rootStore app') \<lparr>Coinbase = 0, Number = currHeight app, BI_Timestamp = 0,
      ChainId = chainId app, Hash = 0\<rparr> = (engine', world')"
    and "LoadStakingAcc (lib_evm L) (lib_codec L) world' = Inr (acc', info')"
    and "LoadMinGasPrice (lib_evm L) world' True = Inr price"
  shows "\<exists>node. NewApp L WB config (chainId app) (rootStore app') history engine = Inr node \<and>
    Info L node = Info L app' \<and> currHeight node = currHeight app' \<and>
    rootStore node = rootStore app' \<and> checkTrunk node = checkTrunk app' \<and> trunk node = world' \<and>
    lastMinGasPrice node = price \<and>
    (LoadMinGasPrice (lib_evm L) (rootStore app') True = Inr price \<longrightarrow> price = lastMinGasPrice app') \<and>
    currValidators node = GetActiveValidators info' MinimumStakingAmount \<and> epochQueue node = [] \<and>
    (\<forall>e es. epochQueue (receive_epoch app) = e # es \<and> \<not> EndTime e + 60000 <s blk_Timestamp (block app) \<longrightarrow>
       epochQueue app' = e # es \<and> currValidators app' = currValidators app)"
proof -
  let ?E = "lib_evm L" and ?M = "lib_codec L"
  from assms(5) obtain ra ri a1 a a' where parts: "commit_epoch L ri app = Inr a1" "kept a = kept app"
      "epochQueue a = epochQueue a1" "currValidators a = currValidators a1" "refresh L a = Inr a'"
      "app' = postCommit L (fst (syncBlockInfo a')) (snd (syncBlockInfo a'))"
    by (rule Commit_parts)
  let ?set = "SetCurrBlockBasicInfo L (trunk a) (block a)"
  from refresh_result [OF parts(5)] obtain ctx mGP where r:
    "SaveMinGasPrice ?E ?set mGP True = Inr ctx" "rootStore a' = ctx" "checkTrunk a' = ctx" "lastMinGasPrice a' = mGP"
    "blk_Number (block a') = blk_Number (block a)" "currHeight a' = currHeight a"
    "epochQueue a' = epochQueue a" "currValidators a' = currValidators a" by auto
  have app': "rootStore app' = ctx" "checkTrunk app' = ctx" "lastMinGasPrice app' = mGP" "kept app' = kept a'"
    "epochQueue app' = epochQueue a1" "currValidators app' = currValidators a1"
    using r parts by simp_all
  have height: "blk_Number (block app') = currHeight app" "currHeight app' = currHeight app"
    using app'(4) r(5,6) parts(2) assms(6) by (simp_all add: kept_def)
  obtain b where b: "GetCurrBlockBasicInfo L ctx = Some b" "blk_Number b = currHeight app"
    using assms(3,6) block_frame.frame_SaveMinGasPrice [OF assms(2) r(1)] parts(2)
    unfolding block_set_laws_def kept_def by (metis Pair_inject)
  have load: "LoadStakingAcc ?E ?M ctx = Inr (acc, info)" using assms(8) app'(1) by simp
  have Init: "Init ?E ctx = ctx" using LoadStakingAcc_account [OF load] by (simp add: Init_def)
  have price: "LoadMinGasPrice ?E ctx True = Inr mGP" by (rule LoadMinGasPrice_Save(1) [OF assms(1) r(1)])
  have WB: "WB ctx ctx s = s" for s using assms(4) by (simp add: write_back_laws_def)
  have exe: "trunk (reload L node) = world'"
    if "trunk node = ctx" "txEngine node = engine" "block node = zero_Block\<lparr>blk_Number := currHeight app\<rparr>" "chainId node = chainId app" for node
    using assms(9) that by (simp add: reload_def syncBlockInfo_def postCommit_def zero_Block_def app'(1) Let_def split: prod.split)
  have "\<exists>node. NewApp L WB config (chainId app) ctx history engine = Inr node \<and> blk_Number (block node) = currHeight app \<and>
      currHeight node = currHeight app \<and> rootStore node = ctx \<and> checkTrunk node = ctx \<and> trunk node = world' \<and>
      lastMinGasPrice node = price \<and>
      currValidators node = GetActiveValidators info' MinimumStakingAmount \<and> epochQueue node = []"
    using assms(7)
    by (simp add: NewApp_def Init WB restore_block_def b reload_keeps exe assms(10,11) Let_def)
  moreover have "epochQueue app' = e # es \<and> currValidators app' = currValidators app"
    if "epochQueue (receive_epoch app) = e # es" "\<not> EndTime e + 60000 <s blk_Timestamp (block app)" for e es
    using commit_epoch_waiting [OF parts(1) that] by (simp add: app')
  ultimately show ?thesis by (auto simp: Info_def app' height price)
qed

section \<open>Witnesses\<close>

text \<open>Any world state together with a block, and libraries over the world in memory that keep the block there.\<close>

definition with_block :: "('c, 'a) evm \<Rightarrow> ('c \<times> Block option, 'a) evm" where
  "with_block E = \<lparr>GetAccount = (\<lambda>(c, b). GetAccount E c), SetAccount = (\<lambda>(c, b) a acc. (SetAccount E c a acc, b)),
     GetStorageAt = (\<lambda>(c, b). GetStorageAt E c), SetStorageAt = (\<lambda>(c, b) s k v. (SetStorageAt E c s k v, b)),
     ZeroAccountInfo = ZeroAccountInfo E, Balance = Balance E, UpdateBalance = UpdateBalance E,
     Sequence = Sequence E, UpdateSequence = UpdateSequence E, BlackHole = BlackHole E,
     TransferFromSenderAccToBlackHoleAcc = (\<lambda>(c, b) a v.
       case TransferFromSenderAccToBlackHoleAcc E c a v of (ok, c') \<Rightarrow> (ok, (c', b)))\<rparr>"

lemma with_block_simps [simp]:
  "GetAccount (with_block E) cb = GetAccount E (fst cb)" "GetStorageAt (with_block E) cb = GetStorageAt E (fst cb)"
  "SetAccount (with_block E) cb a acc = (SetAccount E (fst cb) a acc, snd cb)"
  "SetStorageAt (with_block E) cb s k v = (SetStorageAt E (fst cb) s k v, snd cb)"
  "Balance (with_block E) = Balance E" "Sequence (with_block E) = Sequence E"
  "UpdateBalance (with_block E) = UpdateBalance E" "UpdateSequence (with_block E) = UpdateSequence E"
  "ZeroAccountInfo (with_block E) = ZeroAccountInfo E" "BlackHole (with_block E) = BlackHole E"
  "TransferFromSenderAccToBlackHoleAcc (with_block E) cb a coins =
     (fst (TransferFromSenderAccToBlackHoleAcc E (fst cb) a coins),
      (snd (TransferFromSenderAccToBlackHoleAcc E (fst cb) a coins), snd cb))"
  by (simp_all add: with_block_def split: prod.split)

lemma bal_with_block [simp]: "bal (with_block E) cb a = bal E (fst cb) a"
  by (simp add: bal_def split: option.split)

lemma with_block_laws: "evm_laws E \<Longrightarrow> evm_laws (with_block E)"
proof -
  assume E: "evm_laws E"
  then have "account_laws (with_block E)" "context_laws (with_block E)"
    by (simp_all add: evm_laws_def account_laws_def context_laws_def)
  moreover have "burn_laws (with_block E)"
    unfolding burn_laws_def
  proof (intro allI impI)
    fix cb :: "'a \<times> Block option" and a v assume "a \<noteq> BlackHole (with_block E)"
    then have "a \<noteq> BlackHole E" by simp
    with E have law: "case GetAccount E (fst cb) a of
        None \<Rightarrow> TransferFromSenderAccToBlackHoleAcc E (fst cb) a v = (False, fst cb)
      | Some acc \<Rightarrow>
          if Balance E acc < v then TransferFromSenderAccToBlackHoleAcc E (fst cb) a v = (False, fst cb)
          else (\<exists>ctx' hole. TransferFromSenderAccToBlackHoleAcc E (fst cb) a v = (True, ctx') \<and>
            GetAccount E ctx' a = Some (UpdateBalance E acc (Balance E acc - v)) \<and>
            GetAccount E ctx' (BlackHole E) = Some hole \<and>
            Balance E hole = bal E (fst cb) (BlackHole E) + v \<and>
            (\<forall>b. b \<noteq> a \<and> b \<noteq> BlackHole E \<longrightarrow> GetAccount E ctx' b = GetAccount E (fst cb) b) \<and>
            (\<forall>s k. GetStorageAt E ctx' s k = GetStorageAt E (fst cb) s k))"
      unfolding evm_laws_def burn_laws_def by blast
    then show "case GetAccount (with_block E) cb a of
        None \<Rightarrow> TransferFromSenderAccToBlackHoleAcc (with_block E) cb a v = (False, cb)
      | Some acc \<Rightarrow>
          if Balance (with_block E) acc < v then TransferFromSenderAccToBlackHoleAcc (with_block E) cb a v = (False, cb)
          else (\<exists>ctx' hole. TransferFromSenderAccToBlackHoleAcc (with_block E) cb a v = (True, ctx') \<and>
            GetAccount (with_block E) ctx' a = Some (UpdateBalance (with_block E) acc (Balance (with_block E) acc - v)) \<and>
            GetAccount (with_block E) ctx' (BlackHole (with_block E)) = Some hole \<and>
            Balance (with_block E) hole = bal (with_block E) cb (BlackHole (with_block E)) + v \<and>
            (\<forall>b. b \<noteq> a \<and> b \<noteq> BlackHole (with_block E) \<longrightarrow> GetAccount (with_block E) ctx' b = GetAccount (with_block E) cb b) \<and>
            (\<forall>s k. GetStorageAt (with_block E) ctx' s k = GetStorageAt (with_block E) cb s k))"
      by (auto split: option.splits if_splits)
  qed
  ultimately show ?thesis by (simp add: evm_laws_def)
qed

lemma with_block_storage [simp]:
  "LoadStakingAcc (with_block E) M cb = LoadStakingAcc E M (fst cb)"
  "LoadMinGasPrice (with_block E) cb l = LoadMinGasPrice E (fst cb) l"
  "SaveMinGasPrice (with_block E) cb p l = bindG (SaveMinGasPrice E (fst cb) p l) (\<lambda>c. Inr (c, snd cb))"
  by (simp_all add: LoadStakingAcc_def LoadMinGasPrice_def SaveMinGasPrice_def split: option.split sum.split)

definition block_lib :: "(mem_world \<times> Block option, mem_account, unit, exec_info option, unit) lib" where
  "block_lib = \<lparr>lib_evm = with_block mem_evm, lib_codec = mp_codec, lib_orders = id_orders,
     GetSystemBalance = (\<lambda>c. 0), SubSystemAccBalance = (\<lambda>c v. Inl ''no system account''),
     GetCurrBlockBasicInfo = snd, SetCurrBlockBasicInfo = (\<lambda>c b. (fst c, Some b)),
     GetRootHash = (\<lambda>c. case snd c of None \<Rightarrow> [] | Some b \<Rightarrow> be_bytes 32 (ucast (blk_Number b) :: bytes32)),
     PubKey_Address = (\<lambda>k. be_bytes 20 k), Block_MarshalMsg = (\<lambda>b. Inr []),
     Tx_MarshalMsg = (\<lambda>t. Inr []), TransferEvent = 0,
     Unmarshal_Genesis = (\<lambda>bz. Inr \<lparr>gd_Validators = [witness_validator 1 101 3 MinimumStakingAmount],
       gd_Alloc = [(7, 1000)]\<rparr>),
     CollectTx = (\<lambda>x t. x), Prepare = (\<lambda>x c seed p. ({}, x, c)),
     Execute = (\<lambda>x c bi. (Some bi, c)), GasUsedInfo = (\<lambda>x. (0, 0, 0)), StandbyQLen = (\<lambda>x. 1),
     CommittedTxs = (\<lambda>x. [])\<rparr>"

lemma block_lib_simps:
  "lib_evm block_lib = with_block mem_evm" "lib_codec block_lib = mp_codec" "GetCurrBlockBasicInfo block_lib = snd"
  "SetCurrBlockBasicInfo block_lib c b = (fst c, Some b)" "GetSystemBalance block_lib c = 0"
  "StandbyQLen block_lib x = 1" "Prepare block_lib x c seed p = ({}, x, c)" "CommittedTxs block_lib x = []"
  "Block_MarshalMsg block_lib b = Inr []" "Execute block_lib x c bi = (Some bi, c)" "GasUsedInfo block_lib x = (0, 0, 0)"
  by (simp_all add: block_lib_def)

lemma block_lib_laws: "evm_laws (lib_evm block_lib)" "block_frame_laws block_lib" "block_set_laws block_lib"
  by (simp_all add: block_lib_simps with_block_laws mem_evm_laws block_frame_laws_def block_set_laws_def)
    (simp add: block_lib_def)

definition first_app :: "Block option \<Rightarrow> (mem_world \<times> Block option, exec_info option) App" where
  "first_app p = (start_app (witness_world active_witness active_funds, p) None)\<lparr>currHeight := 1,
     block := zero_Block\<lparr>blk_Number := 1, blk_Hash := 9\<rparr>, epochQueue := [no_nominations\<lparr>EndTime := 5\<rparr>]\<rparr>"

lemma first_app_load:
  "LoadStakingAcc (lib_evm block_lib) (lib_codec block_lib) (trunk (first_app p)) =
     Inr (\<lparr>mem_balance = active_funds, mem_sequence = StakingContractSequence\<rparr>, active_witness)"
  by (simp add: block_lib_simps first_app_def start_app_def witness_world_load [OF active_witness_inv(2)])

definition late_write :: "'c write_back" where
  "late_write b v s = (if v = b then s else v)"

lemma late_write_laws: "write_back_laws late_write"
  by (simp add: write_back_laws_def late_write_def)

lemma first_app_commit:
  "\<exists>res app'. Commit block_lib (first_app p) = Inr (res, app') \<and>
     LoadStakingAcc (lib_evm block_lib) (lib_codec block_lib) (rootStore app') =
       Inr (\<lparr>mem_balance = active_funds, mem_sequence = StakingContractSequence\<rparr>, active_witness) \<and>
     LoadMinGasPrice (lib_evm block_lib) (rootStore app') True = Inr 0"
proof -
  let ?w = "witness_world active_witness active_funds"
  have load: "LoadStakingAcc mem_evm mp_codec ?w =
      Inr (\<lparr>mem_balance = active_funds, mem_sequence = StakingContractSequence\<rparr>, active_witness)"
    using first_app_load by (simp add: block_lib_simps first_app_def start_app_def)
  have price: "LoadMinGasPrice mem_evm ?w False = Inr 0"
    unfolding witness_world_def LoadMinGasPrice_SaveStakingInfo [OF mem_evm_laws mp_codec_laws]
    by (simp add: LoadMinGasPrice_def mem_evm_def mem_set_def mem_empty_def DefaultMinGasPrice_def)
  obtain w where w: "SaveMinGasPrice mem_evm ?w 0 True = Inr w"
    using LoadStakingAcc_account [OF load] by (simp add: SaveMinGasPrice_def)
  note load' = load [folded LoadStakingAcc_SaveMinGasPrice [OF mem_evm_laws w]]
  have epoch: "commit_epoch block_lib active_witness (first_app p) = Inr (first_app p)"
    by (simp add: commit_epoch_def receive_epoch_def first_app_def start_app_def zero_Block_def word_sless_alt Let_def)
  have slash: "commit_slash block_lib m (first_app p) = Inr ((first_app p)\<lparr>slashValidators := []\<rparr>)" for m
    by (simp add: commit_slash_def first_app_def start_app_def)
  let ?a = "(first_app p)\<lparr>slashValidators := [], readonlyInfo := Some active_witness\<rparr>"
  have fees: "commit_fees block_lib m ((first_app p)\<lparr>slashValidators := []\<rparr>) = Inr ?a" for m
    using load
    by (simp add: commit_fees_eq sub_system_def block_lib_simps first_app_def start_app_def LoadReadonlyValiatorsInfo_def Let_def)
  have hist: "history_block block_lib app b = Inr \<lparr>mdb_Height = blk_Number b, mdb_BlockHash = blk_Hash b,
      mdb_BlockInfo = [], mdb_TxList = []\<rparr>" for app b
    by (simp add: history_block_def block_lib_simps Let_def)
  have "\<exists>a. refresh block_lib b = Inr a \<and> rootStore a = (w, Some (block b))" if "trunk b = (?w, p)" for b
    by (cases p) (simp_all add: refresh_def that block_lib_simps price w hist Let_def)
  from this [of "?a\<lparr>touchedAddrs := {}, txEngine := None, trunk := (?w, p)\<rparr>"]
  have "\<exists>a. refresh block_lib (?a\<lparr>touchedAddrs := {}, txEngine := None, trunk := (?w, p)\<rparr>) = Inr a \<and>
      rootStore a = (w, Some (block (first_app p)))" by simp
  then obtain a where a: "refresh block_lib (?a\<lparr>touchedAddrs := {}, txEngine := None, trunk := (?w, p)\<rparr>) = Inr a"
    "rootStore a = (w, Some (block (first_app p)))" by blast
  have parts: "trunk ?a = (?w, p)" "txEngine ?a = None" by (simp_all add: first_app_def start_app_def)
  have "\<exists>res app'. Commit block_lib (first_app p) = Inr (res, app') \<and> rootStore app' = rootStore a"
    unfolding Commit_def first_app_load bindG_simps prod.case epoch slash fees Let_def block_lib_simps(7) parts a(1)
    by (simp add: case_prod_beta)
  moreover have "LoadMinGasPrice mem_evm w True = Inr 0" by (rule LoadMinGasPrice_Save(1) [OF mem_evm_laws w])
  ultimately show ?thesis using load' a(2) by (auto simp: block_lib_simps)
qed

text \<open>The first block of a chain is committed with an epoch waiting, and the node is started again.\<close>

theorem restart_recovers_witness:
  "\<exists>res app' node. Commit block_lib (first_app None) = Inr (res, app') \<and>
     NewApp block_lib late_write DefaultConfig 1 (rootStore app') [] None = Inr node \<and>
     currHeight node = 1 \<and> epochQueue node = [] \<and> length (epochQueue app') = 1"
proof -
  obtain res app' where commit: "Commit block_lib (first_app None) = Inr (res, app')"
    and load: "LoadStakingAcc (lib_evm block_lib) (lib_codec block_lib) (rootStore app') =
       Inr (\<lparr>mem_balance = active_funds, mem_sequence = StakingContractSequence\<rparr>, active_witness)"
    and price: "LoadMinGasPrice (lib_evm block_lib) (rootStore app') True = Inr 0"
    using first_app_commit by blast
  have at: "currHeight (first_app None) = blk_Number (block (first_app None))" "currHeight (first_app None) \<noteq> 0" "chainId (first_app None) = 1"
    by (simp_all add: first_app_def start_app_def)
  have waiting: "epochQueue (receive_epoch (first_app None)) = [no_nominations\<lparr>EndTime := 5\<rparr>]"
    "\<not> EndTime (no_nominations\<lparr>EndTime := 5\<rparr>) + 60000 <s blk_Timestamp (block (first_app None))"
    by (simp_all add: first_app_def start_app_def receive_epoch_def zero_Block_def word_sless_alt)
  from restart_recovers [OF block_lib_laws late_write_laws commit at(1,2) load block_lib_simps(10) load price,
      of DefaultConfig "[]" None]
  obtain node where "NewApp block_lib late_write DefaultConfig 1 (rootStore app') [] None = Inr node"
    "currHeight node = currHeight app'" "epochQueue node = []" "epochQueue app' = [no_nominations\<lparr>EndTime := 5\<rparr>]"
    "currHeight app' = 1"
    using waiting at(3) Commit_height [OF commit] by (auto simp: first_app_def)
  then show ?thesis using commit by auto
qed

end
