(* ===== verification/App_Run.thy ===== *)
theory App_Run
  imports App_Node
begin

text \<open>
  Runs of the application: the calls tendermint makes over its four connections, in the order in
  which the application's lock serves them, and the epochs the watcher sends meanwhile. The lemmas
  show how the connections depend on each other (the mempool connection never influences a block),
  what a sequence of blocks leaves in the history and on the chain feed, and when a call for the
  RPC service can be served.
\<close>

section \<open>Calls and answers\<close>

datatype abci_call =
    call_InitChain bytes
  | call_BeginBlock RequestBeginBlock
  | call_DeliverTx int64 bytes
  | call_EndBlock
  | call_Commit
  | call_CheckTx "(bytes32 \<times> SenderAndHeight) list \<Rightarrow> (bytes32 \<times> SenderAndHeight) list" CheckTxType bytes
  | call_Info
  | epoch_sent Epoch

datatype abci_answer =
    ans_InitChain ResponseInitChain
  | ans_BeginBlock
  | ans_DeliverTx
  | ans_EndBlock "(bytes32 \<times> int64) list"
  | ans_Commit ResponseCommit
  | ans_CheckTx ResponseCheckTx
  | ans_Info "int64 \<times> bytes"
  | ans_none

definition abci ::
  "('c, 'a, 'e, 'x, 't) lib \<Rightarrow> ('t, 'c, 'a) txlib \<Rightarrow> ('c, 'x) App \<Rightarrow> abci_call \<Rightarrow> (abci_answer \<times> ('c, 'x) App) go" where
  "abci L T app call = (case call of
       call_InitChain bz \<Rightarrow> bindG (InitChain L app bz) (\<lambda>(res, app). Inr (ans_InitChain res, app))
     | call_BeginBlock req \<Rightarrow> Inr (ans_BeginBlock, BeginBlock app req)
     | call_DeliverTx sz tx \<Rightarrow> Inr (ans_DeliverTx, DeliverTx L T app sz tx)
     | call_EndBlock \<Rightarrow> Inr (ans_EndBlock (EndBlock app), app)
     | call_Commit \<Rightarrow> bindG (Commit L app) (\<lambda>(res, app). Inr (ans_Commit res, app))
     | call_CheckTx order ty tx \<Rightarrow> (let (res, app) = CheckTx T order app ty tx in Inr (ans_CheckTx res, app))
     | call_Info \<Rightarrow> Inr (ans_Info (Info L app), app)
     | epoch_sent e \<Rightarrow> Inr (ans_none, app\<lparr>watcherChan := watcherChan app @ [e]\<rparr>))"

fun run ::
  "('c, 'a, 'e, 'x, 't) lib \<Rightarrow> ('t, 'c, 'a) txlib \<Rightarrow> ('c, 'x) App \<Rightarrow> abci_call list \<Rightarrow>
   (abci_answer list \<times> ('c, 'x) App) go" where
  "run L T app [] = Inr ([], app)"
| "run L T app (c # cs) = bindG (abci L T app c) (\<lambda>(a, app). bindG (run L T app cs) (\<lambda>(as, app). Inr (a # as, app)))"

section \<open>The mempool connection\<close>

text \<open>The part of the state that belongs to the mempool connection, set to any values.\<close>

definition mempool_set :: "'c \<Rightarrow> (bytes32 \<times> SenderAndHeight) list \<Rightarrow> int \<Rightarrow> ('c, 'x) App \<Rightarrow> ('c, 'x) App" where
  "mempool_set c s n app = app\<lparr>checkTrunk := c, sigCache := s, recheckCounter := n\<rparr>"

lemma mempool_set_set [simp]: "mempool_set c s n (mempool_set c' s' n' app) = mempool_set c s n app"
  by (simp add: mempool_set_def)

lemma mempool_set_sel [simp]:
  "chainId (mempool_set c s n app) = chainId app" "retainBlocks (mempool_set c s n app) = retainBlocks app"
  "numKeptBlocks (mempool_set c s n app) = numKeptBlocks app" "historyStore (mempool_set c s n app) = historyStore app"
  "currHeight (mempool_set c s n app) = currHeight app" "trunk (mempool_set c s n app) = trunk app"
  "block (mempool_set c s n app) = block app" "blockInfo (mempool_set c s n app) = blockInfo app"
  "slashValidators (mempool_set c s n app) = slashValidators app" "lastCommitInfo (mempool_set c s n app) = lastCommitInfo app"
  "lastProposer (mempool_set c s n app) = lastProposer app" "lastGasUsed (mempool_set c s n app) = lastGasUsed app"
  "lastGasRefund (mempool_set c s n app) = lastGasRefund app" "lastGasFee (mempool_set c s n app) = lastGasFee app"
  "lastMinGasPrice (mempool_set c s n app) = lastMinGasPrice app" "chainFeed (mempool_set c s n app) = chainFeed app"
  "logsFeed (mempool_set c s n app) = logsFeed app" "txEngine (mempool_set c s n app) = txEngine app"
  "reorderSeed (mempool_set c s n app) = reorderSeed app" "touchedAddrs (mempool_set c s n app) = touchedAddrs app"
  "watcherChan (mempool_set c s n app) = watcherChan app" "epochQueue (mempool_set c s n app) = epochQueue app"
  "currValidators (mempool_set c s n app) = currValidators app" "sigCacheSize (mempool_set c s n app) = sigCacheSize app"
  "sep206SenderSet (mempool_set c s n app) = sep206SenderSet app" "recheckThreshold (mempool_set c s n app) = recheckThreshold app"
  "readonlyInfo (mempool_set c s n app) = readonlyInfo app" "rootStore (mempool_set c s n app) = rootStore app"
  "pruneCalls (mempool_set c s n app) = pruneCalls app"
  by (simp_all add: mempool_set_def)

lemma mempool_set_upd:
  "mempool_set c s n app\<lparr>chainId := v0\<rparr> = mempool_set c s n (app\<lparr>chainId := v0\<rparr>)"
  "mempool_set c s n app\<lparr>retainBlocks := v1\<rparr> = mempool_set c s n (app\<lparr>retainBlocks := v1\<rparr>)"
  "mempool_set c s n app\<lparr>numKeptBlocks := v2\<rparr> = mempool_set c s n (app\<lparr>numKeptBlocks := v2\<rparr>)"
  "mempool_set c s n app\<lparr>historyStore := v3\<rparr> = mempool_set c s n (app\<lparr>historyStore := v3\<rparr>)"
  "mempool_set c s n app\<lparr>currHeight := v4\<rparr> = mempool_set c s n (app\<lparr>currHeight := v4\<rparr>)"
  "mempool_set c s n app\<lparr>trunk := v5\<rparr> = mempool_set c s n (app\<lparr>trunk := v5\<rparr>)"
  "mempool_set c s n app\<lparr>block := v6\<rparr> = mempool_set c s n (app\<lparr>block := v6\<rparr>)"
  "mempool_set c s n app\<lparr>blockInfo := v7\<rparr> = mempool_set c s n (app\<lparr>blockInfo := v7\<rparr>)"
  "mempool_set c s n app\<lparr>slashValidators := v8\<rparr> = mempool_set c s n (app\<lparr>slashValidators := v8\<rparr>)"
  "mempool_set c s n app\<lparr>lastCommitInfo := v9\<rparr> = mempool_set c s n (app\<lparr>lastCommitInfo := v9\<rparr>)"
  "mempool_set c s n app\<lparr>lastProposer := v10\<rparr> = mempool_set c s n (app\<lparr>lastProposer := v10\<rparr>)"
  "mempool_set c s n app\<lparr>lastGasUsed := v11\<rparr> = mempool_set c s n (app\<lparr>lastGasUsed := v11\<rparr>)"
  "mempool_set c s n app\<lparr>lastGasRefund := v12\<rparr> = mempool_set c s n (app\<lparr>lastGasRefund := v12\<rparr>)"
  "mempool_set c s n app\<lparr>lastGasFee := v13\<rparr> = mempool_set c s n (app\<lparr>lastGasFee := v13\<rparr>)"
  "mempool_set c s n app\<lparr>lastMinGasPrice := v14\<rparr> = mempool_set c s n (app\<lparr>lastMinGasPrice := v14\<rparr>)"
  "mempool_set c s n app\<lparr>chainFeed := v15\<rparr> = mempool_set c s n (app\<lparr>chainFeed := v15\<rparr>)"
  "mempool_set c s n app\<lparr>logsFeed := v16\<rparr> = mempool_set c s n (app\<lparr>logsFeed := v16\<rparr>)"
  "mempool_set c s n app\<lparr>txEngine := v17\<rparr> = mempool_set c s n (app\<lparr>txEngine := v17\<rparr>)"
  "mempool_set c s n app\<lparr>reorderSeed := v18\<rparr> = mempool_set c s n (app\<lparr>reorderSeed := v18\<rparr>)"
  "mempool_set c s n app\<lparr>touchedAddrs := v19\<rparr> = mempool_set c s n (app\<lparr>touchedAddrs := v19\<rparr>)"
  "mempool_set c s n app\<lparr>watcherChan := v20\<rparr> = mempool_set c s n (app\<lparr>watcherChan := v20\<rparr>)"
  "mempool_set c s n app\<lparr>epochQueue := v21\<rparr> = mempool_set c s n (app\<lparr>epochQueue := v21\<rparr>)"
  "mempool_set c s n app\<lparr>currValidators := v22\<rparr> = mempool_set c s n (app\<lparr>currValidators := v22\<rparr>)"
  "mempool_set c s n app\<lparr>sigCacheSize := v23\<rparr> = mempool_set c s n (app\<lparr>sigCacheSize := v23\<rparr>)"
  "mempool_set c s n app\<lparr>sep206SenderSet := v24\<rparr> = mempool_set c s n (app\<lparr>sep206SenderSet := v24\<rparr>)"
  "mempool_set c s n app\<lparr>recheckThreshold := v25\<rparr> = mempool_set c s n (app\<lparr>recheckThreshold := v25\<rparr>)"
  "mempool_set c s n app\<lparr>readonlyInfo := v26\<rparr> = mempool_set c s n (app\<lparr>readonlyInfo := v26\<rparr>)"
  "mempool_set c s n app\<lparr>rootStore := v27\<rparr> = mempool_set c s n (app\<lparr>rootStore := v27\<rparr>)"
  "mempool_set c s n app\<lparr>pruneCalls := v28\<rparr> = mempool_set c s n (app\<lparr>pruneCalls := v28\<rparr>)"
  by (simp_all add: mempool_set_def)

definition is_CheckTx :: "abci_call \<Rightarrow> bool" where
  "is_CheckTx c = (case c of call_CheckTx _ _ _ \<Rightarrow> True | _ \<Rightarrow> False)"

definition is_CheckTx_answer :: "abci_answer \<Rightarrow> bool" where
  "is_CheckTx_answer a = (case a of ans_CheckTx _ \<Rightarrow> True | _ \<Rightarrow> False)"

lemma map_bindG: "map_sum id f (bindG m g) = bindG m (\<lambda>x. map_sum id f (g x))"
  by (cases m) simp_all

lemma bindG_map: "bindG (map_sum id f m) g = bindG m (\<lambda>x. g (f x))"
  by (cases m) simp_all

lemmas map_result = map_bindG case_prod_beta' Let_def if_distrib [of "map_sum id f" for f]
  option.case_distrib [of "map_sum id f" for f] list.case_distrib [of "map_sum id f" for f]
  sum.case_distrib [of "map_sum id f" for f]

lemma CheckTx_only_mempool:
  fixes app :: "('c, 'x) App"
  shows "\<exists>c s n. snd (CheckTx T order app ty tx) = mempool_set c s n app"
proof -
  have self: "\<exists>c s n. app = mempool_set c s n app" for app :: "('c, 'x) App"
    by (intro exI [of _ "checkTrunk app"] exI [of _ "sigCache app"] exI [of _ "recheckCounter app"])
      (simp add: mempool_set_def)
  have sender: "\<exists>c s n. snd (check_sender T ty tx snd_addr a) = mempool_set c s n app"
    if "\<exists>c s n. a = mempool_set c s n app" for a :: "('c, 'x) App" and tx snd_addr
  proof -
    have "\<exists>c. snd (check_sender T ty tx snd_addr a) = a\<lparr>checkTrunk := c\<rparr>"
      by (auto simp: check_sender_def checkTx_def Let_def intro: exI [of _ "checkTrunk a"] split: sum.split)
    moreover have "mempool_set c s n app\<lparr>checkTrunk := c'\<rparr> = mempool_set c' s n app" for c c' s n
      by (simp add: mempool_set_def)
    ultimately show ?thesis using that by metis
  qed
  have cache: "\<exists>c s n. add_to_cache order k addr a = mempool_set c s n app"
    if "\<exists>c s n. a = mempool_set c s n app" for a :: "('c, 'x) App" and k addr
  proof -
    have "\<exists>s. add_to_cache order k addr a = a\<lparr>sigCache := s\<rparr>" by (simp add: add_to_cache_def Let_def) blast
    moreover have "mempool_set c s n app\<lparr>sigCache := s'\<rparr> = mempool_set c s' n app" for c s s' n
      by (simp add: mempool_set_def)
    ultimately show ?thesis using that by metis
  qed
  define a where "a = (if ty = CheckTxType_Recheck then app\<lparr>recheckCounter := recheckCounter app + 1\<rparr> else app)"
  have a: "\<exists>c s n. a = mempool_set c s n app"
  proof (cases "ty = CheckTxType_Recheck")
    case True
    then show ?thesis
      by (intro exI [of _ "checkTrunk app"] exI [of _ "sigCache app"] exI [of _ "recheckCounter app + 1"])
        (simp add: a_def mempool_set_def)
  qed (use self in \<open>simp add: a_def\<close>)
  show ?thesis
  proof (cases "ty \<noteq> CheckTxType_Recheck \<and> recheckThreshold app < recheckCounter app")
    case True
    then show ?thesis using self by (simp add: CheckTx_def)
  next
    case False
    show ?thesis
      unfolding CheckTx_def a_def [symmetric] Let_def if_not_P [OF False]
      using a sender [OF a] sender [OF cache [OF a]]
      by (simp split: option.split sum.split)
  qed
qed

text \<open>What the other connections do does not depend on that part.\<close>

lemma InitChain_mempool:
  "InitChain L (mempool_set c s n app) bz =
     map_sum id (\<lambda>(res, app). (res, mempool_set c s n app)) (InitChain L app bz)"
  by (simp add: InitChain_def map_result mempool_set_upd cong: option.case_cong sum.case_cong if_cong)

lemma BeginBlock_mempool: "BeginBlock (mempool_set c s n app) req = mempool_set c s n (BeginBlock app req)"
  by (simp add: BeginBlock_def mempool_set_upd Let_def)

lemma DeliverTx_mempool: "DeliverTx L T (mempool_set c s n app) sz tx = mempool_set c s n (DeliverTx L T app sz tx)"
  by (simp add: DeliverTx_def mempool_set_upd Let_def split: option.split)

lemma commit_epoch_mempool:
  "commit_epoch L info (mempool_set c s n app) = map_sum id (mempool_set c s n) (commit_epoch L info app)"
  by (simp add: commit_epoch_def receive_epoch_def mempool_set_upd map_result split: list.split)

lemma commit_slash_mempool:
  "commit_slash L m (mempool_set c s n app) = map_sum id (mempool_set c s n) (commit_slash L m app)"
  by (simp add: commit_slash_def mempool_set_upd map_bindG)

lemma commit_fees_mempool:
  "commit_fees L m (mempool_set c s n app) = map_sum id (mempool_set c s n) (commit_fees L m app)"
  by (simp add: commit_fees_eq map_result mempool_set_upd cong: if_cong)

text \<open>A commit resets the counter and the state that transactions are checked against.\<close>

lemma refresh_mempool:
  "refresh L (mempool_set c s n app) = map_sum id (\<lambda>app. mempool_set (checkTrunk app) s 0 app) (refresh L app)"
proof -
  have reset: "mempool_set c s n app\<lparr>recheckCounter := 0, lastProposer := p, lastCommitInfo := [], checkTrunk := t\<rparr> =
      mempool_set t s 0 (app\<lparr>recheckCounter := 0, lastProposer := p, lastCommitInfo := [], checkTrunk := t\<rparr>)"
    for p t and app :: "('a, 'b) App"
    by (simp add: mempool_set_def)
  have prune: "prune p (mempool_set c s n app) = mempool_set c s n (prune p app)" for p and app :: "('a, 'b) App"
    by (simp add: prune_def mempool_set_upd split: option.split)
  have publish: "publishNewBlock b (mempool_set c s n app) = mempool_set c s n (publishNewBlock b app)"
    for b and app :: "('a, 'b) App"
    by (simp add: publishNewBlock_def mempool_set_upd Let_def)
  have hist: "history_block L (mempool_set c s n app) p = history_block L app p" for p and app :: "('a, 'b) App"
    by (simp add: history_block_def Let_def)
  have recording: "(case p of None \<Rightarrow> Inr (mempool_set c s n a) | Some b \<Rightarrow> bindG (B b) (\<lambda>blk. Inr (mempool_set c s n (C b blk)))) =
      map_sum id (mempool_set c s n) (case p of None \<Rightarrow> Inr a | Some b \<Rightarrow> bindG (B b) (\<lambda>blk. Inr (C b blk)))"
    for p B C and a :: "('a, 'b) App"
    by (simp add: map_bindG split: option.split)
  show ?thesis
    by (simp add: refresh_def map_bindG mempool_set_upd prune reset publish hist recording bindG_map Let_def
        cong: option.case_cong)
qed

lemma Commit_mempool:
  "Commit L (mempool_set c s n app) =
     map_sum id (\<lambda>(res, app). (res, mempool_set (checkTrunk app) s 0 app)) (Commit L app)"
proof -
  have post: "postCommit L bi (mempool_set c s n app) = mempool_set c s n (postCommit L bi app)" for bi c s n and app :: "('a, 'b) App"
    by (simp add: postCommit_def mempool_set_upd Let_def case_prod_beta')
  have sync: "syncBlockInfo (mempool_set c s n app) = (fst (syncBlockInfo app), mempool_set c s n (snd (syncBlockInfo app)))"
    for c s n and app :: "('a, 'b) App"
    by (simp add: syncBlockInfo_def mempool_set_upd Let_def)
  have retain: "retain_height (mempool_set c s n app) = retain_height app" for c s n and app :: "('a, 'b) App"
    by (simp add: retain_height_def)
  show ?thesis
    by (simp add: Commit_def map_bindG case_prod_beta' Let_def commit_epoch_mempool commit_slash_mempool
        commit_fees_mempool refresh_mempool mempool_set_upd bindG_map post sync retain)
qed

lemma Info_mempool: "Info L (mempool_set c s n app) = Info L app"
  by (simp add: Info_def)

lemma abci_mempool:
  assumes "\<not> is_CheckTx call"
  shows "\<exists>d. abci L T (mempool_set c s n app) call =
     map_sum id (\<lambda>(a, app). (a, mempool_set (fst (d app)) s (snd (d app)) app)) (abci L T app call)"
proof (cases call)
  case call_Commit
  then show ?thesis
    by (intro exI [of _ "\<lambda>app. (checkTrunk app, 0)"])
      (simp add: abci_def Commit_mempool bindG_map map_bindG case_prod_beta')
next
  case (call_CheckTx f ty tx)
  with assms show ?thesis by (simp add: is_CheckTx_def)
qed (use assms in \<open>auto simp: abci_def InitChain_mempool BeginBlock_mempool DeliverTx_mempool EndBlock_def Info_mempool
       bindG_map map_bindG case_prod_beta' mempool_set_upd intro!: exI [of _ "\<lambda>app. (c, n)"]\<close>)

text \<open>
  (C11) The mempool connection never influences a block. For every sequence of calls, in any order and
  with any decisions of the cache, leaving out the calls of CheckTx changes no answer on the
  other connections (panics included) and nothing in the final state but the state, the cache and the
  counter that CheckTx itself works on. Nodes whose mempools have seen different transactions
  stay in consensus.
\<close>

theorem blocks_ignore_mempool:
  "map_sum id (\<lambda>(as, app). (filter (\<lambda>a. \<not> is_CheckTx_answer a) as, mempool_set c s n app)) (run L T app calls) =
   map_sum id (\<lambda>(as, app). (as, mempool_set c s n app)) (run L T app (filter (\<lambda>a. \<not> is_CheckTx a) calls))"
proof -
  let ?out1 = "\<lambda>(as, app). (filter (\<lambda>a. \<not> is_CheckTx_answer a) as, mempool_set c s n app)"
    and ?out2 = "\<lambda>(as, app). (as, mempool_set c s n app)"
  have "map_sum id ?out1 (run L T (mempool_set c' s' n' app) calls) =
      map_sum id ?out2 (run L T app (filter (\<lambda>a. \<not> is_CheckTx a) calls))" for c' s' n'
  proof (induction calls arbitrary: c' s' n' app)
    case Nil
    then show ?case by simp
  next
    case (Cons call calls)
    show ?case
    proof (cases "is_CheckTx call")
      case True
      then obtain f ty tx where call: "call = call_CheckTx f ty tx" by (auto simp: is_CheckTx_def split: abci_call.splits)
      let ?r = "CheckTx T f (mempool_set c' s' n' app) ty tx"
      obtain c2 s2 n2 where "snd ?r = mempool_set c2 s2 n2 (mempool_set c' s' n' app)"
        using CheckTx_only_mempool [of T f "mempool_set c' s' n' app" ty tx] by metis
      then have r: "abci L T (mempool_set c' s' n' app) call = Inr (ans_CheckTx (fst ?r), mempool_set c2 s2 n2 app)"
        by (simp add: abci_def call case_prod_beta')
      show ?thesis
        using Cons.IH [of c2 s2 n2 app] True
        by (cases "run L T (mempool_set c2 s2 n2 app) calls"; cases "run L T app (filter (\<lambda>a. \<not> is_CheckTx a) calls)")
          (auto simp: r is_CheckTx_answer_def)
    next
      case False
      obtain d where r: "abci L T (mempool_set c' s' n' app) call =
          map_sum id (\<lambda>(a, app). (a, mempool_set (fst (d app)) s' (snd (d app)) app)) (abci L T app call)"
        using abci_mempool [OF False, of L T c' s' n' app] by (rule exE)
      show ?thesis
      proof (cases "abci L T app call")
        case (Inl e)
        with False show ?thesis by (simp add: r)
      next
        case (Inr res)
        obtain a app1 where res: "res = (a, app1)" by fastforce
        have "\<not> is_CheckTx_answer a"
          using False Inr unfolding res
          by (cases call) (auto simp: abci_def is_CheckTx_def is_CheckTx_answer_def bindG_def split: sum.splits prod.splits)
        with False Inr Cons.IH [of "fst (d app1)" s' "snd (d app1)" app1] show ?thesis
          by (cases "run L T app1 (filter (\<lambda>a. \<not> is_CheckTx a) calls)";
              cases "run L T (mempool_set (fst (d app1)) s' (snd (d app1)) app1) calls")
            (auto simp: r res)
      qed
    qed
  qed
  from this [of "checkTrunk app" "sigCache app" "recheckCounter app"] show ?thesis by (simp add: mempool_set_def)
qed

section \<open>The history of a run\<close>

text \<open>The numbers and hashes of the blocks that a sequence of calls commits, when \<open>b\<close> is under way.\<close>

fun commits :: "int64 \<times> bytes32 \<Rightarrow> abci_call list \<Rightarrow> (int64 \<times> bytes32) list" where
  "commits b [] = []"
| "commits b (call_BeginBlock req # cs) = commits (rq_Height req, copy_array 32 0 (rq_Hash req)) cs"
| "commits b (call_Commit # cs) = b # commits b cs"
| "commits b (_ # cs) = commits b cs"

definition block_id :: "('c, 'x) App \<Rightarrow> int64 \<times> bytes32" where
  "block_id app = (blk_Number (block app), blk_Hash (block app))"

lemma Commit_records:
  assumes "block_frame_laws L" and "block_set_laws L" and "Commit L app = Inr (res, app')"
  shows "history_index app' = history_index app @ recorded (GetCurrBlockBasicInfo L (trunk app))"
    and "published_index app' = published_index app @ recorded (GetCurrBlockBasicInfo L (trunk app))"
    and "recorded (GetCurrBlockBasicInfo L (trunk app')) = [block_id app]"
    and "block_id app' = block_id app" and "blockInfo app' \<noteq> None"
proof -
  from assms(3) obtain a a' where parts: "kept a = kept app"
      "GetCurrBlockBasicInfo L (trunk a) = GetCurrBlockBasicInfo L (trunk app)"
      "refresh L a = Inr a'" "app' = postCommit L (fst (syncBlockInfo a')) (snd (syncBlockInfo a'))"
    by (rule Commit_parts) (use assms(1) in blast)
  note prev = parts(2)
  have app': "kept app' = kept a'" "GetCurrBlockBasicInfo L (trunk app') = GetCurrBlockBasicInfo L (trunk a')"
    "blockInfo app' \<noteq> None"
    using assms(1) by (simp_all add: parts(4))
  from refresh_result [OF parts(3)] obtain ctx mGP where r:
    "SaveMinGasPrice (lib_evm L) (SetCurrBlockBasicInfo L (trunk a) (block a)) mGP True = Inr ctx" "trunk a' = ctx"
    "block_id a' = block_id a"
    "history_index a' = history_index a @ recorded (GetCurrBlockBasicInfo L (trunk a))"
    "published_index a' = published_index a @ recorded (GetCurrBlockBasicInfo L (trunk a))"
    by (auto simp: block_id_def)
  have a: "block_id a = block_id app" "history_index a = history_index app" "published_index a = published_index app"
    using parts(1) by (simp_all add: kept_def block_id_def history_index_def published_index_def)
  have app'': "block_id app' = block_id a'" "history_index app' = history_index a'" "published_index app' = published_index a'"
    using app'(1) by (simp_all add: kept_def block_id_def history_index_def published_index_def)
  show "history_index app' = history_index app @ recorded (GetCurrBlockBasicInfo L (trunk app))"
    "published_index app' = published_index app @ recorded (GetCurrBlockBasicInfo L (trunk app))"
    "block_id app' = block_id app" "blockInfo app' \<noteq> None"
    using r a app'' app'(3) prev by simp_all
  obtain b where "GetCurrBlockBasicInfo L (SetCurrBlockBasicInfo L (trunk a) (block a)) = Some b"
    "blk_Number b = blk_Number (block a)" "blk_Hash b = blk_Hash (block a)"
    using assms(2) unfolding block_set_laws_def by blast
  with block_frame.frame_SaveMinGasPrice [OF assms(1) r(1)] a(1)
  show "recorded (GetCurrBlockBasicInfo L (trunk app')) = [block_id app]"
    by (simp add: app'(2) r(2) recorded_def block_id_def)
qed

lemma createGenesisAccs_frame:
  "block_frame_laws L \<Longrightarrow> GetCurrBlockBasicInfo L (createGenesisAccs L alloc ctx) = GetCurrBlockBasicInfo L ctx"
  unfolding createGenesisAccs_def
  by (induction alloc arbitrary: ctx) (auto simp: block_frame_laws_def Let_def)

lemma InitChain_keeps:
  assumes "block_frame_laws L" and "InitChain L app bz = Inr (res, app')"
  shows "kept app' = kept app" and "GetCurrBlockBasicInfo L (trunk app') = GetCurrBlockBasicInfo L (trunk app)"
    and "blockInfo app' = blockInfo app"
  using assms
  by (auto simp: InitChain_def Let_def kept_def createGenesisAccs_frame block_frame.frame_SaveStakingInfo
      split: if_splits option.splits sum.splits)

lemma CheckTx_keeps:
  "kept (snd (CheckTx T f app ty tx)) = kept app" "trunk (snd (CheckTx T f app ty tx)) = trunk app"
  "blockInfo (snd (CheckTx T f app ty tx)) = blockInfo app"
proof -
  obtain c s n where "snd (CheckTx T f app ty tx) = mempool_set c s n app"
    using CheckTx_only_mempool [of T f app ty tx] by metis
  then show "kept (snd (CheckTx T f app ty tx)) = kept app" "trunk (snd (CheckTx T f app ty tx)) = trunk app"
    "blockInfo (snd (CheckTx T f app ty tx)) = blockInfo app"
    by (simp_all add: kept_def)
qed

text \<open>One call, for the calls that do not commit.\<close>

lemma abci_records:
  assumes "block_frame_laws L" and "abci L T app call = Inr (a, app')" and "call \<noteq> call_Commit"
  shows "history_index app' = history_index app \<and> published_index app' = published_index app \<and>
    GetCurrBlockBasicInfo L (trunk app') = GetCurrBlockBasicInfo L (trunk app) \<and> blockInfo app' = blockInfo app \<and>
    (\<forall>cs. commits (block_id app) (call # cs) = commits (block_id app') cs)"
proof (cases call)
  case (call_InitChain bz)
  with assms(2) obtain res where "InitChain L app bz = Inr (res, app')" by (auto simp: abci_def)
  from InitChain_keeps [OF assms(1) this] call_InitChain show ?thesis
    by (simp add: kept_def history_index_def published_index_def block_id_def)
next
  case (call_BeginBlock req)
  with assms(2) show ?thesis
    by (auto simp: abci_def BeginBlock_def history_index_def published_index_def block_id_def Let_def)
next
  case (call_DeliverTx sz tx)
  with assms(2) show ?thesis
    by (auto simp: abci_def DeliverTx_def history_index_def published_index_def block_id_def Let_def split: option.split)
next
  case (call_CheckTx f ty tx)
  with assms(2) have "app' = snd (CheckTx T f app ty tx)" by (auto simp: abci_def Let_def split: prod.splits)
  with CheckTx_keeps [of T f app ty tx] call_CheckTx show ?thesis
    by (simp add: kept_def history_index_def published_index_def block_id_def)
qed (use assms in \<open>auto simp: abci_def history_index_def published_index_def block_id_def\<close>)

lemma run_records:
  assumes "block_frame_laws L" and "block_set_laws L" and "run L T app calls = Inr (as, app')"
  shows "history_index app' = history_index app @
      butlast (recorded (GetCurrBlockBasicInfo L (trunk app)) @ commits (block_id app) calls) \<and>
    published_index app' = published_index app @
      butlast (recorded (GetCurrBlockBasicInfo L (trunk app)) @ commits (block_id app) calls)"
  using assms(3)
proof (induction calls arbitrary: app as)
  case Nil
  then show ?case by (simp add: recorded_def split: option.split)
next
  case (Cons call calls)
  from Cons.prems obtain a app1 as1 where step: "abci L T app call = Inr (a, app1)" and rest: "run L T app1 calls = Inr (as1, app')"
    by (auto elim!: bindG_InrE)
  note IH = Cons.IH [OF rest]
  show ?case
  proof (cases "call = call_Commit")
    case True
    with step obtain res where "Commit L app = Inr (res, app1)" by (auto simp: abci_def)
    note c = Commit_records [OF assms(1,2) this]
    show ?thesis using IH by (simp add: True c butlast_append)
  next
    case False
    with IH abci_records [OF assms(1) step False] show ?thesis by simp
  qed
qed

text \<open>
  (C12) The history and the chain feed are exactly the committed blocks. For every sequence of calls that does not
  panic, in any order, the application appends to its history, and publishes to the subscribers, the
  blocks that were committed, with the numbers and hashes of their BeginBlock requests, each once and in the
  order of the commits, and always one commit late: the block kept in the world state comes
  first, and the last committed block is missing.
\<close>

theorem run_history:
  assumes "block_frame_laws L" and "block_set_laws L" and "run L T app calls = Inr (as, app')"
  shows "history_index app' = history_index app @
      butlast (recorded (GetCurrBlockBasicInfo L (trunk app)) @ commits (block_id app) calls) \<and>
    published_index app' = published_index app @
      butlast (recorded (GetCurrBlockBasicInfo L (trunk app)) @ commits (block_id app) calls)"
  by (rule run_records [OF assms])

section \<open>When calls for the RPC service can be served\<close>

lemma NewApp_blockInfo:
  assumes "block_frame_laws L" and "NewApp L WB config cid world history engine = Inr app"
  shows "blockInfo app \<noteq> None \<longleftrightarrow> (\<exists>b. GetCurrBlockBasicInfo L world = Some b \<and> blk_Number b \<noteq> 0)"
  using assms(2)
  by (auto simp: NewApp_def restore_block_def reload_def block_frame.frame_Init [OF assms(1)] Let_def case_prod_beta'
      split: option.splits if_splits)

lemma run_blockInfo:
  assumes "block_frame_laws L" and "block_set_laws L" and "run L T app calls = Inr (as, app')"
  shows "blockInfo app' \<noteq> None \<longleftrightarrow> blockInfo app \<noteq> None \<or> call_Commit \<in> set calls"
  using assms(3)
proof (induction calls arbitrary: app as)
  case Nil
  then show ?case by simp
next
  case (Cons call calls)
  from Cons.prems obtain a app1 as1 where step: "abci L T app call = Inr (a, app1)" and rest: "run L T app1 calls = Inr (as1, app')"
    by (auto elim!: bindG_InrE)
  note IH = Cons.IH [OF rest]
  show ?case
  proof (cases "call = call_Commit")
    case True
    with step obtain res where "Commit L app = Inr (res, app1)" by (auto simp: abci_def)
    from Commit_records(5) [OF assms(1,2) this] IH True show ?thesis by simp
  next
    case False
    with IH abci_records [OF assms(1) step False] show ?thesis by auto
  qed
qed

text \<open>
  (C34) A call for the RPC service can be served exactly when a commit was made since the node was started, or
  the node was started on a world state with a block of a number other than zero: until then the
  information of a block is missing and running the call panics, whatever else was called.
\<close>

theorem rpc_call_ready:
  assumes "block_frame_laws L" and "block_set_laws L"
    and "NewApp L WB config cid world history engine = Inr app" and "run L T app calls = Inr (as, app')"
  shows "(\<exists>r. App_RunTxForRpc F R app' tx sender estimate = Inr r) \<longleftrightarrow>
    (\<exists>b. GetCurrBlockBasicInfo L world = Some b \<and> blk_Number b \<noteq> 0) \<or> call_Commit \<in> set calls"
proof -
  have "(\<exists>r. App_RunTxForRpc F R app' tx sender estimate = Inr r) \<longleftrightarrow> blockInfo app' \<noteq> None"
    by (cases "blockInfo app'") (simp_all add: App_RunTxForRpc_def del: split_paired_Ex)
  then show ?thesis using run_blockInfo [OF assms(1,2,4)] NewApp_blockInfo [OF assms(1,3)] by simp
qed

section \<open>Witnesses\<close>

definition block_txlib :: "(unit, mem_world \<times> Block option, mem_account) txlib" where
  "block_txlib = \<lparr>DecodeRLP = (\<lambda>bz. if bz = [] then None else Some ()), tx_hash = (\<lambda>t. 1),
     signer_Sender = (\<lambda>t. Inr 7), tx_Gas = (\<lambda>t. 1), tx_Nonce = (\<lambda>t. 0), tx_GasPrice = (\<lambda>t. 0), MaxTxGasLimit = 10,
     CheckNonce = (\<lambda>c a n. Inl ''no account''), DeductTxFee = (\<lambda>c a acc g p. Inl ''no account'')\<rparr>"

definition first_request :: RequestBeginBlock where
  "first_request = \<lparr>rq_Height = 1, rq_Time = 0, rq_Size = 0, rq_Hash = be_bytes 32 (9 :: bytes32), ProposerAddress = [],
     LastBlockIdHash = [], DataHash = [], AppHash = [], Votes = [], ByzantineValidators = []\<rparr>"

lemma first_request_begins: "BeginBlock (first_app p) first_request = first_app p"
proof -
  have hash: "copy_array 32 0 (be_bytes 32 (9 :: bytes32)) = (9 :: bytes32)" by (rule copy_array_be_bytes) simp
  have zero: "copy_array n (0 :: 'b::len word) [] = 0" if "LENGTH('b) \<le> 8 * n" for n
    using that by (simp add: copy_array_def be_word_be_bytes)
  show ?thesis
    by (simp add: BeginBlock_def first_request_def first_app_def start_app_def zero_Block_def hash zero
        collect_evidence_def Let_def)
qed

lemma first_run:
  "\<exists>as app'. run block_lib block_txlib (first_app p) [call_BeginBlock first_request, call_EndBlock, call_Commit] = Inr (as, app')"
proof -
  obtain res app' where "Commit block_lib (first_app p) = Inr (res, app')" using first_app_commit by blast
  then show ?thesis by (simp add: abci_def first_request_begins)
qed

text \<open>A block over a world state that keeps the block before it.\<close>

theorem run_history_witness:
  "\<exists>as app'. run block_lib block_txlib (first_app (Some (zero_Block\<lparr>blk_Hash := 7\<rparr>)))
       [call_BeginBlock first_request, call_EndBlock, call_Commit] = Inr (as, app') \<and>
     history_index app' = [(0, 7)] \<and> published_index app' = [(0, 7)]"
proof -
  let ?b = "zero_Block\<lparr>blk_Hash := 7\<rparr>" and ?calls = "[call_BeginBlock first_request, call_EndBlock, call_Commit]"
  obtain as app' where run: "run block_lib block_txlib (first_app (Some ?b)) ?calls = Inr (as, app')"
    using first_run by blast
  have "trunk (first_app (Some ?b)) = (witness_world active_witness active_funds, Some ?b)"
    "history_index (first_app (Some ?b)) = []" "published_index (first_app (Some ?b)) = []"
    by (simp_all add: first_app_def start_app_def history_index_def published_index_def)
  with run_history [OF block_lib_laws(2,3) run] run show ?thesis
    by (simp add: block_lib_simps recorded_def zero_Block_def)
qed

text \<open>A node started on a new world state.\<close>

lemma first_app_starts:
  "\<exists>app. NewApp block_lib late_write config cid (witness_world active_witness active_funds, None) [] None = Inr app"
proof -
  let ?w = "witness_world active_witness active_funds"
  have load: "LoadStakingAcc (lib_evm block_lib) (lib_codec block_lib) (?w, None) =
      Inr (\<lparr>mem_balance = active_funds, mem_sequence = StakingContractSequence\<rparr>, active_witness)"
    using first_app_load [of None] by (simp add: first_app_def start_app_def)
  have Init: "Init (lib_evm block_lib) (?w, None) = (?w, None)"
    using LoadStakingAcc_account [OF load] by (simp add: Init_def)
  have price: "LoadMinGasPrice mem_evm ?w True = Inr 0"
    unfolding witness_world_def LoadMinGasPrice_SaveStakingInfo [OF mem_evm_laws mp_codec_laws]
    by (simp add: LoadMinGasPrice_def mem_evm_def mem_set_def mem_empty_def DefaultMinGasPrice_def)
  then have "LoadMinGasPrice (lib_evm block_lib) (?w, None) True = Inr 0" by (simp add: block_lib_simps(1))
  then show ?thesis
    by (simp add: NewApp_def Init load late_write_def restore_block_def block_lib_simps(3) Let_def)
qed

theorem rpc_call_ready_witness:
  "\<exists>app. NewApp block_lib late_write DefaultConfig 1 (witness_world active_witness active_funds, None) [] None = Inr app \<and>
     \<not> (\<exists>r. App_RunTxForRpc (\<lambda>tx s h. ()) (\<lambda>bi e c t. ((0, []), 0)) app () 7 True = Inr r)"
proof -
  obtain app where app: "NewApp block_lib late_write DefaultConfig 1 (witness_world active_witness active_funds, None) [] None = Inr app"
    using first_app_starts by blast
  have "run block_lib block_txlib app [] = Inr ([], app)" by simp
  from rpc_call_ready [OF block_lib_laws(2,3) app this] app show ?thesis
    by (simp add: block_lib_simps del: split_paired_Ex)
qed

end
