(* ===== verification/Test_App.thy ===== *)
theory Test_App
  imports App_Run Eth_Api
begin

text \<open>
  The application the tests drive (\<^verbatim>\<open>internal/testutils/app.go\<close>, \<^verbatim>\<open>key.go\<close> and \<^verbatim>\<open>eth.go\<close>): a chain with one
  validator and funded keys, on which blocks of transactions are made by calling the application as
  tendermint does. The time, the generated keys and what the libraries encode are arguments. A
  commit's goroutine is the last step of the commit, so that waiting for the application's lock is
  no step.
\<close>

section \<open>The libraries as parameters\<close>

record ('t, 'a) testlib =
  Nonce :: "'a \<Rightarrow> uint64"
  LegacyTx :: "uint64 \<Rightarrow> address option \<Rightarrow> int \<Rightarrow> uint64 \<Rightarrow> int \<Rightarrow> bytes \<Rightarrow> 't"
  tl_Nonce :: "'t \<Rightarrow> uint64"
  CreateAddress :: "address \<Rightarrow> uint64 \<Rightarrow> address"
  Genesis_JSON :: "GenesisData \<Rightarrow> bytes"
  BeginBlock_Size :: "int64 \<Rightarrow> int64 \<Rightarrow> bytes \<Rightarrow> int64"
  DeliverTx_Size :: "bytes \<Rightarrow> int64"

section \<open>Keys and transactions\<close>

definition KeysToGenesisAlloc :: "('k, 't) keylib \<Rightarrow> u256 \<Rightarrow> string list \<Rightarrow> (address \<times> int) list go" where
  "KeysToGenesisAlloc K balance keys = foldG (\<lambda>alloc hexKey.
     case HexToPrivKey K hexKey of
       (Some privKey, _, None) \<Rightarrow> Inr (AList.update (PubkeyToAddress K privKey) (uint balance) alloc)
     | _ \<Rightarrow> Inl PanicErr) [] keys"

text \<open>The first lines of the file, of which there may be fewer than asked for.\<close>

definition ReadKeysFromFile :: "string list \<Rightarrow> int \<Rightarrow> string list" where
  "ReadKeysFromFile fileLines n = take (nat n) fileLines"

definition MustHexToPrivKey :: "('k, 't) keylib \<Rightarrow> string \<Rightarrow> 'k go" where
  "MustHexToPrivKey K key = (case HexToPrivKey K key of (Some k, _, None) \<Rightarrow> Inr k | _ \<Rightarrow> Inl PanicErr)"

definition MustSignTx :: "('k, 't) keylib \<Rightarrow> 't \<Rightarrow> int \<Rightarrow> string \<Rightarrow> 't go" where
  "MustSignTx K tx chainID privKey =
     bindG (MustHexToPrivKey K privKey) (\<lambda>key.
       case SignTx K tx chainID key of Inl e \<Rightarrow> Inl PanicErr | Inr tx \<Rightarrow> Inr tx)"

definition MustEncodeTx :: "('k, 't) keylib \<Rightarrow> 't \<Rightarrow> bytes go" where
  "MustEncodeTx K tx = (case EncodeTx K tx of Inl e \<Rightarrow> Inl PanicErr | Inr bz \<Rightarrow> Inr bz)"

section \<open>Making the application\<close>

record ('c, 'x) TestApp =
  ta_App :: "('c, 'x) App"
  TestPubkey :: bytes32

definition DefaultGasLimit :: uint64 where "DefaultGasLimit = 1000000"
definition DefaultInitBalance :: uint64 where "DefaultInitBalance = 10000000"

definition NewU256 :: "uint64 \<Rightarrow> u256" where "NewU256 u = ucast u"

text \<open>\<^verbatim>\<open>uint256.Int.Bytes\<close>: big-endian, without leading zeros.\<close>

definition u256_Bytes :: "u256 \<Rightarrow> bytes" where
  "u256_Bytes x = dropWhile (\<lambda>b. b = 0) (be_bytes 32 x)"

definition test_validator :: "('c, 'a, 'e, 'x, 'u) lib \<Rightarrow> bytes32 \<Rightarrow> Validator" where
  "test_validator L pubkey = \<lparr>Address = copy_array 20 0 (PubKey_Address L pubkey), Pubkey = pubkey, RewardTo = 0,
     VotingPower = 1, Introduction = [], StakedCoins = copy_array 32 0 (u256_Bytes MinimumStakingAmount),
     IsRetiring = False\<rparr>"

definition test_request :: "('t, 'a) testlib \<Rightarrow> int64 \<Rightarrow> int64 \<Rightarrow> bytes \<Rightarrow> RequestBeginBlock" where
  "test_request TL height time proposer = \<lparr>rq_Height = height, rq_Time = time,
     rq_Size = BeginBlock_Size TL height time proposer, rq_Hash = [], ProposerAddress = proposer,
     LastBlockIdHash = [], DataHash = [], AppHash = [], Votes = [], ByzantineValidators = []\<rparr>"

text \<open>
  The time of the first block's header is the zero time of Go, which is the year 1: an argument, as the
  seconds since 1970 are the library's.
\<close>

definition ZeroTime :: int64 where "ZeroTime = - 62135596800"

definition init_test_chain ::
  "('c, 'a, 'e, 'x, 'u) lib \<Rightarrow> ('k, 't) keylib \<Rightarrow> ('t, 'a) testlib \<Rightarrow> u256 \<Rightarrow> string list \<Rightarrow> bytes32 \<Rightarrow>
   ('c, 'x) App \<Rightarrow> ('c, 'x) App go" where
  "init_test_chain L K TL testInitAmt keys pubkey app =
     bindG (KeysToGenesisAlloc K testInitAmt keys) (\<lambda>alloc.
     let genesisData = \<lparr>gd_Validators = [test_validator L pubkey], gd_Alloc = alloc\<rparr> in
     bindG (InitChain L app (Genesis_JSON TL genesisData)) (\<lambda>(_, app).
     let app = BeginBlock app (test_request TL 0 ZeroTime (PubKey_Address L pubkey)) in
     bindG (Commit L app) (\<lambda>(_, app). Inr app)))"

definition CreateTestApp0 ::
  "('c, 'a, 'e, 'x, 'u) lib \<Rightarrow> ('k, 't) keylib \<Rightarrow> ('t, 'a) testlib \<Rightarrow> 'c write_back \<Rightarrow> 'c \<Rightarrow> 'x \<Rightarrow> bytes32 \<Rightarrow>
   u256 \<Rightarrow> string list \<Rightarrow> ('c, 'x) TestApp go" where
  "CreateTestApp0 L K TL WB world engine pubkey testInitAmt keys =
     bindG (NewApp L WB DefaultConfig (NewU256 1) world [] engine) (\<lambda>app.
     bindG (init_test_chain L K TL testInitAmt keys pubkey app) (\<lambda>app.
       Inr \<lparr>ta_App = app, TestPubkey = pubkey\<rparr>))"

definition CreateTestApp ::
  "('c, 'a, 'e, 'x, 'u) lib \<Rightarrow> ('k, 't) keylib \<Rightarrow> ('t, 'a) testlib \<Rightarrow> 'c write_back \<Rightarrow> 'c \<Rightarrow> 'x \<Rightarrow> bytes32 \<Rightarrow>
   string list \<Rightarrow> ('c, 'x) TestApp go" where
  "CreateTestApp L K TL WB world engine pubkey keys =
     CreateTestApp0 L K TL WB world engine pubkey (NewU256 DefaultInitBalance) keys"

section \<open>Reading its state\<close>

definition test_account :: "('c, 'a, 'e, 'x, 'u) lib \<Rightarrow> ('c, 'x) TestApp \<Rightarrow> address \<Rightarrow> 'a option" where
  "test_account L app addr = (case ctx_Rbt (GetRpcContext (ta_App app)) of
       None \<Rightarrow> None | Some rbt \<Rightarrow> GetAccount (lib_evm L) rbt addr)"

definition ta_GetNonce :: "('c, 'a, 'e, 'x, 'u) lib \<Rightarrow> ('t, 'a) testlib \<Rightarrow> ('c, 'x) TestApp \<Rightarrow> address \<Rightarrow> uint64" where
  "ta_GetNonce L TL app addr = (case test_account L app addr of None \<Rightarrow> 0 | Some acc \<Rightarrow> Nonce TL acc)"

definition ta_GetBalance :: "('c, 'a, 'e, 'x, 'u) lib \<Rightarrow> ('c, 'x) TestApp \<Rightarrow> address \<Rightarrow> int option" where
  "ta_GetBalance L app addr = (case test_account L app addr of
       None \<Rightarrow> None | Some acc \<Rightarrow> Some (uint (Balance (lib_evm L) acc)))"

definition ta_GetStorageAt ::
  "('c, 'a, 'e, 'x, 'u) lib \<Rightarrow> ('c, 'x) TestApp \<Rightarrow> address \<Rightarrow> bytes \<Rightarrow> bytes option" where
  "ta_GetStorageAt L app addr key = (case test_account L app addr of
       None \<Rightarrow> None
     | Some acc \<Rightarrow> GetStorageAt (lib_evm L) (rootStore (ta_App app)) (Sequence (lib_evm L) acc) key)"

section \<open>Making blocks\<close>

definition MakeAndSignTx ::
  "('c, 'a, 'e, 'x, 'u) lib \<Rightarrow> ('k, 't) keylib \<Rightarrow> ('t, 'a) testlib \<Rightarrow> ('c, 'x) TestApp \<Rightarrow> string \<Rightarrow> address option \<Rightarrow>
   int64 \<Rightarrow> bytes \<Rightarrow> int64 \<Rightarrow> ('t \<times> address) go" where
  "MakeAndSignTx L K TL app hexPrivKey toAddr val data gasPrice =
     (case HexToPrivKey K hexPrivKey of
        (Some privKey, _, None) \<Rightarrow>
          (let addr = PubkeyToAddress K privKey;
               nonce = ta_GetNonce L TL app addr;
               chainID = uint (chainId (ta_App app));
               tx = LegacyTx TL nonce toAddr (sint val) DefaultGasLimit (sint gasPrice) data
           in case SignTx K tx chainID privKey of Inl e \<Rightarrow> Inl PanicErr | Inr tx \<Rightarrow> Inr (tx, addr))
      | _ \<Rightarrow> Inl PanicErr)"

text \<open>The consensus calls of one block, with encoded transactions.\<close>

definition exec_block ::
  "('c, 'a, 'e, 'x, 'u) lib \<Rightarrow> ('u, 'c, 'a) txlib \<Rightarrow> ('t, 'a) testlib \<Rightarrow> RequestBeginBlock \<Rightarrow> bytes list \<Rightarrow>
   ('c, 'x) App \<Rightarrow> (ResponseCommit \<times> ('c, 'x) App) go" where
  "exec_block L T TL req txs app =
     (let app = BeginBlock app req;
          app = foldl (\<lambda>app tx. DeliverTx L T app (DeliverTx_Size TL tx) tx) app txs;
          _ = EndBlock app
      in Commit L app)"

definition AddTxsInBlock ::
  "('c, 'a, 'e, 'x, 'u) lib \<Rightarrow> ('u, 'c, 'a) txlib \<Rightarrow> ('k, 't) keylib \<Rightarrow> ('t, 'a) testlib \<Rightarrow> int64 \<Rightarrow> int64 \<Rightarrow>
   't list \<Rightarrow> ('c, 'x) TestApp \<Rightarrow> (int64 \<times> ('c, 'x) TestApp) go" where
  "AddTxsInBlock L T K TL now height txs tapp =
     bindG (foldG (\<lambda>bzs tx. bindG (MustEncodeTx K tx) (\<lambda>bz. Inr (bzs @ [bz]))) [] txs) (\<lambda>bzs.
     bindG (exec_block L T TL (test_request TL height now (PubKey_Address L (TestPubkey tapp))) bzs (ta_App tapp)) (\<lambda>(_, app).
       Inr (height, tapp\<lparr>ta_App := app\<rparr>)))"

definition WaitNextBlock ::
  "('c, 'a, 'e, 'x, 'u) lib \<Rightarrow> ('u, 'c, 'a) txlib \<Rightarrow> ('t, 'a) testlib \<Rightarrow> int64 \<Rightarrow> ('c, 'x) TestApp \<Rightarrow>
   ('c, 'x) TestApp go" where
  "WaitNextBlock L T TL height tapp =
     bindG (exec_block L T TL (test_request TL (height + 1) ZeroTime []) [[]] (ta_App tapp)) (\<lambda>(_, app).
       Inr (tapp\<lparr>ta_App := app\<rparr>))"

definition ExecTxsInBlock ::
  "('c, 'a, 'e, 'x, 'u) lib \<Rightarrow> ('u, 'c, 'a) txlib \<Rightarrow> ('k, 't) keylib \<Rightarrow> ('t, 'a) testlib \<Rightarrow> int64 \<Rightarrow>
   't list \<Rightarrow> ('c, 'x) TestApp \<Rightarrow> (int64 \<times> ('c, 'x) TestApp) go" where
  "ExecTxsInBlock L T K TL now txs tapp =
     (let height = BlockNum (ta_App tapp) + 1 in
      bindG (AddTxsInBlock L T K TL now height txs tapp) (\<lambda>(_, tapp).
      bindG (WaitNextBlock L T TL height tapp) (\<lambda>tapp. Inr (height, tapp))))"

definition ExecTxInBlock ::
  "('c, 'a, 'e, 'x, 'u) lib \<Rightarrow> ('u, 'c, 'a) txlib \<Rightarrow> ('k, 't) keylib \<Rightarrow> ('t, 'a) testlib \<Rightarrow> int64 \<Rightarrow>
   't option \<Rightarrow> ('c, 'x) TestApp \<Rightarrow> (int64 \<times> ('c, 'x) TestApp) go" where
  "ExecTxInBlock L T K TL now tx tapp =
     (case tx of None \<Rightarrow> ExecTxsInBlock L T K TL now [] tapp | Some tx \<Rightarrow> ExecTxsInBlock L T K TL now [tx] tapp)"

definition MakeAndExecTxInBlockWithGasPrice ::
  "('c, 'a, 'e, 'x, 'u) lib \<Rightarrow> ('u, 'c, 'a) txlib \<Rightarrow> ('k, 't) keylib \<Rightarrow> ('t, 'a) testlib \<Rightarrow> int64 \<Rightarrow> string \<Rightarrow>
   address \<Rightarrow> int64 \<Rightarrow> bytes \<Rightarrow> int64 \<Rightarrow> ('c, 'x) TestApp \<Rightarrow> (('t \<times> int64) \<times> ('c, 'x) TestApp) go" where
  "MakeAndExecTxInBlockWithGasPrice L T K TL now privKey toAddr val data gasPrice tapp =
     bindG (MakeAndSignTx L K TL tapp privKey (Some toAddr) val data gasPrice) (\<lambda>(tx, _).
     bindG (ExecTxInBlock L T K TL now (Some tx) tapp) (\<lambda>(h, tapp). Inr ((tx, h), tapp)))"

definition MakeAndExecTxInBlock ::
  "('c, 'a, 'e, 'x, 'u) lib \<Rightarrow> ('u, 'c, 'a) txlib \<Rightarrow> ('k, 't) keylib \<Rightarrow> ('t, 'a) testlib \<Rightarrow> int64 \<Rightarrow> string \<Rightarrow>
   address \<Rightarrow> int64 \<Rightarrow> bytes \<Rightarrow> ('c, 'x) TestApp \<Rightarrow> (('t \<times> int64) \<times> ('c, 'x) TestApp) go" where
  "MakeAndExecTxInBlock L T K TL now privKey toAddr val data tapp =
     MakeAndExecTxInBlockWithGasPrice L T K TL now privKey toAddr val data 0 tapp"

definition DeployContractInBlock ::
  "('c, 'a, 'e, 'x, 'u) lib \<Rightarrow> ('u, 'c, 'a) txlib \<Rightarrow> ('k, 't) keylib \<Rightarrow> ('t, 'a) testlib \<Rightarrow> int64 \<Rightarrow> string \<Rightarrow>
   bytes \<Rightarrow> ('c, 'x) TestApp \<Rightarrow> (('t \<times> int64 \<times> address) \<times> ('c, 'x) TestApp) go" where
  "DeployContractInBlock L T K TL now privKey data tapp =
     bindG (MakeAndSignTx L K TL tapp privKey None 0 data 0) (\<lambda>(tx, addr).
     bindG (ExecTxInBlock L T K TL now (Some tx) tapp) (\<lambda>(h, tapp).
       Inr ((tx, h, CreateAddress TL addr (tl_Nonce TL tx)), tapp)))"

definition CheckNewTxABCI ::
  "('u, 'c, 'a) txlib \<Rightarrow> ('k, 't) keylib \<Rightarrow> ((bytes32 \<times> SenderAndHeight) list \<Rightarrow> (bytes32 \<times> SenderAndHeight) list) \<Rightarrow>
   't \<Rightarrow> ('c, 'x) TestApp \<Rightarrow> (uint32 \<times> ('c, 'x) TestApp) go" where
  "CheckNewTxABCI T K order tx tapp =
     bindG (MustEncodeTx K tx) (\<lambda>bz.
     let (res, app) = CheckTx T order (ta_App tapp) CheckTxType_New bz in
     Inr (resp_Code res, tapp\<lparr>ta_App := app\<rparr>))"

section \<open>Looking at the results\<close>

text \<open>
  The history is what the store answers; it is written behind the commits, so that a helper that waits
  looks at it again later: \<open>H i\<close> is the history after \<open>i\<close> waits.
\<close>

definition ta_GetBlock :: "(nat \<Rightarrow> 'l history) \<Rightarrow> int64 \<Rightarrow> Block option go" where
  "ta_GetBlock H h =
     (let i = (if h_GetLatestHeight (H 0) \<noteq> h then 1 else 0) in
      case h_GetBlockByHeight (H i) h of (b, None) \<Rightarrow> Inr b | (_, Some e) \<Rightarrow> Inl PanicErr)"

function get_tx_loop :: "(nat \<Rightarrow> 'l history) \<Rightarrow> bytes32 \<Rightarrow> nat \<Rightarrow> 'l Transaction option go" where
  "get_tx_loop H k i =
     (if i < 10 then (case h_GetTxByHash (H i) k of (tx, None) \<Rightarrow> Inr tx | (_, Some e) \<Rightarrow> get_tx_loop H k (i + 1))
      else Inl PanicErr)"
  by pat_completeness auto
termination by (relation "measure (\<lambda>(H, k, i). 10 - i)") auto

declare get_tx_loop.simps [simp del]

definition ta_GetTx :: "(nat \<Rightarrow> 'l history) \<Rightarrow> bytes32 \<Rightarrow> 'l Transaction option go" where
  "ta_GetTx H k = get_tx_loop H k 0"

definition GetTxsByAddr :: "'l history \<Rightarrow> ('c, 'x) TestApp \<Rightarrow> address \<Rightarrow> 'l Transaction list go" where
  "GetTxsByAddr H tapp addr =
     (case h_QueryTxByAddr H addr 1 (ucast (BlockNum (ta_App tapp)) + 1) 0 of Inl e \<Rightarrow> Inl PanicErr | Inr txs \<Rightarrow> Inr txs)"

definition AddBlocksToHistory :: "modb_Block list \<Rightarrow> ('c, 'x) TestApp \<Rightarrow> ('c, 'x) TestApp" where
  "AddBlocksToHistory blks tapp =
     (let app = ta_App tapp in tapp\<lparr>ta_App := foldl (\<lambda>app blk. app\<lparr>historyStore := historyStore app @ [blk]\<rparr>) app blks\<rparr>)"

definition AddBlockFotTest :: "modb_Block \<Rightarrow> ('c, 'x) App \<Rightarrow> ('c, 'x) App" where
  "AddBlockFotTest mdbBlock app = publishNewBlock mdbBlock (app\<lparr>historyStore := historyStore app @ [mdbBlock]\<rparr>)"

definition ta_Call ::
  "('t, 'a) testlib \<Rightarrow> ('t \<Rightarrow> address \<Rightarrow> uint64 \<Rightarrow> 'r) \<Rightarrow> ('r, 'c) rpc_runner \<Rightarrow> (int \<Rightarrow> string) \<Rightarrow> ('c, 'x) TestApp \<Rightarrow>
   address \<Rightarrow> address \<Rightarrow> bytes \<Rightarrow> (int \<times> string \<times> bytes) go" where
  "ta_Call TL FromGethTx runTx statusStr tapp sender contractAddr data =
     (let tx = LegacyTx TL 0 (Some contractAddr) 0 DefaultGasLimit 0 data in
      bindG (App_RunTxForRpc FromGethTx runTx (ta_App tapp) tx sender False) (\<lambda>((st, out), _). Inr (st, statusStr st, out)))"

definition ta_EstimateGas ::
  "('t \<Rightarrow> address \<Rightarrow> uint64 \<Rightarrow> 'r) \<Rightarrow> ('r, 'c) rpc_runner \<Rightarrow> (int \<Rightarrow> string) \<Rightarrow> ('c, 'x) TestApp \<Rightarrow>
   address \<Rightarrow> 't \<Rightarrow> (int \<times> string \<times> int64) go" where
  "ta_EstimateGas FromGethTx runTx statusStr tapp sender tx =
     bindG (App_RunTxForRpc FromGethTx runTx (ta_App tapp) tx sender True) (\<lambda>((st, _), estimated).
       Inr (st, statusStr st, estimated))"

text \<open>A transaction that is found and nil is dereferenced.\<close>

definition EnsureTxSuccess :: "(nat \<Rightarrow> 'l history) \<Rightarrow> bytes32 \<Rightarrow> unit go" where
  "EnsureTxSuccess H k = bindG (ta_GetTx H k) (\<lambda>tx. case tx of
       None \<Rightarrow> Inl NilDeref
     | Some tx \<Rightarrow> if txd_Status tx \<noteq> 1 \<or> txd_StatusStr tx \<noteq> ''success'' then Inl (PanicMsg (''tx is failed: '' @ txd_StatusStr tx))
         else Inr ())"

definition EnsureTxFailed :: "(nat \<Rightarrow> 'l history) \<Rightarrow> bytes32 \<Rightarrow> string \<Rightarrow> unit go" where
  "EnsureTxFailed H k msg = bindG (ta_GetTx H k) (\<lambda>tx. case tx of
       None \<Rightarrow> Inl NilDeref
     | Some tx \<Rightarrow>
         if txd_Status tx \<noteq> 0 then Inl (PanicMsg ''tx is success'')
         else if txd_StatusStr tx \<noteq> msg then Inl (PanicMsg (''expected '' @ msg @ '', got '' @ txd_StatusStr tx))
         else Inr ())"

text \<open>Looking for a transaction returns exactly when one of the ten looks, three tenths of a second apart, finds it.\<close>

lemma GetTx_returns: "(\<exists>tx. ta_GetTx H k = Inr tx) \<longleftrightarrow> (\<exists>i < 10. snd (h_GetTxByHash (H i) k) = None)"
proof -
  have "(\<exists>tx. get_tx_loop H k i = Inr tx) \<longleftrightarrow> (\<exists>j. i \<le> j \<and> j < 10 \<and> snd (h_GetTxByHash (H j) k) = None)" for i
  proof (induction H k i rule: get_tx_loop.induct)
    case (1 H k i)
    obtain tx e where r: "h_GetTxByHash (H i) k = (tx, e)" by fastforce
    show ?case
    proof (cases "i < 10 \<and> e \<noteq> None")
      case False
      with r show ?thesis by (subst get_tx_loop.simps) (auto split: option.split)
    next
      case True
      then obtain msg where e: "e = Some msg" by auto
      have "(\<exists>tx. get_tx_loop H k i = Inr tx) \<longleftrightarrow> (\<exists>tx. get_tx_loop H k (i + 1) = Inr tx)"
        using True r e by (subst get_tx_loop.simps) simp
      also have "\<dots> \<longleftrightarrow> (\<exists>j. i + 1 \<le> j \<and> j < 10 \<and> snd (h_GetTxByHash (H j) k) = None)"
        using 1 True r e by simp
      also have "\<dots> \<longleftrightarrow> (\<exists>j. i \<le> j \<and> j < 10 \<and> snd (h_GetTxByHash (H j) k) = None)"
        using r e by (metis Suc_eq_plus1 Suc_leD le_neq_implies_less Suc_leI option.distinct(1) snd_conv)
      finally show ?thesis .
    qed
  qed
  from this [of 0] show ?thesis by (simp add: ta_GetTx_def)
qed

section \<open>What a block of transactions leaves in the history\<close>

definition block_calls :: "('t, 'a) testlib \<Rightarrow> RequestBeginBlock \<Rightarrow> bytes list \<Rightarrow> abci_call list" where
  "block_calls TL req txs = call_BeginBlock req # map (\<lambda>tx. call_DeliverTx (DeliverTx_Size TL tx) tx) txs @ [call_EndBlock, call_Commit]"

lemma run_append:
  "run L T app (cs @ ds) = bindG (run L T app cs) (\<lambda>(as, app). bindG (run L T app ds) (\<lambda>(bs, app). Inr (as @ bs, app)))"
proof (induction cs arbitrary: app)
  case Nil
  show ?case by (cases "run L T app ds") auto
qed (simp add: bindG_assoc case_prod_beta')

lemma run_deliver:
  "run L T app (map (\<lambda>tx. call_DeliverTx (sz tx) tx) txs) =
     Inr (map (\<lambda>_. ans_DeliverTx) txs, foldl (\<lambda>app tx. DeliverTx L T app (sz tx) tx) app txs)"
  by (induction txs arbitrary: app) (simp_all add: abci_def)

text \<open>A block made here is a run of the application.\<close>

lemma exec_block_run:
  assumes "exec_block L T TL req txs app = Inr (res, app')"
  shows "\<exists>as. run L T app (block_calls TL req txs) = Inr (as, app')"
  using assms
  by (simp add: exec_block_def block_calls_def run_append run_deliver abci_def Let_def)

lemma commits_deliver: "commits b (map (\<lambda>tx. call_DeliverTx (sz tx) tx) txs @ cs) = commits b cs"
  by (induction txs) simp_all

lemma commits_block: "commits b (block_calls TL req txs @ cs) =
    (rq_Height req, copy_array 32 0 (rq_Hash req)) # commits (rq_Height req, copy_array 32 0 (rq_Hash req)) cs"
  by (simp add: block_calls_def commits_deliver)

lemma commits_one: "commits b (block_calls TL req txs) = [(rq_Height req, copy_array 32 0 (rq_Hash req))]"
  using commits_block [of b TL req txs "[]"] by simp

text \<open>
  Executing transactions in a block leaves that block as the last one of the history: its results are recorded
  by the commit of the empty block that follows it.
\<close>

lemma ExecTxsInBlock_recorded:
  assumes "block_frame_laws L" and "block_set_laws L" and "ExecTxsInBlock L T K TL now txs tapp = Inr (h, tapp')"
  shows "h = BlockNum (ta_App tapp) + 1 \<and> BlockNum (ta_App tapp') = h + 1 \<and>
    history_index (ta_App tapp') = history_index (ta_App tapp) @
      recorded (GetCurrBlockBasicInfo L (trunk (ta_App tapp))) @ [(h, 0)]"
proof -
  let ?app = "ta_App tapp"
  from assms(3) obtain h' t1 where add: "AddTxsInBlock L T K TL now (BlockNum ?app + 1) txs tapp = Inr (h', t1)"
    and wait: "WaitNextBlock L T TL (BlockNum ?app + 1) t1 = Inr tapp'" and h: "h = BlockNum ?app + 1"
    unfolding ExecTxsInBlock_def Let_def by (elim bindG_InrE) (auto split: prod.splits)
  from add obtain bzs r1 where e1: "exec_block L T TL (test_request TL h now (PubKey_Address L (TestPubkey tapp))) bzs ?app =
      Inr (r1, ta_App t1)"
    unfolding AddTxsInBlock_def h by auto
  from wait obtain r2 where e2: "exec_block L T TL (test_request TL (h + 1) ZeroTime []) [[]] (ta_App t1) = Inr (r2, ta_App tapp')"
    unfolding WaitNextBlock_def h by auto
  have zero: "copy_array 32 (0 :: bytes32) [] = 0" by (simp add: copy_array_def be_word_be_bytes)
  let ?req = "test_request TL (h + 1) ZeroTime []" and ?req1 = "test_request TL h now (PubKey_Address L (TestPubkey tapp))"
  from exec_block_run [OF e1] exec_block_run [OF e2] obtain as bs where
    "run L T ?app (block_calls TL ?req1 bzs) = Inr (as, ta_App t1)"
    "run L T (ta_App t1) (block_calls TL ?req [[]]) = Inr (bs, ta_App tapp')" by blast
  then have run: "run L T ?app (block_calls TL ?req1 bzs @ block_calls TL ?req [[]]) = Inr (as @ bs, ta_App tapp')"
    by (simp add: run_append)
  have commits: "commits (block_id ?app) (block_calls TL ?req1 bzs @ block_calls TL ?req [[]]) = [(h, 0), (h + 1, 0)]"
    unfolding commits_block commits_one by (simp add: test_request_def zero)
  have "BlockNum (ta_App tapp') = h + 1"
  proof -
    let ?a = "foldl (\<lambda>app tx. DeliverTx L T app (DeliverTx_Size TL tx) tx) (BeginBlock (ta_App t1) ?req) [[]]"
    have "Commit L ?a = Inr (r2, ta_App tapp')" using e2 by (simp add: exec_block_def Let_def)
    from Commit_records(4) [OF assms(1,2) this] have "block_id (ta_App tapp') = block_id ?a" .
    then show ?thesis
      by (simp add: block_id_def BlockNum_def DeliverTx_def BeginBlock_def test_request_def Let_def split: option.splits)
  qed
  with run_records [OF assms(1,2) run] commits h show ?thesis by (simp add: butlast_append)
qed

section \<open>What the test chain is made of\<close>

text \<open>
  The test validator's stake is not the minimal stake: the bytes of the amount have no leading zeros
  and are copied to the front of the array.
\<close>

lemma test_validator_stake:
  "StakedCoins (test_validator L pubkey) = 2 ^ 184 * MinimumStakingAmount"
proof -
  let ?bs = "[0x2b, 0x5e, 0x3a, 0xf1, 0x6b, 0x18, 0x80, 0, 0] :: bytes"
  have front: "nat_be 32 800000000000000000000 = replicate 23 0 @ ?bs"
    using nat_be_be_nat [of "replicate 23 0 @ ?bs"] by (simp add: be_nat_append) (simp add: be_nat_def)
  moreover have "dropWhile (\<lambda>b. b = 0) (replicate 23 0 @ ?bs) = dropWhile (\<lambda>b. b = 0) ?bs"
    by (rule dropWhile_append2) simp
  ultimately have "u256_Bytes MinimumStakingAmount = ?bs"
    by (simp add: u256_Bytes_def MinimumStakingAmount_def be_bytes_def)
  moreover have "copy_array 32 (0 :: bytes32) ?bs = of_nat (be_nat (?bs @ replicate 23 0))"
    by (simp add: copy_array_def be_word_def be_bytes_def)
  moreover have "be_nat (?bs @ replicate 23 0) = 800000000000000000000 * 256 ^ 23"
    unfolding be_nat_append be_nat_zeros by (simp add: be_nat_def)
  ultimately show ?thesis by (simp add: test_validator_def MinimumStakingAmount_def)
qed

text \<open>The keys a test chain funds are the accounts a node unlocks with these keys.\<close>

lemma KeysToGenesisAlloc_accounts:
  assumes "KeysToGenesisAlloc K balance keys = Inr alloc"
  shows "map fst alloc = map fst (loadTestAccounts K keys) \<and> snd ` set alloc \<subseteq> {uint balance} \<and>
    (\<forall>t \<in> set keys. \<exists>k d. HexToPrivKey K t = (Some k, d, None))"
  using assms
proof (induction keys arbitrary: alloc rule: rev_induct)
  case Nil
  then show ?case by (simp add: KeysToGenesisAlloc_def loadTestAccounts_def)
next
  case (snoc t keys)
  let ?step = "\<lambda>alloc1. case HexToPrivKey K t of
       (Some privKey, _, None) \<Rightarrow> Inr (AList.update (PubkeyToAddress K privKey) (uint balance) alloc1)
     | _ \<Rightarrow> Inl PanicErr"
  from snoc.prems have "bindG (KeysToGenesisAlloc K balance keys) (\<lambda>alloc1. bindG (?step alloc1) Inr) = Inr alloc"
    unfolding KeysToGenesisAlloc_def foldG_append foldG.simps .
  then obtain alloc1 where a1: "KeysToGenesisAlloc K balance keys = Inr alloc1" and step: "?step alloc1 = Inr alloc"
    by (elim bindG_InrE) simp
  note IH = snoc.IH [OF a1]
  from step obtain k d where k: "HexToPrivKey K t = (Some k, d, None)"
    and alloc: "alloc = AList.update (PubkeyToAddress K k) (uint balance) alloc1"
    by (auto split: prod.splits option.splits)
  have "snd ` set (AList.update a v xs) \<subseteq> insert v (snd ` set xs)" for a v and xs :: "(address \<times> int) list"
    by (induction xs) auto
  then have "snd ` set alloc \<subseteq> insert (uint balance) (snd ` set alloc1)" unfolding alloc .
  with IH have "snd ` set alloc \<subseteq> {uint balance}" by blast
  moreover have "map fst alloc = map fst (loadTestAccounts K (keys @ [t]))"
    unfolding alloc update_keys using IH by (simp add: loadTestAccounts_def k update_keys)
  ultimately show ?case using IH k by (simp add: ball_Un)
qed

end
