(* ===== verification/Stress_Test.thy ===== *)
theory Stress_Test
  imports Test_App
begin

unbundle bit_operations_syntax

text \<open>
  The stress test (\<^verbatim>\<open>cmd/stresstest/stress.go\<close>): it records a chain of blocks with deployments, fan-out
  transfers and random calls into a database, and replays the database on a new chain, comparing
  the root hashes. Loops that draw from the random source, or walk over the database, may not
  end: they are partial functions, and \<open>None\<close> is not returning. Encoders, contracts' call data
  and the random source are parameters. Of a block, only what \<^verbatim>\<open>ReplayBlocks\<close> prints (times and gas) is left
  out. Sizes are natural numbers.
\<close>

section \<open>Results that may not come\<close>

definition bindO :: "'a go option \<Rightarrow> ('a \<Rightarrow> 'b go option) \<Rightarrow> 'b go option" where
  "bindO m f = (case m of None \<Rightarrow> None | Some (Inl e) \<Rightarrow> Some (Inl e) | Some (Inr x) \<Rightarrow> f x)"

primrec foldO :: "('s \<Rightarrow> 'a \<Rightarrow> 's go option) \<Rightarrow> 's \<Rightarrow> 'a list \<Rightarrow> 's go option" where
  "foldO f s [] = Some (Inr s)"
| "foldO f s (x # xs) = bindO (f s x) (\<lambda>s. foldO f s xs)"

lemma bindO_simps [simp]:
  "bindO None f = None" "bindO (Some (Inl e)) f = Some (Inl e)" "bindO (Some (Inr x)) f = f x"
  by (simp_all add: bindO_def)

lemma bindO_SomeE:
  assumes "bindO m f = Some (Inr y)"
  obtains x where "m = Some (Inr x)" and "f x = Some (Inr y)"
  using assms by (auto simp: bindO_def split: option.splits sum.splits)

lemma foldO_count:
  assumes "foldO f s xs = Some (Inr s')" and "I (0 :: nat) s"
    and "\<And>n t x t'. n < length xs \<Longrightarrow> I n t \<Longrightarrow> f t x = Some (Inr t') \<Longrightarrow> I (Suc n) t'"
  shows "I (length xs) s'"
  using assms
proof (induction xs arbitrary: s I)
  case Nil
  then show ?case by simp
next
  case (Cons x xs)
  from Cons.prems(1) obtain t where t: "f s x = Some (Inr t)" "foldO f t xs = Some (Inr s')"
    by (auto elim: bindO_SomeE)
  have "I (Suc (length xs)) s'"
    by (rule Cons.IH [OF t(2), of "\<lambda>n. I (Suc n)"]) (use Cons.prems(2,3) t(1) in auto)
  then show ?case by simp
qed

section \<open>The database of blocks\<close>

record Replay_Block =
  rb_AppHash :: bytes
  rb_TxList :: "bytes list"

record rlp =
  EncodeToBytes :: "Replay_Block \<Rightarrow> string + bytes"
  DecodeBytes :: "bytes \<Rightarrow> string + Replay_Block"

definition rlp_laws :: "rlp \<Rightarrow> bool" where
  "rlp_laws R \<longleftrightarrow> (\<forall>blk bz. EncodeToBytes R blk = Inr bz \<longrightarrow> bz \<noteq> [] \<and> DecodeBytes R bz = Inr blk)"

record BlockDB =
  rdb :: "bytes \<rightharpoonup> bytes"
  db_height :: uint32

definition NewBlockDB :: "(bytes \<rightharpoonup> bytes) \<Rightarrow> BlockDB" where
  "NewBlockDB dir = \<lparr>rdb = dir, db_height = 1\<rparr>"

text \<open>The key \<^verbatim>\<open>B1234\<close>, whose digits are overwritten by the height, little-endian.\<close>

definition block_key :: "uint32 \<Rightarrow> bytes" where
  "block_key h = 0x42 # rev (be_bytes 4 h)"

definition SaveBlock :: "rlp \<Rightarrow> BlockDB \<Rightarrow> Replay_Block \<Rightarrow> BlockDB go" where
  "SaveBlock R db blk =
     (let key = block_key (db_height db) in
      case EncodeToBytes R blk of
        Inl e \<Rightarrow> Inl PanicErr
      | Inr bz \<Rightarrow> Inr (db\<lparr>rdb := (rdb db)(key \<mapsto> bz), db_height := db_height db + 1\<rparr>))"

definition LoadBlock :: "rlp \<Rightarrow> BlockDB \<Rightarrow> uint32 \<Rightarrow> Replay_Block option go" where
  "LoadBlock R db height =
     (let bz = (case rdb db (block_key height) of None \<Rightarrow> [] | Some bz \<Rightarrow> bz) in
      if length bz = 0 then Inr None
      else (case DecodeBytes R bz of Inl e \<Rightarrow> Inl PanicErr | Inr blk \<Rightarrow> Inr (Some blk)))"

section \<open>What the stress test is run with\<close>

record ('c, 'a, 'e, 'x, 'u, 'k, 't) stress =
  st_lib :: "('c, 'a, 'e, 'x, 'u) lib"
  st_txlib :: "('u, 'c, 'a) txlib"
  st_keylib :: "('k, 't) keylib"
  st_testlib :: "('t, 'a) testlib"
  st_rlp :: rlp
  st_WriteBack :: "'c write_back"
  st_store :: 'c
  st_engine :: 'x
  st_pubkey :: bytes32
  HexToECDSA :: "string \<Rightarrow> string + 'k"
  Pack_run0 :: "address \<Rightarrow> uint32 \<Rightarrow> bytes"
  Pack_run2 :: "address \<Rightarrow> address \<Rightarrow> address \<Rightarrow> int \<Rightarrow> bytes"
  creationBytecode :: bytes
  rand_src :: "nat \<Rightarrow> uint32"

definition num1e18 :: u256 where "num1e18 = 1000000000000000000"
definition initBalance :: u256 where "initBalance = num1e18 * num1e18"

definition KeyToAddr :: "('c, 'a, 'e, 'x, 'u, 'k, 't) stress \<Rightarrow> string \<Rightarrow> address go" where
  "KeyToAddr S keyStr = (case HexToECDSA S keyStr of Inl e \<Rightarrow> Inl PanicErr | Inr key \<Rightarrow> Inr (PubkeyToAddress (st_keylib S) key))"

definition stress_config :: ChainConfig where
  "stress_config = DefaultConfig\<lparr>UseLiteDB := True, cfg_NumKeptBlocks := 5\<rparr>"

definition stress_CreateTestApp ::
  "('c, 'a, 'e, 'x, 'u, 'k, 't) stress \<Rightarrow> u256 \<Rightarrow> string list \<Rightarrow> ('c, 'x) TestApp go" where
  "stress_CreateTestApp S testInitAmt keys =
     (let L = st_lib S in
      bindG (NewApp L (st_WriteBack S) stress_config (NewU256 0x2711) (st_store S) [] (st_engine S)) (\<lambda>app.
      bindG (if GetLatestBlockNum app = 0
             then init_test_chain L (st_keylib S) (st_testlib S) testInitAmt keys (st_pubkey S) app
             else Inr app) (\<lambda>app.
        Inr \<lparr>ta_App = app, TestPubkey = st_pubkey S\<rparr>)))"

section \<open>Executing, recording and replaying blocks\<close>

definition ExecTxsInOneBlock ::
  "('c, 'a, 'e, 'x, 'u, 'k, 't) stress \<Rightarrow> int64 \<Rightarrow> bytes list \<Rightarrow> ('c, 'x) TestApp \<Rightarrow>
   ((bytes \<times> uint64) \<times> ('c, 'x) TestApp) go" where
  "ExecTxsInOneBlock S height txs tapp =
     (let L = st_lib S;
          req = test_request (st_testlib S) height (height * 5) (PubKey_Address L (TestPubkey tapp))
      in
      bindG (exec_block L (st_txlib S) (st_testlib S) req txs (ta_App tapp)) (\<lambda>(responseCommit, app).
        Inr ((rc_Data responseCommit, GetLastGasUsed app), tapp\<lparr>ta_App := app\<rparr>)))"

text \<open>What \<^verbatim>\<open>RecordBlocks\<close> does with each list of transactions.\<close>

definition record_block ::
  "('c, 'a, 'e, 'x, 'u, 'k, 't) stress \<Rightarrow> ('c, 'x) TestApp \<times> BlockDB \<Rightarrow> bytes list \<Rightarrow>
   (('c, 'x) TestApp \<times> BlockDB) go" where
  "record_block S st txs =
     (let (tapp, db) = st in
      bindG (ExecTxsInOneBlock S (ucast (db_height db)) txs tapp) (\<lambda>((appHash, _), tapp).
      bindG (SaveBlock (st_rlp S) db \<lparr>rb_AppHash = appHash, rb_TxList = txs\<rparr>) (\<lambda>db. Inr (tapp, db))))"

partial_function (option) replay_loop ::
  "('c, 'a, 'e, 'x, 'u, 'k, 't) stress \<Rightarrow> BlockDB \<Rightarrow> ('c, 'x) TestApp \<Rightarrow> uint32 \<Rightarrow> ('c, 'x) TestApp go option" where
  "replay_loop S db tapp h =
     (let h = h + 1 in
      case LoadBlock (st_rlp S) db h of
        Inl e \<Rightarrow> Some (Inl e)
      | Inr None \<Rightarrow> Some (Inr tapp)
      | Inr (Some blk) \<Rightarrow>
          (case ExecTxsInOneBlock S (ucast h) (rb_TxList blk) tapp of
             Inl e \<Rightarrow> Some (Inl e)
           | Inr ((appHash, _), tapp) \<Rightarrow>
               if appHash \<noteq> rb_AppHash blk then Some (Inl (PanicMsg ''Incorrect AppHash''))
               else replay_loop S db tapp h))"

definition ReplayBlocks ::
  "('c, 'a, 'e, 'x, 'u, 'k, 't) stress \<Rightarrow> ('c, 'x) TestApp \<Rightarrow> BlockDB \<Rightarrow> ('c, 'x) TestApp go option" where
  "ReplayBlocks S tapp db = replay_loop S db tapp (ucast (GetLatestBlockNum (ta_App tapp)))"

section \<open>Generating transactions\<close>

definition GetTx0 ::
  "('c, 'a, 'e, 'x, 'u, 'k, 't) stress \<Rightarrow> ('c, 'x) TestApp \<Rightarrow> string \<Rightarrow> address \<Rightarrow> address \<Rightarrow> int64 \<Rightarrow> uint32 \<Rightarrow> bytes go" where
  "GetTx0 S tapp key contractAddr toAddr val off =
     (let calldata = Pack_run0 S toAddr off in
      bindG (MakeAndSignTx (st_lib S) (st_keylib S) (st_testlib S) tapp key (Some contractAddr) val calldata 2) (\<lambda>(tx, _).
        MustEncodeTx (st_keylib S) tx))"

definition pack_slots :: "uint32 list \<Rightarrow> int" where
  "pack_slots slots = foldl (\<lambda>param s. push_bit 32 param OR uint s) 0 slots"

definition GetTx ::
  "('c, 'a, 'e, 'x, 'u, 'k, 't) stress \<Rightarrow> ('c, 'x) TestApp \<Rightarrow> string \<Rightarrow> address \<Rightarrow> address \<Rightarrow> address \<Rightarrow> address \<Rightarrow>
   int64 \<Rightarrow> uint32 list \<Rightarrow> bytes go" where
  "GetTx S tapp key contractAddr a0 a1 a2 val slots =
     (let calldata = Pack_run2 S a0 a1 a2 (pack_slots slots) in
      bindG (MakeAndSignTx (st_lib S) (st_keylib S) (st_testlib S) tapp key (Some contractAddr) val calldata 2) (\<lambda>(tx, _).
        MustEncodeTx (st_keylib S) tx))"

definition GetDeployTxAndAddrList ::
  "('c, 'a, 'e, 'x, 'u, 'k, 't) stress \<Rightarrow> ('c, 'x) TestApp \<Rightarrow> string list \<Rightarrow> bytes \<Rightarrow> (bytes list \<times> address list) go" where
  "GetDeployTxAndAddrList S tapp privKeys bytecode =
     foldG (\<lambda>(txList, contractAddrList) key.
       bindG (MakeAndSignTx (st_lib S) (st_keylib S) (st_testlib S) tapp key None 0 bytecode 0) (\<lambda>(tx, addr).
       bindG (MustEncodeTx (st_keylib S) tx) (\<lambda>bz.
         Inr (txList @ [bz], contractAddrList @ [CreateAddress (st_testlib S) addr (tl_Nonce (st_testlib S) tx)]))))
       ([], []) privKeys"

definition GenFanoutTxList ::
  "('c, 'a, 'e, 'x, 'u, 'k, 't) stress \<Rightarrow> ('c, 'x) TestApp \<Rightarrow> string list \<Rightarrow> address list \<Rightarrow> address list \<Rightarrow> nat \<Rightarrow>
   bytes list go" where
  "GenFanoutTxList S tapp fromKeys contractAddrs toAddrs fanoutID =
     (if length fromKeys \<noteq> length contractAddrs \<or> length fromKeys \<noteq> length toAddrs then Inl (PanicMsg ''Invalid lengths'')
      else foldG (\<lambda>res (fromKey, contractAddr, toAddr).
        bindG (GetTx0 S tapp fromKey contractAddr toAddr 10000 (of_nat (10 * fanoutID))) (\<lambda>tx. Inr (res @ [tx])))
        [] (zip fromKeys (zip contractAddrs toAddrs)))"

text \<open>
  The first of the draws that is not the index of a sender already used, and the index after the ones
  to avoid, going around.
\<close>

partial_function (option) fresh_sender :: "(nat \<Rightarrow> uint32) \<Rightarrow> nat \<Rightarrow> nat list \<Rightarrow> nat \<Rightarrow> (nat \<times> nat) option" where
  "fresh_sender rs n taken p =
     (let x = unat (rs p) mod n in if x \<in> set taken then fresh_sender rs n taken (p + 1) else Some (x, p + 1))"

partial_function (option) skip_taken :: "nat \<Rightarrow> nat list \<Rightarrow> nat \<Rightarrow> nat option" where
  "skip_taken n avoid z = (if z \<in> set avoid then skip_taken n avoid ((z + 1) mod n) else Some z)"

definition rand_tx ::
  "('c, 'a, 'e, 'x, 'u, 'k, 't) stress \<Rightarrow> ('c, 'x) TestApp \<Rightarrow> string list \<Rightarrow> address list \<Rightarrow> address list \<Rightarrow> nat list \<Rightarrow>
   nat list \<times> nat \<times> bytes list \<Rightarrow> nat \<Rightarrow> (nat list \<times> nat \<times> bytes list) go option" where
  "rand_tx S tapp fromKeys contractAddrs toAddrs lastTouched st i =
     (let (touchedFrom, p, txList) = st;
          rs = rand_src S; n = length contractAddrs; fanoutSize = length toAddrs div length fromKeys;
          bound = of_nat (10 * fanoutSize) :: uint32
      in
      case fresh_sender rs (length fromKeys) (touchedFrom @ lastTouched) p of None \<Rightarrow> None
      | Some (x, p) \<Rightarrow>
          let y = unat (rs p) mod n in
          if length toAddrs = 0 then Some (Inl (PanicMsg ''integer divide by zero''))
          else
            let z0 = unat (rs (p + 1)) mod length toAddrs in
            case skip_taken n [y] (unat (rs (p + 2)) mod n) of None \<Rightarrow> None
            | Some z1 \<Rightarrow>
                case skip_taken n [y, z1] (unat (rs (p + 3)) mod n) of None \<Rightarrow> None
                | Some z2 \<Rightarrow>
                    let val = ucast (rs (p + 4)) mod 21000000 :: int64 in
                    if bound = 0 then Some (Inl (PanicMsg ''integer divide by zero''))
                    else
                      let slots = map (\<lambda>k. rs (p + 5 + k) mod bound) [0..<6] in
                      bindO (Some (GetTx S tapp (fromKeys ! x) (contractAddrs ! y) (toAddrs ! z0) (contractAddrs ! z1)
                               (contractAddrs ! z2) val slots)) (\<lambda>tx.
                        Some (Inr (touchedFrom @ [x], p + 11, txList @ [tx]))))"

definition GenRandTxList ::
  "('c, 'a, 'e, 'x, 'u, 'k, 't) stress \<Rightarrow> ('c, 'x) TestApp \<Rightarrow> nat \<Rightarrow> nat \<Rightarrow> string list \<Rightarrow> address list \<Rightarrow> address list \<Rightarrow>
   nat list \<Rightarrow> (nat list \<times> nat \<times> bytes list) go option" where
  "GenRandTxList S tapp p len fromKeys contractAddrs toAddrs lastTouched =
     (if length fromKeys \<noteq> length contractAddrs then Some (Inl (PanicMsg ''Invalid lengths''))
      else if length fromKeys = 0 then Some (Inl (PanicMsg ''integer divide by zero''))
      else if length toAddrs mod length fromKeys \<noteq> 0 then Some (Inl (PanicMsg ''Invalid lengths''))
      else foldO (rand_tx S tapp fromKeys contractAddrs toAddrs lastTouched) ([], p, []) [0..<len])"

section \<open>Recording a chain\<close>

text \<open>At most 512 deployments in a block.\<close>

function deploy_blocks :: "bytes list \<Rightarrow> bytes list list" where
  "deploy_blocks txList =
     (if length txList = 0 then []
      else let len = (if length txList < 512 then length txList else 512) in take len txList # deploy_blocks (drop len txList))"
  by pat_completeness auto
termination by (relation "measure length") (auto split: if_splits)

declare deploy_blocks.simps [simp del]

definition slice :: "nat \<Rightarrow> nat \<Rightarrow> 'b list \<Rightarrow> 'b list" where
  "slice i j xs = take (j - i) (drop i xs)"

definition numThreads :: nat where "numThreads = 8"

text \<open>Each worker fills its part of the array.\<close>

definition to_addresses ::
  "('c, 'a, 'e, 'x, 'u, 'k, 't) stress \<Rightarrow> string list \<Rightarrow> nat \<Rightarrow> nat \<Rightarrow> address list go" where
  "to_addresses S keys fromSize toSize =
     foldG (\<lambda>addrs i. bindG (KeyToAddr S (keys ! (fromSize + i))) (\<lambda>a. Inr (addrs @ [a]))) []
       (concat (map (\<lambda>i. [i * toSize div numThreads..<(i + 1) * toSize div numThreads]) [0..<numThreads]))"

definition fanout_blocks ::
  "('c, 'a, 'e, 'x, 'u, 'k, 't) stress \<Rightarrow> string list \<Rightarrow> address list \<Rightarrow> address list \<Rightarrow> nat \<Rightarrow>
   ('c, 'x) TestApp \<times> BlockDB \<Rightarrow> nat \<Rightarrow> (('c, 'x) TestApp \<times> BlockDB) go" where
  "fanout_blocks S keys contractAddrs toAddrs fromSize st fanoutID =
     (let start = fromSize * fanoutID; stop = fromSize * (fanoutID + 1);
          half = length keys div 2; mid = (start + stop) div 2
      in
      bindG (GenFanoutTxList S (fst st) (take half keys) (take half contractAddrs) (slice start mid toAddrs) fanoutID) (\<lambda>txs.
      bindG (record_block S st txs) (\<lambda>st.
      bindG (GenFanoutTxList S (fst st) (drop half keys) (drop half contractAddrs) (slice mid stop toAddrs) fanoutID) (\<lambda>txs.
        record_block S st txs))))"

definition rand_blocks ::
  "('c, 'a, 'e, 'x, 'u, 'k, 't) stress \<Rightarrow> string list \<Rightarrow> address list \<Rightarrow> address list \<Rightarrow> int \<Rightarrow>
   (('c, 'x) TestApp \<times> BlockDB) \<times> nat list \<times> nat \<Rightarrow> nat \<Rightarrow>
   ((('c, 'x) TestApp \<times> BlockDB) \<times> nat list \<times> nat) go option" where
  "rand_blocks S keys contractAddrs toAddrs txPerBlockIn st i =
     (let (st, lastTouched, p) = st;
          (txPerBlock, p) = (if txPerBlockIn < 0 then (1 + nat (uint (rand_src S p) mod (- txPerBlockIn)), p + 1)
                             else (nat txPerBlockIn, p))
      in
      bindO (GenRandTxList S (fst st) p txPerBlock keys contractAddrs toAddrs lastTouched) (\<lambda>(lastTouched, p, txs).
      bindO (Some (record_block S st txs)) (\<lambda>st. Some (Inr (st, lastTouched, p)))))"

definition RecordBlocks ::
  "('c, 'a, 'e, 'x, 'u, 'k, 't) stress \<Rightarrow> BlockDB \<Rightarrow> nat \<Rightarrow> string list \<Rightarrow> nat \<Rightarrow> nat \<Rightarrow> int \<Rightarrow> bool \<Rightarrow>
   (('c, 'x) TestApp \<times> BlockDB) go option" where
  "RecordBlocks S db randBlocks keys fromSize toSize txPerBlockIn ignoreFanout =
     (if fromSize = 0 then Some (Inl (PanicMsg ''integer divide by zero''))
      else if toSize mod fromSize \<noteq> 0 \<or> toSize mod numThreads \<noteq> 0 then Some (Inl (PanicMsg ''Invalid sizes''))
      else if length keys < fromSize + toSize then Some (Inl (PanicMsg ''not enough keys''))
      else
        let fanoutSize = toSize div fromSize in
        bindO (Some (to_addresses S keys fromSize toSize)) (\<lambda>toAddrs.
        let keys = take fromSize keys in
        bindO (Some (stress_CreateTestApp S initBalance keys)) (\<lambda>tapp.
        bindO (Some (GetDeployTxAndAddrList S tapp keys (creationBytecode S))) (\<lambda>(txList, contractAddrs).
        bindO (foldO (\<lambda>st txs. Some (record_block S st txs)) (tapp, db) (deploy_blocks txList)) (\<lambda>st.
        bindO (Some (record_block S st [])) (\<lambda>st.
        bindO (if ignoreFanout then Some (Inr st)
               else
                 bindO (foldO (\<lambda>st i. Some (fanout_blocks S keys contractAddrs toAddrs fromSize st i)) st [0..<fanoutSize]) (\<lambda>st.
                   Some (record_block S st []))) (\<lambda>st.
        bindO (foldO (rand_blocks S keys contractAddrs toAddrs txPerBlockIn) (st, [], 0) [0..<randBlocks]) (\<lambda>(st, _).
          Some (Inr st)))))))))"

section \<open>Replaying what was recorded\<close>

lemma block_key_inj: "block_key h = block_key k \<longleftrightarrow> h = k"
proof
  assume "block_key h = block_key k"
  then have "be_bytes 4 h = be_bytes 4 k" by (simp add: block_key_def)
  then have "(be_word (be_bytes 4 h) :: uint32) = be_word (be_bytes 4 k)" by simp
  moreover have "(be_word (be_bytes 4 h) :: uint32) = h" for h by (rule be_word_be_bytes) simp
  ultimately show "h = k" by simp
qed simp

lemma SaveBlock_load:
  assumes "rlp_laws R" and "SaveBlock R db blk = Inr db'"
  shows "LoadBlock R db' (db_height db) = Inr (Some blk)" and "db_height db' = db_height db + 1"
    and "h \<noteq> db_height db \<Longrightarrow> LoadBlock R db' h = LoadBlock R db h"
  using assms by (auto simp: SaveBlock_def LoadBlock_def rlp_laws_def Let_def block_key_inj split: sum.splits)

text \<open>
  After \<open>n\<close> blocks, a replay over any database that has them comes from the first application to the present
  one, and no block comes after them.
\<close>

definition recorded_chain ::
  "('c, 'a, 'e, 'x, 'u, 'k, 't) stress \<Rightarrow> ('c, 'x) TestApp \<Rightarrow> nat \<Rightarrow> ('c, 'x) TestApp \<times> BlockDB \<Rightarrow> bool" where
  "recorded_chain S app0 n = (\<lambda>(app, db). db_height db = of_nat (Suc n) \<and>
     (\<forall>h. n < unat h \<longrightarrow> LoadBlock (st_rlp S) db h = Inr None) \<and>
     (\<forall>db2. (\<forall>h. unat h \<le> n \<longrightarrow> LoadBlock (st_rlp S) db2 h = LoadBlock (st_rlp S) db h) \<longrightarrow>
        replay_loop S db2 app0 0 = replay_loop S db2 app (of_nat n)))"

lemma recorded_chain_start: "recorded_chain S app0 0 (app0, NewBlockDB Map.empty)"
  by (simp add: recorded_chain_def NewBlockDB_def LoadBlock_def)

lemma unat_next_height:
  assumes "Suc n < 2 ^ 32"
  shows "unat (of_nat n + 1 :: uint32) = Suc n"
proof -
  have "unat (of_nat (Suc n) :: uint32) = Suc n" using assms by (simp add: unat_of_nat del: of_nat_Suc)
  then show ?thesis by (simp add: add.commute)
qed

lemma recorded_chain_replay:
  assumes "recorded_chain S app0 n (app, db)" and "Suc n < 2 ^ 32"
  shows "replay_loop S db app0 0 = Some (Inr app)"
proof -
  from unat_next_height [OF assms(2)] have "LoadBlock (st_rlp S) db (of_nat n + 1) = Inr None" using assms(1) by (simp add: recorded_chain_def)
  moreover have "replay_loop S db app0 0 = replay_loop S db app (of_nat n)" using assms(1) by (simp add: recorded_chain_def)
  ultimately show ?thesis by (simp add: replay_loop.simps [of S db app "of_nat n"])
qed

lemma recorded_chain_step:
  assumes "rlp_laws (st_rlp S)" and "recorded_chain S app0 n st" and "Suc n < 2 ^ 32" and "record_block S st txs = Inr st'"
  shows "recorded_chain S app0 (Suc n) st'"
proof -
  obtain app db where st: "st = (app, db)" by fastforce
  from assms(4) obtain hash gas app' db' where exec: "ExecTxsInOneBlock S (ucast (db_height db)) txs app = Inr ((hash, gas), app')"
    and save: "SaveBlock (st_rlp S) db \<lparr>rb_AppHash = hash, rb_TxList = txs\<rparr> = Inr db'" and st': "st' = (app', db')"
    unfolding record_block_def st by auto
  note chain = assms(2) [unfolded st recorded_chain_def split]
  have height: "db_height db = of_nat n + 1" using chain by (simp add: add.commute)
  then have unat: "unat (db_height db) = Suc n"
    using unat_next_height [OF assms(3)] by simp
  note load = SaveBlock_load [OF assms(1) save]
  show ?thesis
    unfolding recorded_chain_def st' split
  proof (intro conjI allI impI)
    show "db_height db' = of_nat (Suc (Suc n))" using load(2) height by simp
  next
    fix h :: uint32 assume "Suc n < unat h"
    with load(3) [of h] unat chain show "LoadBlock (st_rlp S) db' h = Inr None" by fastforce
  next
    fix db2 assume agree: "\<forall>h. unat h \<le> Suc n \<longrightarrow> LoadBlock (st_rlp S) db2 h = LoadBlock (st_rlp S) db' h"
    have "LoadBlock (st_rlp S) db2 h = LoadBlock (st_rlp S) db h" if "unat h \<le> n" for h
    proof -
      from that unat have "h \<noteq> db_height db" by auto
      with load(3) agree that show ?thesis by simp
    qed
    with chain have "replay_loop S db2 app0 0 = replay_loop S db2 app (of_nat n)" by simp
    also have "\<dots> = replay_loop S db2 app' (of_nat (Suc n))"
    proof -
      have "LoadBlock (st_rlp S) db2 (of_nat n + 1) = Inr (Some \<lparr>rb_AppHash = hash, rb_TxList = txs\<rparr>)"
        using agree load(1) unat unfolding height [symmetric] by simp
      then show ?thesis
        using exec by (simp add: replay_loop.simps [of S db2 app] height add.commute)
    qed
    finally show "replay_loop S db2 app0 0 = replay_loop S db2 app' (of_nat (Suc n))" .
  qed
qed

lemma length_deploy_blocks: "length (deploy_blocks txs) \<le> length txs"
proof (induction txs rule: deploy_blocks.induct)
  case (1 txs)
  show ?case
  proof (cases "length txs = 0")
    case True
    then show ?thesis by (simp add: deploy_blocks.simps [of "[]"])
  next
    case False
    define len where "len = (if length txs < 512 then length txs else 512)"
    from 1 [OF False len_def] False have "length (deploy_blocks (drop len txs)) < length txs"
      by (auto simp: len_def split: if_splits)
    with False show ?thesis by (simp add: deploy_blocks.simps [of txs] len_def [symmetric] Let_def)
  qed
qed

lemma GetDeployTxAndAddrList_length:
  assumes "GetDeployTxAndAddrList S tapp keys code = Inr (txs, addrs)"
  shows "length txs = length keys" and "length addrs = length keys"
proof -
  have "length txs = length keys \<and> length addrs = length keys"
    using assms
  proof (induction keys arbitrary: txs addrs rule: rev_induct)
    case Nil
    then show ?case by (simp add: GetDeployTxAndAddrList_def)
  next
    case (snoc k keys)
    then show ?case
      by (fastforce simp: GetDeployTxAndAddrList_def foldG_append elim!: bindG_InrE)
  qed
  then show "length txs = length keys" "length addrs = length keys" by simp_all
qed

lemma foldG_O: "foldO (\<lambda>s x. Some (f s x)) s xs = Some (foldG f s xs)"
proof (induction xs arbitrary: s)
  case (Cons x xs)
  then show ?case by (cases "f s x") simp_all
qed simp

lemma recorded_chain_fanout:
  assumes "rlp_laws (st_rlp S)" and "recorded_chain S app0 n st" and "Suc (Suc n) < 2 ^ 32"
    and "fanout_blocks S keys cs tos fromSize st i = Inr st'"
  shows "recorded_chain S app0 (Suc (Suc n)) st'"
proof -
  from assms(4) obtain txs st1 txs' where "record_block S st txs = Inr st1" "record_block S st1 txs' = Inr st'"
    unfolding fanout_blocks_def Let_def by (elim bindG_InrE)
  with recorded_chain_step [OF assms(1)] assms(2,3) show ?thesis by (meson Suc_lessD)
qed

lemma recorded_chain_rand:
  assumes "rlp_laws (st_rlp S)" and "recorded_chain S app0 n (fst st)" and "Suc n < 2 ^ 32"
    and "rand_blocks S keys cs tos txPerBlockIn st i = Some (Inr st')"
  shows "recorded_chain S app0 (Suc n) (fst st')"
proof -
  obtain st1 last p where st: "st = (st1, last, p)" by (metis prod_cases3)
  from assms(4) obtain txs st2 where "record_block S st1 txs = Inr st2" "fst st' = st2"
    unfolding rand_blocks_def st Let_def by (auto split: prod.splits elim!: bindO_SomeE)
  with recorded_chain_step [OF assms(1,2,3)] show ?thesis by (simp add: st)
qed

text \<open>The number of blocks a recording makes at most.\<close>

definition max_blocks :: "nat \<Rightarrow> nat \<Rightarrow> nat \<Rightarrow> nat" where
  "max_blocks randBlocks fromSize toSize = fromSize + 2 * (toSize div fromSize) + randBlocks + 2"

lemma RecordBlocks_chain:
  assumes "rlp_laws (st_rlp S)" and "RecordBlocks S (NewBlockDB Map.empty) randBlocks keys fromSize toSize txPerBlockIn ig = Some (Inr st')"
    and "max_blocks randBlocks fromSize toSize + 1 < 2 ^ 32"
  shows "\<exists>app0 n. stress_CreateTestApp S initBalance (take fromSize keys) = Inr app0 \<and> Suc n < 2 ^ 32 \<and> recorded_chain S app0 n st'"
proof -
  let ?keys = "take fromSize keys"
  note run = assms(2) [unfolded RecordBlocks_def Let_def]
  from run have ok: "fromSize \<noteq> 0" "\<not> (toSize mod fromSize \<noteq> 0 \<or> toSize mod numThreads \<noteq> 0)" "\<not> length keys < fromSize + toSize"
    by (auto split: if_splits)
  note run = run [unfolded if_not_P [OF ok(1)] if_not_P [OF ok(2)] if_not_P [OF ok(3)]]
  from run obtain tos where tos: "to_addresses S keys fromSize toSize = Inr tos" by (elim bindO_SomeE) simp
  note run = run [unfolded tos bindO_simps]
  from run obtain app0 where app0: "stress_CreateTestApp S initBalance ?keys = Inr app0" by (elim bindO_SomeE) simp
  note run = run [unfolded app0 bindO_simps]
  from run obtain txs cs where deploy: "GetDeployTxAndAddrList S app0 ?keys (creationBytecode S) = Inr (txs, cs)"
    by (elim bindO_SomeE) auto
  note run = run [unfolded deploy bindO_simps prod.case]
  from run obtain st1 where st1: "foldO (\<lambda>st txs. Some (record_block S st txs)) (app0, NewBlockDB Map.empty) (deploy_blocks txs) = Some (Inr st1)"
    by (elim bindO_SomeE)
  note run = run [unfolded st1 bindO_simps]
  from run obtain st2 where st2: "record_block S st1 [] = Inr st2" by (elim bindO_SomeE) simp
  note run = run [unfolded st2 bindO_simps]
  let ?fan = "if ig then Some (Inr st2) else
      bindO (foldO (\<lambda>st i. Some (fanout_blocks S ?keys cs tos fromSize st i)) st2 [0..<toSize div fromSize]) (\<lambda>st.
        Some (record_block S st []))"
  from run obtain st3 where st3: "?fan = Some (Inr st3)" by (elim bindO_SomeE)
  note run = run [unfolded st3 bindO_simps]
  from run obtain st4 where st4: "foldO (rand_blocks S ?keys cs tos txPerBlockIn) (st3, [], 0) [0..<randBlocks] = Some (Inr st4)"
    and st': "st' = fst st4"
    by (elim bindO_SomeE) (auto split: prod.splits)
  have max: "fromSize + 2 * (toSize div fromSize) + randBlocks + 3 < 2 ^ 32" using assms(3) by (simp add: max_blocks_def)
  define n1 where "n1 = length (deploy_blocks txs)"
  have n1: "n1 \<le> fromSize"
    using length_deploy_blocks [of txs] GetDeployTxAndAddrList_length(1) [OF deploy] ok(3) by (simp add: n1_def)
  have c1: "recorded_chain S app0 n1 st1" unfolding n1_def
    using st1 recorded_chain_start
    by (rule foldO_count) (use n1 max in \<open>auto simp: n1_def intro: recorded_chain_step [OF assms(1)]\<close>)
  have c2: "recorded_chain S app0 (Suc n1) st2" by (rule recorded_chain_step [OF assms(1) c1 _ st2]) (use n1 max in simp)
  obtain n3 where n3: "n3 \<le> Suc n1 + 2 * (toSize div fromSize) + 1" and c3: "recorded_chain S app0 n3 st3"
  proof (cases ig)
    case True
    with st3 c2 show ?thesis by (intro that [of "Suc n1"]) simp_all
  next
    case False
    from st3 [unfolded if_not_P [OF False]] obtain sf where
      sf: "foldO (\<lambda>st i. Some (fanout_blocks S ?keys cs tos fromSize st i)) st2 [0..<toSize div fromSize] = Some (Inr sf)"
      and last: "record_block S sf [] = Inr st3"
      by (elim bindO_SomeE) simp
    have "recorded_chain S app0 (Suc n1 + 2 * length [0..<toSize div fromSize]) sf"
      using sf
    proof (rule foldO_count [where I = "\<lambda>k. recorded_chain S app0 (Suc n1 + 2 * k)"])
      show "recorded_chain S app0 (Suc n1 + 2 * 0) st2" using c2 by simp
    next
      fix k st i st'
      assume k: "k < length [0..<toSize div fromSize]" and c: "recorded_chain S app0 (Suc n1 + 2 * k) st"
        and step: "Some (fanout_blocks S ?keys cs tos fromSize st i) = Some (Inr st')"
      from k have "k < toSize div fromSize" by simp
      with n1 max have "Suc (Suc (Suc n1 + 2 * k)) < 2 ^ 32" by linarith
      from recorded_chain_fanout [OF assms(1) c this, of ?keys cs tos fromSize i st'] step
      show "recorded_chain S app0 (Suc n1 + 2 * Suc k) st'" by simp
    qed
    then have "recorded_chain S app0 (Suc n1 + 2 * (toSize div fromSize)) sf" by simp
    from recorded_chain_step [OF assms(1) this _ last] n1 max show ?thesis
      by (intro that [of "Suc (Suc n1 + 2 * (toSize div fromSize))"]) linarith+
  qed
  have "recorded_chain S app0 (n3 + length [0..<randBlocks]) (fst st4)"
    using st4
  proof (rule foldO_count [where I = "\<lambda>k st. recorded_chain S app0 (n3 + k) (fst st)"])
    show "recorded_chain S app0 (n3 + 0) (fst (st3, [], 0))" using c3 by simp
  next
    fix k st i st'
    assume k: "k < length [0..<randBlocks]" and c: "recorded_chain S app0 (n3 + k) (fst st)"
      and step: "rand_blocks S ?keys cs tos txPerBlockIn st i = Some (Inr st')"
    from k n3 n1 max have "Suc (n3 + k) < 2 ^ 32" by simp
    from recorded_chain_rand [OF assms(1) c this step] show "recorded_chain S app0 (n3 + Suc k) (fst st')" by simp
  qed
  then show ?thesis using app0 n3 n1 max by (intro exI [of _ app0] exI [of _ "n3 + randBlocks"]) (simp add: st')
qed

lemma stress_app_fresh:
  assumes "block_frame_laws (st_lib S)" and "GetCurrBlockBasicInfo (st_lib S) (st_store S) = None"
    and "stress_CreateTestApp S amt keys = Inr app0"
  shows "GetLatestBlockNum (ta_App app0) = 0"
proof -
  let ?L = "st_lib S"
  from assms(3) obtain app where new: "NewApp ?L (st_WriteBack S) stress_config (NewU256 0x2711) (st_store S) [] (st_engine S) = Inr app"
    unfolding stress_CreateTestApp_def Let_def by (elim bindG_InrE)
  have h: "GetLatestBlockNum app = 0"
    using new assms(2)
    by (auto simp: NewApp_def GetLatestBlockNum_def restore_block_def block_frame.frame_Init [OF assms(1)] Let_def)
  from assms(3) new h obtain app' where init: "init_test_chain ?L (st_keylib S) (st_testlib S) amt keys (st_pubkey S) app = Inr app'"
    and app0: "ta_App app0 = app'"
    unfolding stress_CreateTestApp_def Let_def by auto
  from init obtain b res where "Commit ?L (BeginBlock b (test_request (st_testlib S) 0 ZeroTime (PubKey_Address ?L (st_pubkey S)))) = Inr (res, app')"
    unfolding init_test_chain_def Let_def by auto
  from Commit_height [OF this] show ?thesis by (simp add: app0 GetLatestBlockNum_def BeginBlock_def test_request_def Let_def)
qed

text \<open>
  (C14) Replaying a recorded chain never reports an incorrect hash. When a recording on a new chain returns,
  whatever transactions it made, a new chain with the same keys is created again, its replay of the
  database ends, finds every root hash equal to the recorded one, and leaves the very state of the
  application the recording ended with. The execution of blocks depends on nothing but the
  calls. (The heights of the database are 32 bits wide; \<open>max_blocks\<close> bounds the blocks made.)
\<close>

theorem replay_reproduces:
  assumes "rlp_laws (st_rlp S)" and "block_frame_laws (st_lib S)"
    and "GetCurrBlockBasicInfo (st_lib S) (st_store S) = None"
    and "RecordBlocks S (NewBlockDB Map.empty) randBlocks keys fromSize toSize txPerBlock ignoreFanout = Some (Inr (app, db))"
    and "max_blocks randBlocks fromSize toSize + 1 < 2 ^ 32"
  shows "\<exists>app0. stress_CreateTestApp S initBalance (take fromSize keys) = Inr app0 \<and>
    ReplayBlocks S app0 db = Some (Inr app)"
proof -
  from RecordBlocks_chain [OF assms(1,4,5)] obtain app0 n where
    app0: "stress_CreateTestApp S initBalance (take fromSize keys) = Inr app0"
    and chain: "Suc n < 2 ^ 32" "recorded_chain S app0 n (app, db)" by blast
  from stress_app_fresh [OF assms(2,3) app0] have "ReplayBlocks S app0 db = replay_loop S db app0 0"
    by (simp add: ReplayBlocks_def)
  with recorded_chain_replay [OF chain(2,1)] app0 show ?thesis by simp
qed

section \<open>Random transactions\<close>

lemma fresh_sender_returns:
  assumes "p \<le> q" and "unat (rs q) mod n \<notin> set taken"
  shows "\<exists>x r. fresh_sender rs n taken p = Some (x, r) \<and> x \<notin> set taken \<and> (0 < n \<longrightarrow> x < n)"
  using assms
proof (induction "q - p" arbitrary: p)
  case 0
  then have "p = q" by simp
  with 0 have "fresh_sender rs n taken p = Some (unat (rs q) mod n, p + 1)" by (simp add: fresh_sender.simps [of rs n taken q])
  with 0 show ?case by auto
next
  case (Suc d)
  then have "d = q - (p + 1)" "p + 1 \<le> q" by simp_all
  from Suc.hyps(1) [OF this Suc.prems(2)] show ?case
    by (cases "unat (rs p) mod n \<in> set taken") (simp_all add: fresh_sender.simps [of rs n taken p])
qed

lemma skip_taken_result:
  assumes "skip_taken n avoid z = Some r" and "z < n"
  shows "r < n \<and> r \<notin> set avoid"
proof -
  have "skip_taken n avoid z = Some r \<Longrightarrow> z < n \<longrightarrow> r < n \<and> r \<notin> set avoid"
    by (rule skip_taken.raw_induct [of "\<lambda>n avoid z r. z < n \<longrightarrow> r < n \<and> r \<notin> set avoid"])
      (auto split: if_splits)
  with assms show ?thesis by blast
qed

text \<open>Going around ends exactly when an index is left.\<close>

lemma skip_taken_returns:
  assumes "z < n"
  shows "(\<exists>r. skip_taken n avoid z = Some r) \<longleftrightarrow> (\<exists>w < n. w \<notin> set avoid)"
proof
  assume "\<exists>r. skip_taken n avoid z = Some r"
  with skip_taken_result assms show "\<exists>w < n. w \<notin> set avoid" by blast
next
  assume "\<exists>w < n. w \<notin> set avoid"
  then obtain w where w: "w < n" "w \<notin> set avoid" by blast
  have "\<exists>r. skip_taken n avoid z = Some r" if "z < n" "(w + n - z) mod n = d" for d z
    using that
  proof (induction d arbitrary: z)
    case 0
    then have "w = z" using w(1)
      by (cases "z \<le> w") (simp_all add: mod_if split: if_splits)
    with w show ?case by (simp add: skip_taken.simps [of n avoid z])
  next
    case (Suc d)
    have "(w + n - (z + 1) mod n) mod n = d"
      using Suc.prems w(1) by (cases "z \<le> w"; cases "z + 1 = n") (auto simp: mod_if split: if_splits)
    with Suc.IH [of "(z + 1) mod n"] Suc.prems show ?case
      by (cases "z \<in> set avoid") (simp_all add: skip_taken.simps [of n avoid z])
  qed
  with assms show "\<exists>r. skip_taken n avoid z = Some r" by blast
qed

lemma room_left:
  assumes "length avoid < n"
  shows "\<exists>w < n. w \<notin> set avoid"
proof (rule ccontr)
  assume "\<not> (\<exists>w < n. w \<notin> set avoid)"
  then have "{..<n} \<subseteq> set avoid" by auto
  then have "n \<le> card (set avoid)" by (metis card_lessThan card_mono finite_set)
  with assms card_length [of avoid] show False by simp
qed

lemma rand_tx_returns:
  assumes "length fromKeys = n" and "length contractAddrs = n" and "3 \<le> n" and "toAddrs \<noteq> []"
    and "n dvd length toAddrs" and "10 * (length toAddrs div n) < 2 ^ 32"
    and "\<forall>p x. x < n \<longrightarrow> (\<exists>q \<ge> p. unat (rand_src S q) mod n = x)"
    and "\<forall>x < n. \<forall>c a0 a1 a2 v slots. \<exists>tx. GetTx S tapp (fromKeys ! x) c a0 a1 a2 v slots = Inr tx"
    and "\<exists>w < n. w \<notin> set (touched @ prev)"
  shows "\<exists>x q tx. rand_tx S tapp fromKeys contractAddrs toAddrs prev (touched, p, txs) i =
      Some (Inr (touched @ [x], q, txs @ [tx])) \<and> x < n \<and> x \<notin> set (touched @ prev)"
proof -
  let ?rs = "rand_src S" and ?bound = "of_nat (10 * (length toAddrs div length fromKeys)) :: uint32"
  from assms(9,7) obtain q where "p \<le> q" "unat (?rs q) mod n \<notin> set (touched @ prev)" by metis
  from fresh_sender_returns [of p q ?rs n "touched @ prev", OF this] assms(3) obtain x r where
    x: "fresh_sender ?rs n (touched @ prev) p = Some (x, r)" "x \<notin> set (touched @ prev)" "x < n" by auto
  define y where "y = unat (?rs r) mod n"
  have pos: "unat (?rs k) mod n < n" for k using assms(3) by simp
  obtain z1 where z1: "skip_taken n [y] (unat (?rs (r + 2)) mod n) = Some z1"
    using skip_taken_returns [OF pos] room_left [of "[y]" n] assms(3) by fastforce
  obtain z2 where z2: "skip_taken n [y, z1] (unat (?rs (r + 3)) mod n) = Some z2"
    using skip_taken_returns [OF pos] room_left [of "[y, z1]" n] assms(3) by fastforce
  have "0 < length toAddrs div n" using assms(3-5) by (simp add: div_greater_zero_iff dvd_imp_le)
  then have "unat ?bound = 10 * (length toAddrs div n)" "0 < 10 * (length toAddrs div n)"
    using assms(1,6) by (simp_all add: unat_of_nat del: of_nat_mult)
  then have bound: "?bound \<noteq> 0" by (metis less_irrefl unat_0)
  from assms(8) x(3) obtain tx where tx: "GetTx S tapp (fromKeys ! x) (contractAddrs ! y)
      (toAddrs ! (unat (?rs (r + 1)) mod length toAddrs)) (contractAddrs ! z1) (contractAddrs ! z2)
      (ucast (?rs (r + 4)) mod 21000000) (map (\<lambda>k. ?rs (r + 5 + k) mod ?bound) [0..<6]) = Inr tx" by blast
  have "rand_tx S tapp fromKeys contractAddrs toAddrs prev (touched, p, txs) i = Some (Inr (touched @ [x], r + 11, txs @ [tx]))"
    unfolding rand_tx_def Let_def prod.case assms(1,2) x(1) option.case y_def [symmetric] z1 z2
    using assms(4) bound tx unfolding assms(1) by simp
  with x show ?thesis by blast
qed

text \<open>
  (C37) Generating random transactions ends. When every index of a sender comes again and again from the
  random source, there are at least three contracts, and the senders used in the last block leave
  enough others, the loops that look for a sender and for different contracts all end, and the list
  has the transactions asked for, from different senders, none of which sent in the last block.
\<close>

theorem GenRandTxList_returns:
  assumes "length fromKeys = n" and "length contractAddrs = n" and "3 \<le> n" and "toAddrs \<noteq> []"
    and "n dvd length toAddrs" and "10 * (length toAddrs div n) < 2 ^ 32"
    and "\<forall>p x. x < n \<longrightarrow> (\<exists>q \<ge> p. unat (rand_src S q) mod n = x)"
    and "\<forall>x < n. \<forall>c a0 a1 a2 v slots. \<exists>tx. GetTx S tapp (fromKeys ! x) c a0 a1 a2 v slots = Inr tx"
    and "len + length prev \<le> n"
  shows "\<exists>touched q txs. GenRandTxList S tapp p len fromKeys contractAddrs toAddrs prev = Some (Inr (touched, q, txs)) \<and>
    length txs = len \<and> length touched = len \<and> distinct touched \<and> set touched \<subseteq> {..<n} - set prev"
proof -
  let ?step = "rand_tx S tapp fromKeys contractAddrs toAddrs prev"
  have "\<exists>touched q txs. foldO ?step (t0, p, ts0) is = Some (Inr (touched, q, txs)) \<and> length txs = length ts0 + length is \<and>
      length touched = length t0 + length is \<and> distinct touched \<and> set touched \<subseteq> {..<n} - set prev"
    if "distinct t0" "set t0 \<subseteq> {..<n} - set prev" "length t0 + length is + length prev \<le> n" for t0 p ts0 "is"
    using that
  proof (induction "is" arbitrary: t0 p ts0)
    case Nil
    then show ?case by simp
  next
    case (Cons i "is")
    have "\<exists>w < n. w \<notin> set (t0 @ prev)" by (rule room_left) (use Cons.prems(3) in simp)
    from rand_tx_returns [OF assms(1-8) this, of p ts0 i] obtain x q tx where
      step: "?step (t0, p, ts0) i = Some (Inr (t0 @ [x], q, ts0 @ [tx]))" and x: "x < n" "x \<notin> set (t0 @ prev)" by blast
    have "\<exists>touched r txs. foldO ?step (t0 @ [x], q, ts0 @ [tx]) is = Some (Inr (touched, r, txs)) \<and>
        length txs = length (ts0 @ [tx]) + length is \<and> length touched = length (t0 @ [x]) + length is \<and>
        distinct touched \<and> set touched \<subseteq> {..<n} - set prev"
      by (rule Cons.IH) (use Cons.prems x in auto)
    then show ?case by (simp add: step)
  qed
  from this [of "[]" "[0..<len]" p "[]"] assms(9) show ?thesis
    using assms(1-5) by (simp add: GenRandTxList_def dvd_imp_mod_0)
qed

section \<open>Witnesses\<close>

text \<open>Byte strings, each after its length; a byte string of 256 bytes and more is not encoded.\<close>

definition enc_bytes :: "bytes \<Rightarrow> bytes" where
  "enc_bytes bs = of_nat (length bs) # bs"

function dec_all :: "bytes \<Rightarrow> bytes list option" where
  "dec_all [] = Some []"
| "dec_all (n # bs) = (if length bs < unat n then None
     else map_option ((#) (take (unat n) bs)) (dec_all (drop (unat n) bs)))"
  by pat_completeness auto
termination by (relation "measure length") auto

definition small_rlp :: rlp where
  "small_rlp = \<lparr>EncodeToBytes = (\<lambda>blk. let bss = rb_AppHash blk # rb_TxList blk in
       if list_all (\<lambda>bs. length bs < 256) bss then Inr (concat (map enc_bytes bss)) else Inl ''too long''),
     DecodeBytes = (\<lambda>bz. case dec_all bz of Some (hash # txs) \<Rightarrow> Inr \<lparr>rb_AppHash = hash, rb_TxList = txs\<rparr> | _ \<Rightarrow> Inl ''rlp'')\<rparr>"

lemma dec_all_enc: "list_all (\<lambda>bs. length bs < 256) bss \<Longrightarrow> dec_all (concat (map enc_bytes bss)) = Some bss"
proof (induction bss)
  case (Cons bs bss)
  then have "unat (of_nat (length bs) :: byte) = length bs" by (simp add: unat_of_nat)
  with Cons show ?case by (simp add: enc_bytes_def)
qed simp

lemma small_rlp_laws: "rlp_laws small_rlp"
  unfolding rlp_laws_def
proof (intro allI impI)
  fix blk bz assume enc: "EncodeToBytes small_rlp blk = Inr bz"
  let ?bss = "rb_AppHash blk # rb_TxList blk"
  from enc have small: "list_all (\<lambda>bs. length bs < 256) ?bss" and bz: "bz = concat (map enc_bytes ?bss)"
    by (auto simp: small_rlp_def Let_def split: if_splits)
  from dec_all_enc [OF small] have "dec_all bz = Some ?bss" unfolding bz .
  then show "bz \<noteq> [] \<and> DecodeBytes small_rlp bz = Inr blk"
    by (simp add: small_rlp_def) (auto simp: bz enc_bytes_def)
qed

text \<open>A world state of which only the block changes: accounts and storage are those of a chain with two validators.\<close>

abbreviation stable_world :: mem_world where
  "stable_world \<equiv> witness_world active_witness active_funds"

definition stable_evm :: "(Block option, mem_account) evm" where
  "stable_evm = \<lparr>GetAccount = (\<lambda>c. GetAccount mem_evm stable_world), SetAccount = (\<lambda>c a acc. c),
     GetStorageAt = (\<lambda>c. GetStorageAt mem_evm stable_world), SetStorageAt = (\<lambda>c s k v. c),
     ZeroAccountInfo = ZeroAccountInfo mem_evm, Balance = Balance mem_evm, UpdateBalance = UpdateBalance mem_evm,
     Sequence = Sequence mem_evm, UpdateSequence = UpdateSequence mem_evm, BlackHole = BlackHole mem_evm,
     TransferFromSenderAccToBlackHoleAcc = (\<lambda>c a v. (False, c))\<rparr>"

definition stable_lib :: "(Block option, mem_account, unit, exec_info option, unit) lib" where
  "stable_lib = \<lparr>lib_evm = stable_evm, lib_codec = mp_codec, lib_orders = id_orders,
     GetSystemBalance = (\<lambda>c. 0), SubSystemAccBalance = (\<lambda>c v. Inl ''no system account''),
     GetCurrBlockBasicInfo = (\<lambda>c. c), SetCurrBlockBasicInfo = (\<lambda>c b. Some b),
     GetRootHash = (\<lambda>c. case c of None \<Rightarrow> [] | Some b \<Rightarrow> be_bytes 32 (ucast (blk_Number b) :: bytes32)),
     PubKey_Address = (\<lambda>k. be_bytes 20 (ucast k :: address)), Block_MarshalMsg = (\<lambda>b. Inr []),
     Tx_MarshalMsg = (\<lambda>t. Inr []), TransferEvent = 0,
     Unmarshal_Genesis = (\<lambda>bz. Inr \<lparr>gd_Validators = Validators active_witness, gd_Alloc = []\<rparr>),
     CollectTx = (\<lambda>x t. x), Prepare = (\<lambda>x c seed p. ({}, x, c)),
     Execute = (\<lambda>x c bi. (Some bi, c)), GasUsedInfo = (\<lambda>x. (0, 0, 0)), StandbyQLen = (\<lambda>x. 1),
     CommittedTxs = (\<lambda>x. [])\<rparr>"

lemma stable_simps [simp]:
  "lib_evm stable_lib = stable_evm" "lib_codec stable_lib = mp_codec" "GetCurrBlockBasicInfo stable_lib c = c"
  "SetCurrBlockBasicInfo stable_lib c b = Some b" "GetSystemBalance stable_lib c = 0" "StandbyQLen stable_lib x = 1"
  "Prepare stable_lib x c seed p = ({}, x, c)" "CommittedTxs stable_lib x = []" "Block_MarshalMsg stable_lib b = Inr []"
  "Execute stable_lib x c bi = (Some bi, c)" "GasUsedInfo stable_lib x = (0, 0, 0)"
  "PubKey_Address stable_lib k = be_bytes 20 (ucast k :: address)" "CollectTx stable_lib x t = x"
  "Unmarshal_Genesis stable_lib bz = Inr \<lparr>gd_Validators = Validators active_witness, gd_Alloc = []\<rparr>"
  "GetAccount stable_evm c = GetAccount mem_evm stable_world" "SetAccount stable_evm c a acc = c"
  "GetStorageAt stable_evm c = GetStorageAt mem_evm stable_world" "SetStorageAt stable_evm c s q bz' = c"
  "Sequence stable_evm = Sequence mem_evm"
  by (simp_all add: stable_lib_def stable_evm_def)

lemma stable_frame: "block_frame_laws stable_lib"
  by (simp add: block_frame_laws_def stable_evm_def) (simp add: stable_lib_def)

lemma stable_load:
  "LoadStakingAcc stable_evm mp_codec c =
     Inr (\<lparr>mem_balance = active_funds, mem_sequence = StakingContractSequence\<rparr>, active_witness)"
proof -
  have "LoadStakingAcc stable_evm mp_codec c = LoadStakingAcc mem_evm mp_codec stable_world"
    by (simp add: LoadStakingAcc_def cong: option.case_cong)
  then show ?thesis by (simp add: witness_world_load [OF active_witness_inv(2)])
qed

lemma stable_account:
  "GetAccount mem_evm stable_world StakingContractAddress =
     Some \<lparr>mem_balance = active_funds, mem_sequence = StakingContractSequence\<rparr>"
  using LoadStakingAcc_account [OF stable_load [of None]] by simp

lemma stable_price: "LoadMinGasPrice stable_evm c l = Inr 0" "SaveMinGasPrice stable_evm c v l = Inr c"
proof -
  have "LoadMinGasPrice stable_evm c l = LoadMinGasPrice mem_evm stable_world l"
    by (simp add: LoadMinGasPrice_def cong: option.case_cong)
  also have "\<dots> = Inr 0"
    unfolding witness_world_def LoadMinGasPrice_SaveStakingInfo [OF mem_evm_laws mp_codec_laws]
    by (simp add: LoadMinGasPrice_def mem_evm_def mem_set_def mem_empty_def DefaultMinGasPrice_def)
  finally show "LoadMinGasPrice stable_evm c l = Inr 0" .
  show "SaveMinGasPrice stable_evm c v l = Inr c" by (simp add: SaveMinGasPrice_def stable_account)
qed

lemma stable_Init: "Init stable_evm c = c"
  by (simp add: Init_def stable_account)

text \<open>On this library a commit succeeds when nothing is left to do.\<close>

definition idle :: "('c, 'x) App \<Rightarrow> bool" where
  "idle app \<longleftrightarrow> slashValidators app = [] \<and> lastGasFee app = 0 \<and> lastCommitInfo app = [] \<and> epochQueue app = [] \<and>
     watcherChan app = []"

lemma stable_commit:
  assumes "idle app" and "lastProposer app = 101"
  shows "\<exists>res app'. Commit stable_lib app = Inr (res, app') \<and> idle app' \<and> length (rc_Data res) = 32"
proof -
  have key: "pubkey_at (pubkeyMapByConsAddr stable_lib active_witness) 101 = 101"
    by (simp add: pubkey_at_def pubkeyMapByConsAddr_def active_witness_def witness_validator_def Let_def)
  have known: "known active_witness 101"
    using fair_block_known(2) [OF active_witness_inv(1) fees_fair] .
  obtain prs where rewards: "distribute_rewards active_witness 0 101 [] = Inr (active_witness\<lparr>PendingRewards := prs\<rparr>)"
    using distribute_rewards_spec [OF active_witness_inv(1) _ known, of "[]" 0] by auto
  have hist: "history_block stable_lib app b = Inr \<lparr>mdb_Height = blk_Number b, mdb_BlockHash = blk_Hash b,
      mdb_BlockInfo = [], mdb_TxList = []\<rparr>" for app b
    by (simp add: history_block_def Let_def)
  have epoch: "\<exists>a1. commit_epoch stable_lib active_witness app = Inr a1 \<and> idle a1 \<and> lastProposer a1 = 101"
    using assms by (simp add: commit_epoch_def receive_epoch_def idle_def Let_def)
  have slash: "\<exists>a2. commit_slash stable_lib m a1 = Inr a2 \<and> idle a2 \<and> lastProposer a2 = 101"
    if "idle a1" "lastProposer a1 = 101" for a1 and m
    using that by (simp add: commit_slash_def idle_def)
  have fees: "\<exists>a3. commit_fees stable_lib (pubkeyMapByConsAddr stable_lib active_witness) a2 = Inr a3 \<and> idle a3"
    if "idle a2" "lastProposer a2 = 101" for a2
    using that
    by (simp add: commit_fees_def idle_def commit_voters_def DistributeFee_def stable_load key rewards
        LoadReadonlyValiatorsInfo_def SaveStakingInfo_def Let_def)
  have refresh: "\<exists>a5. refresh stable_lib a4 = Inr a5 \<and> idle a5" if "idle a4" for a4
    using that
    by (cases "trunk a4") (simp_all add: refresh_def stable_price hist prune_def publishNewBlock_def idle_def Let_def)
  from epoch obtain a1 where a1: "commit_epoch stable_lib active_witness app = Inr a1" "idle a1" "lastProposer a1 = 101" by blast
  from slash [OF a1(2,3)] obtain a2 where
    a2: "commit_slash stable_lib (pubkeyMapByConsAddr stable_lib active_witness) a1 = Inr a2" "idle a2" "lastProposer a2 = 101" by blast
  from fees [OF a2(2,3)] obtain a3 where
    a3: "commit_fees stable_lib (pubkeyMapByConsAddr stable_lib active_witness) a2 = Inr a3" "idle a3" by blast
  let ?a4 = "a3\<lparr>touchedAddrs := {}, txEngine := txEngine a3, trunk := trunk a3\<rparr>"
  have "idle ?a4" using a3(2) by (simp add: idle_def)
  from refresh [OF this] obtain a5 where a5: "refresh stable_lib ?a4 = Inr a5" "idle a5" by blast
  have "idle (postCommit stable_lib bi (snd (syncBlockInfo a5)))" for bi
    using a5(2) by (simp add: idle_def postCommit_def syncBlockInfo_def Let_def)
  then show ?thesis
    unfolding Commit_def stable_simps stable_load bindG_simps prod.case a1(1) a2(1) a3(1) Let_def a5(1)
    by (simp add: case_prod_beta)
qed

definition stress_witness :: "(Block option, mem_account, unit, exec_info option, unit, nat, bytes32) stress" where
  "stress_witness = \<lparr>st_lib = stable_lib,
     st_txlib = \<lparr>DecodeRLP = (\<lambda>bz. None), tx_hash = (\<lambda>t. 1), signer_Sender = (\<lambda>t. Inr 7), tx_Gas = (\<lambda>t. 1),
       tx_Nonce = (\<lambda>t. 0), tx_GasPrice = (\<lambda>t. 0), MaxTxGasLimit = 10, CheckNonce = (\<lambda>c a n. Inl ''no account''),
       DeductTxFee = (\<lambda>c a acc g p. Inl ''no account'')\<rparr>,
     st_keylib = witness_keylib,
     st_testlib = \<lparr>Nonce = (\<lambda>a. 0), LegacyTx = (\<lambda>n to v g p d. of_nat (length d)), tl_Nonce = (\<lambda>t. 0),
       CreateAddress = (\<lambda>a n. a + 1), Genesis_JSON = (\<lambda>g. [1]), BeginBlock_Size = (\<lambda>h t p. 0), DeliverTx_Size = (\<lambda>tx. 0)\<rparr>,
     st_rlp = small_rlp, st_WriteBack = late_write, st_store = None, st_engine = None, st_pubkey = 101,
     HexToECDSA = (\<lambda>s. Inr 3), Pack_run0 = (\<lambda>a off. [0]), Pack_run2 = (\<lambda>a b c n. [2]), creationBytecode = [96],
     rand_src = (\<lambda>p. of_nat p)\<rparr>"

lemma stress_witness_simps [simp]:
  "st_lib stress_witness = stable_lib" "st_keylib stress_witness = witness_keylib" "st_rlp stress_witness = small_rlp"
  "st_WriteBack stress_witness = late_write" "st_store stress_witness = None" "st_engine stress_witness = None"
  "st_pubkey stress_witness = 101" "rand_src stress_witness p = of_nat p" "creationBytecode stress_witness = [96]"
  "DecodeRLP (st_txlib stress_witness) bz = None" "Genesis_JSON (st_testlib stress_witness) g = [1]"
  by (simp_all add: stress_witness_def)

lemma stress_exec:
  assumes "idle app"
  shows "\<exists>hash g app'. ExecTxsInOneBlock stress_witness h txs \<lparr>ta_App = app, TestPubkey = 101\<rparr> =
      Inr ((hash, g), \<lparr>ta_App = app', TestPubkey = 101\<rparr>) \<and> idle app' \<and> length hash = 32"
proof -
  let ?req = "test_request (st_testlib stress_witness) h (h * 5) (be_bytes 20 (101 :: address))"
  let ?a = "foldl (\<lambda>app tx. DeliverTx stable_lib (st_txlib stress_witness) app (DeliverTx_Size (st_testlib stress_witness) tx) tx)
      (BeginBlock app ?req) txs"
  have "idle (foldl (\<lambda>app tx. DeliverTx stable_lib (st_txlib stress_witness) app (sz tx) tx) app txs) = idle app \<and>
      lastProposer (foldl (\<lambda>app tx. DeliverTx stable_lib (st_txlib stress_witness) app (sz tx) tx) app txs) = lastProposer app"
    for app and sz :: "bytes \<Rightarrow> int64"
    by (induction txs arbitrary: app) (simp_all add: DeliverTx_def DecodeTx_def idle_def Let_def)
  moreover have "idle (BeginBlock app ?req)" "lastProposer (BeginBlock app ?req) = 101"
    using assms by (simp_all add: idle_def BeginBlock_def test_request_def collect_evidence_def Let_def)
  ultimately have "idle ?a" "lastProposer ?a = 101" by simp_all
  from stable_commit [OF this] obtain res app' where "Commit stable_lib ?a = Inr (res, app')" "idle app'" "length (rc_Data res) = 32"
    by blast
  then show ?thesis by (simp add: ExecTxsInOneBlock_def exec_block_def Let_def)
qed

lemma stress_record:
  assumes "idle app" and "list_all (\<lambda>bs. length bs < 256) txs"
  shows "\<exists>app' db'. record_block stress_witness (\<lparr>ta_App = app, TestPubkey = 101\<rparr>, db) txs =
      Inr (\<lparr>ta_App = app', TestPubkey = 101\<rparr>, db') \<and> idle app' \<and> db_height db' = db_height db + 1"
proof -
  obtain hash g app' where "ExecTxsInOneBlock stress_witness (ucast (db_height db)) txs \<lparr>ta_App = app, TestPubkey = 101\<rparr> =
      Inr ((hash, g), \<lparr>ta_App = app', TestPubkey = 101\<rparr>)" "idle app'" "length hash = 32"
    using stress_exec [OF assms(1)] by metis
  with assms(2) show ?thesis by (simp add: record_block_def SaveBlock_def small_rlp_def Let_def)
qed

lemma stress_keys:
  "HexToPrivKey witness_keylib ''0x03'' = (Some 3, [3], None)" "SignTx witness_keylib t c k = Inr t"
  "EncodeTx witness_keylib t = Inr (be_bytes 32 t)"
  by (simp_all add: HexToPrivKey_def TrimSpace_def TrimPrefix_def is_space_def fromHexChar_def SignTx_def EncodeTx_def
      witness_keylib_def be_nat_Cons be_nat_Nil)

lemma stress_create:
  "\<exists>app. stress_CreateTestApp stress_witness initBalance [''0x03''] = Inr \<lparr>ta_App = app, TestPubkey = 101\<rparr> \<and> idle app"
proof -
  obtain app where new: "NewApp stable_lib late_write stress_config (NewU256 0x2711) None [] None = Inr app"
    and app: "idle app" "currHeight app = 0" "length (currValidators app) \<le> length (Validators active_witness)"
    by (simp add: NewApp_def stable_Init stable_load stable_price restore_block_def idle_def active_witness_active
        Let_def) (simp add: active_witness_def)
  have vals: "Validators active_witness \<noteq> []" by (simp add: active_witness_def)
  obtain ires app1 where init: "InitChain stable_lib app [1] = Inr (ires, app1)" and app1: "idle app1"
    using app vals
    by (simp add: InitChain_def createGenesisAccs_def stable_account genesis_rewards_def SaveStakingInfo_def idle_def Let_def)
  let ?b = "BeginBlock app1 (test_request (st_testlib stress_witness) 0 ZeroTime (be_bytes 20 (101 :: address)))"
  have "idle ?b" "lastProposer ?b = 101"
    using app1 by (simp_all add: idle_def BeginBlock_def test_request_def collect_evidence_def Let_def)
  from stable_commit [OF this] obtain res app' where "Commit stable_lib ?b = Inr (res, app')" "idle app'" by blast
  with new app(2) stress_keys(1) init show ?thesis
    by (simp add: stress_CreateTestApp_def init_test_chain_def KeysToGenesisAlloc_def GetLatestBlockNum_def Let_def)
qed

text \<open>One sender deploys its contract: a block with that transaction and an empty one are recorded.\<close>

theorem replay_reproduces_witness:
  "\<exists>app db app0. RecordBlocks stress_witness (NewBlockDB Map.empty) 0 [''0x03''] 1 0 1 True = Some (Inr (app, db)) \<and>
     db_height db = 3 \<and> stress_CreateTestApp stress_witness initBalance [''0x03''] = Inr app0 \<and>
     ReplayBlocks stress_witness app0 db = Some (Inr app)"
proof -
  obtain a0 where create: "stress_CreateTestApp stress_witness initBalance [''0x03''] = Inr \<lparr>ta_App = a0, TestPubkey = 101\<rparr>"
    and a0: "idle a0" using stress_create by blast
  obtain tx addr where deploy: "GetDeployTxAndAddrList stress_witness \<lparr>ta_App = a0, TestPubkey = 101\<rparr> [''0x03''] [96] = Inr ([tx], [addr])"
    and tx: "length tx < 256"
    by (simp add: GetDeployTxAndAddrList_def MakeAndSignTx_def stress_keys MustEncodeTx_def Let_def)
  have blocks: "deploy_blocks [tx] = [[tx]]"
    by (simp add: deploy_blocks.simps [of "[tx]"] deploy_blocks.simps [of "[]"] Let_def)
  from stress_record [OF a0, of "[tx]" "NewBlockDB Map.empty"] tx obtain a1 db1 where r1:
    "record_block stress_witness (\<lparr>ta_App = a0, TestPubkey = 101\<rparr>, NewBlockDB Map.empty) [tx] = Inr (\<lparr>ta_App = a1, TestPubkey = 101\<rparr>, db1)"
    "idle a1" "db_height db1 = 2"
    by (auto simp: NewBlockDB_def)
  from stress_record [OF r1(2), of "[]" db1] r1(3) obtain a2 db2 where r2:
    "record_block stress_witness (\<lparr>ta_App = a1, TestPubkey = 101\<rparr>, db1) [] = Inr (\<lparr>ta_App = a2, TestPubkey = 101\<rparr>, db2)"
    "idle a2" "db_height db2 = 3" by auto
  have tos: "to_addresses stress_witness [''0x03''] 1 0 = Inr []"
    by (simp add: to_addresses_def numThreads_def upt_rec)
  have run: "RecordBlocks stress_witness (NewBlockDB Map.empty) 0 [''0x03''] 1 0 1 True = Some (Inr (\<lparr>ta_App = a2, TestPubkey = 101\<rparr>, db2))"
    by (simp add: RecordBlocks_def tos create deploy blocks r1(1) r2(1) Let_def del: One_nat_def)
  from replay_reproduces [OF _ _ _ run] r2(3) run show ?thesis
    by (simp add: small_rlp_laws stable_frame max_blocks_def)
qed

text \<open>Three senders, none of which has sent, with the source that counts.\<close>

theorem GenRandTxList_returns_witness:
  "\<exists>touched q txs. GenRandTxList stress_witness \<lparr>ta_App = start_app None None, TestPubkey = 101\<rparr> 0 2
       [''0x03'', ''0x03'', ''0x03''] [1, 2, 3] [4, 5, 6] [1] = Some (Inr (touched, q, txs)) \<and>
     length txs = 2 \<and> set touched = {0, 2}"
proof -
  let ?keys = "[''0x03'', ''0x03'', ''0x03'']"
  let ?app = "\<lparr>ta_App = start_app None None, TestPubkey = 101\<rparr> :: (Block option, exec_info option) TestApp"
  have "\<exists>q \<ge> p. unat (rand_src stress_witness q) mod 3 = x" if "x < 3" for p x
  proof (intro exI conjI)
    show "p \<le> 2 ^ 32 * p + x" by simp
    show "unat (rand_src stress_witness (2 ^ 32 * p + x)) mod 3 = x"
      using that by (simp add: unat_of_nat del: of_nat_mult of_nat_add)
  qed
  moreover have "\<exists>tx. GetTx stress_witness ?app (?keys ! x) c a0 a1 a2 v slots = Inr tx" if "x < 3" for x c a0 a1 a2 v slots
  proof -
    have "?keys ! x = ''0x03''" using that by (auto simp: less_Suc_eq numeral_3_eq_3)
    then show ?thesis by (simp add: GetTx_def MakeAndSignTx_def stress_keys MustEncodeTx_def Let_def)
  qed
  moreover have "3 dvd Suc (Suc (Suc 0))" by presburger
  ultimately obtain touched q txs where run: "GenRandTxList stress_witness ?app 0 2 ?keys [1, 2, 3] [4, 5, 6] [1] =
      Some (Inr (touched, q, txs))" "length txs = 2" "length touched = 2" "distinct touched" "set touched \<subseteq> {..<3} - {1}"
    using GenRandTxList_returns [of ?keys 3 "[1, 2, 3]" "[4, 5, 6]" stress_witness ?app 2 "[1]" 0] by auto
  have "{..<3} - {1} = {0, 2 :: nat}" by auto
  moreover have "card (set touched) = 2" using run(3,4) by (simp add: distinct_card)
  ultimately have "set touched = {0, 2}" using run(5) by (intro card_subset_eq) auto
  with run show ?thesis by blast
qed

end
