(* ===== verification/Command_Line.thy ===== *)
theory Command_Line
  imports Test_App
begin

text \<open>
  The commands of \<^verbatim>\<open>smartbchd\<close> that make and read the genesis document: \<^verbatim>\<open>init\<close>, the generation and
  addition of genesis validators, the chain id that \<^verbatim>\<open>start\<close> reads, and the \<^verbatim>\<open>staking\<close> command, which
  prints a signed transaction (\<^verbatim>\<open>cmd/smartbchd\<close>, \<^verbatim>\<open>internal/bigutils/u256.go\<close>). The values of the flags
  are arguments. JSON, the validation of a genesis document and the contents of key files are
  parameters. The number parsers of Go's library are written out.
\<close>

section \<open>Numbers\<close>

text \<open>Digits in a base up to sixteen, at least one.\<close>

fun digits_value :: "nat \<Rightarrow> nat \<Rightarrow> string \<Rightarrow> nat option" where
  "digits_value b acc [] = Some acc"
| "digits_value b acc (c # s) = (case fromHexChar c of
       None \<Rightarrow> None
     | Some d \<Rightarrow> if d < b then digits_value b (acc * b + d) s else None)"

definition parse_digits :: "nat \<Rightarrow> string \<Rightarrow> nat option" where
  "parse_digits b s = (if s = [] then None else digits_value b 0 s)"

text \<open>\<^verbatim>\<open>big.Int.SetString\<close> and \<^verbatim>\<open>strconv.ParseInt\<close> take a sign, \<^verbatim>\<open>strconv.ParseUint\<close> does not.\<close>

definition parse_signed :: "nat \<Rightarrow> string \<Rightarrow> int option" where
  "parse_signed b s = (case s of
       [] \<Rightarrow> None
     | c # r \<Rightarrow> if c = CHR ''-'' then map_option (\<lambda>n. - int n) (parse_digits b r)
         else map_option int (parse_digits b (if c = CHR ''+'' then r else s)))"

definition ParseUint64 :: "nat \<Rightarrow> string \<Rightarrow> uint64 option" where
  "ParseUint64 b s = (case parse_digits b s of
       None \<Rightarrow> None | Some n \<Rightarrow> if n < 2 ^ 64 then Some (of_nat n) else None)"

definition ParseInt32 :: "nat \<Rightarrow> string \<Rightarrow> int option" where
  "ParseInt32 b s = (case parse_signed b s of
       None \<Rightarrow> None | Some i \<Rightarrow> if - (2 ^ 31) \<le> i \<and> i < 2 ^ 31 then Some i else None)"

text \<open>\<^verbatim>\<open>uint256.FromBig\<close>: the low 256 bits, and whether the absolute value needs more.\<close>

definition u256_FromBig :: "int \<Rightarrow> u256 \<times> bool" where
  "u256_FromBig i = (word_of_int i, 2 ^ 256 \<le> \<bar>i\<bar>)"

definition HasPrefix :: "string \<Rightarrow> string \<Rightarrow> bool" where
  "HasPrefix s pre \<longleftrightarrow> take (length pre) s = pre"

definition ParseU256 :: "string \<Rightarrow> u256 option \<times> bool" where
  "ParseU256 s =
     (case (if HasPrefix s ''0x'' then parse_signed 16 (drop 2 s) else parse_signed 10 s) of
        None \<Rightarrow> (None, False)
      | Some i \<Rightarrow> (case u256_FromBig i of (u, overflow) \<Rightarrow> (Some u, \<not> overflow)))"

datatype cmd_error =
    InvalidChainID string
  | GenesisExists
  | InvalidInitBalance
  | StakingCoinParse
  | PubkeyError go_error
  | KeyError go_error
  | HexError go_error
  | LibraryError string

type_synonym 'b cmd = "cmd_error + 'b"

definition parseChainID :: "string \<Rightarrow> u256 cmd" where
  "parseChainID chainID =
     (if 2 < length chainID \<and> take 2 chainID = ''0x'' then
        (case ParseUint64 16 (drop 2 chainID) of
           Some idU64 \<Rightarrow> Inr (ucast idU64)
         | None \<Rightarrow> Inl (InvalidChainID (''invalid chain ID: '' @ chainID)))
      else Inl (InvalidChainID (''invalid chain ID: '' @ chainID)))"

section \<open>The keys of the test accounts\<close>

text \<open>\<^verbatim>\<open>strings.Split\<close> on one character.\<close>

fun Split :: "char \<Rightarrow> string \<Rightarrow> string list" where
  "Split c [] = [[]]"
| "Split c (d # s) = (if d = c then [] # Split c s else (case Split c s of [] \<Rightarrow> [[d]] | p # ps \<Rightarrow> (d # p) # ps))"

definition MaxInt32 :: int where "MaxInt32 = 2 ^ 31 - 1"

text \<open>A file that cannot be opened panics.\<close>

definition read_key_file :: "(string \<Rightarrow> string list option) \<Rightarrow> string \<Rightarrow> int \<Rightarrow> string list go" where
  "read_key_file files fname n = (case files fname of None \<Rightarrow> Inl PanicErr | Some ls \<Rightarrow> Inr (ReadKeysFromFile ls n))"

definition getTestKeys :: "(string \<Rightarrow> string list option) \<Rightarrow> string \<Rightarrow> string \<Rightarrow> string list go" where
  "getTestKeys files testKeysCSV testKeyFiles =
     (if testKeysCSV \<noteq> '''' then Inr (Split (CHR '','') testKeysCSV)
      else if testKeyFiles \<noteq> '''' then
        foldG (\<lambda>allKeys testKeyFile.
          bindG (case find_idx (\<lambda>c. c = CHR '':'') testKeyFile of
                   None \<Rightarrow> Inr (testKeyFile, MaxInt32)
                 | Some idx \<Rightarrow>
                     if 0 < idx then
                       (case ParseInt32 10 (drop (idx + 1) testKeyFile) of
                          None \<Rightarrow> Inl PanicErr
                        | Some n \<Rightarrow> Inr (take idx testKeyFile, n))
                     else Inr (testKeyFile, MaxInt32)) (\<lambda>(fname, n).
          bindG (read_key_file files fname n) (\<lambda>keys. Inr (allKeys @ keys)))) [] (Split (CHR '','') testKeyFiles)
      else Inr [])"

section \<open>The genesis document\<close>

record GenesisDoc =
  doc_ChainID :: string
  doc_AppState :: bytes

record ('k, 't) cmd_env =
  ce_keylib :: "('k, 't) keylib"
  GenesisData_Marshal :: "GenesisData \<Rightarrow> string + bytes"
  GenesisData_Unmarshal :: "bytes \<Rightarrow> string + GenesisData"
  Validator_Marshal :: "Validator \<Rightarrow> bytes"
  Validator_Unmarshal :: "bytes \<Rightarrow> string + Validator"
  ValidateAndComplete :: "GenesisDoc \<Rightarrow> string + GenesisDoc"
  GenesisDocFromFile :: "GenesisDoc \<Rightarrow> string + GenesisDoc"
  HexToAddress :: "string \<Rightarrow> address"
  Pack_editValidator :: "address \<Rightarrow> bytes32 \<Rightarrow> bytes"
  cmd_LegacyTx :: "uint64 \<Rightarrow> address option \<Rightarrow> int \<Rightarrow> uint64 \<Rightarrow> int \<Rightarrow> bytes \<Rightarrow> 't"

definition lib_result :: "string + 'b \<Rightarrow> 'b cmd" where
  "lib_result r = (case r of Inl e \<Rightarrow> Inl (LibraryError e) | Inr x \<Rightarrow> Inr x)"

text \<open>
  The genesis file is what it was saved with, or missing; \<open>GenesisDocFromFile\<close> validates what it reads.
\<close>

definition load_genesis :: "('k, 't) cmd_env \<Rightarrow> GenesisDoc option \<Rightarrow> GenesisDoc cmd" where
  "load_genesis C genFile = (case genFile of
       None \<Rightarrow> Inr \<lparr>doc_ChainID = '''', doc_AppState = []\<rparr>
     | Some doc \<Rightarrow> lib_result (GenesisDocFromFile C doc))"

definition ExportGenesisFile :: "('k, 't) cmd_env \<Rightarrow> GenesisDoc \<Rightarrow> GenesisDoc cmd" where
  "ExportGenesisFile C genDoc = lib_result (ValidateAndComplete C genDoc)"

record init_flags =
  FlagChainID :: string
  FlagOverwrite :: bool
  FlagTestKeys :: string
  FlagTestKeysFile :: string
  FlagInitBal :: string

text \<open>The panics of reading keys come out of the command.\<close>

definition getAppState ::
  "('k, 't) cmd_env \<Rightarrow> (string \<Rightarrow> string list option) \<Rightarrow> init_flags \<Rightarrow> bytes cmd go" where
  "getAppState C files fl =
     (case ParseU256 (FlagInitBal fl) of
        (Some initBal, True) \<Rightarrow>
          bindG (getTestKeys files (FlagTestKeys fl) (FlagTestKeysFile fl)) (\<lambda>testKeys.
          bindG (KeysToGenesisAlloc (ce_keylib C) initBal testKeys) (\<lambda>alloc.
            Inr (lib_result (GenesisData_Marshal C \<lparr>gd_Validators = [], gd_Alloc = alloc\<rparr>))))
      | _ \<Rightarrow> Inr (Inl InvalidInitBalance))"

text \<open>\<^verbatim>\<open>InitCmd\<close>: the new genesis file.\<close>

definition run_init ::
  "('k, 't) cmd_env \<Rightarrow> (string \<Rightarrow> string list option) \<Rightarrow> init_flags \<Rightarrow> GenesisDoc option \<Rightarrow> GenesisDoc cmd go" where
  "run_init C files fl genFile =
     (let chainID = (if FlagChainID fl = '''' then ''test-chain'' else FlagChainID fl) in
      if \<not> FlagOverwrite fl \<and> genFile \<noteq> None then Inr (Inl GenesisExists)
      else
        (case load_genesis C genFile of
           Inl e \<Rightarrow> Inr (Inl e)
         | Inr genDoc \<Rightarrow>
             let genDoc = genDoc\<lparr>doc_ChainID := chainID\<rparr> in
             bindG (getAppState C files fl) (\<lambda>r. case r of
               Inl e \<Rightarrow> Inr (Inl e)
             | Inr appState \<Rightarrow> Inr (ExportGenesisFile C (genDoc\<lparr>doc_AppState := appState\<rparr>)))))"

text \<open>What \<^verbatim>\<open>start\<close> reads first of the genesis file.\<close>

definition getChainID :: "('k, 't) cmd_env \<Rightarrow> GenesisDoc option \<Rightarrow> u256 cmd" where
  "getChainID C genFile = (case genFile of
       None \<Rightarrow> Inl (LibraryError ''couldn't read GenesisDoc file'')
     | Some doc \<Rightarrow> bindG (lib_result (GenesisDocFromFile C doc)) (\<lambda>gDoc. parseChainID (doc_ChainID gDoc)))"

section \<open>Genesis validators\<close>

record validator_flags =
  flagAddress :: string
  flagPubkey :: string
  flagVotingPower :: int64
  flagStakingCoin :: string
  flagIntroduction :: string

definition genesis_validator :: "('k, 't) cmd_env \<Rightarrow> validator_flags \<Rightarrow> Validator cmd" where
  "genesis_validator C fl =
     (let addr = HexToAddress C (flagAddress fl) in
      case HexToPubKey (flagPubkey fl) of
        (_, _, Some e) \<Rightarrow> Inl (PubkeyError e)
      | (pubKey, _, None) \<Rightarrow>
          (case ParseU256 (flagStakingCoin fl) of
             (Some sCoin, True) \<Rightarrow>
               Inr \<lparr>Address = addr, Pubkey = copy_array 32 0 pubKey, RewardTo = addr, VotingPower = flagVotingPower fl,
                    Introduction = str_bytes (flagIntroduction fl), StakedCoins = sCoin, IsRetiring = False\<rparr>
           | _ \<Rightarrow> Inl StakingCoinParse))"

text \<open>\<^verbatim>\<open>GenerateGenesisValidatorCmd\<close> prints the validator's JSON in hexadecimal.\<close>

definition run_generate_validator :: "('k, 't) cmd_env \<Rightarrow> validator_flags \<Rightarrow> string cmd" where
  "run_generate_validator C fl =
     bindG (genesis_validator C fl) (\<lambda>genVal. Inr (hex_EncodeToString (Validator_Marshal C genVal)))"

definition run_add_validator :: "('k, 't) cmd_env \<Rightarrow> string \<Rightarrow> GenesisDoc option \<Rightarrow> GenesisDoc cmd" where
  "run_add_validator C arg genFile =
     (let s = TrimSpace arg in
      case hex_DecodeString s of
        (_, Some e) \<Rightarrow> Inl (HexError e)
      | (info, None) \<Rightarrow>
          bindG (lib_result (Validator_Unmarshal C info)) (\<lambda>v.
          bindG (load_genesis C genFile) (\<lambda>genDoc.
          bindG (lib_result (GenesisData_Unmarshal C (doc_AppState genDoc))) (\<lambda>gData.
          let gData = gData\<lparr>gd_Validators := gd_Validators gData @ [v]\<rparr> in
          bindG (lib_result (GenesisData_Marshal C gData)) (\<lambda>appState.
            ExportGenesisFile C (genDoc\<lparr>doc_AppState := appState\<rparr>))))))"

section \<open>The staking command\<close>

record staking_flags =
  flagKey :: string
  sf_StakingCoin :: string
  sf_Introduction :: string
  flagNonce :: uint64
  flagChainId :: string
  flagGasPrice :: int64

definition run_staking :: "('k, 't) cmd_env \<Rightarrow> staking_flags \<Rightarrow> string cmd" where
  "run_staking C fl =
     (case HexToPrivKey (ce_keylib C) (flagKey fl) of
        (Some priKey, _, None) \<Rightarrow>
          (let addr = PubkeyToAddress (ce_keylib C) priKey in
           case ParseU256 (sf_StakingCoin fl) of
             (Some sCoin, True) \<Rightarrow>
               (let intro = copy_array 32 (0 :: bytes32) (str_bytes (sf_Introduction fl));
                    data = Pack_editValidator C addr intro;
                    nonce = flagNonce fl
                in
                bindG (parseChainID (flagChainId fl)) (\<lambda>chainID.
                let tx = cmd_LegacyTx C nonce (Some StakingContractAddress) (uint sCoin) GasOfStakingExternalOp
                      (sint (flagGasPrice fl)) data
                in
                bindG (lib_result (SignTx (ce_keylib C) tx (uint chainID) priKey)) (\<lambda>tx.
                bindG (lib_result (EncodeTx (ce_keylib C) tx)) (\<lambda>txBytes.
                  Inr (''0x'' @ hex_EncodeToString txBytes)))))
           | _ \<Rightarrow> Inl StakingCoinParse)
      | (_, _, Some e) \<Rightarrow> Inl (KeyError e)
      | (None, _, None) \<Rightarrow> Inl (KeyError (LibError ''no key'')))"

section \<open>Parsing numbers\<close>

lemma fromHexChar_less: "fromHexChar c = Some d \<Longrightarrow> d < 16"
  by (auto simp: fromHexChar_def Let_def split: if_splits)

lemma digits_value_append:
  "digits_value b acc (s @ t) = (case digits_value b acc s of None \<Rightarrow> None | Some a \<Rightarrow> digits_value b a t)"
  by (induction s arbitrary: acc) (auto split: option.splits)

lemma fromHexChar_digit: "d < 10 \<Longrightarrow> fromHexChar (char_of (48 + d :: nat)) = Some d"
  using fromHexChar_hex_digit [of d] by (simp add: hex_digit_def)

lemma digits_value_show: "digits_value 10 0 (show_nat n) = Some n"
proof (induction n rule: show_nat.induct)
  case (1 n)
  show ?case
  proof (cases "n < 10")
    case True
    then show ?thesis by (subst show_nat.simps) (simp add: fromHexChar_digit)
  next
    case False
    then show ?thesis using 1
      by (subst show_nat.simps) (simp add: digits_value_append fromHexChar_digit)
  qed
qed

lemma show_nat_not_Nil [simp]: "show_nat n \<noteq> []"
  by (subst show_nat.simps) simp

lemma parse_digits_show: "parse_digits 10 (show_nat n) = Some n"
  by (simp add: parse_digits_def digits_value_show)

text \<open>A numeral has no sign and no prefix, as all its characters are digits.\<close>

lemma show_nat_digits: "c \<in> set (show_nat n) \<Longrightarrow> fromHexChar c \<noteq> None"
proof -
  have "digits_value b acc s \<noteq> None \<Longrightarrow> c \<in> set s \<Longrightarrow> fromHexChar c \<noteq> None" for b acc s
    by (induction s arbitrary: acc) (auto split: option.splits if_splits)
  from this [of 10 0 "show_nat n"] show "c \<in> set (show_nat n) \<Longrightarrow> fromHexChar c \<noteq> None" by (simp add: digits_value_show)
qed

lemma no_digit: "fromHexChar CHR ''-'' = None" "fromHexChar CHR ''+'' = None" "fromHexChar CHR ''x'' = None"
  by (simp_all add: fromHexChar_def)

lemma parse_signed_show:
  "parse_signed 10 (show_nat n) = Some (int n)" "parse_signed 10 (CHR ''-'' # show_nat n) = Some (- int n)"
proof -
  obtain c s where s: "show_nat n = c # s" using show_nat_not_Nil [of n] by (metis list.exhaust)
  then have "fromHexChar c \<noteq> None" using show_nat_digits [of c n] by simp
  with no_digit have "c \<noteq> CHR ''-''" "c \<noteq> CHR ''+''" by auto
  with parse_digits_show [of n] show "parse_signed 10 (show_nat n) = Some (int n)" by (simp add: parse_signed_def s)
  show "parse_signed 10 (CHR ''-'' # show_nat n) = Some (- int n)" by (simp add: parse_signed_def parse_digits_show)
qed

lemma no_prefix: "\<not> HasPrefix (show_nat n) ''0x''" "\<not> HasPrefix (CHR ''-'' # show_nat n) ''0x''"
proof -
  show "\<not> HasPrefix (show_nat n) ''0x''"
  proof
    assume "HasPrefix (show_nat n) ''0x''"
    then have "CHR ''x'' \<in> set (take 2 (show_nat n))" by (simp add: HasPrefix_def numeral_2_eq_2)
    then have "CHR ''x'' \<in> set (show_nat n)" by (rule in_set_takeD)
    with show_nat_digits no_digit(3) show False by blast
  qed
qed (simp add: HasPrefix_def)

text \<open>
  \<^verbatim>\<open>ParseU256\<close> reads every decimal numeral back, and says that it is valid exactly when it fits in 256
  bits. A negative numeral is not an error: it gives the two's complement, and is said to be valid
  too, so that the initial balance, or the coins to stake, can be given as -1 and be the largest amount
  there is.
\<close>

lemma ParseU256_decimal:
  "ParseU256 (show_nat n) = (Some (of_nat n), n < 2 ^ 256) \<and>
   ParseU256 (CHR ''-'' # show_nat n) = (Some (- of_nat n), n < 2 ^ 256)"
proof -
  have "(2 ^ 256 \<le> int n) = (2 ^ 256 \<le> n)" by (metis of_nat_le_iff of_nat_numeral of_nat_power)
  then show ?thesis
    using no_prefix [of n] by (simp add: ParseU256_def parse_signed_show u256_FromBig_def not_le)
qed

section \<open>Making a chain and starting it\<close>

text \<open>
  What the commands rely on: validating a document keeps the chain id and the state of the application, and
  a saved document is read back; JSON keeps a validator whose introduction is text, and the
  genesis data, up to the order of the accounts.
\<close>

definition genesis_laws :: "('k, 't) cmd_env \<Rightarrow> bool" where
  "genesis_laws C \<longleftrightarrow> (\<forall>doc doc'. ValidateAndComplete C doc = Inr doc' \<longrightarrow>
     doc_ChainID doc' = doc_ChainID doc \<and> doc_AppState doc' = doc_AppState doc \<and> GenesisDocFromFile C doc' = Inr doc')"

definition json_laws :: "('k, 't) cmd_env \<Rightarrow> (bytes \<Rightarrow> bool) \<Rightarrow> bool" where
  "json_laws C is_text \<longleftrightarrow>
     (\<forall>v. is_text (Introduction v) \<longrightarrow> Validator_Unmarshal C (Validator_Marshal C v) = Inr v) \<and>
     (\<forall>g bz. GenesisData_Marshal C g = Inr bz \<and> (\<forall>v \<in> set (gd_Validators g). is_text (Introduction v)) \<longrightarrow>
        (\<exists>g'. GenesisData_Unmarshal C bz = Inr g' \<and> gd_Validators g' = gd_Validators g \<and> set (gd_Alloc g') = set (gd_Alloc g))) \<and>
     (\<forall>bz g. GenesisData_Unmarshal C bz = Inr g \<longrightarrow> (\<forall>v \<in> set (gd_Validators g). is_text (Introduction v)))"

lemma json_genesis:
  assumes "json_laws C is_text" and "GenesisData_Marshal C g = Inr bz" and "\<forall>v \<in> set (gd_Validators g). is_text (Introduction v)"
  shows "\<exists>g'. GenesisData_Unmarshal C bz = Inr g' \<and> gd_Validators g' = gd_Validators g \<and> set (gd_Alloc g') = set (gd_Alloc g)"
  using assms(1) [unfolded json_laws_def, THEN conjunct2, THEN conjunct1] assms(2,3) by blast

lemma lib_result_Inr [simp]: "lib_result r = Inr x \<longleftrightarrow> r = Inr x"
  by (simp add: lib_result_def split: sum.split)

lemma run_init_parts:
  assumes "run_init C files fl genFile = Inr (Inr doc)"
  obtains appState doc0 where "getAppState C files fl = Inr (Inr appState)"
    and "ValidateAndComplete C doc0 = Inr doc" and "doc_AppState doc0 = appState"
    and "doc_ChainID doc0 = (if FlagChainID fl = '''' then ''test-chain'' else FlagChainID fl)"
proof -
  let ?id = "if FlagChainID fl = '''' then ''test-chain'' else FlagChainID fl"
  note run = assms [unfolded run_init_def Let_def]
  from run have ok: "\<not> (\<not> FlagOverwrite fl \<and> genFile \<noteq> None)" by (auto split: if_splits)
  note run = run [unfolded if_not_P [OF ok]]
  from run obtain g where g: "load_genesis C genFile = Inr g" by (cases "load_genesis C genFile") simp_all
  from run [unfolded g sum.case] obtain appState where state: "getAppState C files fl = Inr (Inr appState)"
    and exp: "ExportGenesisFile C (g\<lparr>doc_ChainID := ?id, doc_AppState := appState\<rparr>) = Inr doc"
    by (elim bindG_InrE) (auto split: sum.splits)
  let ?doc0 = "g\<lparr>doc_ChainID := ?id, doc_AppState := appState\<rparr>"
  from exp have "ValidateAndComplete C ?doc0 = Inr doc" by (simp add: ExportGenesisFile_def)
  then show ?thesis by (rule that [OF state]) simp_all
qed

lemma getChainID_init:
  assumes "genesis_laws C" and "run_init C files fl genFile = Inr (Inr doc)"
  shows "getChainID C (Some doc) = parseChainID (if FlagChainID fl = '''' then ''test-chain'' else FlagChainID fl)"
    and "parseChainID ''test-chain'' = Inl (InvalidChainID ''invalid chain ID: test-chain'')"
proof -
  from assms(2) obtain doc0 where "ValidateAndComplete C doc0 = Inr doc"
    "doc_ChainID doc0 = (if FlagChainID fl = '''' then ''test-chain'' else FlagChainID fl)"
    by (rule run_init_parts)
  with assms(1) have "GenesisDocFromFile C doc = Inr doc"
    "doc_ChainID doc = (if FlagChainID fl = '''' then ''test-chain'' else FlagChainID fl)"
    by (auto simp: genesis_laws_def)
  then show "getChainID C (Some doc) = parseChainID (if FlagChainID fl = '''' then ''test-chain'' else FlagChainID fl)"
    by (simp add: getChainID_def lib_result_def)
  show "parseChainID ''test-chain'' = Inl (InvalidChainID ''invalid chain ID: test-chain'')"
    by (simp add: parseChainID_def)
qed

text \<open>
  The chain id of a chain that \<^verbatim>\<open>init\<close> makes is exactly what its flag says, and \<^verbatim>\<open>start\<close> can use it
  only when it is 0x and a number of 64 bits. Without the flag the id is not made up at random, as
  the flag's description says, but always \<^verbatim>\<open>test-chain\<close>, which \<^verbatim>\<open>start\<close> refuses: such a chain cannot be
  started.
\<close>

lemma init_chain_id:
  assumes "genesis_laws C" and "run_init C files fl genFile = Inr (Inr doc)"
  shows "getChainID C (Some doc) = parseChainID (if FlagChainID fl = '''' then ''test-chain'' else FlagChainID fl) \<and>
    (FlagChainID fl = '''' \<longrightarrow> getChainID C (Some doc) = Inl (InvalidChainID ''invalid chain ID: test-chain''))"
  using getChainID_init [OF assms] by simp

text \<open>
  The genesis state that \<^verbatim>\<open>init\<close> makes with a list of test keys funds exactly the accounts that a node
  started with the same list unlocks, each with the initial balance, and has no validator (so that the
  chain needs one added before its first block).
\<close>

lemma init_funds_unlocked:
  assumes "genesis_laws C" and "json_laws C is_text" and "run_init C files fl genFile = Inr (Inr doc)"
    and "FlagTestKeys fl \<noteq> ''''"
  shows "\<exists>g bal. GenesisData_Unmarshal C (doc_AppState doc) = Inr g \<and> gd_Validators g = [] \<and>
    fst ` set (gd_Alloc g) = fst ` set (loadTestAccounts (ce_keylib C) (Split (CHR '','') (FlagTestKeys fl))) \<and>
    ParseU256 (FlagInitBal fl) = (Some bal, True) \<and> (\<forall>(a, v) \<in> set (gd_Alloc g). v = uint bal)"
proof -
  from assms(3) obtain appState doc0 where state: "getAppState C files fl = Inr (Inr appState)"
    and doc0: "ValidateAndComplete C doc0 = Inr doc" "doc_AppState doc0 = appState"
    by (rule run_init_parts)
  have doc: "doc_AppState doc = appState" using assms(1) doc0 by (auto simp: genesis_laws_def)
  obtain bal where bal: "ParseU256 (FlagInitBal fl) = (Some bal, True)"
    using state by (auto simp: getAppState_def split: prod.splits option.splits bool.splits)
  have keys: "getTestKeys files (FlagTestKeys fl) (FlagTestKeysFile fl) = Inr (Split (CHR '','') (FlagTestKeys fl))"
    using assms(4) by (simp add: getTestKeys_def)
  from state obtain alloc where alloc: "KeysToGenesisAlloc (ce_keylib C) bal (Split (CHR '','') (FlagTestKeys fl)) = Inr alloc"
    and bz: "GenesisData_Marshal C \<lparr>gd_Validators = [], gd_Alloc = alloc\<rparr> = Inr appState"
    unfolding getAppState_def bal prod.case option.case bool.case keys bindG_simps by (elim bindG_InrE) simp
  have "\<forall>v \<in> set (gd_Validators \<lparr>gd_Validators = [], gd_Alloc = alloc\<rparr>). is_text (Introduction v)" by simp
  with json_genesis [OF assms(2) bz] obtain g where g: "GenesisData_Unmarshal C appState = Inr g" "gd_Validators g = []"
    "set (gd_Alloc g) = set alloc"
    by auto
  note acc = KeysToGenesisAlloc_accounts [OF alloc]
  have "fst ` set (gd_Alloc g) = fst ` set (loadTestAccounts (ce_keylib C) (Split (CHR '','') (FlagTestKeys fl)))"
    unfolding g(3) list.set_map [symmetric] by (simp only: acc [THEN conjunct1])
  moreover have "v = uint bal" if "(a, v) \<in> set (gd_Alloc g)" for a v
  proof -
    have "snd ` set alloc \<subseteq> {uint bal}" by (rule acc [THEN conjunct2, THEN conjunct1])
    moreover have "snd (a, v) \<in> snd ` set alloc" using that unfolding g(3) by (rule imageI)
    ultimately show ?thesis by auto
  qed
  ultimately show ?thesis using g doc bal by auto
qed

lemma hex_digit_not_space: "n < 16 \<Longrightarrow> \<not> is_space (hex_digit n)"
  by (simp add: is_space_def of_char_hex_digit)

lemma hex_encode_not_space: "c \<in> set (hex_EncodeToString bs) \<Longrightarrow> \<not> is_space c"
proof -
  have "unat b div 16 < 16" "unat b mod 16 < 16" for b :: byte
    using unsigned_less [of b, where 'a = nat] by simp_all
  then show "c \<in> set (hex_EncodeToString bs) \<Longrightarrow> \<not> is_space c"
    by (auto simp: hex_EncodeToString_def hex_digit_not_space)
qed

lemma TrimSpace_id: "(\<And>c. c \<in> set s \<Longrightarrow> \<not> is_space c) \<Longrightarrow> TrimSpace s = s"
proof -
  assume *: "\<And>c. c \<in> set s \<Longrightarrow> \<not> is_space c"
  have "dropWhile is_space r = r" if "set r = set s" for r
    using * that by (cases r) auto
  then show ?thesis by (simp add: TrimSpace_def)
qed

text \<open>
  (C40) What \<^verbatim>\<open>generate-genesis-validator\<close> prints is what \<^verbatim>\<open>add-genesis-validator\<close> takes: the validator
  described by the flags becomes the last genesis validator, and the accounts and the chain id stay.
\<close>

theorem generate_then_add:
  assumes "genesis_laws C" and "json_laws C is_text" and "is_text (str_bytes (flagIntroduction fl))"
    and "run_generate_validator C fl = Inr out" and "GenesisDocFromFile C doc = Inr doc"
    and "GenesisData_Unmarshal C (doc_AppState doc) = Inr g"
    and "run_add_validator C out (Some doc) = Inr doc'"
  shows "\<exists>v g'. genesis_validator C fl = Inr v \<and> GenesisData_Unmarshal C (doc_AppState doc') = Inr g' \<and>
    gd_Validators g' = gd_Validators g @ [v] \<and> set (gd_Alloc g') = set (gd_Alloc g) \<and> doc_ChainID doc' = doc_ChainID doc"
proof -
  from assms(4) obtain v where v: "genesis_validator C fl = Inr v" "out = hex_EncodeToString (Validator_Marshal C v)"
    by (auto simp: run_generate_validator_def)
  have intro: "Introduction v = str_bytes (flagIntroduction fl)"
    using v(1) by (auto simp: genesis_validator_def Let_def split: prod.splits option.splits bool.splits)
  have "TrimSpace out = out" unfolding v(2) by (rule TrimSpace_id) (rule hex_encode_not_space)
  then have hex: "hex_DecodeString (TrimSpace out) = (Validator_Marshal C v, None)" by (simp add: v(2) hex_decode_encode)
  have unm: "Validator_Unmarshal C (Validator_Marshal C v) = Inr v" using assms(2,3) intro by (simp add: json_laws_def)
  have some: "lib_result (Inr x) = Inr x" for x by simp
  let ?g = "g\<lparr>gd_Validators := gd_Validators g @ [v]\<rparr>"
  from assms(7) obtain appState where bz: "GenesisData_Marshal C ?g = Inr appState"
    and exp: "ValidateAndComplete C (doc\<lparr>doc_AppState := appState\<rparr>) = Inr doc'"
    unfolding run_add_validator_def hex Let_def prod.case option.case unm some bindG_simps load_genesis_def assms(5,6)
      ExportGenesisFile_def
    by (elim bindG_InrE) simp
  have "\<forall>w \<in> set (gd_Validators ?g). is_text (Introduction w)"
    using assms(2,3,6) intro by (auto simp: json_laws_def)
  with json_genesis [OF assms(2) bz] obtain g' where "GenesisData_Unmarshal C appState = Inr g'"
    "gd_Validators g' = gd_Validators ?g" "set (gd_Alloc g') = set (gd_Alloc ?g)" by blast
  moreover from exp assms(1) have "doc_AppState doc' = appState" "doc_ChainID doc' = doc_ChainID doc"
    by (auto simp: genesis_laws_def)
  ultimately show ?thesis using v(1) by auto
qed

section \<open>Witnesses\<close>

text \<open>
  An encoding of the genesis data, in place of JSON: that of the staking information, with the accounts as
  pending rewards. Texts are shorter than 2 to the 32.
\<close>

definition short_text :: "bytes \<Rightarrow> bool" where
  "short_text bs \<longleftrightarrow> length bs < 2 ^ 32"

definition data_ptr :: "Validator list \<Rightarrow> (address \<times> int) list \<Rightarrow> StakingInfoPtr" where
  "data_ptr vs alloc = \<lparr>SI_CurrEpochNum = 0, SI_Validators = map Some vs,
     SI_PendingRewards = map (\<lambda>(a, v). Some \<lparr>PR_Address = a, EpochNum = 0, Amount = word_of_int v\<rparr>) alloc\<rparr>"

definition data_ok :: "GenesisData \<Rightarrow> bool" where
  "data_ok g \<longleftrightarrow> length (gd_Validators g) < 2 ^ 32 \<and> length (gd_Alloc g) < 2 ^ 32 \<and>
     list_all (\<lambda>v. short_text (Introduction v)) (gd_Validators g) \<and> list_all (\<lambda>(a, v). 0 \<le> v \<and> v < 2 ^ 256) (gd_Alloc g)"

definition data_bytes :: "GenesisData \<Rightarrow> bytes" where
  "data_bytes g = StakingInfo_MarshalMsg mp_append mp_sizes (data_ptr (gd_Validators g) (gd_Alloc g)) []"

definition data_of :: "StakingInfoPtr \<Rightarrow> GenesisData" where
  "data_of z = \<lparr>gd_Validators = map the (SI_Validators z),
     gd_Alloc = map (\<lambda>p. (PR_Address (the p), uint (Amount (the p)))) (SI_PendingRewards z)\<rparr>"

definition data_read :: "bytes \<Rightarrow> string + GenesisData" where
  "data_read bz = (case StakingInfo_UnmarshalMsg mp_reader zero_StakingInfo bz of
       Inl e \<Rightarrow> Inl ''bad data''
     | Inr (z, _) \<Rightarrow> if data_ok (data_of z) then Inr (data_of z) else Inl ''bad data'')"

lemma data_read_bytes:
  assumes "data_ok g"
  shows "data_read (data_bytes g) = Inr g"
proof -
  let ?z = "data_ptr (gd_Validators g) (gd_Alloc g)"
  have sto: "storable ?z"
    using assms by (auto simp: storable_def data_ok_def data_ptr_def short_text_def list_all_iff ok_validator_def)
  have "StakingInfo_UnmarshalMsg mp_reader zero_StakingInfo (data_bytes g) = Inr (?z, [])"
    using StakingInfo_UnmarshalMsg_bytes [OF mp_laws sto, of "[]"]
    by (simp add: data_bytes_def StakingInfo_MarshalMsg_eq [OF mp_laws])
  moreover have "data_of ?z = g"
  proof -
    have "map (\<lambda>(a, v). (a, uint (word_of_int v :: u256))) (gd_Alloc g) = gd_Alloc g"
      using assms by (intro map_idI) (auto simp: data_ok_def list_all_iff uint_word_of_int)
    then show ?thesis by (simp add: data_of_def data_ptr_def comp_def case_prod_beta')
  qed
  ultimately show ?thesis using assms by (simp add: data_read_def)
qed

definition witness_env :: "(nat, bytes32) cmd_env" where
  "witness_env = \<lparr>ce_keylib = witness_keylib,
     GenesisData_Marshal = (\<lambda>g. if data_ok g then Inr (data_bytes g) else Inl ''bad data''),
     GenesisData_Unmarshal = data_read,
     Validator_Marshal = (\<lambda>v. data_bytes \<lparr>gd_Validators = [v], gd_Alloc = []\<rparr>),
     Validator_Unmarshal = (\<lambda>bz. case data_read bz of Inl e \<Rightarrow> Inl e
       | Inr g \<Rightarrow> (case gd_Validators g of [v] \<Rightarrow> Inr v | _ \<Rightarrow> Inl ''no validator'')),
     ValidateAndComplete = (\<lambda>doc. if doc_ChainID doc = [] then Inl ''no chain id'' else Inr doc),
     GenesisDocFromFile = (\<lambda>doc. if doc_ChainID doc = [] then Inl ''no chain id'' else Inr doc),
     HexToAddress = (\<lambda>s. of_nat (length s)), Pack_editValidator = (\<lambda>a i. be_bytes 32 i),
     cmd_LegacyTx = (\<lambda>n to v g p d. ucast n)\<rparr>"

lemma witness_env_laws: "genesis_laws witness_env" "json_laws witness_env short_text"
proof -
  show "genesis_laws witness_env" by (simp add: genesis_laws_def witness_env_def)
  have "data_read bz = Inr g \<Longrightarrow> data_ok g" for bz g
    by (auto simp: data_read_def split: sum.splits if_splits)
  then show "json_laws witness_env short_text"
    by (auto simp: json_laws_def witness_env_def data_read_bytes data_ok_def list_all_iff split: if_splits)
qed

definition witness_flags :: init_flags where
  "witness_flags = \<lparr>FlagChainID = '''', FlagOverwrite = False, FlagTestKeys = ''0x03'', FlagTestKeysFile = '''',
     FlagInitBal = ''1000''\<rparr>"

lemma witness_init_id:
  "\<exists>doc. run_init witness_env (\<lambda>f. None) (witness_flags\<lparr>FlagChainID := chain_id\<rparr>) None = Inr (Inr doc)"
proof -
  have "ParseU256 ''1000'' = (Some 1000, True)"
    by (simp add: ParseU256_def HasPrefix_def parse_signed_def parse_digits_def fromHexChar_def u256_FromBig_def Let_def)
  moreover have "HexToPrivKey witness_keylib ''0x03'' = (Some 3, [3], None)"
    by (simp add: HexToPrivKey_def TrimSpace_def TrimPrefix_def is_space_def fromHexChar_def witness_keylib_def
        be_nat_Cons be_nat_Nil)
  ultimately show ?thesis
    by (simp add: run_init_def witness_flags_def load_genesis_def getAppState_def getTestKeys_def KeysToGenesisAlloc_def
        ExportGenesisFile_def lib_result_def witness_env_def data_ok_def Let_def)
qed

lemma witness_init: "\<exists>doc. run_init witness_env (\<lambda>f. None) witness_flags None = Inr (Inr doc)"
  using witness_init_id [of "''''"] by (simp add: witness_flags_def)

lemma init_chain_id_witness:
  "\<exists>doc. run_init witness_env (\<lambda>f. None) witness_flags None = Inr (Inr doc) \<and>
     getChainID witness_env (Some doc) = Inl (InvalidChainID ''invalid chain ID: test-chain'')"
proof -
  obtain doc where doc: "run_init witness_env (\<lambda>f. None) witness_flags None = Inr (Inr doc)" using witness_init by blast
  have "FlagChainID witness_flags = ''''" by (simp add: witness_flags_def)
  with init_chain_id [OF witness_env_laws(1) doc] doc show ?thesis by blast
qed

lemma init_funds_unlocked_witness:
  "\<exists>doc g. run_init witness_env (\<lambda>f. None) witness_flags None = Inr (Inr doc) \<and>
     GenesisData_Unmarshal witness_env (doc_AppState doc) = Inr g \<and>
     fst ` set (gd_Alloc g) = fst ` set (loadTestAccounts (ce_keylib witness_env) (Split (CHR '','') ''0x03''))"
proof -
  obtain doc where doc: "run_init witness_env (\<lambda>f. None) witness_flags None = Inr (Inr doc)" using witness_init by blast
  have flag: "FlagTestKeys witness_flags = ''0x03''" by (simp add: witness_flags_def)
  then have "FlagTestKeys witness_flags \<noteq> ''''" by simp
  from init_funds_unlocked [OF witness_env_laws doc this] doc show ?thesis unfolding flag by blast
qed

definition witness_vflags :: validator_flags where
  "witness_vflags = \<lparr>flagAddress = ''0x1'', flagPubkey = ''0a'', flagVotingPower = 1, flagStakingCoin = ''5'',
     flagIntroduction = ''node''\<rparr>"

theorem generate_then_add_witness:
  "\<exists>out doc' v g'. run_generate_validator witness_env witness_vflags = Inr out \<and>
     run_add_validator witness_env out (Some \<lparr>doc_ChainID = ''0x1'', doc_AppState = data_bytes \<lparr>gd_Validators = [], gd_Alloc = [(7, 5)]\<rparr>\<rparr>) = Inr doc' \<and>
     GenesisData_Unmarshal witness_env (doc_AppState doc') = Inr g' \<and> gd_Validators g' = [v] \<and> StakedCoins v = 5"
proof -
  let ?g = "\<lparr>gd_Validators = [], gd_Alloc = [(7, 5)]\<rparr>" and ?C = witness_env
  let ?doc = "\<lparr>doc_ChainID = ''0x1'', doc_AppState = data_bytes ?g\<rparr>"
  have "ParseU256 ''5'' = (Some 5, True)"
    by (simp add: ParseU256_def HasPrefix_def parse_signed_def parse_digits_def fromHexChar_def u256_FromBig_def Let_def)
  moreover have "\<exists>bz. HexToPubKey ''0a'' = (bz, bz, None)"
    by (simp add: HexToPubKey_def TrimSpace_def TrimPrefix_def is_space_def fromHexChar_def Let_def)
  ultimately obtain v where v: "genesis_validator ?C witness_vflags = Inr v" "StakedCoins v = 5" "Introduction v = str_bytes ''node''"
    by (auto simp: genesis_validator_def witness_vflags_def Let_def)
  let ?out = "hex_EncodeToString (Validator_Marshal ?C v)"
  have gen: "run_generate_validator ?C witness_vflags = Inr ?out" by (simp add: run_generate_validator_def v(1))
  have ok: "data_ok ?g" "data_ok (?g\<lparr>gd_Validators := [v]\<rparr>)" "data_ok \<lparr>gd_Validators = [v], gd_Alloc = []\<rparr>"
    by (simp_all add: data_ok_def v(3) short_text_def)
  have "TrimSpace ?out = ?out" by (rule TrimSpace_id) (rule hex_encode_not_space)
  then have "\<exists>doc'. run_add_validator ?C ?out (Some ?doc) = Inr doc'"
    by (simp add: run_add_validator_def hex_decode_encode load_genesis_def ExportGenesisFile_def lib_result_def Let_def)
      (use ok in \<open>simp add: witness_env_def data_read_bytes\<close>)
  then obtain doc' where add: "run_add_validator ?C ?out (Some ?doc) = Inr doc'" by blast
  have pre: "short_text (str_bytes (flagIntroduction witness_vflags))" "GenesisDocFromFile ?C ?doc = Inr ?doc"
    "GenesisData_Unmarshal ?C (doc_AppState ?doc) = Inr ?g"
    using data_read_bytes [OF ok(1)] by (simp_all add: short_text_def witness_vflags_def witness_env_def)
  from generate_then_add [OF witness_env_laws pre(1) gen pre(2,3) add] v(1,2) gen add show ?thesis by auto
qed

end
