(* ===== verification/Replay_Ws.thy ===== *)
theory Replay_Ws
  imports Stress_Test Command_Line
begin

text \<open>
  The websocket clients of the stress test (\<^verbatim>\<open>cmd/stresstest/replay_ws.go\<close>) and what \<^verbatim>\<open>stress.go\<close> runs them
  and its recordings with: they send the transactions of a recorded chain to a running node, one at a
  time and each until it is accepted, and ask a node for the transactions and the blocks of a range of
  heights, of which they make statistics. The connection and the decoding of JSON are parameters;
  what is printed is returned as rows. Waiting and the speed shown while replaying are left out.
\<close>

section \<open>Text and numbers\<close>

fun Contains :: "string \<Rightarrow> string \<Rightarrow> bool" where
  "Contains pat [] = (pat = [])"
| "Contains pat (c # s) = (HasPrefix (c # s) pat \<or> Contains pat s)"

fun show_hex :: "nat \<Rightarrow> string" where
  "show_hex n = (if n < 16 then [hex_digit n] else show_hex (n div 16) @ [hex_digit (n mod 16)])"

declare show_hex.simps [simp del]

definition show_hex_int :: "int \<Rightarrow> string" where
  "show_hex_int i = (if i < 0 then ''-'' @ show_hex (nat (- i)) else show_hex (nat i))"

definition show_int :: "int \<Rightarrow> string" where
  "show_int i = (if i < 0 then ''-'' @ show_nat (nat (- i)) else show_nat (nat i))"

datatype num_error = ErrSyntax | ErrRange

text \<open>
  \<^verbatim>\<open>strconv.ParseUint\<close> with a size: it stops at the first digit that makes the number too large, and then
  returns the largest number along with the error.
\<close>

fun parse_uint :: "nat \<Rightarrow> nat \<Rightarrow> nat \<Rightarrow> string \<Rightarrow> nat \<times> num_error option" where
  "parse_uint b maxVal n [] = (n, None)"
| "parse_uint b maxVal n (c # s) = (case fromHexChar c of
       None \<Rightarrow> (0, Some ErrSyntax)
     | Some d \<Rightarrow>
         if b \<le> d then (0, Some ErrSyntax)
         else if maxVal < n * b + d then (maxVal, Some ErrRange)
         else parse_uint b maxVal (n * b + d) s)"

definition ParseUint32 :: "nat \<Rightarrow> string \<Rightarrow> nat \<times> num_error option" where
  "ParseUint32 b s = (if s = [] then (0, Some ErrSyntax) else parse_uint b (2 ^ 32 - 1) 0 s)"

definition hex_field :: "string \<Rightarrow> nat" where
  "hex_field s = fst (ParseUint32 16 (TrimPrefix s ''0x''))"

section \<open>Requests\<close>

record 'w ws =
  WriteMessage :: "'w \<Rightarrow> string \<Rightarrow> string option \<times> 'w"
  ReadMessage :: "'w \<Rightarrow> (string + string) \<times> 'w"

definition sendRawTxReqFmt :: "string \<Rightarrow> uint64 \<Rightarrow> string" where
  \<open>sendRawTxReqFmt tx k =
     ''{"jsonrpc":"2.0", "method":"eth_sendRawTransaction", "params":["'' @ tx @ ''"], "id":'' @ show_nat (unat k) @ ''}''\<close>

definition getTxListReqFmt :: "int \<Rightarrow> string" where
  \<open>getTxListReqFmt h =
     ''{"jsonrpc":"2.0", "method":"sbch_getTxListByHeight", "params":["0x'' @ show_hex_int h @ ''"], "id":'' @ show_int h @ ''}''\<close>

definition getBlkByNumFmt :: "int \<Rightarrow> string" where
  \<open>getBlkByNumFmt h =
     ''{"jsonrpc":"2.0", "method":"eth_getBlockByNumber", "params":["0x'' @ show_hex_int h @ ''", false], "id":'' @ show_int h @ ''}''\<close>

definition sendReq :: "'w ws \<Rightarrow> 'w \<Rightarrow> string \<Rightarrow> string \<times> 'w" where
  "sendReq W c req = (case WriteMessage W c req of
       (Some e, c) \<Rightarrow> (''error:'' @ e, c)
     | (None, c) \<Rightarrow> (case ReadMessage W c of (Inl e, c) \<Rightarrow> (''error:'' @ e, c) | (Inr resp, c) \<Rightarrow> (resp, c)))"

fun retry_loop :: "'w ws \<Rightarrow> string \<Rightarrow> nat \<Rightarrow> 'w \<Rightarrow> bool \<times> 'w" where
  "retry_loop W req 0 c = (False, c)"
| "retry_loop W req (Suc n) c =
     (let (resp, c) = sendReq W c req in
      if \<not> Contains ''error'' resp then (True, c) else if n = 0 then (False, c) else retry_loop W req n c)"

definition sendRawTxWithRetry :: "'w ws \<Rightarrow> 'w \<times> uint64 \<Rightarrow> bytes \<Rightarrow> nat \<Rightarrow> bool \<times> 'w \<times> uint64" where
  "sendRawTxWithRetry W st tx retryCount =
     (let (c, reqID) = st;
          reqID = reqID + 1;
          req = sendRawTxReqFmt (''0x'' @ hex_EncodeToString tx) reqID;
          (ok, c) = retry_loop W req retryCount c
      in (ok, c, reqID))"

section \<open>Replaying to a node\<close>

partial_function (option) total_loop :: "rlp \<Rightarrow> BlockDB \<Rightarrow> uint32 \<Rightarrow> uint32 \<Rightarrow> uint32 go option" where
  "total_loop R db stride h = (case LoadBlock R db h of
       Inl e \<Rightarrow> Some (Inl e)
     | Inr None \<Rightarrow> Some (Inr h)
     | Inr (Some blk) \<Rightarrow> total_loop R db stride (h + stride))"

definition getTotalHeight :: "rlp \<Rightarrow> BlockDB \<Rightarrow> uint32 go option" where
  "getTotalHeight R db = bindO (total_loop R db 100 1) (\<lambda>h. total_loop R db 1 (h - 100))"

record 'w replay =
  okTxCount :: nat
  failedTxCount :: nat
  rp_conn :: "'w \<times> uint64"

definition retryLimit :: nat where "retryLimit = 1000000"

definition replay_tx :: "'w ws \<Rightarrow> 'w replay \<Rightarrow> bytes \<Rightarrow> 'w replay" where
  "replay_tx W r tx = (let (ok, conn) = sendRawTxWithRetry W (rp_conn r) tx retryLimit in
     if ok then r\<lparr>okTxCount := okTxCount r + 1, rp_conn := conn\<rparr>
     else r\<lparr>failedTxCount := failedTxCount r + 1, rp_conn := conn\<rparr>)"

definition replay_txs :: "'w ws \<Rightarrow> uint32 \<Rightarrow> int \<Rightarrow> uint32 \<Rightarrow> bytes list \<Rightarrow> 'w replay \<Rightarrow> 'w replay" where
  "replay_txs W fromHeight fromTx h txs r =
     foldl (\<lambda>r (i, tx). if h = fromHeight \<and> int i < fromTx then r else replay_tx W r tx) r (enumerate 0 txs)"

partial_function (option) replay_blocks ::
  "rlp \<Rightarrow> 'w ws \<Rightarrow> BlockDB \<Rightarrow> uint32 \<Rightarrow> int \<Rightarrow> uint32 \<Rightarrow> 'w replay \<Rightarrow> 'w replay go option" where
  "replay_blocks R W db fromHeight fromTx h r =
     (let h = h + 1 in
      if h < fromHeight then replay_blocks R W db fromHeight fromTx h r
      else
        (case LoadBlock R db h of
           Inl e \<Rightarrow> Some (Inl e)
         | Inr None \<Rightarrow> Some (Inr r)
         | Inr (Some blk) \<Rightarrow>
             replay_blocks R W db fromHeight fromTx h (replay_txs W fromHeight fromTx h (rb_TxList blk) r)))"

definition RunReplayBlocksWS ::
  "rlp \<Rightarrow> 'w ws \<Rightarrow> BlockDB \<Rightarrow> 'w \<times> uint64 \<Rightarrow> int \<Rightarrow> int \<Rightarrow> 'w replay go option" where
  "RunReplayBlocksWS R W db conn fromHeight fromTx =
     bindO (getTotalHeight R db) (\<lambda>allBlocks.
       replay_blocks R W db (word_of_int fromHeight) fromTx 0 \<lparr>okTxCount = 0, failedTxCount = 0, rp_conn = conn\<rparr>)"

section \<open>Asking for transactions and blocks\<close>

record TxReceipt =
  TransactionHash :: string
  tr_GasUsed :: string
  tr_Status :: string
  tr_StatusStr :: string

record Queried_Block =
  bi_Number :: string
  bi_Size :: string
  bi_GasUsed :: string
  bi_Timestamp :: string
  bi_Miner :: string
  bi_Transactions :: "string list"

definition getFailedTxCount :: "TxReceipt list \<Rightarrow> nat" where
  "getFailedTxCount result = foldl (\<lambda>n tx. if tr_Status tx \<noteq> ''0x1'' then n + 1 else n) 0 result"

definition sumGasUsed :: "TxReceipt list \<Rightarrow> uint64" where
  "sumGasUsed result = foldl (\<lambda>total tx.
     if tr_Status tx = ''0x1'' then
       (case ParseUint32 16 (TrimPrefix (tr_GasUsed tx) ''0x'') of
          (n, None) \<Rightarrow> total + of_nat n
        | (n, Some e) \<Rightarrow> total)
     else total) 0 result"

text \<open>What \<^verbatim>\<open>json.Unmarshal\<close> leaves in the result is kept, with or without an error.\<close>

definition RunQueryTxsWS ::
  "'w ws \<Rightarrow> (string \<Rightarrow> TxReceipt list) \<Rightarrow> 'w \<Rightarrow> int \<Rightarrow> (int \<times> nat \<times> nat \<times> uint64) list \<times> 'w" where
  "RunQueryTxsWS W unmarshal c maxHeight =
     foldl (\<lambda>(rows, c) h.
       let (resp, c) = sendReq W c (getTxListReqFmt h);
           result = unmarshal resp;
           failedTxCount = getFailedTxCount result;
           totalGasUsed = sumGasUsed result
       in (rows @ [(h, length result, failedTxCount, totalGasUsed)], c)) ([], c) [1..maxHeight]"

type_synonym block_row = "int \<times> uint64 \<times> nat \<times> nat \<times> nat \<times> string"

function query_blocks ::
  "'w ws \<Rightarrow> (string \<Rightarrow> Queried_Block) \<Rightarrow> int \<Rightarrow> int \<Rightarrow> uint64 \<Rightarrow> block_row list \<times> Queried_Block list \<times> 'w \<Rightarrow>
   block_row list \<times> Queried_Block list \<times> 'w" where
  "query_blocks W unmarshal maxHeight h lastT st =
     (if h \<le> maxHeight then
        let (rows, blocks, c) = st;
            (resp, c) = sendReq W c (getBlkByNumFmt h);
            b = unmarshal resp;
            size = hex_field (bi_Size b);
            gasUsed = hex_field (bi_GasUsed b);
            t = of_nat (hex_field (bi_Timestamp b)) :: uint64
        in
        if t = 0 then (rows, blocks, c)
        else query_blocks W unmarshal maxHeight (h + 1) t
          (rows @ [(h, t - lastT, length (bi_Transactions b), size, gasUsed, bi_Miner b)], blocks @ [b], c)
      else st)"
  by pat_completeness auto
termination by (relation "measure (\<lambda>(W, u, maxHeight, h, lastT, st). nat (maxHeight + 1 - h))") auto

declare query_blocks.simps [simp del]

section \<open>Charts\<close>

definition blockBundleSize :: nat where "blockBundleSize = 100"

definition bundle_step :: "(Queried_Block \<Rightarrow> nat) \<Rightarrow> (nat \<times> nat) list \<times> nat \<Rightarrow> nat \<times> Queried_Block \<Rightarrow> (nat \<times> nat) list \<times> nat" where
  "bundle_step g = (\<lambda>(data, total) (i, block).
     let total = total + g block in
     if (i + 1) mod blockBundleSize = 0 then (data @ [(hex_field (bi_Number block), total)], 0) else (data, total))"

definition getTxCountData :: "Queried_Block list \<Rightarrow> (nat \<times> nat) list" where
  "getTxCountData blocks = fst (foldl (bundle_step (\<lambda>b. length (bi_Transactions b))) ([], 0) (enumerate 0 blocks))"

definition getBlockSizeData :: "Queried_Block list \<Rightarrow> (nat \<times> nat) list" where
  "getBlockSizeData blocks = fst (foldl (bundle_step (\<lambda>b. hex_field (bi_Size b))) ([], 0) (enumerate 0 blocks))"

definition getGasUsedData :: "Queried_Block list \<Rightarrow> (nat \<times> nat) list" where
  "getGasUsedData blocks = fst (foldl (bundle_step (\<lambda>b. hex_field (bi_GasUsed b))) ([], 0) (enumerate 0 blocks))"

definition getBlockTimeData :: "Queried_Block list \<Rightarrow> (nat \<times> uint64) list" where
  "getBlockTimeData blocks = fst (foldl (\<lambda>(data, lastTime) (i, block).
     if i mod blockBundleSize = 1 then
       let h = hex_field (bi_Number block); t = of_nat (hex_field (bi_Timestamp block)) in
       (if 0 < lastTime then data @ [(h, t - lastTime)] else data, t)
     else (data, lastTime)) ([], 0 :: uint64) (enumerate 0 blocks))"

type_synonym charts = "(nat \<times> nat) list \<times> (nat \<times> nat) list \<times> (nat \<times> nat) list \<times> (nat \<times> uint64) list"

definition genChartsHTML :: "Queried_Block list \<Rightarrow> charts" where
  "genChartsHTML blocks = (getTxCountData blocks, getBlockSizeData blocks, getGasUsedData blocks, getBlockTimeData blocks)"

definition RunQueryBlocksWS ::
  "'w ws \<Rightarrow> (string \<Rightarrow> Queried_Block) \<Rightarrow> 'w \<Rightarrow> int \<Rightarrow> int \<Rightarrow> bool \<Rightarrow> block_row list \<times> charts option" where
  "RunQueryBlocksWS W unmarshal c maxHeight minHeight genCharts =
     (let (rows, blocks, c) = query_blocks W unmarshal maxHeight minHeight 0 ([], [], c) in
      (rows, if genCharts then Some (genChartsHTML blocks) else None))"

section \<open>The commands of the stress test\<close>

text \<open>
  \<open>key b i\<close> is the key a worker generates at position \<open>i\<close> of batch \<open>b\<close>; the eight workers of a batch fill a
  thousand positions each, and the batch is printed after they have all ended.
\<close>

definition key_batch :: "(nat \<Rightarrow> string) \<Rightarrow> string list" where
  "key_batch key = concat (map (\<lambda>worker. map (\<lambda>j. key (worker * 1000 + j)) [0..<1000]) [0..<8])"

function key_batches :: "(nat \<Rightarrow> nat \<Rightarrow> string) \<Rightarrow> nat \<Rightarrow> nat \<Rightarrow> string list" where
  "key_batches key n i =
     (if i < n then
        key_batch (key (i div 8000)) @ key_batches key n (i + 8000)
      else [])"
  by pat_completeness auto
termination by (relation "measure (\<lambda>(key, n, i). n - i)") auto

declare key_batches.simps [simp del]

definition GenKeysToFile :: "(nat \<Rightarrow> nat \<Rightarrow> string) \<Rightarrow> int \<Rightarrow> string list" where
  "GenKeysToFile key n = key_batches key (nat n) 0"

text \<open>
  The directories of the databases are removed before a recording, which keeps going only with a random file. A
  replay removes the one of the history. The keys are a slice with room for \<open>room\<close> elements, which may be
  more than were read.
\<close>

definition RunRecordBlocks ::
  "('c, 'a, 'e, 'x, 'u, 'k, 't) stress \<Rightarrow> string \<Rightarrow> string \<Rightarrow> string list \<Rightarrow> nat \<Rightarrow> nat \<Rightarrow> nat \<Rightarrow> int \<Rightarrow>
   (('c, 'x) TestApp \<times> BlockDB) option go option" where
  "RunRecordBlocks S randFilename ignoreEnv keyLines randBlocks fromSize toSize txPerBlock =
     (if length randFilename = 0 then Some (Inr None)
      else
        let ignoreFanout = (ignoreEnv = ''YES'');
            keys = ReadKeysFromFile keyLines (int (fromSize + toSize))
        in
        bindO (RecordBlocks S (NewBlockDB Map.empty) randBlocks keys fromSize toSize txPerBlock ignoreFanout) (\<lambda>r.
          Some (Inr (Some r))))"

definition slice_to :: "nat \<Rightarrow> nat \<Rightarrow> string list \<Rightarrow> string list go" where
  "slice_to room n keys =
     (if n \<le> length keys then Inr (take n keys)
      else if n \<le> room then Inr (keys @ replicate (n - length keys) '''')
      else Inl (PanicMsg ''slice bounds out of range''))"

definition RunReplayBlocks ::
  "('c, 'a, 'e, 'x, 'u, 'k, 't) stress \<Rightarrow> (bytes \<rightharpoonup> bytes) \<Rightarrow> nat \<Rightarrow> string list \<Rightarrow> nat \<Rightarrow> ('c, 'x) TestApp go option" where
  "RunReplayBlocks S blockDir room keyLines fromSize =
     (let blkDB = NewBlockDB blockDir; keys = ReadKeysFromFile keyLines (int fromSize) in
      bindO (Some (slice_to room fromSize keys)) (\<lambda>keys.
      bindO (Some (stress_CreateTestApp S initBalance keys)) (\<lambda>app. ReplayBlocks S app blkDB)))"

text \<open>The arguments of the program, its name first.\<close>

definition getWsURL :: "string list \<Rightarrow> string" where
  "getWsURL args = (if 2 < length args then args ! 2 else ''ws://localhost:8546'')"

definition MaxUint32 :: int where "MaxUint32 = 2 ^ 32 - 1"

definition getMaxHeight :: "string list \<Rightarrow> nat \<Rightarrow> int" where
  "getMaxHeight args n = (let maxHeight = MaxUint32 in
     if n < length args then (case ParseInt32 10 (args ! n) of Some h \<Rightarrow> h | None \<Rightarrow> maxHeight) else maxHeight)"

definition getMinHeight :: "string list \<Rightarrow> nat \<Rightarrow> int" where
  "getMinHeight args n = (let minHeight = 1 in
     if n < length args then (case ParseInt32 10 (args ! n) of Some h \<Rightarrow> h | None \<Rightarrow> minHeight) else minHeight)"

text \<open>The file has whole batches: more keys than asked for, unless their number is a multiple of 8000.\<close>

lemma length_key_batch: "length (key_batch key) = 8000"
proof -
  have "length (concat (map (\<lambda>worker. map (\<lambda>j. key (worker * n + j)) [0..<n]) [0..<k])) = k * n" for k n
    by (induction k) simp_all
  from this [of 1000 8] show ?thesis unfolding key_batch_def by (rule trans) simp
qed

lemma length_GenKeysToFile: "length (GenKeysToFile key n) = 8000 * ((nat n + 7999) div 8000)"
proof -
  have "length (key_batches key m i) = 8000 * ((m - i + 7999) div 8000)" for m i
  proof (induction key m i rule: key_batches.induct)
    case (1 key m i)
    show ?case
    proof (cases "i < m")
      case True
      have batch: "(8000 + x) div 8000 = Suc (x div 8000)" for x :: nat by simp
      have "(m - i + 7999) div 8000 = Suc ((m - (i + 8000) + 7999) div 8000)"
      proof (cases "m \<le> i + 8000")
        case True
        then have "m - i + 7999 = 8000 + (m - i - 1)" "m - i - 1 < 8000" using \<open>i < m\<close> by simp_all
        then have "(m - i + 7999) div 8000 = 1" by (simp only: batch div_less)
        with True show ?thesis by simp
      next
        case False
        then have "m - i + 7999 = 8000 + (m - (i + 8000) + 7999)" by simp
        then show ?thesis by (simp only: batch)
      qed
      with 1 [OF True] True show ?thesis
        by (subst key_batches.simps) (simp add: length_key_batch)
    next
      case False
      then show ?thesis by (subst key_batches.simps) simp
    qed
  qed
  then show ?thesis by (simp add: GenKeysToFile_def)
qed

section \<open>What a recorded chain looks like\<close>

text \<open>A database with the blocks \<open>blk 1\<close> to \<open>blk N\<close> and no others.\<close>

definition holds_blocks :: "rlp \<Rightarrow> BlockDB \<Rightarrow> nat \<Rightarrow> (nat \<Rightarrow> Replay_Block) \<Rightarrow> bool" where
  "holds_blocks R db N blk \<longleftrightarrow>
     (\<forall>h. LoadBlock R db h = Inr (if 1 \<le> unat h \<and> unat h \<le> N then Some (blk (unat h)) else None))"

lemma holds_blocksD:
  assumes "holds_blocks R db N blk"
  shows "1 \<le> unat h \<Longrightarrow> unat h \<le> N \<Longrightarrow> LoadBlock R db h = Inr (Some (blk (unat h)))"
    and "N < unat h \<Longrightarrow> LoadBlock R db h = Inr None"
  using assms by (simp_all add: holds_blocks_def)

lemma unat_plus_small: "unat (a :: uint32) + unat b < 2 ^ 32 \<Longrightarrow> unat (a + b) = unat a + unat b"
  by (simp add: unat_word_ariths)

lemma total_loop_returns:
  assumes "holds_blocks R db N blk" and "0 < unat stride" and "N + unat stride < 2 ^ 32"
    and "1 \<le> unat h" and "unat h \<le> N + unat stride"
  shows "\<exists>h'. total_loop R db stride h = Some (Inr h') \<and> N < unat h' \<and> unat h' \<le> N + unat stride \<and>
    (if unat h \<le> N then unat h + unat stride else unat h) \<le> unat h'"
  using assms(4,5)
proof (induction "N + unat stride - unat h" arbitrary: h rule: less_induct)
  case less
  show ?case
  proof (cases "unat h \<le> N")
    case False
    with holds_blocksD(2) [OF assms(1), of h] less.prems show ?thesis by (subst total_loop.simps) auto
  next
    case True
    with assms(3) have succ: "unat (h + stride) = unat h + unat stride" by (intro unat_plus_small) simp
    have "\<exists>h'. total_loop R db stride (h + stride) = Some (Inr h') \<and> N < unat h' \<and> unat h' \<le> N + unat stride \<and>
        (if unat (h + stride) \<le> N then unat (h + stride) + unat stride else unat (h + stride)) \<le> unat h'"
      by (rule less.hyps) (use succ True assms(2) less.prems in auto)
    then obtain h' where h': "total_loop R db stride (h + stride) = Some (Inr h')" "N < unat h'" "unat h' \<le> N + unat stride"
      "(if unat (h + stride) \<le> N then unat (h + stride) + unat stride else unat (h + stride)) \<le> unat h'" by blast
    have "total_loop R db stride h = Some (Inr h')"
      using h'(1) holds_blocksD(1) [OF assms(1) less.prems(1) True] by (subst total_loop.simps) simp
    moreover have "unat h + unat stride \<le> unat h'"
      using h'(4) succ by (simp split: if_splits)
    ultimately show ?thesis using h'(2,3) True by auto
  qed
qed

text \<open>
  Counting the blocks of a database ends with one more than there are: the height of the first missing
  block. On an empty database the second loop starts a hundred heights below one, which wraps around.
\<close>

lemma getTotalHeight_off_by_one:
  assumes "holds_blocks R db N blk" and "N + 101 < 2 ^ 32"
  shows "getTotalHeight R db = Some (Inr (if N = 0 then 4294967197 else of_nat (N + 1)))"
proof (cases "N = 0")
  case True
  with assms(1) have none: "LoadBlock R db h = Inr None" for h by (simp add: holds_blocks_def)
  have "total_loop R db w h = Some (Inr h)" for w h by (subst total_loop.simps) (simp add: none)
  then show ?thesis using True by (simp add: getTotalHeight_def)
next
  case False
  have "\<exists>h'. total_loop R db 100 1 = Some (Inr h') \<and> N < unat h' \<and> unat h' \<le> N + unat (100 :: uint32) \<and>
      (if unat (1 :: uint32) \<le> N then unat (1 :: uint32) + unat (100 :: uint32) else unat (1 :: uint32)) \<le> unat h'"
    by (rule total_loop_returns [OF assms(1)]) (use assms(2) in simp_all)
  then obtain h1 where first: "total_loop R db 100 1 = Some (Inr h1)" "N < unat h1" "unat h1 \<le> N + 100" "101 \<le> unat h1"
    using False by auto
  then have "100 \<le> h1" by (simp add: word_le_nat_alt)
  then have sub: "unat (h1 - 100) = unat h1 - 100" by (simp add: unat_sub)
  have "\<exists>h'. total_loop R db 1 (h1 - 100) = Some (Inr h') \<and> N < unat h' \<and> unat h' \<le> N + unat (1 :: uint32) \<and>
      (if unat (h1 - 100) \<le> N then unat (h1 - 100) + unat (1 :: uint32) else unat (h1 - 100)) \<le> unat h'"
    by (rule total_loop_returns [OF assms(1)]) (use assms(2) first sub in simp_all)
  then obtain h2 where h2: "total_loop R db 1 (h1 - 100) = Some (Inr h2)" "unat h2 = N + 1" by auto
  then have "h2 = of_nat (N + 1)" by (metis of_nat_unat ucast_id)
  with first(1) h2(1) False show ?thesis by (simp add: getTotalHeight_def)
qed

section \<open>The transactions a replay sends\<close>

lemma replay_txs_other: "h \<noteq> fromHeight \<Longrightarrow> replay_txs W fromHeight fromTx h txs r = foldl (replay_tx W) r txs"
proof -
  assume "h \<noteq> fromHeight"
  then have "foldl (\<lambda>r (i, tx). if h = fromHeight \<and> int i < fromTx then r else replay_tx W r tx) r (enumerate n txs) =
      foldl (replay_tx W) r txs" for n
    by (induction txs arbitrary: r n) simp_all
  then show ?thesis by (simp add: replay_txs_def)
qed

lemma replay_txs_first: "replay_txs W h fromTx h txs r = foldl (replay_tx W) r (drop (nat fromTx) txs)"
proof -
  have "foldl (\<lambda>r (i, tx). if int i < fromTx then r else replay_tx W r tx) r (enumerate n txs) =
      foldl (replay_tx W) r (drop (nat (fromTx - int n)) txs)" for n
  proof (induction txs arbitrary: r n)
    case (Cons tx txs)
    have "nat (fromTx - int n) = Suc (nat (fromTx - int (Suc n)))" if "int n < fromTx" using that by linarith
    moreover have "nat (fromTx - int (Suc n)) = 0" if "\<not> int n < fromTx" using that by linarith
    ultimately show ?case using Cons [of _ "Suc n"] by simp
  qed simp
  from this [of 0] show ?thesis by (simp add: replay_txs_def)
qed

text \<open>The transactions that are left from height and position on.\<close>

definition remaining :: "(nat \<Rightarrow> Replay_Block) \<Rightarrow> nat \<Rightarrow> nat \<Rightarrow> int \<Rightarrow> nat \<Rightarrow> bytes list" where
  "remaining blk N fromHeight fromTx h =
     concat (map (\<lambda>k. if k = fromHeight then drop (nat fromTx) (rb_TxList (blk k)) else rb_TxList (blk k))
       [max fromHeight h..<Suc N])"

lemma remaining_step:
  assumes "fromHeight \<le> Suc h" and "Suc h \<le> N"
  shows "remaining blk N fromHeight fromTx (Suc h) =
    (if Suc h = fromHeight then drop (nat fromTx) (rb_TxList (blk (Suc h))) else rb_TxList (blk (Suc h))) @
    remaining blk N fromHeight fromTx (Suc (Suc h))"
proof -
  have "[max fromHeight (Suc h)..<Suc N] = Suc h # [max fromHeight (Suc (Suc h))..<Suc N]"
    using assms by (simp add: upt_conv_Cons max_def)
  then show ?thesis by (simp add: remaining_def)
qed

lemma replay_blocks_sends:
  assumes "holds_blocks R db N blk" and "N + 1 < 2 ^ 32" and "fromHeight < 2 ^ 32" and "unat h < max (N + 1) fromHeight"
  shows "replay_blocks R W db (of_nat fromHeight) fromTx h r =
    Some (Inr (foldl (replay_tx W) r (remaining blk N fromHeight fromTx (Suc (unat h)))))"
  using assms(4)
proof (induction "max (N + 1) fromHeight - unat h" arbitrary: h r rule: less_induct)
  case less
  have small: "unat h + 1 < 2 ^ 32" using less.prems assms(2,3) by simp
  then have succ: "unat (h + 1) = Suc (unat h)" using unat_plus_small [of h 1] by simp
  have start: "unat (of_nat fromHeight :: uint32) = fromHeight" using assms(3) by (simp add: unat_of_nat)
  show ?case
  proof (cases "Suc (unat h) < fromHeight")
    case True
    have "replay_blocks R W db (of_nat fromHeight) fromTx (h + 1) r =
        Some (Inr (foldl (replay_tx W) r (remaining blk N fromHeight fromTx (Suc (unat (h + 1))))))"
      by (rule less.hyps) (use succ True in auto)
    moreover have "remaining blk N fromHeight fromTx (Suc (unat (h + 1))) = remaining blk N fromHeight fromTx (Suc (unat h))"
      using True succ by (simp add: remaining_def)
    moreover have "h + 1 < of_nat fromHeight" using True succ start by (simp add: word_less_nat_alt)
    ultimately show ?thesis by (subst replay_blocks.simps) simp
  next
    case False
    then have ge: "\<not> h + 1 < of_nat fromHeight" using succ start by (simp add: word_less_nat_alt)
    show ?thesis
    proof (cases "Suc (unat h) \<le> N")
      case False
      with holds_blocksD(2) [OF assms(1), of "h + 1"] succ have "LoadBlock R db (h + 1) = Inr None" by simp
      moreover have "remaining blk N fromHeight fromTx (Suc (unat h)) = []" using False by (simp add: remaining_def)
      ultimately show ?thesis using ge by (subst replay_blocks.simps) simp
    next
      case True
      with holds_blocksD(1) [OF assms(1), of "h + 1"] succ
      have blk: "LoadBlock R db (h + 1) = Inr (Some (blk (Suc (unat h))))" by simp
      let ?txs = "rb_TxList (blk (Suc (unat h)))" and ?H = "of_nat fromHeight :: uint32"
      have same: "h + 1 = ?H \<longleftrightarrow> Suc (unat h) = fromHeight" using succ start by (metis word_unat_eq_iff)
      have sent: "replay_txs W ?H fromTx (h + 1) ?txs r =
          foldl (replay_tx W) r (if Suc (unat h) = fromHeight then drop (nat fromTx) ?txs else ?txs)"
      proof (cases "h + 1 = ?H")
        case True
        then show ?thesis using same replay_txs_first [of W "h + 1" fromTx ?txs r] by simp
      next
        case False
        then show ?thesis using same replay_txs_other [OF False, of W fromTx ?txs r] by simp
      qed
      have "replay_blocks R W db ?H fromTx (h + 1) r' =
          Some (Inr (foldl (replay_tx W) r' (remaining blk N fromHeight fromTx (Suc (unat (h + 1))))))" for r'
        by (rule less.hyps) (use succ True in auto)
      then show ?thesis
        using ge blk sent succ remaining_step [of fromHeight "unat h" N blk fromTx] False True
        by (subst replay_blocks.simps) simp
    qed
  qed
qed

lemma replay_counts:
  "okTxCount (foldl (replay_tx W) r txs) + failedTxCount (foldl (replay_tx W) r txs) =
   okTxCount r + failedTxCount r + length txs"
proof (induction txs arbitrary: r)
  case (Cons tx txs)
  have "okTxCount (replay_tx W r tx) + failedTxCount (replay_tx W r tx) = okTxCount r + failedTxCount r + 1"
    by (simp add: replay_tx_def split: prod.split)
  with Cons show ?case by simp
qed simp

lemma retry_loop_accepted:
  "0 < n \<Longrightarrow> \<not> Contains ''error'' (fst (sendReq W c req)) \<Longrightarrow> retry_loop W req n c = (True, snd (sendReq W c req))"
  by (cases n) (simp_all add: case_prod_beta' Let_def)

lemma replay_accepted:
  assumes "\<And>c req. \<not> Contains ''error'' (fst (sendReq W c req))"
  shows "okTxCount (foldl (replay_tx W) r txs) = okTxCount r + length txs"
proof (induction txs arbitrary: r)
  case (Cons tx txs)
  have "okTxCount (replay_tx W r tx) = okTxCount r + 1"
    by (simp add: replay_tx_def sendRawTxWithRetry_def retryLimit_def retry_loop_accepted assms case_prod_beta' Let_def)
  with Cons show ?case by simp
qed simp

text \<open>
  Replaying a recorded chain to a node ends, and sends every transaction from the given height and
  position on exactly once, in the order of the chain and each until it is accepted or given up, before
  the next; the transactions accepted and given up are all of them, and when the node never answers
  with an error, all are accepted. A height of zero is the first block, and heights that are not
  recorded send nothing.
\<close>

lemma replay_ws_sends:
  assumes "holds_blocks R db N blk" and "N + 101 < 2 ^ 32" and "fromHeight < 2 ^ 32"
  shows "\<exists>r. RunReplayBlocksWS R W db conn (int fromHeight) fromTx = Some (Inr r) \<and>
    r = foldl (replay_tx W) \<lparr>okTxCount = 0, failedTxCount = 0, rp_conn = conn\<rparr> (remaining blk N fromHeight fromTx 1) \<and>
    okTxCount r + failedTxCount r = length (remaining blk N fromHeight fromTx 1) \<and>
    ((\<forall>c req. \<not> Contains ''error'' (fst (sendReq W c req))) \<longrightarrow> failedTxCount r = 0)"
proof -
  let ?r0 = "\<lparr>okTxCount = 0, failedTxCount = 0, rp_conn = conn\<rparr>" and ?txs = "remaining blk N fromHeight fromTx 1"
  have "replay_blocks R W db (of_nat fromHeight) fromTx 0 ?r0 = Some (Inr (foldl (replay_tx W) ?r0 ?txs))"
    using replay_blocks_sends [OF assms(1) _ assms(3), of 0 W fromTx ?r0] assms(2) by simp
  then have run: "RunReplayBlocksWS R W db conn (int fromHeight) fromTx = Some (Inr (foldl (replay_tx W) ?r0 ?txs))"
    using getTotalHeight_off_by_one [OF assms(1,2)] by (simp add: RunReplayBlocksWS_def)
  moreover have counts: "okTxCount (foldl (replay_tx W) ?r0 ?txs) + failedTxCount (foldl (replay_tx W) ?r0 ?txs) = length ?txs"
    using replay_counts [of W ?r0 ?txs] by simp
  moreover have "failedTxCount (foldl (replay_tx W) ?r0 ?txs) = 0" if "\<forall>c req. \<not> Contains ''error'' (fst (sendReq W c req))"
  proof -
    from that have "okTxCount (foldl (replay_tx W) ?r0 ?txs) = length ?txs" by (subst replay_accepted) auto
    with counts show ?thesis by linarith
  qed
  ultimately show ?thesis by blast
qed

section \<open>Bundles of blocks\<close>

lemma hundred:
  fixes n :: nat
  shows "(n + 1) mod 100 = 0 \<Longrightarrow> n = 100 * (n div 100) + 99" "(n + 1) mod 100 = 0 \<Longrightarrow> (n + 1) div 100 = Suc (n div 100)"
    "(n + 1) mod 100 \<noteq> 0 \<Longrightarrow> (n + 1) div 100 = n div 100"
proof -
  show "(n + 1) div 100 = Suc (n div 100)" if "(n + 1) mod 100 = 0" using that by (simp add: div_Suc)
  show "(n + 1) div 100 = n div 100" if "(n + 1) mod 100 \<noteq> 0" using that by (simp add: div_Suc)
  assume "(n + 1) mod 100 = 0"
  then have "n mod 100 = 99" by (simp add: mod_Suc split: if_splits)
  then show "n = 100 * (n div 100) + 99" by (metis mult_div_mod_eq)
qed

text \<open>One row for every hundred blocks, with the number of the last one and the sum over all of them.\<close>

lemma bundles:
  "foldl (bundle_step g) ([], 0) (enumerate 0 blocks) =
     (map (\<lambda>k. (hex_field (bi_Number (blocks ! (100 * k + 99))), sum_list (map g (take 100 (drop (100 * k) blocks)))))
        [0..<length blocks div 100],
      sum_list (map g (drop (100 * (length blocks div 100)) blocks)))"
proof (induction blocks rule: rev_induct)
  case Nil
  then show ?case by simp
next
  case (snoc b blocks)
  let ?q = "length blocks div 100"
  have q: "100 * ?q \<le> length blocks" by simp
  have same: "map (\<lambda>k. (hex_field (bi_Number ((blocks @ [b]) ! (100 * k + 99))), sum_list (map g (take 100 (drop (100 * k) (blocks @ [b]))))))
        [0..<?q] =
      map (\<lambda>k. (hex_field (bi_Number (blocks ! (100 * k + 99))), sum_list (map g (take 100 (drop (100 * k) blocks))))) [0..<?q]"
  proof (rule map_cong [OF refl])
    fix k assume "k \<in> set [0..<?q]"
    then have "100 * k + 100 \<le> length blocks" by simp
    then show "(hex_field (bi_Number ((blocks @ [b]) ! (100 * k + 99))), sum_list (map g (take 100 (drop (100 * k) (blocks @ [b]))))) =
        (hex_field (bi_Number (blocks ! (100 * k + 99))), sum_list (map g (take 100 (drop (100 * k) blocks))))"
      by (simp add: nth_append)
  qed
  let ?rows = "\<lambda>n bs. map (\<lambda>k. (hex_field (bi_Number (bs ! (100 * k + 99))), sum_list (map g (take 100 (drop (100 * k) bs))))) [0..<n]"
  have step: "foldl (bundle_step g) ([], 0) (enumerate 0 (blocks @ [b])) =
      bundle_step g (?rows ?q blocks, sum_list (map g (drop (100 * ?q) blocks))) (length blocks, b)"
    by (simp add: enumerate_append_eq snoc)
  show ?case
  proof (cases "(length blocks + 1) mod 100 = 0")
    case True
    note len = hundred(1) [OF True]
    have q': "length (blocks @ [b]) div 100 = Suc ?q" using hundred(2) [OF True] by simp
    have "take 100 (drop (100 * ?q) (blocks @ [b])) = drop (100 * ?q) blocks @ [b]" using len by simp
    moreover have "(blocks @ [b]) ! (100 * ?q + 99) = b" by (subst len [symmetric]) (rule nth_append_length)
    ultimately have "?rows (Suc ?q) (blocks @ [b]) =
        ?rows ?q blocks @ [(hex_field (bi_Number b), sum_list (map g (drop (100 * ?q) blocks)) + g b)]"
      using same by simp
    moreover have "drop (100 * Suc ?q) (blocks @ [b]) = []" using len by simp
    ultimately show ?thesis
      unfolding step q' using True by (simp add: bundle_step_def blockBundleSize_def)
  next
    case False
    from hundred(3) [OF this] have "length (blocks @ [b]) div 100 = ?q" by simp
    moreover have "drop (100 * ?q) (blocks @ [b]) = drop (100 * ?q) blocks @ [b]" using q by simp
    ultimately show ?thesis
      unfolding step using same False by (simp add: bundle_step_def blockBundleSize_def)
  qed
qed

section \<open>Witness\<close>

definition one_block :: Replay_Block where
  "one_block = \<lparr>rb_AppHash = [1], rb_TxList = [[2], [3]]\<rparr>"

text \<open>A node that logs the requests and answers all of them with \<^verbatim>\<open>ok\<close>.\<close>

definition logging_node :: "string list ws" where
  "logging_node = \<lparr>WriteMessage = (\<lambda>c req. (None, c @ [req])), ReadMessage = (\<lambda>c. (Inr ''ok'', c))\<rparr>"

lemma replay_ws_sends_witness:
  "\<exists>db r. RunReplayBlocksWS small_rlp logging_node db ([], 0) 1 1 = Some (Inr r) \<and>
     okTxCount r = 1 \<and> failedTxCount r = 0 \<and> length (fst (rp_conn r)) = 1"
proof -
  have "\<exists>db. SaveBlock small_rlp (NewBlockDB Map.empty) one_block = Inr db"
    by (simp add: SaveBlock_def small_rlp_def one_block_def Let_def)
  then obtain db where save: "SaveBlock small_rlp (NewBlockDB Map.empty) one_block = Inr db" by blast
  note load = SaveBlock_load [OF small_rlp_laws save]
  have "holds_blocks small_rlp db 1 (\<lambda>_. one_block)"
    unfolding holds_blocks_def
  proof
    fix h :: uint32
    show "LoadBlock small_rlp db h = Inr (if 1 \<le> unat h \<and> unat h \<le> 1 then Some one_block else None)"
    proof (cases "h = 1")
      case True
      then show ?thesis using load(1) by (simp add: NewBlockDB_def)
    next
      case False
      then have "\<not> (1 \<le> unat h \<and> unat h \<le> 1)" by (auto simp: word_unat_eq_iff)
      then show ?thesis using load(3) [of h] False by (simp add: NewBlockDB_def LoadBlock_def)
    qed
  qed
  from replay_ws_sends [OF this, of 1 logging_node "([], 0)" 1] obtain r where
    r: "RunReplayBlocksWS small_rlp logging_node db ([], 0) 1 1 = Some (Inr r)"
      "r = foldl (replay_tx logging_node) \<lparr>okTxCount = 0, failedTxCount = 0, rp_conn = ([], 0)\<rparr> (remaining (\<lambda>_. one_block) 1 1 1 1)"
    by auto
  have "remaining (\<lambda>_. one_block) 1 1 1 1 = [[3]]" by (simp add: remaining_def one_block_def)
  moreover have "retry_loop logging_node req 1000000 c = (True, c @ [req])" for req c
    by (subst retry_loop_accepted) (simp_all add: sendReq_def logging_node_def HasPrefix_def)
  ultimately have "okTxCount r = 1 \<and> failedTxCount r = 0 \<and> length (fst (rp_conn r)) = 1"
    unfolding r(2) by (simp add: replay_tx_def sendRawTxWithRetry_def retryLimit_def)
  with r(1) show ?thesis by blast
qed

end
