(* ===== verification/Rpc_Server.thy ===== *)
theory Rpc_Server
  imports App_Blocks Eth_Api
begin

text \<open>
  The RPC server (\<^verbatim>\<open>rpc/server.go\<close>), which listens on four addresses and serves the APIs of
  \<^verbatim>\<open>rpc/api/apis.go\<close>, and the small namespaces web3, net, txpool, evm and tm (\<^verbatim>\<open>rpc/api\<close>). The network
  and the JSON-RPC server of go-ethereum are parameters: \<open>Listen\<close> opens a listener at an address, or
  fails, \<open>Close\<close> closes it. A listener is a number, and \<open>listening\<close> tells which one is open at an
  address. Serving the requests changes no state of the server. What the handlers of evm see of the chain
  while they wait is a sequence of histories.
\<close>

section \<open>The libraries as parameters\<close>

record 'n network =
  Listen :: "'n \<Rightarrow> string \<Rightarrow> string + (nat \<times> 'n)"
  Close :: "'n \<Rightarrow> nat \<Rightarrow> 'n"
  listening :: "'n \<Rightarrow> string \<Rightarrow> nat option"

text \<open>
  One listener at an address: listening again fails, and closing a listener frees its address and no
  other; a listener that is not open is not closed again.
\<close>

definition network_laws :: "'n network \<Rightarrow> bool" where
  "network_laws W \<longleftrightarrow>
     (\<forall>n a. listening W n a \<noteq> None \<longrightarrow> (\<exists>e. Listen W n a = Inl e)) \<and>
     (\<forall>n a l n'. Listen W n a = Inr (l, n') \<longrightarrow>
        listening W n' = (listening W n)(a \<mapsto> l) \<and> (\<forall>b. listening W n b \<noteq> Some l)) \<and>
     (\<forall>n l a. listening W (Close W n l) a = (if listening W n a = Some l then None else listening W n a))"

record rpc_api =
  Namespace :: string
  api_Version :: string
  Service :: string
  Public :: bool

record 'g gethrpc =
  gethrpc_NewServer :: 'g
  RegisterName :: "'g \<Rightarrow> string \<Rightarrow> string \<Rightarrow> string + 'g"
  gethrpc_Stop :: "'g \<Rightarrow> 'g"

section \<open>The APIs\<close>

definition apiVersion :: string where "apiVersion = ''1.0''"

definition public_api :: "string \<Rightarrow> string \<Rightarrow> rpc_api" where
  "public_api ns service = \<lparr>Namespace = ns, api_Version = apiVersion, Service = service, Public = True\<rparr>"

text \<open>A service is named by the constructor of its API.\<close>

definition GetAPIs :: "rpc_api list" where
  "GetAPIs = [public_api ''eth'' ''ethAPI'', public_api ''eth'' ''filterAPI'', public_api ''web3'' ''web3API'',
     public_api ''net'' ''netAPI'', public_api ''txpool'' ''txPoolAPI'', public_api ''sbch'' ''sbchAPI'',
     public_api ''evm'' ''evmAPI'', public_api ''tm'' ''tmAPI'']"

fun registerApis :: "'g gethrpc \<Rightarrow> 'g \<Rightarrow> rpc_api list \<Rightarrow> string option \<times> 'g" where
  "registerApis G srv [] = (None, srv)"
| "registerApis G srv (a # apis) = (case RegisterName G srv (Namespace a) (Service a) of
       Inl e \<Rightarrow> (Some e, srv)
     | Inr srv \<Rightarrow> registerApis G srv apis)"

section \<open>The server\<close>

record 'g Server =
  rpcAddr :: string
  wsAddr :: string
  rpcHttpsAddr :: string
  wssAddr :: string
  httpServer :: "'g option"
  httpListener :: "nat option"
  wsServer :: "'g option"
  wsListener :: "nat option"
  httpsListener :: "nat option"
  wssListener :: "nat option"
  certFile :: string
  keyFile :: string
  unlockedKeys :: "string list"

definition NewServer :: "string \<Rightarrow> string \<Rightarrow> string \<Rightarrow> string \<Rightarrow> string list \<Rightarrow> 'g Server" where
  "NewServer rpc_addr ws_addr cert_file key_file keys =
     \<lparr>rpcAddr = rpc_addr, wsAddr = ws_addr, rpcHttpsAddr = ''tcp://:9545'', wssAddr = ''tcp://:9546'',
      httpServer = None, httpListener = None, wsServer = None, wsListener = None, httpsListener = None,
      wssListener = None, certFile = cert_file, keyFile = key_file, unlockedKeys = keys\<rparr>"

text \<open>The error, when there is one, with the server and the network as they are then.\<close>

type_synonym ('g, 'n) started = "string option \<times> 'g Server \<times> 'n"

definition startHTTPAndHTTPS :: "'g gethrpc \<Rightarrow> 'n network \<Rightarrow> rpc_api list \<Rightarrow> 'g Server \<times> 'n \<Rightarrow> ('g, 'n) started" where
  "startHTTPAndHTTPS G W apis = (\<lambda>(server, net).
     let (r, srv) = registerApis G (gethrpc_NewServer G) apis;
         server = server\<lparr>httpServer := Some srv\<rparr>
     in
     case r of Some e \<Rightarrow> (Some e, server, net)
     | None \<Rightarrow>
         (case Listen W net (rpcAddr server) of
            Inl e \<Rightarrow> (Some e, server, net)
          | Inr (l, net) \<Rightarrow>
              let server = server\<lparr>httpListener := Some l\<rparr> in
              (case Listen W net (rpcHttpsAddr server) of
                 Inl e \<Rightarrow> (Some e, server, net)
               | Inr (l, net) \<Rightarrow> (None, server\<lparr>httpsListener := Some l\<rparr>, net))))"

definition startWSAndWSS :: "'g gethrpc \<Rightarrow> 'n network \<Rightarrow> rpc_api list \<Rightarrow> 'g Server \<times> 'n \<Rightarrow> ('g, 'n) started" where
  "startWSAndWSS G W apis = (\<lambda>(server, net).
     let (r, srv) = registerApis G (gethrpc_NewServer G) apis;
         server = server\<lparr>wsServer := Some srv\<rparr>
     in
     case r of Some e \<Rightarrow> (Some e, server, net)
     | None \<Rightarrow>
         (case Listen W net (wsAddr server) of
            Inl e \<Rightarrow> (Some e, server, net)
          | Inr (l, net) \<Rightarrow>
              let server = server\<lparr>wsListener := Some l\<rparr> in
              (case Listen W net (wssAddr server) of
                 Inl e \<Rightarrow> (Some e, server, net)
               | Inr (l, net) \<Rightarrow> (None, server\<lparr>wssListener := Some l\<rparr>, net))))"

definition OnStart :: "'g gethrpc \<Rightarrow> 'n network \<Rightarrow> 'g Server \<times> 'n \<Rightarrow> ('g, 'n) started" where
  "OnStart G W st =
     (let apis = GetAPIs in
      case startHTTPAndHTTPS G W apis st of
        (Some e, server, net) \<Rightarrow> (Some e, server, net)
      | (None, server, net) \<Rightarrow> startWSAndWSS G W apis (server, net))"

text \<open>Closing a missing listener, and stopping a missing server, dereference nil.\<close>

definition stop_server :: "'g gethrpc \<Rightarrow> 'g option \<Rightarrow> 'g option go" where
  "stop_server G srv = (case srv of None \<Rightarrow> Inl NilDeref | Some s \<Rightarrow> Inr (Some (gethrpc_Stop G s)))"

definition close_listener :: "'n network \<Rightarrow> 'n \<Rightarrow> nat option \<Rightarrow> 'n go" where
  "close_listener W net l = (case l of None \<Rightarrow> Inl NilDeref | Some l \<Rightarrow> Inr (Close W net l))"

definition stopHTTP :: "'g gethrpc \<Rightarrow> 'n network \<Rightarrow> 'g Server \<times> 'n \<Rightarrow> ('g Server \<times> 'n) go" where
  "stopHTTP G W = (\<lambda>(server, net).
     bindG (if httpServer server \<noteq> None then
              bindG (stop_server G (httpServer server)) (\<lambda>s. Inr (server\<lparr>httpServer := s\<rparr>))
            else Inr server) (\<lambda>server.
     bindG (if httpListener server \<noteq> None then close_listener W net (httpListener server) else Inr net) (\<lambda>net.
       Inr (server, net))))"

definition stopWS :: "'g gethrpc \<Rightarrow> 'n network \<Rightarrow> 'g Server \<times> 'n \<Rightarrow> ('g Server \<times> 'n) go" where
  "stopWS G W = (\<lambda>(server, net).
     bindG (if wsServer server \<noteq> None then
              bindG (stop_server G (httpServer server)) (\<lambda>s. Inr (server\<lparr>httpServer := s\<rparr>))
            else Inr server) (\<lambda>server.
     bindG (if wsListener server \<noteq> None then close_listener W net (httpListener server) else Inr net) (\<lambda>net.
       Inr (server, net))))"

definition OnStop :: "'g gethrpc \<Rightarrow> 'n network \<Rightarrow> 'g Server \<times> 'n \<Rightarrow> ('g Server \<times> 'n) go" where
  "OnStop G W st = bindG (stopHTTP G W st) (stopWS G W)"

section \<open>Starting and stopping\<close>

lemma OnStart_ok:
  assumes "OnStart G W (server, net) = (None, server', net')"
  obtains s1 s2 h n1 t n2 w n3 u where "registerApis G (gethrpc_NewServer G) GetAPIs = (None, s1)"
    and "Listen W net (rpcAddr server) = Inr (h, n1)" and "Listen W n1 (rpcHttpsAddr server) = Inr (t, n2)"
    and "Listen W n2 (wsAddr server) = Inr (w, n3)" and "Listen W n3 (wssAddr server) = Inr (u, net')"
    and "server' = server\<lparr>httpServer := Some s1, httpListener := Some h, httpsListener := Some t,
      wsServer := Some s1, wsListener := Some w, wssListener := Some u\<rparr>"
  using assms
  by (auto simp: OnStart_def startHTTPAndHTTPS_def startWSAndWSS_def Let_def split: prod.splits option.splits sum.splits)

text \<open>
  (C36) Stopping the server does not stop it listening. After a server has started, with its four addresses
  different, stopping it never panics, and frees the HTTP address, but the HTTPS, websocket and
  secure websocket addresses stay open with the same listeners: the code that should stop the
  websocket server stops the HTTP server again. A server for the same addresses cannot be started
  then, and the attempt leaves even the HTTP address open again.
\<close>

theorem OnStop_leaves_listeners:
  assumes "network_laws W"
    and "distinct [rpcAddr server, rpcHttpsAddr server, wsAddr server, wssAddr server]"
    and "OnStart G W (server, net) = (None, server', net')"
  shows "\<exists>server2 net2. OnStop G W (server', net') = Inr (server2, net2) \<and>
    listening W net2 (rpcAddr server) = None \<and>
    (\<forall>a \<in> {rpcHttpsAddr server, wsAddr server, wssAddr server}.
       listening W net2 a \<noteq> None \<and> listening W net2 a = listening W net' a) \<and>
    (\<forall>l n3. Listen W net2 (rpcAddr server) = Inr (l, n3) \<longrightarrow>
       (\<exists>e server3. OnStart G W (server, net2) = (Some e, server3, n3) \<and> listening W n3 (rpcAddr server) = Some l))"
proof -
  from assms(3) obtain s1 h n1 t n2 w n3 u where reg: "registerApis G (gethrpc_NewServer G) GetAPIs = (None, s1)"
    and listen: "Listen W net (rpcAddr server) = Inr (h, n1)" "Listen W n1 (rpcHttpsAddr server) = Inr (t, n2)"
      "Listen W n2 (wsAddr server) = Inr (w, n3)" "Listen W n3 (wssAddr server) = Inr (u, net')"
    and server': "server' = server\<lparr>httpServer := Some s1, httpListener := Some h, httpsListener := Some t,
      wsServer := Some s1, wsListener := Some w, wssListener := Some u\<rparr>"
    by (rule OnStart_ok)
  have law: "Listen W n a = Inr (l, n') \<Longrightarrow> listening W n' = (listening W n)(a \<mapsto> l) \<and> (\<forall>b. listening W n b \<noteq> Some l)"
    "listening W n a \<noteq> None \<Longrightarrow> \<exists>e. Listen W n a = Inl e"
    "listening W (Close W n l) a = (if listening W n a = Some l then None else listening W n a)" for n a l n'
    using assms(1) unfolding network_laws_def by blast+
  have at: "listening W n1 = (listening W net)(rpcAddr server \<mapsto> h)" "listening W n2 = (listening W n1)(rpcHttpsAddr server \<mapsto> t)"
    "listening W n3 = (listening W n2)(wsAddr server \<mapsto> w)" "listening W net' = (listening W n3)(wssAddr server \<mapsto> u)"
    and fresh: "\<forall>b. listening W n1 b \<noteq> Some t" "\<forall>b. listening W n2 b \<noteq> Some w" "\<forall>b. listening W n3 b \<noteq> Some u"
    using law(1) [OF listen(1)] law(1) [OF listen(2)] law(1) [OF listen(3)] law(1) [OF listen(4)] by simp_all
  have four: "rpcAddr server \<noteq> rpcHttpsAddr server" "rpcAddr server \<noteq> wsAddr server" "rpcAddr server \<noteq> wssAddr server"
    "rpcHttpsAddr server \<noteq> wsAddr server" "rpcHttpsAddr server \<noteq> wssAddr server" "wsAddr server \<noteq> wssAddr server"
    using assms(2) by auto
  have other: "h \<noteq> t" "h \<noteq> w" "h \<noteq> u"
    using fresh at four by (metis fun_upd_other fun_upd_same)+
  define net2 where "net2 = Close W (Close W net' h) h"
  have net2: "listening W net2 (rpcAddr server) = None"
    "listening W net2 (rpcHttpsAddr server) = Some t" "listening W net2 (wsAddr server) = Some w"
    "listening W net2 (wssAddr server) = Some u"
    using four other by (simp_all add: net2_def law(3) at)
  have stop: "\<exists>server2. OnStop G W (server', net') = Inr (server2, net2)"
    by (simp add: OnStop_def stopHTTP_def stopWS_def server' stop_server_def close_listener_def net2_def)
  have "\<exists>e server3. OnStart G W (server, net2) = (Some e, server3, n3) \<and> listening W n3 (rpcAddr server) = Some l"
    if l: "Listen W net2 (rpcAddr server) = Inr (l, n3)" for l n3
  proof -
    have n3: "listening W n3 = (listening W net2)(rpcAddr server \<mapsto> l)" using law(1) [OF l] by blast
    then have "listening W n3 (rpcHttpsAddr server) \<noteq> None" using net2(2) four(1) by simp
    from law(2) [OF this] obtain e where "Listen W n3 (rpcHttpsAddr server) = Inl e" by blast
    then show ?thesis
      using l n3 by (simp add: OnStart_def startHTTPAndHTTPS_def reg Let_def)
  qed
  with stop net2 at four show ?thesis by auto
qed

section \<open>The namespaces web3, net and txpool\<close>

definition ClientVersion :: string where "ClientVersion = ''smart bch 0.0.1''"

definition web3_Sha3 :: "(bytes \<Rightarrow> bytes) \<Rightarrow> bytes \<Rightarrow> bytes" where
  "web3_Sha3 keccak256 input = keccak256 input"

text \<open>\<^verbatim>\<open>Uint64\<close> of the chain's number keeps its low 64 bits.\<close>

definition newNetAPI :: "u256 \<Rightarrow> uint64" where "newNetAPI chain_id = ucast chain_id"

definition net_Version :: "uint64 \<Rightarrow> string" where "net_Version networkID = show_nat (unat networkID)"
definition net_Listening :: bool where "net_Listening = True"
definition net_PeerCount :: int where "net_PeerCount = 0"

definition txpool_Content :: "(string \<times> (string \<times> (string \<times> rpc_Transaction) list) list) list" where
  "txpool_Content = [(''pending'', []), (''queued'', [])]"

definition txpool_Status :: "(string \<times> nat) list" where
  "txpool_Status = [(''pending'', 0), (''queued'', 0)]"

definition txpool_Inspect :: "(string \<times> (string \<times> (string \<times> string) list) list) list" where
  "txpool_Inspect = [(''pending'', []), (''queued'', [])]"

section \<open>The rest of the namespace eth\<close>

definition eth_ChainId :: "u256 \<Rightarrow> uint64" where "eth_ChainId chain_id = ucast chain_id"

definition GetUncleByBlockHashAndIndex :: "bytes32 \<Rightarrow> uint64 \<Rightarrow> rpc_object option" where
  "GetUncleByBlockHashAndIndex h i = None"

definition GetUncleByBlockNumberAndIndex :: "uint64 \<Rightarrow> uint64 \<Rightarrow> rpc_object option" where
  "GetUncleByBlockNumberAndIndex n i = None"

definition GetUncleCountByBlockHash :: "bytes32 \<Rightarrow> uint64" where "GetUncleCountByBlockHash h = 0"
definition GetUncleCountByBlockNumber :: "int64 \<Rightarrow> uint64" where "GetUncleCountByBlockNumber n = 0"

definition eth_ProtocolVersion :: "int \<Rightarrow> uint64" where "eth_ProtocolVersion v = word_of_int v"

record sync_info =
  CatchingUp :: bool
  LatestBlockHeight :: int64

definition eth_Syncing :: "string + sync_info \<Rightarrow> (string + rpc_object option)" where
  "eth_Syncing st = (case st of
       Inl e \<Rightarrow> Inl e
     | Inr info \<Rightarrow> Inr (if \<not> CatchingUp info then None
         else Some [''currentBlock'' \<mapsto> VUint64 (LatestBlockHeight info)]))"

section \<open>The namespace evm\<close>

text \<open>The loop at poll \<open>i\<close>: \<open>chain i\<close> is the backend at that time.\<close>

function mine_loop :: "(nat \<Rightarrow> 'l apiBackend) \<Rightarrow> uint64 \<Rightarrow> nat \<Rightarrow> string option go" where
  "mine_loop chain ts i =
     (if i < 100 then
        let B = chain i; h = LatestHeight B in
        case BlockByNumber B h of
          (_, Some e) \<Rightarrow> Inr (Some e)
        | (None, None) \<Rightarrow> Inl NilDeref
        | (Some b, None) \<Rightarrow> if ts \<le>s blk_Timestamp b then Inr None else mine_loop chain ts (i + 1)
      else Inr (Some ''wait too long''))"
  by pat_completeness auto
termination by (relation "measure (\<lambda>(chain, ts, i). 100 - i)") auto

declare mine_loop.simps [simp del]

definition evm_Mine :: "(nat \<Rightarrow> 'l apiBackend) \<Rightarrow> uint64 \<Rightarrow> string option go" where
  "evm_Mine chain ts = mine_loop chain ts 0"

text \<open>What poll \<open>i\<close> sees: the time of the latest block, when the backend has it.\<close>

definition latest_time :: "'l apiBackend \<Rightarrow> int64 option" where
  "latest_time B = (case BlockByNumber B (LatestHeight B) of (Some b, None) \<Rightarrow> Some (blk_Timestamp b) | _ \<Rightarrow> None)"

lemma mine_loop_ok:
  assumes "\<forall>j. i \<le> j \<and> j < 100 \<longrightarrow> latest_time (chain j) \<noteq> None"
  shows "mine_loop chain ts i =
    (if \<exists>j. i \<le> j \<and> j < 100 \<and> ts \<le>s the (latest_time (chain j)) then Inr None else Inr (Some ''wait too long''))"
  using assms
proof (induction chain ts i rule: mine_loop.induct)
  case (1 chain ts i)
  show ?case
  proof (cases "i < 100")
    case False
    then show ?thesis by (subst mine_loop.simps) auto
  next
    case True
    with "1.prems" have "latest_time (chain i) \<noteq> None" by simp
    then obtain b where b: "BlockByNumber (chain i) (LatestHeight (chain i)) = (Some b, None)"
      by (auto simp: latest_time_def split: prod.splits option.splits)
    then have t: "latest_time (chain i) = Some (blk_Timestamp b)" by (simp add: latest_time_def)
    show ?thesis
    proof (cases "ts \<le>s blk_Timestamp b")
      case True
      with \<open>i < 100\<close> b t show ?thesis by (subst mine_loop.simps) auto
    next
      case False
      have IH: "mine_loop chain ts (i + 1) = (if \<exists>j. i + 1 \<le> j \<and> j < 100 \<and> ts \<le>s the (latest_time (chain j))
          then Inr None else Inr (Some ''wait too long''))"
        by (rule "1.IH" [OF True refl refl b [symmetric] refl refl False]) (use "1.prems" in auto)
      have "(\<exists>j. i \<le> j \<and> j < 100 \<and> ts \<le>s the (latest_time (chain j))) =
          (\<exists>j. i + 1 \<le> j \<and> j < 100 \<and> ts \<le>s the (latest_time (chain j)))"
        using False t by (metis Suc_eq_plus1 Suc_leD Suc_leI le_neq_implies_less option.sel)
      with IH False True b show ?thesis by (subst mine_loop.simps) simp
    qed
  qed
qed

text \<open>
  (C38) Waiting for a block ends after at most a hundred polls, one second apart: while the latest block can
  always be read, evm_mine succeeds exactly when one of the hundred blocks it sees is not older than the time
  asked for, and is an error otherwise. The time is a 64-bit unsigned number that is compared as a
  signed one, so that times from 2 to the 63 on are reached at once.
\<close>

theorem evm_Mine_waits:
  assumes "\<forall>j < 100. latest_time (chain j) \<noteq> None"
  shows "evm_Mine chain ts =
      (if \<exists>j < 100. ts \<le>s the (latest_time (chain j)) then Inr None else Inr (Some ''wait too long'')) \<and>
    (2 ^ 63 \<le> ts \<and> 0 \<le>s the (latest_time (chain 0)) \<longrightarrow> evm_Mine chain ts = Inr None)"
proof -
  have run: "evm_Mine chain ts =
      (if \<exists>j < 100. ts \<le>s the (latest_time (chain j)) then Inr None else Inr (Some ''wait too long''))"
    using mine_loop_ok [of 0 chain ts] assms by (simp add: evm_Mine_def)
  moreover have "ts \<le>s the (latest_time (chain 0))" if "2 ^ 63 \<le> ts" "0 \<le>s the (latest_time (chain 0))"
  proof -
    have u: "2 ^ 63 \<le> uint ts" "uint ts < 2 ^ 64" using that(1) uint_bounded [of ts] by (simp_all add: word_le_def)
    then have "uint ts div 2 ^ 63 = 1" by (simp add: int_div_pos_eq)
    then have "bit (uint ts) 63" by (simp add: bit_iff_odd)
    then have "sint ts = uint ts - 2 ^ 64"
      using u by (simp add: sint_uint signed_take_bit_eq_take_bit_minus take_bit_int_eq_self)
    then have "sint ts < 0" using u by simp
    with that(2) show ?thesis by (simp add: word_sle_eq)
  qed
  ultimately show ?thesis by auto
qed

section \<open>The namespace tm\<close>

record node_info =
  IsValidator :: bool
  ValidatorIndex :: int64
  ni_Height :: int64
  Seed :: string
  ConsensusPubKey :: bytes
  ni_AppState :: bytes

record tm_node =
  BlockStore_Height :: int64
  NetAddress :: "string option"
  PrivValidator_PubKey :: bytes
  Genesis_AppState :: bytes

definition backend_NodeInfo :: "(bytes \<Rightarrow> string + GenesisData) \<Rightarrow> tm_node \<Rightarrow> node_info" where
  "backend_NodeInfo unmarshal nd =
     (let i = \<lparr>IsValidator = False, ValidatorIndex = 0, ni_Height = BlockStore_Height nd,
            Seed = (case NetAddress nd of None \<Rightarrow> '''' | Some a \<Rightarrow> a), ConsensusPubKey = PrivValidator_PubKey nd,
            ni_AppState = Genesis_AppState nd\<rparr>
      in
      case unmarshal (ni_AppState i) of
        Inl e \<Rightarrow> i
      | Inr genesisData \<Rightarrow>
          foldl (\<lambda>i (k, v). if be_bytes 32 (Pubkey v) = ConsensusPubKey i
                             then i\<lparr>IsValidator := True, ValidatorIndex := of_nat k\<rparr> else i)
            i (enumerate 0 (gd_Validators genesisData)))"

text \<open>
  The genesis data with keys and coins as hexadecimal words: the fields are the same, so that only the
  encoder differs.
\<close>

definition castAppState :: "(bytes \<Rightarrow> string + GenesisData) \<Rightarrow> (GenesisData \<Rightarrow> string + bytes) \<Rightarrow> node_info \<Rightarrow> node_info" where
  "castAppState unmarshal marshalForRPC nodeInfo = (case unmarshal (ni_AppState nodeInfo) of
       Inl e \<Rightarrow> nodeInfo
     | Inr genesisData \<Rightarrow>
         (case marshalForRPC genesisData of Inl e \<Rightarrow> nodeInfo | Inr appState \<Rightarrow> nodeInfo\<lparr>ni_AppState := appState\<rparr>))"

definition tm_NodeInfo ::
  "(bytes \<Rightarrow> string + GenesisData) \<Rightarrow> (GenesisData \<Rightarrow> string + bytes) \<Rightarrow> (node_info \<Rightarrow> bytes) \<Rightarrow> tm_node \<Rightarrow> bytes" where
  "tm_NodeInfo unmarshal marshalForRPC marshalInfo nd =
     marshalInfo (castAppState unmarshal marshalForRPC (backend_NodeInfo unmarshal nd))"

section \<open>Witnesses\<close>

text \<open>A network is a list of the open listeners and their addresses, the newest first.\<close>

definition list_network :: "(string \<times> nat) list network" where
  "list_network = \<lparr>
     Listen = (\<lambda>n a. case map_of n a of
       Some _ \<Rightarrow> Inl ''address already in use''
     | None \<Rightarrow> (let l = Suc (Max (insert 0 (set (map snd n)))) in Inr (l, (a, l) # n))),
     Close = (\<lambda>n l. filter (\<lambda>(a, k). map_of n a \<noteq> Some l) n), listening = map_of\<rparr>"

lemma map_of_filter_key: "map_of (filter (\<lambda>(b, k). Q b) xs) a = (if Q a then map_of xs a else None)"
  by (induction xs) auto

lemma list_network_laws: "network_laws list_network"
proof -
  have "map_of (filter (\<lambda>(b, k). map_of n b \<noteq> Some l) n) a = (if map_of n a = Some l then None else map_of n a)"
    for n :: "(string \<times> nat) list" and l a
    by (simp add: map_of_filter_key)
  moreover have "map_of n b \<noteq> Some (Suc (Max (insert 0 (set (map snd n)))))" for n :: "(string \<times> nat) list" and b
  proof
    assume "map_of n b = Some (Suc (Max (insert 0 (set (map snd n)))))"
    then have "Suc (Max (insert 0 (set (map snd n)))) \<in> set (map snd n)" by (force dest: map_of_SomeD)
    then have "Suc (Max (insert 0 (set (map snd n)))) \<le> Max (insert 0 (set (map snd n)))" by (intro Max_ge) auto
    then show False by simp
  qed
  ultimately show ?thesis
    unfolding network_laws_def by (auto simp: list_network_def Let_def split: option.splits)
qed

definition list_gethrpc :: "(string \<times> string) list gethrpc" where
  "list_gethrpc = \<lparr>gethrpc_NewServer = [], RegisterName = (\<lambda>g ns s. Inr (g @ [(ns, s)])), gethrpc_Stop = (\<lambda>g. [])\<rparr>"

definition default_server :: "(string \<times> string) list Server" where
  "default_server = NewServer ''tcp://:8545'' ''tcp://:8546'' ''cert'' ''key'' []"

theorem OnStop_leaves_listeners_witness:
  "\<exists>server net server2 net2. OnStart list_gethrpc list_network (default_server, []) = (None, server, net) \<and>
     OnStop list_gethrpc list_network (server, net) = Inr (server2, net2) \<and>
     listening list_network net2 ''tcp://:8545'' = None \<and> listening list_network net2 ''tcp://:8546'' \<noteq> None"
proof -
  have addrs: "rpcAddr default_server = ''tcp://:8545''" "wsAddr default_server = ''tcp://:8546''"
    "rpcHttpsAddr default_server = ''tcp://:9545''" "wssAddr default_server = ''tcp://:9546''"
    by (simp_all add: default_server_def NewServer_def)
  have four: "distinct [rpcAddr default_server, rpcHttpsAddr default_server, wsAddr default_server, wssAddr default_server]"
    by (simp add: addrs)
  have "\<exists>server net. OnStart list_gethrpc list_network (default_server, []) = (None, server, net)"
    by (simp add: OnStart_def startHTTPAndHTTPS_def startWSAndWSS_def addrs GetAPIs_def public_api_def list_gethrpc_def
        list_network_def Let_def)
  then obtain server net where start: "OnStart list_gethrpc list_network (default_server, []) = (None, server, net)" by blast
  from OnStop_leaves_listeners [OF list_network_laws four start] start show ?thesis unfolding addrs by blast
qed

text \<open>A chain whose latest block is older at first, and is new enough at the second poll.\<close>

definition mining_chain :: "nat \<Rightarrow> Log apiBackend" where
  "mining_chain i = \<lparr>app_height = 1, hist = \<lparr>
     h_GetBlockByHash = (\<lambda>h. (None, Some ''no block'')),
     h_GetBlockByHeight = (\<lambda>h. (Some (zero_Block\<lparr>blk_Timestamp := of_nat i\<rparr>), None)),
     h_GetTxByHash = (\<lambda>h. (None, Some ''no transaction'')), h_GetLatestHeight = 1, h_QueryLogs = (\<lambda>a t s e. Inr []),
     ToGethLogs = (\<lambda>ls. ls), h_QueryTxBySrc = (\<lambda>a s e l. Inr []), h_QueryTxByDst = (\<lambda>a s e l. Inr []),
     h_QueryTxByAddr = (\<lambda>a s e l. Inr []), h_BasicQueryLogs = (\<lambda>a t s e l. Inr []), h_GetTxListByHeight = (\<lambda>h. Inr []),
     h_GetToAddressCount = (\<lambda>a. 0), h_GetFromAddressCount = (\<lambda>a. 0), h_GetSep20ToAddressCount = (\<lambda>c a. 0),
     h_GetSep20FromAddressCount = (\<lambda>c a. 0), ErrBlockNotFound = ''block not found''\<rparr>\<rparr>"

theorem evm_Mine_waits_witness:
  "evm_Mine mining_chain 1 = Inr None \<and> evm_Mine mining_chain 200 = Inr (Some ''wait too long'')"
proof -
  have time: "latest_time (mining_chain j) = Some (of_nat j)" for j
    by (simp add: latest_time_def mining_chain_def BlockByNumber_def LatestHeight_def zero_Block_def)
  have small: "sint (of_nat j :: int64) = int j" if "j < 100" for j
    using that by (simp add: sint_uint signed_take_bit_int_eq_self unsigned_of_nat take_bit_nat_eq_self)
  have "evm_Mine mining_chain ts =
      (if \<exists>j < 100. ts \<le>s of_nat j then Inr None else Inr (Some ''wait too long''))" for ts
    using evm_Mine_waits [of mining_chain ts] by (simp add: time)
  moreover have "\<exists>j < 100. (1 :: int64) \<le>s of_nat j" by (intro exI [of _ 1]) (simp add: word_sle_eq)
  moreover have "\<not> (\<exists>j < 100. (200 :: int64) \<le>s of_nat j)" using small by (auto simp: word_sle_eq)
  ultimately show ?thesis by simp
qed

end
