(* ===== verification/Start_Node.thy ===== *)
theory Start_Node
  imports Command_Line Rpc_Server
begin

text \<open>
  Starting a node (\<^verbatim>\<open>cmd/smartbchd/start.go\<close>): the command reads the chain id of the genesis file, makes the
  application, starts tendermint with it and then the RPC server. Here the parts meet: the genesis file is
  the one \<^verbatim>\<open>init\<close> wrote, the application comes from \<open>NewApp\<close>, the listeners from \<open>OnStart\<close>, and the accounts
  that \<^verbatim>\<open>eth_accounts\<close> can sign for from the keys to unlock. What tendermint does is a parameter: whether
  its key can be loaded, and whether the node can be made and started. From then on it calls the
  application, which is \<open>run\<close> of \<open>App_Run\<close>.
\<close>

record ('c, 'x, 'g, 'n) host =
  ho_WriteBack :: "'c write_back"
  ho_world :: 'c
  ho_history :: "modb_Block list"
  ho_engine :: 'x
  ho_gethrpc :: "'g gethrpc"
  ho_network :: "'n network"
  ho_net :: 'n
  RootDir :: string
  LoadOrGenNodeKey :: "string + string"
  node_NewNode :: "string option"
  tmNode_Start :: "string option"

record start_flags =
  flagRpcAddr :: string
  flagWsAddr :: string
  flagUnlock :: string
  flagRetainBlocks :: int64

record ('c, 'x, 'g, 'n) running =
  rn_App :: "('c, 'x) App"
  rn_Server :: "'g Server"
  rn_net :: 'n

text \<open>
  The id of the node's key is printed before the error of loading the key is looked at: with an error, the key is
  nil.
\<close>

definition startInProcess ::
  "('c, 'a, 'e, 'x, 'u) lib \<Rightarrow> ('k, 't) cmd_env \<Rightarrow> ('c, 'x, 'g, 'n) host \<Rightarrow> start_flags \<Rightarrow> GenesisDoc option \<Rightarrow>
   ('c, 'x, 'g, 'n) running cmd go" where
  "startInProcess L C H fl genFile =
     (let paramConfig = DefaultConfig\<lparr>cfg_RetainBlocks := flagRetainBlocks fl\<rparr> in
      case getChainID C genFile of
        Inl e \<Rightarrow> Inr (Inl e)
      | Inr chainID \<Rightarrow>
          bindG (NewApp L (ho_WriteBack H) paramConfig chainID (ho_world H) (ho_history H) (ho_engine H)) (\<lambda>app.
            case LoadOrGenNodeKey H of
              Inl e \<Rightarrow> Inl NilDeref
            | Inr nodeID \<Rightarrow>
                (case node_NewNode H of
                   Some e \<Rightarrow> Inr (Inl (LibraryError e))
                 | None \<Rightarrow>
                     (case tmNode_Start H of
                        Some e \<Rightarrow> Inr (Inl (LibraryError e))
                      | None \<Rightarrow>
                          let rpcServer = NewServer (flagRpcAddr fl) (flagWsAddr fl) (RootDir H @ ''/config/cert.pem'')
                                (RootDir H @ ''/config/key.pem'') (Split (CHR '','') (flagUnlock fl))
                          in
                          (case OnStart (ho_gethrpc H) (ho_network H) (rpcServer, ho_net H) of
                             (Some e, _, _) \<Rightarrow> Inr (Inl (LibraryError e))
                           | (None, rpcServer, net) \<Rightarrow>
                               Inr (Inr \<lparr>rn_App = app, rn_Server = rpcServer, rn_net = net\<rparr>))))))"

section \<open>A node that was started\<close>

lemma NewApp_config:
  assumes "NewApp L WB config cid world history engine = Inr app"
  shows "chainId app = cid \<and> retainBlocks app = cfg_RetainBlocks config"
  using assms
  by (auto simp: NewApp_def restore_block_def reload_def syncBlockInfo_def postCommit_def Let_def case_prod_beta'
      split: option.splits if_splits)

lemma OnStart_listens:
  assumes "network_laws W" and "OnStart G W (server, net) = (None, server', net')"
    and "a \<in> {rpcAddr server, rpcHttpsAddr server, wsAddr server, wssAddr server}"
  shows "listening W net' a \<noteq> None" and "unlockedKeys server' = unlockedKeys server"
proof -
  from assms(2) obtain s1 s2 h n1 t n2 w n3 u where
    listen: "Listen W net (rpcAddr server) = Inr (h, n1)" "Listen W n1 (rpcHttpsAddr server) = Inr (t, n2)"
      "Listen W n2 (wsAddr server) = Inr (w, n3)" "Listen W n3 (wssAddr server) = Inr (u, net')"
    and server': "server' = server\<lparr>httpServer := Some s1, httpListener := Some h, httpsListener := Some t,
      wsServer := Some s1, wsListener := Some w, wssListener := Some u\<rparr>"
    by (rule OnStart_ok)
  have law: "Listen W n b = Inr (l, n') \<Longrightarrow> listening W n' = (listening W n)(b \<mapsto> l)" for n b l n'
    using assms(1) unfolding network_laws_def by blast
  have "listening W net' = (listening W net)(rpcAddr server \<mapsto> h, rpcHttpsAddr server \<mapsto> t, wsAddr server \<mapsto> w,
      wssAddr server \<mapsto> u)"
    using law [OF listen(1)] law [OF listen(2)] law [OF listen(3)] law [OF listen(4)] by simp
  then show "listening W net' a \<noteq> None" using assms(3) by auto
  show "unlockedKeys server' = unlockedKeys server" by (simp add: server')
qed

lemma startInProcess_parts:
  assumes "startInProcess L C H fl (Some doc) = Inr (Inr r)"
  obtains cid key server where "getChainID C (Some doc) = Inr cid"
    and "NewApp L (ho_WriteBack H) (DefaultConfig\<lparr>cfg_RetainBlocks := flagRetainBlocks fl\<rparr>) cid (ho_world H) (ho_history H)
      (ho_engine H) = Inr (rn_App r)"
    and "LoadOrGenNodeKey H = Inr key"
    and "server = NewServer (flagRpcAddr fl) (flagWsAddr fl) (RootDir H @ ''/config/cert.pem'')
      (RootDir H @ ''/config/key.pem'') (Split (CHR '','') (flagUnlock fl))"
    and "OnStart (ho_gethrpc H) (ho_network H) (server, ho_net H) = (None, rn_Server r, rn_net r)"
proof -
  from assms obtain cid where cid: "getChainID C (Some doc) = Inr cid"
    by (cases "getChainID C (Some doc)") (simp_all add: startInProcess_def)
  note start = assms [unfolded startInProcess_def cid sum.case Let_def]
  from start obtain app where app: "NewApp L (ho_WriteBack H) (DefaultConfig\<lparr>cfg_RetainBlocks := flagRetainBlocks fl\<rparr>) cid
      (ho_world H) (ho_history H) (ho_engine H) = Inr app"
    by (elim bindG_InrE) simp
  note start = start [unfolded app bindG_simps]
  from start obtain key where key: "LoadOrGenNodeKey H = Inr key" by (auto split: sum.splits)
  note start = start [unfolded key sum.case]
  from start have "node_NewNode H = None" "tmNode_Start H = None" by (auto split: option.splits)
  note start = start [unfolded this option.case]
  from start have "rn_App r = app" and
    "OnStart (ho_gethrpc H) (ho_network H) (NewServer (flagRpcAddr fl) (flagWsAddr fl) (RootDir H @ ''/config/cert.pem'')
      (RootDir H @ ''/config/key.pem'') (Split (CHR '','') (flagUnlock fl)), ho_net H) = (None, rn_Server r, rn_net r)"
    by (auto split: prod.splits option.splits)
  with app show ?thesis by (intro that [OF cid _ key refl]) simp_all
qed

text \<open>
  (C35) A node starts on what \<^verbatim>\<open>init\<close> made. When a chain was made by \<^verbatim>\<open>init\<close> and a node starts on it, the chain id was
  given as 0x and a number, the application and the RPC server have it, all four addresses of the server
  are open, and, when the keys to unlock are the test keys the chain was made with, the accounts that
  the node lists are exactly the ones with coins. When the key of the node cannot be loaded,
  starting panics rather than returning the error.
\<close>

theorem start_follows_init:
  assumes "genesis_laws C" and "json_laws C is_text" and "network_laws (ho_network H)"
    and "run_init C files ifl genFile = Inr (Inr doc)" and "startInProcess L C H fl (Some doc) = Inr (Inr r)"
    and "\<And>xs. mset (order xs) = mset xs"
  shows "FlagChainID ifl \<noteq> '''' \<and> parseChainID (FlagChainID ifl) = Inr (chainId (rn_App r)) \<and>
    (\<forall>a \<in> {flagRpcAddr fl, ''tcp://:9545'', flagWsAddr fl, ''tcp://:9546''}. listening (ho_network H) (rn_net r) a \<noteq> None) \<and>
    (flagUnlock fl = FlagTestKeys ifl \<and> FlagTestKeys ifl \<noteq> '''' \<longrightarrow>
       (\<exists>g. GenesisData_Unmarshal C (doc_AppState doc) = Inr g \<and>
         set (eth_Accounts order (loadTestAccounts (ce_keylib C) (unlockedKeys (rn_Server r)))) = fst ` set (gd_Alloc g))) \<and>
    (\<forall>e. \<not> (\<exists>x. startInProcess L C (H\<lparr>LoadOrGenNodeKey := Inl e\<rparr>) fl (Some doc) = Inr x))"
proof -
  from assms(5) obtain cid key server where id: "getChainID C (Some doc) = Inr cid"
    and app: "NewApp L (ho_WriteBack H) (DefaultConfig\<lparr>cfg_RetainBlocks := flagRetainBlocks fl\<rparr>) cid (ho_world H) (ho_history H)
      (ho_engine H) = Inr (rn_App r)"
    and server: "server = NewServer (flagRpcAddr fl) (flagWsAddr fl) (RootDir H @ ''/config/cert.pem'')
      (RootDir H @ ''/config/key.pem'') (Split (CHR '','') (flagUnlock fl))"
    and start: "OnStart (ho_gethrpc H) (ho_network H) (server, ho_net H) = (None, rn_Server r, rn_net r)"
    by (rule startInProcess_parts)
  have given: "FlagChainID ifl \<noteq> '''' \<and> parseChainID (FlagChainID ifl) = Inr cid"
    using id getChainID_init [OF assms(1,4)] by (auto split: if_splits)
  have addrs: "{rpcAddr server, rpcHttpsAddr server, wsAddr server, wssAddr server} =
      {flagRpcAddr fl, ''tcp://:9545'', flagWsAddr fl, ''tcp://:9546''}"
    by (simp add: server NewServer_def)
  note open_addr = OnStart_listens(1) [OF assms(3) start, unfolded addrs]
  have keys: "unlockedKeys (rn_Server r) = Split (CHR '','') (flagUnlock fl)"
    using OnStart_listens(2) [OF assms(3) start, of "rpcAddr server"] by (simp add: server NewServer_def)
  have accounts: "set (eth_Accounts order as) = fst ` set as" for as :: "(address \<times> 'k) list"
    using mset_eq_setD [OF assms(6)] by (simp add: eth_Accounts_def sort_Slice_addresses)
  have funded: "\<exists>g. GenesisData_Unmarshal C (doc_AppState doc) = Inr g \<and>
      set (eth_Accounts order (loadTestAccounts (ce_keylib C) (unlockedKeys (rn_Server r)))) = fst ` set (gd_Alloc g)"
    if "flagUnlock fl = FlagTestKeys ifl" "FlagTestKeys ifl \<noteq> ''''"
    using init_funds_unlocked [OF assms(1,2,4) that(2)] unfolding keys accounts that(1) by metis
  have panic: "startInProcess L C (H\<lparr>LoadOrGenNodeKey := Inl e\<rparr>) fl (Some doc) = Inl NilDeref" for e
    by (simp add: startInProcess_def id app)
  show ?thesis
    using given open_addr funded panic NewApp_config [OF app] by auto
qed

section \<open>Witness\<close>

definition witness_host ::
  "(mem_world \<times> Block option, exec_info option, (string \<times> string) list, (string \<times> nat) list) host" where
  "witness_host = \<lparr>ho_WriteBack = late_write, ho_world = (witness_world active_witness active_funds, None), ho_history = [],
     ho_engine = None, ho_gethrpc = list_gethrpc, ho_network = list_network, ho_net = [], RootDir = ''home'',
     LoadOrGenNodeKey = Inr ''id'', node_NewNode = None, tmNode_Start = None\<rparr>"

definition witness_start :: start_flags where
  "witness_start = \<lparr>flagRpcAddr = ''tcp://:8545'', flagWsAddr = ''tcp://:8546'', flagUnlock = ''0x03'', flagRetainBlocks = - 1\<rparr>"

lemma list_network_starts:
  assumes "distinct [rpcAddr server, rpcHttpsAddr server, wsAddr server, wssAddr server]"
  shows "\<exists>server' net. OnStart list_gethrpc list_network (server, []) = (None, server', net)"
  using assms
  by (auto simp: OnStart_def startHTTPAndHTTPS_def startWSAndWSS_def GetAPIs_def public_api_def list_gethrpc_def
      list_network_def Let_def)

theorem start_follows_init_witness:
  "\<exists>doc r g. run_init witness_env (\<lambda>f. None) (witness_flags\<lparr>FlagChainID := ''0x1''\<rparr>) None = Inr (Inr doc) \<and>
     startInProcess block_lib witness_env witness_host witness_start (Some doc) = Inr (Inr r) \<and> chainId (rn_App r) = 1 \<and>
     GenesisData_Unmarshal witness_env (doc_AppState doc) = Inr g \<and>
     set (eth_Accounts id (loadTestAccounts (ce_keylib witness_env) (unlockedKeys (rn_Server r)))) = fst ` set (gd_Alloc g)"
proof -
  let ?fl = "witness_flags\<lparr>FlagChainID := ''0x1''\<rparr>"
  obtain doc where doc: "run_init witness_env (\<lambda>f. None) ?fl None = Inr (Inr doc)" using witness_init_id by blast
  have id: "parseChainID ''0x1'' = Inr 1"
    by (simp add: parseChainID_def ParseUint64_def parse_digits_def fromHexChar_def Let_def)
  with getChainID_init(1) [OF witness_env_laws(1) doc] have cid: "getChainID witness_env (Some doc) = Inr 1" by simp
  obtain app where app: "NewApp block_lib late_write (DefaultConfig\<lparr>cfg_RetainBlocks := - 1\<rparr>) 1
      (witness_world active_witness active_funds, None) [] None = Inr app"
    using first_app_starts by blast
  let ?server = "NewServer ''tcp://:8545'' ''tcp://:8546'' ''home/config/cert.pem'' ''home/config/key.pem'' (Split (CHR '','') ''0x03'')
      :: (string \<times> string) list Server"
  obtain server' net where srv: "OnStart list_gethrpc list_network (?server, []) = (None, server', net)"
    using list_network_starts [of ?server] by (auto simp: NewServer_def)
  let ?r = "\<lparr>rn_App = app, rn_Server = server', rn_net = net\<rparr>"
  have start: "startInProcess block_lib witness_env witness_host witness_start (Some doc) = Inr (Inr ?r)"
    by (simp only: startInProcess_def cid sum.case Let_def witness_host_def witness_start_def host.simps start_flags.simps
        app bindG_simps option.case append.simps srv prod.case)
  have net: "network_laws (ho_network witness_host)" by (simp add: witness_host_def list_network_laws)
  from start_follows_init [OF witness_env_laws net doc start, of id]
  have "parseChainID (FlagChainID ?fl) = Inr (chainId (rn_App ?r)) \<and>
    (flagUnlock witness_start = FlagTestKeys ?fl \<and> FlagTestKeys ?fl \<noteq> '''' \<longrightarrow>
       (\<exists>g. GenesisData_Unmarshal witness_env (doc_AppState doc) = Inr g \<and>
         set (eth_Accounts id (loadTestAccounts (ce_keylib witness_env) (unlockedKeys (rn_Server ?r)))) = fst ` set (gd_Alloc g)))"
    by simp
  moreover have "flagUnlock witness_start = FlagTestKeys ?fl \<and> FlagTestKeys ?fl \<noteq> ''''" "FlagChainID ?fl = ''0x1''"
    by (simp_all add: witness_start_def witness_flags_def)
  ultimately have "chainId (rn_App ?r) = 1" "\<exists>g. GenesisData_Unmarshal witness_env (doc_AppState doc) = Inr g \<and>
      set (eth_Accounts id (loadTestAccounts (ce_keylib witness_env) (unlockedKeys (rn_Server ?r)))) = fst ` set (gd_Alloc g)"
    using id by simp_all
  with doc start show ?thesis by blast
qed

end
