(* ===== verification/Big_Utils.thy ===== *)
theory Big_Utils
  imports Go_Base
begin

text \<open>
  Conversions between the representations of 256-bit numbers (\<^verbatim>\<open>internal/bigutils/bytes.go\<close>): big
  integers of any size, 256-bit words, and slices of 32 bytes. Indexing an empty slice, filling too small
  a buffer and an overflow panic.
\<close>

section \<open>The conversions\<close>

definition big_FromBig :: "int \<Rightarrow> u256 \<times> bool" where
  "big_FromBig v = (word_of_int v, 2 ^ 256 \<le> \<bar>v\<bar>)"

definition ConvertBig :: "int \<Rightarrow> u256 go" where
  "ConvertBig v = (let (u, overflow) = big_FromBig v in
     if overflow then Inl (PanicMsg ''big.Int overflow'') else Inr u)"

text \<open>The first byte is looked at before anything else, and \<^verbatim>\<open>SetBytes\<close> reads an unsigned number.\<close>

definition BigIntFromSlice32 :: "bytes \<Rightarrow> int go" where
  "BigIntFromSlice32 arr = (case arr of
       [] \<Rightarrow> Inl OutOfBounds
     | b # _ \<Rightarrow> let bz = (if 128 \<le> b then 0 # arr else arr) in Inr (int (be_nat bz)))"

text \<open>\<^verbatim>\<open>FillBytes\<close> writes the absolute value, and panics when the buffer of 33 bytes is too small.\<close>

definition BigIntToSlice32 :: "int \<Rightarrow> bytes go" where
  "BigIntToSlice32 v =
     (if 256 ^ 33 \<le> \<bar>v\<bar> then Inl (PanicMsg ''math/big: buffer too small to fit value'')
      else let arr = nat_be 33 (nat \<bar>v\<bar>) in Inr (drop 1 arr))"

definition U256FromSlice32 :: "bytes \<Rightarrow> u256 go" where
  "U256FromSlice32 arr = (if length arr < 32 then Inl OutOfBounds else Inr (be_word (take 32 arr)))"

definition U256ToSlice32 :: "u256 \<Rightarrow> bytes" where
  "U256ToSlice32 v = be_bytes 32 v"

section \<open>Round trips\<close>

lemma be_nat_Cons_0: "be_nat (0 # bs) = be_nat bs"
  by (simp add: be_nat_def)

lemma drop_nat_be: "drop 1 (nat_be (Suc n) k) = nat_be n k"
proof (induction n arbitrary: k)
  case (Suc n)
  have "nat_be (Suc (Suc n)) k = nat_be (Suc n) (k div 256) @ [of_nat (k mod 256)]" by simp
  then have "drop 1 (nat_be (Suc (Suc n)) k) = drop 1 (nat_be (Suc n) (k div 256)) @ [of_nat (k mod 256)]"
    by (simp only: drop_append length_nat_be) simp
  also have "\<dots> = nat_be (Suc n) k" by (simp only: Suc.IH) simp
  finally show ?case .
qed simp

text \<open>
  The conversions are round trips where the number fits. A big integer of at most 256 bits is written as
  32 bytes that are read back as its absolute value; every 32 bytes are read and written back unchanged,
  through big integers as through 256-bit words. A big integer of 257 to 264 bits is cut to its low
  256 bits without an error, as the buffer it is written to is one byte longer than the result, while
  the conversion to a 256-bit word panics.
\<close>

lemma slice32_roundtrip:
  "(\<bar>v\<bar> < 2 ^ 256 \<longrightarrow> bindG (BigIntToSlice32 v) BigIntFromSlice32 = Inr \<bar>v\<bar>) \<and>
   (2 ^ 256 \<le> \<bar>v\<bar> \<and> \<bar>v\<bar> < 2 ^ 264 \<longrightarrow>
      bindG (BigIntToSlice32 v) BigIntFromSlice32 = Inr (\<bar>v\<bar> mod 2 ^ 256) \<and> (\<exists>p. ConvertBig v = Inl p)) \<and>
   (length bs = 32 \<longrightarrow> bindG (BigIntFromSlice32 bs) BigIntToSlice32 = Inr bs \<and>
      map_sum id U256ToSlice32 (U256FromSlice32 bs) = Inr bs) \<and>
   U256FromSlice32 (U256ToSlice32 u) = Inr u"
proof (intro conjI impI)
  have read: "BigIntFromSlice32 bs = Inr (int (be_nat bs))" if "bs \<noteq> []" for bs
    using that by (cases bs) (simp_all add: BigIntFromSlice32_def be_nat_Cons_0 Let_def)
  have wrote: "BigIntToSlice32 v = Inr (nat_be 32 (nat \<bar>v\<bar>))" if "\<bar>v\<bar> < 256 ^ 33" for v
    using that drop_nat_be [of 32 "nat \<bar>v\<bar>"] by (simp add: BigIntToSlice32_def Let_def)
  have pow: "(256 :: int) ^ 33 = 2 ^ 264" "(256 :: nat) ^ 32 = 2 ^ 256" by simp_all
  have wr: "bindG (BigIntToSlice32 v) BigIntFromSlice32 = Inr (\<bar>v\<bar> mod 2 ^ 256)" if "\<bar>v\<bar> < 2 ^ 264"
  proof -
    have "nat_be 32 (nat \<bar>v\<bar>) \<noteq> []" by (metis length_nat_be length_0_conv zero_neq_numeral)
    note this [THEN read]
    moreover have "int (nat \<bar>v\<bar> mod 2 ^ 256) = \<bar>v\<bar> mod 2 ^ 256" by (simp add: zmod_int)
    ultimately show ?thesis using that wrote [of v] by (simp only: pow bindG_simps be_nat_nat_be)
  qed
  show "bindG (BigIntToSlice32 v) BigIntFromSlice32 = Inr \<bar>v\<bar>" if "\<bar>v\<bar> < 2 ^ 256" using wr that by simp
  show "bindG (BigIntToSlice32 v) BigIntFromSlice32 = Inr (\<bar>v\<bar> mod 2 ^ 256)" if "2 ^ 256 \<le> \<bar>v\<bar> \<and> \<bar>v\<bar> < 2 ^ 264"
    using wr that by blast
  show "\<exists>p. ConvertBig v = Inl p" if "2 ^ 256 \<le> \<bar>v\<bar> \<and> \<bar>v\<bar> < 2 ^ 264"
    using that by (simp add: ConvertBig_def big_FromBig_def)
  show "bindG (BigIntFromSlice32 bs) BigIntToSlice32 = Inr bs" if "length bs = 32"
  proof -
    have "be_nat bs < 256 ^ 32" using be_nat_less [of bs] that by simp
    then have "\<bar>int (be_nat bs)\<bar> < 256 ^ 33" by (simp add: pow)
    with wrote [of "int (be_nat bs)"] read [of bs] nat_be_be_nat [of bs] that show ?thesis by fastforce
  qed
  show "map_sum id U256ToSlice32 (U256FromSlice32 bs) = Inr bs" if "length bs = 32"
    using that be_bytes_be_word [of bs 32, where 'a = 256] by (simp add: U256FromSlice32_def U256ToSlice32_def)
  show "U256FromSlice32 (U256ToSlice32 u) = Inr u"
    by (simp add: U256FromSlice32_def U256ToSlice32_def be_word_be_bytes)
qed

lemma slice32_roundtrip_witness:
  "bindG (BigIntToSlice32 (- 5)) BigIntFromSlice32 = Inr 5 \<and>
   bindG (BigIntToSlice32 (2 ^ 256 + 7)) BigIntFromSlice32 = Inr 7 \<and>
   bindG (BigIntFromSlice32 (replicate 32 255)) BigIntToSlice32 = Inr (replicate 32 255)"
  using slice32_roundtrip [of "- 5" "replicate 32 255" 0] slice32_roundtrip [of "2 ^ 256 + 7" "[]" 0] by simp

end
