(* ===== verification/Test_Blocks.thy ===== *)
theory Test_Blocks
  imports App_Blocks Eth_Api
begin

text \<open>
  What the tests of the log services are made of (\<^verbatim>\<open>block_builder.go\<close>, \<^verbatim>\<open>filter_builder.go\<close>,
  \<^verbatim>\<open>filters.go\<close> and \<^verbatim>\<open>hex.go\<close> of \<^verbatim>\<open>internal/testutils\<close>): blocks for the history store, made outside the
  application, and the criteria of filters. Encoders and the Bloom filter of go-ethereum are parameters. The blocks
  the tests search are compared with the ones the application records.
\<close>

section \<open>The library as a parameter\<close>

record mo_Log =
  mo_Address :: address
  mo_Topics :: "bytes32 list"
  mo_BlockNumber :: uint64
  mo_BlockHash :: bytes32
  mo_TxHash :: bytes32

record builder_lib =
  bl_Tx_MarshalMsg :: "mo_Log Transaction \<Rightarrow> bytes"
  bl_Block_MarshalMsg :: "Block \<Rightarrow> bytes"
  Bloom_Add :: "Bloom \<Rightarrow> bytes \<Rightarrow> Bloom"

text \<open>What was added to a Bloom filter is found in it, and an empty one has nothing.\<close>

definition bloom_laws :: "geth \<Rightarrow> builder_lib \<Rightarrow> bool" where
  "bloom_laws G B \<longleftrightarrow> (\<forall>b x. BloomLookup G (Bloom_Add B b x) x) \<and>
     (\<forall>b x y. BloomLookup G b y \<longrightarrow> BloomLookup G (Bloom_Add B b x) y) \<and> (\<forall>x. \<not> BloomLookup G 0 x)"

section \<open>Building blocks\<close>

record MdbBlockBuilder =
  bb_block :: Block
  bb_txs :: "mo_Log Transaction list"

definition NewMdbBlockBuilder :: MdbBlockBuilder where
  "NewMdbBlockBuilder = \<lparr>bb_block = zero_Block, bb_txs = []\<rparr>"

definition bb_Height :: "int64 \<Rightarrow> MdbBlockBuilder \<Rightarrow> MdbBlockBuilder" where
  "bb_Height h bb = bb\<lparr>bb_block := (bb_block bb)\<lparr>blk_Number := h\<rparr>\<rparr>"

definition bb_Hash :: "bytes32 \<Rightarrow> MdbBlockBuilder \<Rightarrow> MdbBlockBuilder" where
  "bb_Hash k bb = bb\<lparr>bb_block := (bb_block bb)\<lparr>blk_Hash := k\<rparr>\<rparr>"

definition zero_Transaction :: "mo_Log Transaction" where
  "zero_Transaction = \<lparr>tx_Hash = 0, tx_BlockHash = 0, tx_BlockNumber = 0, tx_TransactionIndex = 0, tx_From = 0, tx_To = 0,
     tx_Logs = [], txd_Nonce = 0, txd_Value = 0, txd_GasPrice = 0, txd_Gas = 0, txd_Input = [],
     txd_CumulativeGasUsed = 0, txd_GasUsed = 0, txd_ContractAddress = 0, txd_Status = 0, txd_StatusStr = '''',
     txd_LogsBloom = 0\<rparr>"

text \<open>
  The loop of \<^verbatim>\<open>Tx\<close> sets the fields of its variable, which is a copy of the element: the list stays as
  it was.
\<close>

definition stamp_log :: "MdbBlockBuilder \<Rightarrow> bytes32 \<Rightarrow> mo_Log \<Rightarrow> mo_Log" where
  "stamp_log bb txHash log = log\<lparr>mo_BlockNumber := blk_Number (bb_block bb), mo_BlockHash := blk_Hash (bb_block bb),
     mo_TxHash := txHash\<rparr>"

definition bb_Tx :: "bytes32 \<Rightarrow> mo_Log list \<Rightarrow> MdbBlockBuilder \<Rightarrow> MdbBlockBuilder" where
  "bb_Tx txHash logs bb =
     (let bb = bb\<lparr>bb_block := (bb_block bb)\<lparr>blk_Transactions := blk_Transactions (bb_block bb) @ [txHash]\<rparr>\<rparr>;
          copies = map (stamp_log bb txHash) logs;
          tx = zero_Transaction\<lparr>tx_BlockHash := blk_Hash (bb_block bb), tx_BlockNumber := blk_Number (bb_block bb),
            tx_Hash := txHash, tx_Logs := logs, txd_Status := 1\<rparr>
      in bb\<lparr>bb_txs := bb_txs bb @ [tx]\<rparr>)"

definition TxWithAddr :: "bytes32 \<Rightarrow> address \<Rightarrow> address \<Rightarrow> MdbBlockBuilder \<Rightarrow> MdbBlockBuilder" where
  "TxWithAddr txHash fromAddr toAddr bb =
     (let bb = bb\<lparr>bb_block := (bb_block bb)\<lparr>blk_Transactions := blk_Transactions (bb_block bb) @ [txHash]\<rparr>\<rparr>;
          tx = zero_Transaction\<lparr>tx_BlockHash := blk_Hash (bb_block bb), tx_BlockNumber := blk_Number (bb_block bb),
            tx_Hash := txHash, tx_From := fromAddr, tx_To := toAddr\<rparr>
      in bb\<lparr>bb_txs := bb_txs bb @ [tx]\<rparr>)"

definition toMdbLogs :: "mo_Log list \<Rightarrow> (address \<times> bytes32 list) list" where
  "toMdbLogs logs = map (\<lambda>log. (mo_Address log, mo_Topics log)) logs"

definition createBloom :: "builder_lib \<Rightarrow> modb_Tx list \<Rightarrow> Bloom" where
  "createBloom B txList =
     foldl (\<lambda>bin tx. foldl (\<lambda>bin (addr, topics).
       foldl (\<lambda>bin b. Bloom_Add B bin (be_bytes 32 b)) (Bloom_Add B bin (be_bytes 20 addr)) topics) bin (mtx_LogList tx)) 0 txList"

definition bb_Build :: "builder_lib \<Rightarrow> MdbBlockBuilder \<Rightarrow> modb_Block \<times> MdbBlockBuilder" where
  "bb_Build B bb =
     (let mdbTxList = map (\<lambda>tx. \<lparr>mtx_HashId = tx_Hash tx, mtx_SrcAddr = tx_From tx, mtx_DstAddr = tx_To tx,
            mtx_Content = bl_Tx_MarshalMsg B tx, mtx_LogList = toMdbLogs (tx_Logs tx)\<rparr>) (bb_txs bb);
          bb = bb\<lparr>bb_block := (bb_block bb)\<lparr>blk_LogsBloom := createBloom B mdbTxList\<rparr>\<rparr>;
          blockInfo = bl_Block_MarshalMsg B (bb_block bb)
      in (\<lparr>mdb_Height = blk_Number (bb_block bb), mdb_BlockHash = blk_Hash (bb_block bb), mdb_BlockInfo = blockInfo,
           mdb_TxList = mdbTxList\<rparr>, bb))"

section \<open>Building criteria\<close>

definition empty_criteria :: FilterCriteria where
  "empty_criteria = \<lparr>BlockHash = None, FromBlock = None, ToBlock = None, Addresses = [], Topics = []\<rparr>"

definition NewBlockHashFilter :: "bytes32 \<Rightarrow> FilterCriteria" where
  "NewBlockHashFilter hash = empty_criteria\<lparr>BlockHash := Some hash\<rparr>"

definition NewBlockRangeFilter :: "int64 \<Rightarrow> int64 \<Rightarrow> FilterCriteria" where
  "NewBlockRangeFilter fromB toB = empty_criteria\<lparr>FromBlock := Some (sint fromB), ToBlock := Some (sint toB)\<rparr>"

definition NewAddressFilter :: "address list \<Rightarrow> FilterCriteria" where
  "NewAddressFilter addrs = empty_criteria\<lparr>Addresses := addrs\<rparr>"

definition NewTopicsFilter :: "bytes32 list list \<Rightarrow> FilterCriteria" where
  "NewTopicsFilter topics = empty_criteria\<lparr>Topics := topics\<rparr>"

definition NewFilterBuilder :: FilterCriteria where "NewFilterBuilder = empty_criteria"

definition fb_BlockHash :: "bytes32 \<Rightarrow> FilterCriteria \<Rightarrow> FilterCriteria" where
  "fb_BlockHash blockHash fb = fb\<lparr>BlockHash := Some blockHash\<rparr>"

definition fb_BlockRange :: "int64 \<Rightarrow> int64 \<Rightarrow> FilterCriteria \<Rightarrow> FilterCriteria" where
  "fb_BlockRange fromB toB fb = fb\<lparr>FromBlock := Some (sint fromB), ToBlock := Some (sint toB)\<rparr>"

definition fb_Addresses :: "address list \<Rightarrow> FilterCriteria \<Rightarrow> FilterCriteria" where
  "fb_Addresses addrs fb = fb\<lparr>Addresses := addrs\<rparr>"

definition fb_Topics :: "bytes32 list list \<Rightarrow> FilterCriteria \<Rightarrow> FilterCriteria" where
  "fb_Topics topics fb = fb\<lparr>Topics := topics\<rparr>"

section \<open>Hexadecimal literals\<close>

definition HexToHash32 :: "string \<Rightarrow> bytes32 go" where
  "HexToHash32 s = (case hex_DecodeString (TrimPrefix s ''0x'') of
       (_, Some e) \<Rightarrow> Inl PanicErr
     | (bz, None) \<Rightarrow> Inr (copy_array 32 0 bz))"

definition testutils_HexToBytes :: "string \<Rightarrow> bytes go" where
  "testutils_HexToBytes s =
     (let s = TrimSpace s; s = TrimPrefix s ''0x''; s = filter (\<lambda>c. c \<noteq> CHR 0x0A) s in
      case hex_DecodeString s of (_, Some e) \<Rightarrow> Inl PanicErr | (bz, None) \<Rightarrow> Inr bz)"

section \<open>The Bloom filter of a built block\<close>

definition bloom_has :: "geth \<Rightarrow> Bloom \<Rightarrow> address \<times> bytes32 list \<Rightarrow> bool" where
  "bloom_has G bin = (\<lambda>(addr, topics). BloomLookup G bin (be_bytes 20 addr) \<and>
     (\<forall>t \<in> set topics. BloomLookup G bin (be_bytes 32 t)))"

lemma createBloom_has:
  assumes "bloom_laws G B" and "tx \<in> set txs" and "log \<in> set (mtx_LogList tx)"
  shows "bloom_has G (createBloom B txs) log"
proof -
  let ?topics = "foldl (\<lambda>bin b. Bloom_Add B bin (be_bytes 32 b))"
  let ?log = "\<lambda>bin (addr, topics). ?topics (Bloom_Add B bin (be_bytes 20 addr)) topics"
  let ?tx = "\<lambda>bin tx. foldl ?log bin (mtx_LogList tx)"
  have new: "BloomLookup G (Bloom_Add B b x) x" and old: "BloomLookup G b y \<Longrightarrow> BloomLookup G (Bloom_Add B b x) y" for b x y
    using assms(1) unfolding bloom_laws_def by blast+
  have keep1: "BloomLookup G b y \<Longrightarrow> BloomLookup G (?topics b ts) y" for b ts y
    by (induction ts arbitrary: b) (simp_all add: old)
  have topics: "t \<in> set ts \<Longrightarrow> BloomLookup G (?topics b ts) (be_bytes 32 t)" for t ts b
    by (induction ts arbitrary: b) (auto simp: new keep1)
  have keep2: "BloomLookup G b y \<Longrightarrow> BloomLookup G (foldl ?log b ls) y" for b ls y
    by (induction ls arbitrary: b) (auto simp: old keep1)
  have has: "bloom_has G (?log b l) l" for b l by (cases l) (simp add: bloom_has_def new keep1 topics)
  have mono: "bloom_has G b l \<Longrightarrow> (\<And>y. BloomLookup G b y \<Longrightarrow> BloomLookup G b' y) \<Longrightarrow> bloom_has G b' l" for b b' l
    by (auto simp: bloom_has_def)
  have logs: "l \<in> set ls \<Longrightarrow> bloom_has G (foldl ?log b ls) l" for b l ls
  proof (induction ls arbitrary: b)
    case (Cons k ls)
    then show ?case using mono [OF has [of b k] keep2] by (cases "k = l") auto
  qed simp
  have keep3: "BloomLookup G b y \<Longrightarrow> BloomLookup G (foldl ?tx b txs) y" for b txs y
    by (induction txs arbitrary: b) (simp_all add: keep2)
  have "tx \<in> set txs \<Longrightarrow> bloom_has G (foldl ?tx b txs) log" for b
  proof (induction txs arbitrary: b)
    case (Cons t txs)
    then show ?case using mono [OF logs [OF assms(3)] keep3] by (cases "t = tx") auto
  qed simp
  from this [OF assms(2)] show ?thesis by (simp add: createBloom_def)
qed

text \<open>The logs of a built block, as they are published: the builder's, in order, whatever their block number was.\<close>

lemma built_logs:
  assumes "bb_Build B bb = (mdb, bb')"
  shows "map (\<lambda>l. (log_Address l, log_Topics l)) (collectAllGethLogs mdb) =
    concat (map (\<lambda>tx. map (\<lambda>l. (mo_Address l, mo_Topics l)) (tx_Logs tx)) (bb_txs bb))"
  using assms by (auto simp: bb_Build_def Let_def collectAllGethLogs_def map_concat toMdbLogs_def comp_def)

lemma built_bloom_covers:
  assumes "bloom_laws G B" and "bb_Build B bb = (mdb, bb')"
  shows "bloom_covers G (blk_LogsBloom (bb_block bb')) (collectAllGethLogs mdb)"
proof -
  have bloom: "blk_LogsBloom (bb_block bb') = createBloom B (mdb_TxList mdb)"
    using assms(2) by (auto simp: bb_Build_def Let_def)
  have "bloom_has G (createBloom B (mdb_TxList mdb)) (log_Address l, log_Topics l)" if "l \<in> set (collectAllGethLogs mdb)" for l
    using that createBloom_has [OF assms(1)] by (fastforce simp: collectAllGethLogs_def)
  then show ?thesis unfolding bloom bloom_covers_def by (auto simp: bloom_has_def)
qed

lemma empty_bloom_rejects:
  assumes "bloom_laws G B" and "addresses \<noteq> [] \<or> (\<exists>sub \<in> set topics. sub \<noteq> [])"
  shows "\<not> bloomFilter G 0 addresses topics"
  using assms by (auto simp: bloom_laws_def bloomFilter_def list_all_iff)

lemma history_block_bloom:
  assumes "history_block L app prevBlk = Inr mdb"
  shows "\<exists>b. Block_MarshalMsg L b = Inr (mdb_BlockInfo mdb) \<and> blk_LogsBloom b = blk_LogsBloom prevBlk"
proof -
  let ?b = "prevBlk\<lparr>blk_StateRoot := blk_StateRoot (block app), blk_GasUsed := lastGasUsed app,
      blk_Transactions := map tx_Hash (CommittedTxs L (txEngine app))\<rparr>"
  have "Block_MarshalMsg L ?b = Inr (mdb_BlockInfo mdb)"
    using assms by (auto simp: history_block_def Let_def split: sum.splits)
  then show ?thesis by (intro exI [of _ ?b]) simp
qed

text \<open>
  The blocks that the tests search are not like the blocks that the application records. The Bloom filter of a
  block from the builder lets every query through that one of its logs matches, so that searches find
  the log; but a block the application makes has an empty Bloom filter, which is recorded with it, and rejects
  every query with an address or a topic, whatever logs the block has.
\<close>

lemma built_blocks_hide_empty_bloom:
  assumes "bloom_laws G B" and "bb_Build B bb = (mdb, bb')"
    and "l \<in> set (collectAllGethLogs mdb)" and "criteria_ok addresses topics l"
    and "addresses \<noteq> [] \<or> (\<exists>sub \<in> set topics. sub \<noteq> [])"
  shows "mdb_BlockInfo mdb = bl_Block_MarshalMsg B (bb_block bb') \<and>
    bloomFilter G (blk_LogsBloom (bb_block bb')) addresses topics \<and>
    (\<forall>L app req app2 rec. history_block L app2 (block (BeginBlock app req)) = Inr rec \<longrightarrow>
       (\<exists>b. Block_MarshalMsg L b = Inr (mdb_BlockInfo rec) \<and> \<not> bloomFilter G (blk_LogsBloom b) addresses topics))"
proof (intro conjI allI impI)
  show "mdb_BlockInfo mdb = bl_Block_MarshalMsg B (bb_block bb')" using assms(2) by (auto simp: bb_Build_def Let_def)
  show "bloomFilter G (blk_LogsBloom (bb_block bb')) addresses topics"
    by (rule bloomFilter_complete [OF built_bloom_covers [OF assms(1,2)] assms(3,4)])
  fix L app req app2 rec
  assume "history_block L app2 (block (BeginBlock app req)) = Inr rec"
  moreover have "blk_LogsBloom (block (BeginBlock app req)) = 0" by (simp add: BeginBlock_def Let_def)
  ultimately obtain b where "Block_MarshalMsg L b = Inr (mdb_BlockInfo rec)" "blk_LogsBloom b = 0"
    using history_block_bloom by metis
  with empty_bloom_rejects [OF assms(1,5)]
  show "\<exists>b. Block_MarshalMsg L b = Inr (mdb_BlockInfo rec) \<and> \<not> bloomFilter G (blk_LogsBloom b) addresses topics" by auto
qed

section \<open>Witness\<close>

text \<open>A Bloom filter with one bit, which everything that is added sets.\<close>

definition one_bit_geth :: geth where
  "one_bit_geth = \<lparr>BloomLookup = (\<lambda>bloom x. bloom \<noteq> 0), Matcher_Start = (\<lambda>_ _ _. Inr ([], None))\<rparr>"

definition one_bit_lib :: builder_lib where
  "one_bit_lib = \<lparr>bl_Tx_MarshalMsg = (\<lambda>tx. []), bl_Block_MarshalMsg = (\<lambda>b. []), Bloom_Add = (\<lambda>b x. 1)\<rparr>"

definition one_log_builder :: MdbBlockBuilder where
  "one_log_builder = bb_Tx 5 [\<lparr>mo_Address = 0xaa, mo_Topics = [7], mo_BlockNumber = 0, mo_BlockHash = 0, mo_TxHash = 0\<rparr>]
     (bb_Hash 11 (bb_Height 1 NewMdbBlockBuilder))"

lemma built_blocks_hide_empty_bloom_witness:
  "\<exists>mdb bb'. bb_Build one_bit_lib one_log_builder = (mdb, bb') \<and> mdb_Height mdb = 1 \<and>
     bloomFilter one_bit_geth (blk_LogsBloom (bb_block bb')) [0xaa] [[7]]"
proof -
  obtain mdb bb' where build: "bb_Build one_bit_lib one_log_builder = (mdb, bb')" by fastforce
  have laws: "bloom_laws one_bit_geth one_bit_lib"
    by (simp add: bloom_laws_def one_bit_geth_def one_bit_lib_def)
  let ?l = "\<lparr>log_Address = 0xaa, log_Topics = [7], log_BlockNumber = 0, log_TxHash = 0\<rparr>"
  from build have mdb: "mdb_Height mdb = 1" "collectAllGethLogs mdb = [?l]"
    by (auto simp: bb_Build_def one_log_builder_def bb_Tx_def bb_Hash_def bb_Height_def NewMdbBlockBuilder_def
        collectAllGethLogs_def toMdbLogs_def Let_def)
  then have "?l \<in> set (collectAllGethLogs mdb)" by simp
  moreover have "criteria_ok [0xaa] [[7]] ?l" by (simp add: criteria_ok_def)
  ultimately have "bloomFilter one_bit_geth (blk_LogsBloom (bb_block bb')) [0xaa] [[7]]"
    using built_blocks_hide_empty_bloom [OF laws build] by blast
  with build mdb show ?thesis by blast
qed

end
