(* ===== verification/Rpc_Schema.thy ===== *)
theory Rpc_Schema
  imports Eth_Api
begin

text \<open>
  The types of the JSON objects that the handlers of \<^verbatim>\<open>rpc/api\<close> answer with: \<^verbatim>\<open>map[string]interface{}\<close> in the
  code, where nothing but the handlers decides what a field holds. A schema gives the fields that are always there
  and the ones that may be, each with the type of its value; the lemmas show that every block and every
  receipt of every handler fits its schema.
\<close>

section \<open>Schemas\<close>

datatype rpc_type =
    TUint64
  | TFixedBytes nat
  | TData
  | THash
  | TAddressOrNull
  | TBloom
  | THashesOrTransactions
  | TLogs
  | TStrings
  | TString

fun has_type :: "rpc_value \<Rightarrow> rpc_type \<Rightarrow> bool" where
  "has_type (VUint64 x) t = (t = TUint64)"
| "has_type (VBytes bs) t = (t = TData \<or> t = TFixedBytes (length bs))"
| "has_type (VHash h) t = (t = THash)"
| "has_type (VAddress a) t = (t = TAddressOrNull)"
| "has_type (VBloom b) t = (t = TBloom)"
| "has_type (VHashes hs) t = (t = THashesOrTransactions)"
| "has_type (VTransactions ts) t = (t = THashesOrTransactions)"
| "has_type (VLogs ls) t = (t = TLogs)"
| "has_type (VStrings ss) t = (t = TStrings)"
| "has_type (VString s) t = (t = TString)"
| "has_type VNil t = (t = TAddressOrNull)"

definition typed :: "(string \<times> rpc_type) list \<Rightarrow> (string \<times> rpc_type) list \<Rightarrow> rpc_object \<Rightarrow> bool" where
  "typed required optional obj \<longleftrightarrow>
     list_all (\<lambda>(k, t). case obj k of None \<Rightarrow> False | Some v \<Rightarrow> has_type v t) required \<and>
     list_all (\<lambda>(k, t). case obj k of None \<Rightarrow> True | Some v \<Rightarrow> has_type v t) optional \<and>
     dom obj \<subseteq> fst ` set (required @ optional)"

definition block_fields :: "(string \<times> rpc_type) list" where
  "block_fields = [(''number'', TUint64), (''hash'', TFixedBytes 32), (''parentHash'', TFixedBytes 32),
     (''nonce'', TFixedBytes 8), (''sha3Uncles'', THash), (''logsBloom'', TBloom),
     (''transactionsRoot'', TFixedBytes 32), (''stateRoot'', TFixedBytes 32), (''miner'', TFixedBytes 20),
     (''mixHash'', THash), (''difficulty'', TUint64), (''totalDifficulty'', TUint64), (''extraData'', TData),
     (''size'', TUint64), (''gasLimit'', TUint64), (''gasUsed'', TUint64), (''timestamp'', TUint64),
     (''transactions'', THashesOrTransactions), (''uncles'', TStrings), (''receiptsRoot'', THash)]"

definition receipt_fields :: "(string \<times> rpc_type) list" where
  "receipt_fields = [(''transactionHash'', THash), (''transactionIndex'', TUint64), (''blockHash'', THash),
     (''blockNumber'', TUint64), (''from'', TAddressOrNull), (''to'', TAddressOrNull), (''cumulativeGasUsed'', TUint64),
     (''contractAddress'', TAddressOrNull), (''gasUsed'', TUint64), (''logs'', TLogs), (''logsBloom'', TFixedBytes 256),
     (''status'', TUint64)]"

definition failure_fields :: "(string \<times> rpc_type) list" where
  "failure_fields = [(''statusStr'', TString)]"

section \<open>Blocks and receipts\<close>

lemma block_typed: "typed block_fields [] (blockToRpcResp blk txs)"
  unfolding typed_def
proof (intro conjI)
  show "list_all (\<lambda>(k, t). case blockToRpcResp blk txs k of None \<Rightarrow> False | Some v \<Rightarrow> has_type v t) block_fields"
    by (simp add: block_fields_def blockToRpcResp_def Let_def)
  show "dom (blockToRpcResp blk txs) \<subseteq> fst ` set (block_fields @ [])"
    by (simp add: block_fields_def blockToRpcResp_def Let_def)
qed simp

lemma receipt_typed: "typed receipt_fields failure_fields (txToReceiptRpcResp H tx)"
  unfolding typed_def
proof (intro conjI)
  show "list_all (\<lambda>(k, t). case txToReceiptRpcResp H tx k of None \<Rightarrow> False | Some v \<Rightarrow> has_type v t) receipt_fields"
    by (simp add: receipt_fields_def txToReceiptRpcResp_def Let_def)
  show "list_all (\<lambda>(k, t). case txToReceiptRpcResp H tx k of None \<Rightarrow> True | Some v \<Rightarrow> has_type v t) failure_fields"
    by (simp add: failure_fields_def txToReceiptRpcResp_def Let_def)
  show "dom (txToReceiptRpcResp H tx) \<subseteq> fst ` set (receipt_fields @ failure_fields)"
    by (simp add: receipt_fields_def failure_fields_def txToReceiptRpcResp_def Let_def)
qed

lemma failed_receipt: "txToReceiptRpcResp H tx ''statusStr'' \<noteq> None \<longleftrightarrow> txToReceiptRpcResp H tx ''status'' = Some (VUint64 0)"
  by (simp add: txToReceiptRpcResp_def ReceiptStatusFailed_def Let_def)

lemma block_response_typed:
  fixes B :: "'l apiBackend"
  assumes "block_response B fullTx r = Inr (Inr (Some obj))"
  shows "typed block_fields [] obj" and "\<not> fullTx \<Longrightarrow> \<exists>hs. obj ''transactions'' = Some (VHashes hs)"
proof -
  from assms obtain blk and txs :: "'l Transaction list" where obj: "obj = blockToRpcResp blk txs" and txs: "\<not> fullTx \<longrightarrow> txs = []"
    by (auto simp: block_response_def split: prod.splits option.splits if_splits elim!: bindG_InrE)
  show "typed block_fields [] obj" unfolding obj by (rule block_typed)
  show "\<exists>hs. obj ''transactions'' = Some (VHashes hs)" if "\<not> fullTx"
    using txs that by (simp add: obj blockToRpcResp_def Let_def)
qed

lemma receipt_of:
  fixes B :: "'l apiBackend"
  assumes "GetTransactionReceipt B h = Some rcpt \<or> (\<exists>rcpts. sbch_GetTxListByHeight B n = Inr rcpts \<and> rcpt \<in> set rcpts)"
  shows "\<exists>tx :: 'l Transaction. rcpt = txToReceiptRpcResp (hist B) tx"
  using assms
  by (auto simp: GetTransactionReceipt_def sbch_GetTxListByHeight_def txsToReceiptRpcResp_def
      split: prod.splits option.splits elim!: bindG_InrE)

text \<open>
  (C33) Every object the handlers answer with is well typed, whatever the history store holds: a block, asked for by
  hash or by number, has exactly the twenty fields of a block, each with a value of its type, and a list of
  hashes unless full transactions were asked for; a receipt, asked for by hash or with its block, has the twelve fields of
  a receipt and one more, the text of the failure, exactly when its status is zero.
\<close>

theorem responses_typed:
  "(eth_GetBlockByHash B h fullTx = Inr (Inr (Some obj)) \<or> eth_GetBlockByNumber B n fullTx = Inr (Inr (Some obj)) \<longrightarrow>
      typed block_fields [] obj \<and> (\<not> fullTx \<longrightarrow> (\<exists>hs. obj ''transactions'' = Some (VHashes hs)))) \<and>
   (GetTransactionReceipt B h = Some rcpt \<or> (\<exists>rcpts. sbch_GetTxListByHeight B n = Inr rcpts \<and> rcpt \<in> set rcpts) \<longrightarrow>
      typed receipt_fields failure_fields rcpt \<and> (rcpt ''statusStr'' \<noteq> None \<longleftrightarrow> rcpt ''status'' = Some (VUint64 0)))"
proof (intro conjI impI)
  assume "eth_GetBlockByHash B h fullTx = Inr (Inr (Some obj)) \<or> eth_GetBlockByNumber B n fullTx = Inr (Inr (Some obj))"
  then obtain r where "block_response B fullTx r = Inr (Inr (Some obj))"
    unfolding eth_GetBlockByHash_def eth_GetBlockByNumber_def by blast
  note typed = block_response_typed [OF this]
  from typed(1) show "typed block_fields [] obj" .
  from typed(2) show "\<not> fullTx \<Longrightarrow> \<exists>hs. obj ''transactions'' = Some (VHashes hs)" .
next
  assume "GetTransactionReceipt B h = Some rcpt \<or> (\<exists>rcpts. sbch_GetTxListByHeight B n = Inr rcpts \<and> rcpt \<in> set rcpts)"
  from receipt_of [OF this] obtain tx where rcpt: "rcpt = txToReceiptRpcResp (hist B) tx" by blast
  show "typed receipt_fields failure_fields rcpt" unfolding rcpt by (rule receipt_typed)
  show "rcpt ''statusStr'' \<noteq> None \<longleftrightarrow> rcpt ''status'' = Some (VUint64 0)" unfolding rcpt by (rule failed_receipt)
qed

section \<open>Witness\<close>

theorem responses_typed_witness:
  "\<exists>obj rcpt. eth_GetBlockByHash witness_backend 11 False = Inr (Inr (Some obj)) \<and> typed block_fields [] obj \<and>
     GetTransactionReceipt witness_backend 5 = Some rcpt \<and> typed receipt_fields failure_fields rcpt \<and> rcpt ''statusStr'' = None"
proof -
  have blk: "eth_GetBlockByHash witness_backend 11 False = Inr (Inr (Some (blockToRpcResp Api_Backend.witness_stored ([] :: Log Transaction list))))"
    by (simp add: eth_GetBlockByHash_def block_response_def BlockByHash_def witness_backend_def)
  have rcpt: "GetTransactionReceipt witness_backend 5 = Some (txToReceiptRpcResp (hist witness_backend) witness_tx)"
    by (simp add: GetTransactionReceipt_def backend_GetTransaction_def witness_backend_def)
  have "txToReceiptRpcResp (hist witness_backend) witness_tx ''status'' = Some (VUint64 1)"
    by (simp add: txToReceiptRpcResp_def witness_tx_def Let_def)
  then have none: "txToReceiptRpcResp (hist witness_backend) witness_tx ''status'' \<noteq> Some (VUint64 0)" by simp
  let ?obj = "blockToRpcResp Api_Backend.witness_stored ([] :: Log Transaction list)"
    and ?rcpt = "txToReceiptRpcResp (hist witness_backend) witness_tx"
  have "typed block_fields [] ?obj"
    using responses_typed [of witness_backend 11 False ?obj] blk by simp
  moreover have "typed receipt_fields failure_fields ?rcpt \<and> ?rcpt ''statusStr'' = None"
    using responses_typed [of witness_backend 5 False ?obj 0 ?rcpt] rcpt none by simp
  ultimately show ?thesis using blk rcpt by blast
qed

end
