(* ===== verification/Mock_Node.thy ===== *)
theory Mock_Node
  imports Bch_Rpc
begin

text \<open>
  The stand-in for the main chain node (\<^verbatim>\<open>staking/mocknode/main.go\<close>): it reads a list of blocks and one of
  transactions from two files and answers the four requests of \<open>Bch_Rpc\<close> from them. And the
  command that prints the OP_RETURN outputs of a range of blocks (\<^verbatim>\<open>staking/showopreturn/main.go\<close>).
  The JSON decoder of the files is a parameter. The RPC server, which finds the service of a request and
  encodes its result, is a library that \<^verbatim>\<open>main\<close> only starts, and is left out: the services are functions of
  the decoded arguments. Nor is the node connected to the model of the client, which posts every request
  to port 8332, while this node listens on port 1234.
\<close>

record mocknode =
  Blockcount :: int64
  BlockHeight2Hash :: "int64 \<rightharpoonup> string"
  BlockHash2Content :: "string \<rightharpoonup> BlockInfoResp"
  TxHash2Content :: "string \<rightharpoonup> TxInfoResp"

section \<open>The services\<close>

definition BlockcountService_Call :: "mocknode \<Rightarrow> string + int64" where
  "BlockcountService_Call M = Inr (Blockcount M)"

definition BlockhashService_Call :: "mocknode \<Rightarrow> int64 \<Rightarrow> string + string" where
  "BlockhashService_Call M args = (case BlockHeight2Hash M args of None \<Rightarrow> Inl ''No such height'' | Some hash \<Rightarrow> Inr hash)"

definition BlockService_Call :: "mocknode \<Rightarrow> string \<Rightarrow> string + BlockInfo" where
  "BlockService_Call M args =
     (case BlockHash2Content M args of None \<Rightarrow> Inl ''No such block hash'' | Some info \<Rightarrow> Inr (BIR_Result info))"

definition TxService_Call :: "mocknode \<Rightarrow> string \<Rightarrow> string + TxInfo" where
  "TxService_Call M args =
     (case TxHash2Content M args of None \<Rightarrow> Inl ''No such tx hash'' | Some info \<Rightarrow> Inr (TIR_Result info))"

section \<open>Reading the files\<close>

text \<open>The elements of both lists are pointers: JSON's null is nil.\<close>

record mock_files =
  mf_Read :: "string \<Rightarrow> bytes option"
  Unmarshal_BlockInfoRespList :: "bytes \<Rightarrow> string + BlockInfoResp option list"
  Unmarshal_TxInfoRespList :: "bytes \<Rightarrow> string + TxInfoResp option list"

definition readBytes :: "mock_files \<Rightarrow> string \<Rightarrow> bytes go" where
  "readBytes F fname = (case mf_Read F fname of None \<Rightarrow> Inl PanicErr | Some byteValue \<Rightarrow> Inr byteValue)"

definition load_block :: "mocknode \<Rightarrow> BlockInfoResp option \<Rightarrow> mocknode go" where
  "load_block M r =
     (case r of
        None \<Rightarrow> Inl NilDeref
      | Some bi \<Rightarrow>
          let result = BIR_Result bi;
              M = (if Blockcount M <s BI_Height result then M\<lparr>Blockcount := BI_Height result\<rparr> else M)
          in Inr (M\<lparr>BlockHeight2Hash := (BlockHeight2Hash M)(BI_Height result \<mapsto> BI_Hash result),
                    BlockHash2Content := (BlockHash2Content M)(BI_Hash result \<mapsto> bi)\<rparr>))"

definition readBlockInfoList :: "mock_files \<Rightarrow> mocknode \<Rightarrow> mocknode go" where
  "readBlockInfoList F M =
     bindG (readBytes F ''block.json'') (\<lambda>byteValue.
       case Unmarshal_BlockInfoRespList F byteValue of
         Inl e \<Rightarrow> Inl PanicErr
       | Inr biList \<Rightarrow> foldG load_block M biList)"

definition load_tx :: "mocknode \<Rightarrow> TxInfoResp option \<Rightarrow> mocknode go" where
  "load_tx M r =
     (case r of
        None \<Rightarrow> Inl NilDeref
      | Some tx \<Rightarrow> Inr (M\<lparr>TxHash2Content := (TxHash2Content M)(Tx_Hash (TIR_Result tx) \<mapsto> tx)\<rparr>))"

definition readTxInfoList :: "mock_files \<Rightarrow> mocknode \<Rightarrow> mocknode go" where
  "readTxInfoList F M =
     bindG (readBytes F ''tx.json'') (\<lambda>byteValue.
       case Unmarshal_TxInfoRespList F byteValue of
         Inl e \<Rightarrow> Inl PanicErr
       | Inr txList \<Rightarrow> foldG load_tx M txList)"

text \<open>What \<^verbatim>\<open>main\<close> has loaded when it registers the four services and begins to serve.\<close>

definition mocknode_main :: "mock_files \<Rightarrow> mocknode go" where
  "mocknode_main F =
     (let M = \<lparr>Blockcount = 0, BlockHeight2Hash = Map.empty, BlockHash2Content = Map.empty, TxHash2Content = Map.empty\<rparr>
      in bindG (readBlockInfoList F M) (\<lambda>M. readTxInfoList F M))"

definition showopreturn_main :: "'r node \<Rightarrow> string list" where
  "showopreturn_main N =
     (let client = NewRpcClient ''http://127.0.0.1:8332/'' ''user'' ''dummypassword''
      in PrintAllOpReturn N client 1 41000)"

section \<open>What is loaded\<close>

lemma load_block_Some:
  "load_block M (Some bi) =
     Inr \<lparr>Blockcount = (if Blockcount M <s BI_Height (BIR_Result bi) then BI_Height (BIR_Result bi) else Blockcount M),
          BlockHeight2Hash = (BlockHeight2Hash M)(BI_Height (BIR_Result bi) \<mapsto> BI_Hash (BIR_Result bi)),
          BlockHash2Content = (BlockHash2Content M)(BI_Hash (BIR_Result bi) \<mapsto> bi),
          TxHash2Content = TxHash2Content M\<rparr>"
  by (simp add: load_block_def Let_def)

lemma load_tx_Some:
  "load_tx M (Some tx) = Inr (M\<lparr>TxHash2Content := (TxHash2Content M)(Tx_Hash (TIR_Result tx) \<mapsto> tx)\<rparr>)"
  by (simp add: load_tx_def)

text \<open>A null in a list is the dereference of a nil pointer.\<close>

lemma load_blocks_null: "None \<in> set rs \<Longrightarrow> foldG load_block M rs = Inl NilDeref"
proof (induction rs arbitrary: M)
  case (Cons r rs)
  show ?case
  proof (cases r)
    case None
    then show ?thesis by (simp add: load_block_def)
  next
    case (Some bi)
    with Cons show ?thesis by (simp add: load_block_Some)
  qed
qed simp

lemma load_txs_null: "None \<in> set rs \<Longrightarrow> foldG load_tx M rs = Inl NilDeref"
proof (induction rs arbitrary: M)
  case (Cons r rs)
  show ?case
  proof (cases r)
    case None
    then show ?thesis by (simp add: load_tx_def)
  next
    case (Some tx)
    with Cons show ?thesis by (simp add: load_tx_Some)
  qed
qed simp

text \<open>The last element of a list that has a property.\<close>

definition latest :: "('a \<Rightarrow> bool) \<Rightarrow> 'a list \<Rightarrow> 'a option" where
  "latest P xs = find P (rev xs)"

lemma latest_simps [simp]:
  "latest P [] = None" "latest P (xs @ [x]) = (if P x then Some x else latest P xs)"
  by (simp_all add: latest_def)

lemma load_blocks:
  assumes "B0 = \<lparr>Blockcount = 0, BlockHeight2Hash = Map.empty, BlockHash2Content = Map.empty, TxHash2Content = Map.empty\<rparr>"
  shows "\<exists>M. foldG load_block B0 (map Some bis) = Inr M \<and>
    sint (Blockcount M) = Max (insert 0 ((\<lambda>bi. sint (BI_Height (BIR_Result bi))) ` set bis)) \<and>
    BlockHeight2Hash M = (\<lambda>h. map_option (\<lambda>bi. BI_Hash (BIR_Result bi)) (latest (\<lambda>bi. BI_Height (BIR_Result bi) = h) bis)) \<and>
    BlockHash2Content M = (\<lambda>s. latest (\<lambda>bi. BI_Hash (BIR_Result bi) = s) bis) \<and> TxHash2Content M = Map.empty"
proof (induction bis rule: rev_induct)
  case Nil
  show ?case by (simp add: assms)
next
  case (snoc bi bis)
  then obtain M where M: "foldG load_block B0 (map Some bis) = Inr M"
    and n: "sint (Blockcount M) = Max (insert 0 ((\<lambda>bi. sint (BI_Height (BIR_Result bi))) ` set bis))"
    and maps: "BlockHeight2Hash M = (\<lambda>h. map_option (\<lambda>bi. BI_Hash (BIR_Result bi)) (latest (\<lambda>bi. BI_Height (BIR_Result bi) = h) bis))"
      "BlockHash2Content M = (\<lambda>s. latest (\<lambda>bi. BI_Hash (BIR_Result bi) = s) bis)" "TxHash2Content M = Map.empty" by blast
  have "Max (insert 0 ((\<lambda>bi. sint (BI_Height (BIR_Result bi))) ` set (bis @ [bi]))) =
      max (sint (BI_Height (BIR_Result bi))) (Max (insert 0 ((\<lambda>bi. sint (BI_Height (BIR_Result bi))) ` set bis)))"
  proof -
    have "insert 0 ((\<lambda>bi. sint (BI_Height (BIR_Result bi))) ` set (bis @ [bi])) =
        insert (sint (BI_Height (BIR_Result bi))) (insert 0 ((\<lambda>bi. sint (BI_Height (BIR_Result bi))) ` set bis))" by auto
    then show ?thesis by (simp only:) (rule Max_insert, simp_all)
  qed
  then show ?case using M by (auto simp: foldG_append load_block_Some n [symmetric] maps word_sless_alt fun_eq_iff)
qed

lemma load_txs:
  "\<exists>M'. foldG load_tx M (map Some txs) = Inr M' \<and> Blockcount M' = Blockcount M \<and> BlockHeight2Hash M' = BlockHeight2Hash M \<and>
    BlockHash2Content M' = BlockHash2Content M \<and>
    TxHash2Content M' = TxHash2Content M ++ (\<lambda>s. latest (\<lambda>tx. Tx_Hash (TIR_Result tx) = s) txs)"
proof (induction txs rule: rev_induct)
  case Nil
  show ?case by (simp add: map_add_def)
next
  case (snoc tx txs)
  then show ?case by (auto simp: foldG_append load_tx_Some map_add_def fun_eq_iff)
qed

text \<open>The list of a file, if the file is there and decodes to one.\<close>

definition listed :: "mock_files \<Rightarrow> (bytes \<Rightarrow> string + 'a list) \<Rightarrow> string \<Rightarrow> 'a list option" where
  "listed F decode fname =
     (case mf_Read F fname of None \<Rightarrow> None | Some d \<Rightarrow> (case decode d of Inl e \<Rightarrow> None | Inr l \<Rightarrow> Some l))"

lemma readBlockInfoList_eq:
  "readBlockInfoList F M = (case listed F (Unmarshal_BlockInfoRespList F) ''block.json'' of
     None \<Rightarrow> Inl PanicErr | Some biList \<Rightarrow> foldG load_block M biList)"
  by (simp add: readBlockInfoList_def readBytes_def listed_def split: option.split sum.split)

lemma readTxInfoList_eq:
  "readTxInfoList F M = (case listed F (Unmarshal_TxInfoRespList F) ''tx.json'' of
     None \<Rightarrow> Inl PanicErr | Some txList \<Rightarrow> foldG load_tx M txList)"
  by (simp add: readTxInfoList_def readBytes_def listed_def split: option.split sum.split)

lemma map_Some_the: "None \<notin> set xs \<Longrightarrow> map Some (map the xs) = xs"
  by (induction xs) auto

text \<open>The services answer with the last listed entry of the height or the hash they are asked for.\<close>

definition answers_from :: "mocknode \<Rightarrow> BlockInfoResp list \<Rightarrow> TxInfoResp list \<Rightarrow> bool" where
  "answers_from M bis txs \<longleftrightarrow>
     (\<exists>n. BlockcountService_Call M = Inr n \<and>
        sint n = Max (insert 0 ((\<lambda>bi. sint (BI_Height (BIR_Result bi))) ` set bis))) \<and>
     (\<forall>h. BlockhashService_Call M h = (case latest (\<lambda>bi. BI_Height (BIR_Result bi) = h) bis of
        None \<Rightarrow> Inl ''No such height'' | Some bi \<Rightarrow> Inr (BI_Hash (BIR_Result bi)))) \<and>
     (\<forall>s. BlockService_Call M s = (case latest (\<lambda>bi. BI_Hash (BIR_Result bi) = s) bis of
        None \<Rightarrow> Inl ''No such block hash'' | Some bi \<Rightarrow> Inr (BIR_Result bi))) \<and>
     (\<forall>s. TxService_Call M s = (case latest (\<lambda>tx. Tx_Hash (TIR_Result tx) = s) txs of
        None \<Rightarrow> Inl ''No such tx hash'' | Some tx \<Rightarrow> Inr (TIR_Result tx)))"

lemma loads_answer:
  assumes "None \<notin> set bis" and "None \<notin> set txs"
  shows "\<exists>M. bindG (foldG load_block \<lparr>Blockcount = 0, BlockHeight2Hash = Map.empty, BlockHash2Content = Map.empty,
      TxHash2Content = Map.empty\<rparr> bis) (\<lambda>M. foldG load_tx M txs) = Inr M \<and> answers_from M (map the bis) (map the txs)"
proof -
  let ?B = "\<lparr>Blockcount = 0, BlockHeight2Hash = Map.empty, BlockHash2Content = Map.empty, TxHash2Content = Map.empty\<rparr>"
  from load_blocks [OF refl, of "map the bis"] obtain M where M: "foldG load_block ?B bis = Inr M"
    and n: "sint (Blockcount M) = Max (insert 0 ((\<lambda>bi. sint (BI_Height (BIR_Result bi))) ` set (map the bis)))"
    and maps: "BlockHeight2Hash M = (\<lambda>h. map_option (\<lambda>bi. BI_Hash (BIR_Result bi)) (latest (\<lambda>bi. BI_Height (BIR_Result bi) = h) (map the bis)))"
      "BlockHash2Content M = (\<lambda>s. latest (\<lambda>bi. BI_Hash (BIR_Result bi) = s) (map the bis))" "TxHash2Content M = Map.empty"
    unfolding map_Some_the [OF assms(1)] by blast
  from load_txs [of M "map the txs"] obtain M' where M': "foldG load_tx M txs = Inr M'"
    and same: "Blockcount M' = Blockcount M" "BlockHeight2Hash M' = BlockHeight2Hash M" "BlockHash2Content M' = BlockHash2Content M"
    and tx: "TxHash2Content M' = (\<lambda>s. latest (\<lambda>tx. Tx_Hash (TIR_Result tx) = s) (map the txs))"
    unfolding map_Some_the [OF assms(2)] by (auto simp: maps(3))
  have "answers_from M' (map the bis) (map the txs)"
    unfolding answers_from_def BlockcountService_Call_def BlockhashService_Call_def BlockService_Call_def TxService_Call_def
      same maps tx using n
    by (simp split: option.split)
  with M M' show ?thesis by auto
qed

text \<open>
  (C7) The node answers from its two files. If both decode to lists without nulls it starts, its block
  count is the greatest listed height, or zero when none is positive, and every service answers
  with the last listed entry of the height or the hash it is asked for, or with its error when
  there is none. If a file is missing or does not decode, or a list has a null, it panics instead,
  on the first of these that it meets.
\<close>

theorem mocknode_serves_files:
  "case (listed F (Unmarshal_BlockInfoRespList F) ''block.json'', listed F (Unmarshal_TxInfoRespList F) ''tx.json'') of
     (None, _) \<Rightarrow> mocknode_main F = Inl PanicErr
   | (Some bis, None) \<Rightarrow> mocknode_main F = Inl (if None \<in> set bis then NilDeref else PanicErr)
   | (Some bis, Some txs) \<Rightarrow>
       if None \<in> set bis \<or> None \<in> set txs then mocknode_main F = Inl NilDeref
       else \<exists>M. mocknode_main F = Inr M \<and> answers_from M (map the bis) (map the txs)"
proof (cases "listed F (Unmarshal_BlockInfoRespList F) ''block.json''")
  case None
  then show ?thesis by (simp add: mocknode_main_def readBlockInfoList_eq Let_def)
next
  case (Some bis)
  note bis = this
  show ?thesis
  proof (cases "None \<in> set bis")
    case True
    from load_blocks_null [OF this] bis True show ?thesis
      by (simp add: mocknode_main_def readBlockInfoList_eq Let_def split: option.split)
  next
    case False
    from load_blocks [OF refl, of "map the bis"] obtain M where
      M: "foldG load_block \<lparr>Blockcount = 0, BlockHeight2Hash = Map.empty, BlockHash2Content = Map.empty,
        TxHash2Content = Map.empty\<rparr> bis = Inr M"
      unfolding map_Some_the [OF False] by blast
    show ?thesis
    proof (cases "listed F (Unmarshal_TxInfoRespList F) ''tx.json''")
      case None
      with bis False M show ?thesis by (simp add: mocknode_main_def readBlockInfoList_eq readTxInfoList_eq Let_def)
    next
      case (Some txs)
      with loads_answer [OF False, of txs] load_txs_null [of txs M] bis False M show ?thesis
        by (simp add: mocknode_main_def readBlockInfoList_eq readTxInfoList_eq Let_def)
    qed
  qed
qed

text \<open>Two blocks of height 7: the node counts to 7 and has the hash of the second.\<close>

definition mock_info :: "string \<Rightarrow> BlockInfoResp option" where
  "mock_info hash = Some \<lparr>BIR_Result = zero_BlockInfo\<lparr>BI_Hash := hash, BI_Height := 7\<rparr>, BIR_Error = None, BIR_Id = ''smartbch''\<rparr>"

definition mock_example :: mock_files where
  "mock_example = \<lparr>mf_Read = [''block.json'' \<mapsto> [0], ''tx.json'' \<mapsto> [1]],
     Unmarshal_BlockInfoRespList = (\<lambda>d. Inr [mock_info ''a'', mock_info ''b'']),
     Unmarshal_TxInfoRespList = (\<lambda>d. Inr [])\<rparr>"

theorem mocknode_serves_files_witness:
  "\<exists>M. mocknode_main mock_example = Inr M \<and> BlockcountService_Call M = Inr 7 \<and> BlockhashService_Call M 7 = Inr ''b'' \<and>
     BlockhashService_Call M 8 = Inl ''No such height''"
proof -
  have "\<exists>M. mocknode_main mock_example = Inr M \<and>
      answers_from M (map the [mock_info ''a'', mock_info ''b'']) (map the [])"
    using mocknode_serves_files [of mock_example] by (simp add: mock_example_def listed_def mock_info_def)
  then obtain M where M: "mocknode_main mock_example = Inr M"
    and a: "answers_from M (map the [mock_info ''a'', mock_info ''b'']) (map the [])" by blast
  from a obtain n where "BlockcountService_Call M = Inr n" "sint n = sint (7 :: int64)"
    unfolding answers_from_def by (auto simp: mock_info_def)
  moreover from this(2) have "n = 7" by (simp only: sint_inject)
  ultimately show ?thesis
    using M a unfolding answers_from_def by (simp add: mock_info_def latest_def)
qed

end
