(* ===== verification/Key_Tools.thy ===== *)
theory Key_Tools
  imports Command_Line
begin

text \<open>
  The commands that make keys and the whole of \<^verbatim>\<open>init\<close>: \<^verbatim>\<open>gen-test-keys\<close>, \<^verbatim>\<open>generate-consensus-key-info\<close>
  (\<^verbatim>\<open>cmd/smartbchd\<close>, \<^verbatim>\<open>internal/testutils/key.go\<close>) and the files of a node's validator, which \<^verbatim>\<open>init\<close> makes
  first (\<^verbatim>\<open>util.go\<close>, \<^verbatim>\<open>init.go\<close>). The keys that the libraries draw at random are a parameter, in the order in which they
  are drawn, and so are the outcomes of file operations. The last section follows the keys from these commands
  into the genesis document.
\<close>

section \<open>Generating keys\<close>

record FilePVKey =
  FPV_Address :: bytes
  FPV_PubKey :: bytes
  FPV_PrivKey :: bytes

record 'k keygen =
  GenerateKey :: "nat \<Rightarrow> 'k"
  FromECDSA :: "'k \<Rightarrow> bytes"
  ed25519_GenPrivKey :: bytes
  PrivKey_PubKey :: "bytes \<Rightarrow> bytes"
  PubKey_Address :: "bytes \<Rightarrow> bytes"
  FilePVKey_MarshalIndent :: "FilePVKey \<Rightarrow> string + bytes"
  WriteFileAtomic :: "string \<Rightarrow> bytes \<Rightarrow> string option"

definition GenKeyAndAddr :: "('k, 't) keylib \<Rightarrow> 'k keygen \<Rightarrow> nat \<Rightarrow> string \<times> address" where
  "GenKeyAndAddr K G i =
     (let key = GenerateKey G i; keyHex = hex_EncodeToString (FromECDSA G key); addr = PubkeyToAddress K key
      in (keyHex, addr))"

text \<open>The lines that \<^verbatim>\<open>GenTestKeysCmd\<close> prints.\<close>

definition run_gen_test_keys :: "('k, 't) keylib \<Rightarrow> 'k keygen \<Rightarrow> int \<Rightarrow> bool \<Rightarrow> string list" where
  "run_gen_test_keys K G n showAddr =
     map (\<lambda>i. case GenKeyAndAddr K G i of
            (key, addr) \<Rightarrow> if \<not> showAddr then key else key @ '' '' @ Address_Hex K addr) [0..<nat n]"

definition run_consensus_key_info :: "'k keygen \<Rightarrow> string cmd" where
  "run_consensus_key_info G =
     (let pk = ed25519_GenPrivKey G;
          fpv = \<lparr>FPV_Address = PubKey_Address G (PrivKey_PubKey G pk), FPV_PubKey = PrivKey_PubKey G pk, FPV_PrivKey = pk\<rparr>
      in bindG (lib_result (FilePVKey_MarshalIndent G fpv)) (\<lambda>jsonBytes.
           case WriteFileAtomic G ''./priv_validator_key.json'' jsonBytes of
             Some e \<Rightarrow> Inl (LibraryError e)
           | None \<Rightarrow> Inr (hex_EncodeToString (PrivKey_PubKey G pk))))"

section \<open>The command init\<close>

record validator_files =
  vf_LoadOrGenNodeKey :: "string + string"
  vf_EnsureKeyDir :: "string option"
  vf_EnsureStateDir :: "string option"
  vf_PubKey :: bytes

text \<open>When a directory cannot be made, the error returned is nil.\<close>

definition InitializeNodeValidatorFiles :: "validator_files \<Rightarrow> string \<times> bytes option \<times> string option" where
  "InitializeNodeValidatorFiles F =
     (case vf_LoadOrGenNodeKey F of
        Inl e \<Rightarrow> ('''', None, Some e)
      | Inr nodeID \<Rightarrow>
          if vf_EnsureKeyDir F \<noteq> None then (nodeID, None, None)
          else if vf_EnsureStateDir F \<noteq> None then (nodeID, None, None)
          else (nodeID, Some (vf_PubKey F), None))"

record printInfo =
  pi_Moniker :: string
  pi_ChainID :: string
  pi_NodeID :: string
  pi_GenTxsDir :: string
  pi_AppMessage :: bytes

definition newPrintInfo :: "string \<Rightarrow> string \<Rightarrow> string \<Rightarrow> printInfo" where
  "newPrintInfo moniker chainID nodeID =
     \<lparr>pi_Moniker = moniker, pi_ChainID = chainID, pi_NodeID = nodeID, pi_GenTxsDir = '''', pi_AppMessage = []\<rparr>"

text \<open>\<^verbatim>\<open>InitCmd\<close>: the genesis file it saves and what it displays.\<close>

definition InitCmd ::
  "('k, 't) cmd_env \<Rightarrow> validator_files \<Rightarrow> (string \<Rightarrow> string list option) \<Rightarrow> init_flags \<Rightarrow> string \<Rightarrow> GenesisDoc option \<Rightarrow>
   (GenesisDoc \<times> printInfo) cmd go" where
  "InitCmd C F files fl moniker genFile =
     (let chainID = (if FlagChainID fl = '''' then ''test-chain'' else FlagChainID fl) in
      case InitializeNodeValidatorFiles F of
        (_, _, Some e) \<Rightarrow> Inr (Inl (LibraryError e))
      | (nodeID, _, None) \<Rightarrow>
          bindG (run_init C files fl genFile) (\<lambda>r.
            Inr (bindG r (\<lambda>genDoc. Inr (genDoc, newPrintInfo moniker chainID nodeID)))))"

section \<open>Following the keys\<close>

definition keygen_laws :: "('k, 't) keylib \<Rightarrow> 'k keygen \<Rightarrow> bool" where
  "keygen_laws K G \<longleftrightarrow> (\<forall>i. length (FromECDSA G (GenerateKey G i)) = 32 \<and>
       ToECDSA K (FromECDSA G (GenerateKey G i)) = Inr (GenerateKey G i)) \<and>
     (\<forall>pk. length (PrivKey_PubKey G pk) = 32)"

fun Join :: "char \<Rightarrow> string list \<Rightarrow> string" where
  "Join c [] = []"
| "Join c [s] = s"
| "Join c (s # t # ss) = s @ c # Join c (t # ss)"

lemma Split_one: "c \<notin> set s \<Longrightarrow> Split c s = [s]"
  by (induction s) auto

lemma Split_append: "c \<notin> set s \<Longrightarrow> Split c (s @ c # t) = s # Split c t"
  by (induction s) auto

lemma Split_Join: "ss \<noteq> [] \<Longrightarrow> \<forall>s \<in> set ss. c \<notin> set s \<Longrightarrow> Split c (Join c ss) = ss"
  by (induction ss rule: induct_list012) (simp_all add: Split_one Split_append)

lemma hex_encode_digit: "c \<in> set (hex_EncodeToString bs) \<Longrightarrow> fromHexChar c \<noteq> None"
proof -
  have "unat b div 16 < 16" "unat b mod 16 < 16" for b :: byte
    using unsigned_less [of b, where 'a = nat] by simp_all
  then show "c \<in> set (hex_EncodeToString bs) \<Longrightarrow> fromHexChar c \<noteq> None"
    by (auto simp: hex_EncodeToString_def fromHexChar_hex_digit)
qed

lemma hex_encode_trimmed: "TrimPrefix (TrimSpace (hex_EncodeToString bs)) ''0x'' = hex_EncodeToString bs"
proof -
  have "TrimSpace (hex_EncodeToString bs) = hex_EncodeToString bs" by (rule TrimSpace_id) (rule hex_encode_not_space)
  moreover have "take 2 (hex_EncodeToString bs) \<noteq> ''0x''"
  proof
    assume "take 2 (hex_EncodeToString bs) = ''0x''"
    then have "CHR ''x'' \<in> set (take 2 (hex_EncodeToString bs))" by simp
    then have "fromHexChar (CHR ''x'') \<noteq> None" using hex_encode_digit by (meson in_set_takeD)
    then show False by (simp add: fromHexChar_def)
  qed
  ultimately show ?thesis by (simp add: TrimPrefix_def numeral_2_eq_2)
qed

lemma HexToPrivKey_encoded:
  "HexToPrivKey K (hex_EncodeToString bs) =
     (case ToECDSA K bs of Inl e \<Rightarrow> (None, bs, Some (LibError e)) | Inr key \<Rightarrow> (Some key, bs, None))"
  by (simp add: HexToPrivKey_def hex_encode_trimmed hex_decode_encode)

lemma HexToPubKey_encoded: "HexToPubKey (hex_EncodeToString bs) = (bs, bs, None)"
  by (simp add: HexToPubKey_def hex_encode_trimmed hex_decode_encode)

lemma collect_keys:
  assumes "\<And>i. P (h i) = (Some (key i), data i, None)"
  shows "{f k |k t d. t \<in> set (map h xs) \<and> P t = (Some k, d, None)} = (\<lambda>i. f (key i)) ` set xs"
proof (intro equalityI subsetI)
  fix a
  assume "a \<in> (\<lambda>i. f (key i)) ` set xs"
  then obtain i where "i \<in> set xs" "a = f (key i)" by blast
  with assms [of i] show "a \<in> {f k |k t d. t \<in> set (map h xs) \<and> P t = (Some k, d, None)}" by fastforce
qed (auto simp: assms)

text \<open>
  (C39) The keys made by the commands are those the chain starts with. When the lines of \<^verbatim>\<open>gen-test-keys\<close> are
  joined with commas and given to \<^verbatim>\<open>init\<close>, the accounts of the genesis document are exactly the addresses that
  \<^verbatim>\<open>gen-test-keys\<close> shows; and a genesis validator made for the key that \<^verbatim>\<open>generate-consensus-key-info\<close> prints has
  exactly that key. But \<^verbatim>\<open>init\<close> succeeds just the same when a directory for the validator's files cannot be
  made, without a key.
\<close>

theorem generated_keys_fit:
  assumes "genesis_laws C" and "json_laws C is_text" and "keygen_laws (ce_keylib C) G" and "0 < n"
    and "FlagTestKeys fl = Join (CHR '','') (run_gen_test_keys (ce_keylib C) G n False)"
    and "InitCmd C F files fl moniker genFile = Inr (Inr (doc, info))"
    and "run_consensus_key_info G = Inr out" and "flagPubkey vfl = out" and "genesis_validator C vfl = Inr v"
  shows "(\<exists>g. GenesisData_Unmarshal C (doc_AppState doc) = Inr g \<and>
      fst ` set (gd_Alloc g) = (\<lambda>i. snd (GenKeyAndAddr (ce_keylib C) G i)) ` {..<nat n}) \<and>
    be_bytes 32 (Pubkey v) = PrivKey_PubKey G (ed25519_GenPrivKey G) \<and>
    InitCmd C (F\<lparr>vf_EnsureKeyDir := Some e\<rparr>) files fl moniker genFile = Inr (Inr (doc, info)) \<and>
    fst (snd (InitializeNodeValidatorFiles (F\<lparr>vf_EnsureKeyDir := Some e\<rparr>))) = None"
proof (intro conjI)
  let ?K = "ce_keylib C" and ?keys = "run_gen_test_keys (ce_keylib C) G n False"
  have keys: "?keys = map (\<lambda>i. hex_EncodeToString (FromECDSA G (GenerateKey G i))) [0..<nat n]"
    by (simp add: run_gen_test_keys_def GenKeyAndAddr_def Let_def)
  from assms(6) obtain nodeID where node: "vf_LoadOrGenNodeKey F = Inr nodeID"
    and run: "run_init C files fl genFile = Inr (Inr doc)"
    by (auto simp: InitCmd_def InitializeNodeValidatorFiles_def Let_def split: sum.splits if_splits elim!: bindG_InrE)
  have "CHR '','' \<notin> set (hex_EncodeToString bs)" for bs
    using hex_encode_digit [of "CHR '',''" bs] by (auto simp: fromHexChar_def)
  moreover have some: "?keys \<noteq> []" using assms(4) by (simp add: keys)
  ultimately have split: "Split (CHR '','') (FlagTestKeys fl) = ?keys"
    unfolding assms(5) by (intro Split_Join) (auto simp: keys)
  have "FlagTestKeys fl \<noteq> ''''"
  proof
    assume "FlagTestKeys fl = ''''"
    with split have "?keys = [[]]" by simp
    then have "[] \<in> set ?keys" by simp
    then obtain i where "hex_EncodeToString (FromECDSA G (GenerateKey G i)) = []" unfolding keys by (metis (mono_tags, lifting) in_set_conv_nth length_map nth_map)
    then have "2 * length (FromECDSA G (GenerateKey G i)) = 0" by (metis length_hex_encode list.size(3))
    with assms(3) show False by (simp add: keygen_laws_def)
  qed
  from init_funds_unlocked [OF assms(1,2) run this] obtain g where g: "GenesisData_Unmarshal C (doc_AppState doc) = Inr g"
    "fst ` set (gd_Alloc g) = fst ` set (loadTestAccounts ?K ?keys)" unfolding split by blast
  have enc: "HexToPrivKey ?K (hex_EncodeToString (FromECDSA G (GenerateKey G i))) =
      (Some (GenerateKey G i), FromECDSA G (GenerateKey G i), None)" for i
    using assms(3) by (simp add: HexToPrivKey_encoded keygen_laws_def)
  have accounts: "fst ` set (loadTestAccounts ?K ?keys) = (\<lambda>i. snd (GenKeyAndAddr ?K G i)) ` {..<nat n}"
    unfolding loadTestAccounts_keys [THEN conjunct1] keys GenKeyAndAddr_def Let_def snd_conv
    using collect_keys [where P = "HexToPrivKey ?K" and h = "\<lambda>i. hex_EncodeToString (FromECDSA G (GenerateKey G i))"
        and key = "GenerateKey G" and f = "PubkeyToAddress ?K" and xs = "[0..<nat n]", OF enc] by (simp add: atLeast0LessThan)
  show "\<exists>g. GenesisData_Unmarshal C (doc_AppState doc) = Inr g \<and>
      fst ` set (gd_Alloc g) = (\<lambda>i. snd (GenKeyAndAddr ?K G i)) ` {..<nat n}"
    by (intro exI [of _ g] conjI, rule g(1), rule g(2) [unfolded accounts])
  let ?pub = "PrivKey_PubKey G (ed25519_GenPrivKey G)"
  have "out = hex_EncodeToString ?pub"
    using assms(7) by (auto simp: run_consensus_key_info_def Let_def split: option.splits elim!: bindG_InrE)
  then have "Pubkey v = copy_array 32 0 ?pub"
    using assms(8,9) by (auto simp: genesis_validator_def HexToPubKey_encoded Let_def split: prod.splits option.splits bool.splits)
  moreover have "length ?pub = 32" using assms(3) by (simp add: keygen_laws_def)
  ultimately show "be_bytes 32 (Pubkey v) = ?pub" by (simp add: copy_array_full be_bytes_be_word)
  show "InitCmd C (F\<lparr>vf_EnsureKeyDir := Some e\<rparr>) files fl moniker genFile = Inr (Inr (doc, info))"
    using assms(6) node by (auto simp: InitCmd_def InitializeNodeValidatorFiles_def Let_def split: if_splits)
  show "fst (snd (InitializeNodeValidatorFiles (F\<lparr>vf_EnsureKeyDir := Some e\<rparr>))) = None"
    by (simp add: InitializeNodeValidatorFiles_def node)
qed

section \<open>Witness\<close>

definition witness_keygen :: "nat keygen" where
  "witness_keygen = \<lparr>GenerateKey = (\<lambda>i. i mod 2 + 3), FromECDSA = nat_be 32, ed25519_GenPrivKey = [7],
     PrivKey_PubKey = (\<lambda>pk. be_bytes 32 (9 :: bytes32)), PubKey_Address = (\<lambda>pk. []),
     FilePVKey_MarshalIndent = (\<lambda>k. Inr (FPV_PubKey k)), WriteFileAtomic = (\<lambda>f bz. None)\<rparr>"

lemma witness_keygen_laws: "keygen_laws witness_keylib witness_keygen"
proof -
  have "nat_be 32 k \<noteq> []" for k
  proof
    assume "nat_be 32 k = []"
    then have "length (nat_be 32 k) = 0" by simp
    then show False by simp
  qed
  moreover have "(i mod 2 + 3) mod 256 ^ 32 = i mod 2 + 3" for i :: nat
  proof (rule mod_less)
    have "i mod 2 + 3 < (5 :: nat)" by simp
    also have "\<dots> \<le> 256 ^ 32" by simp
    finally show "i mod 2 + 3 < 256 ^ 32" .
  qed
  ultimately show ?thesis by (simp add: keygen_laws_def witness_keygen_def witness_keylib_def be_nat_nat_be)
qed

definition witness_vfiles :: validator_files where
  "witness_vfiles = \<lparr>vf_LoadOrGenNodeKey = Inr ''id'', vf_EnsureKeyDir = None, vf_EnsureStateDir = None, vf_PubKey = [9]\<rparr>"

theorem generated_keys_fit_witness:
  "\<exists>doc info g v. InitCmd witness_env witness_vfiles (\<lambda>f. None)
       (witness_flags\<lparr>FlagTestKeys := Join (CHR '','') (run_gen_test_keys witness_keylib witness_keygen 2 False)\<rparr>) ''node'' None =
       Inr (Inr (doc, info)) \<and>
     GenesisData_Unmarshal witness_env (doc_AppState doc) = Inr g \<and> fst ` set (gd_Alloc g) = {3, 4} \<and>
     genesis_validator witness_env (witness_vflags\<lparr>flagPubkey := hex_EncodeToString (be_bytes 32 (9 :: bytes32))\<rparr>) = Inr v \<and>
     Pubkey v = 9"
proof -
  let ?K = witness_keylib and ?G = witness_keygen and ?out = "hex_EncodeToString (be_bytes 32 (9 :: bytes32))"
  let ?keys = "run_gen_test_keys ?K ?G 2 False"
  let ?fl = "witness_flags\<lparr>FlagTestKeys := Join (CHR '','') ?keys\<rparr>" and ?vfl = "witness_vflags\<lparr>flagPubkey := ?out\<rparr>"
  have K: "ce_keylib witness_env = ?K" by (simp add: witness_env_def)
  have two: "[0..<nat 2] = [0, 1]" by (simp add: upt_rec)
  have enc: "HexToPrivKey ?K (hex_EncodeToString (FromECDSA ?G (GenerateKey ?G i))) =
      (Some (GenerateKey ?G i), FromECDSA ?G (GenerateKey ?G i), None)" for i
    using witness_keygen_laws by (simp add: HexToPrivKey_encoded keygen_laws_def)
  have keys: "?keys = map (\<lambda>i. hex_EncodeToString (FromECDSA ?G (GenerateKey ?G i))) [0, 1]"
    unfolding run_gen_test_keys_def two by (simp add: GenKeyAndAddr_def Let_def)
  have "CHR '','' \<notin> set (hex_EncodeToString bs)" for bs
    using hex_encode_digit [of "CHR '',''" bs] by (auto simp: fromHexChar_def)
  then have split: "Split (CHR '','') (Join (CHR '','') ?keys) = ?keys" by (intro Split_Join) (auto simp: keys)
  have gen: "GenerateKey ?G 0 = 3" "GenerateKey ?G (Suc 0) = 4" by (simp_all add: witness_keygen_def)
  note encs = enc [of 0, unfolded gen] enc [of "Suc 0", unfolded gen]
  have alloc: "KeysToGenesisAlloc ?K 1000 ?keys = Inr [(3, 1000), (4, 1000)]"
    unfolding keys KeysToGenesisAlloc_def by (simp add: gen encs) (simp add: witness_keylib_def)
  have bal: "ParseU256 ''1000'' = (Some 1000, True)"
    by (simp add: ParseU256_def HasPrefix_def parse_signed_def parse_digits_def fromHexChar_def u256_FromBig_def Let_def)
  have "Join (CHR '','') ?keys \<noteq> ''''" by (simp add: keys)
  then have "getTestKeys (\<lambda>f. None) (FlagTestKeys ?fl) (FlagTestKeysFile ?fl) = Inr ?keys"
    by (simp add: getTestKeys_def split)
  then have "\<exists>doc. run_init witness_env (\<lambda>f. None) ?fl None = Inr (Inr doc)"
    using bal alloc by (simp add: run_init_def load_genesis_def getAppState_def K)
      (simp add: witness_flags_def witness_env_def ExportGenesisFile_def lib_result_def data_ok_def)
  then obtain doc info where init: "InitCmd witness_env witness_vfiles (\<lambda>f. None) ?fl ''node'' None = Inr (Inr (doc, info))"
    by (auto simp: InitCmd_def InitializeNodeValidatorFiles_def witness_vfiles_def)
  have info: "run_consensus_key_info ?G = Inr ?out"
    by (simp add: run_consensus_key_info_def witness_keygen_def lib_result_def Let_def)
  have "ParseU256 ''5'' = (Some 5, True)"
    by (simp add: ParseU256_def HasPrefix_def parse_signed_def parse_digits_def fromHexChar_def u256_FromBig_def Let_def)
  then obtain v where v: "genesis_validator witness_env ?vfl = Inr v"
    by (simp add: genesis_validator_def HexToPubKey_encoded witness_vflags_def Let_def)
  have "flagPubkey ?vfl = ?out" by simp
  from generated_keys_fit [where e = "''full''", OF witness_env_laws, of ?G 2 ?fl, unfolded K, OF witness_keygen_laws _ _ init info this v]
  obtain g where g: "GenesisData_Unmarshal witness_env (doc_AppState doc) = Inr g"
    "fst ` set (gd_Alloc g) = (\<lambda>i. snd (GenKeyAndAddr ?K ?G i)) ` {..<nat 2}"
    and pub: "be_bytes 32 (Pubkey v) = PrivKey_PubKey ?G (ed25519_GenPrivKey ?G)" by simp blast
  have "{..<nat 2} = {0, 1}" by auto
  then have "fst ` set (gd_Alloc g) = {3, 4}"
    using g(2) by (simp add: GenKeyAndAddr_def gen Let_def) (simp add: witness_keylib_def)
  moreover have "Pubkey v = 9"
    using arg_cong [OF pub, of "\<lambda>bs. copy_array 32 0 bs :: bytes32"] by (simp add: witness_keygen_def copy_array_be_bytes)
  ultimately show ?thesis using init g(1) v by blast
qed

end
