(* ===== verification/Stress_Main.thy ===== *)
theory Stress_Main
  imports Replay_Ws Key_Tools
begin

text \<open>
  The program \<^verbatim>\<open>stresstest\<close> as a whole (\<^verbatim>\<open>cmd/stresstest/stress.go\<close>): which command its arguments select, and the
  two reports on the state of a recording, which are called in comments only. Also the calls that the backend of the RPC server
  (\<^verbatim>\<open>api/backend.go\<close>) hands on to the application.
\<close>

section \<open>Commands\<close>

datatype stress_cmd =
    Usage
  | Gen int int int int string
  | Replay int string
  | ReplayWS string int int
  | QueryTxsWS string int
  | QueryBlocksWS string int int bool
  | GenKeys string int
  | ShowNodeKey string

text \<open>\<open>args\<close> is \<^verbatim>\<open>os.Args\<close>, the program's name first. Only \<^verbatim>\<open>showNodeKey\<close> needs a third argument.\<close>

definition stress_main :: "string list \<Rightarrow> stress_cmd go" where
  "stress_main args =
     (let randBlocks = 1000; fromSize = 500; toSize = 100000; txPerBlock = - 100; fname = ''keys6M.txt'' in
      if length args < 2 then Inr Usage
      else
        let a = args ! 1 in
        if a = ''gen'' then Inr (Gen randBlocks fromSize toSize txPerBlock fname)
        else if a = ''replay'' then Inr (Replay fromSize fname)
        else if a = ''replayWS'' then Inr (ReplayWS (getWsURL args) (getMinHeight args 3) (getMinHeight args 4))
        else if a = ''queryWS'' \<or> a = ''queryTxsWS'' then Inr (QueryTxsWS (getWsURL args) (getMaxHeight args 3))
        else if a = ''queryBlocksWS'' then
          Inr (QueryBlocksWS (getWsURL args) (getMaxHeight args 3) (getMinHeight args 4) (5 < length args))
        else if a = ''genkeys10K'' then Inr (GenKeys ''keys10K.txt'' 10000)
        else if a = ''genkeys'' then Inr (GenKeys ''keys1M.txt'' 1000000)
        else if a = ''genkeys60'' then Inr (GenKeys ''keys60M.txt'' 60000000)
        else if a = ''showNodeKey'' then (if length args < 3 then Inl OutOfBounds else Inr (ShowNodeKey (args ! 2)))
        else Inl (PanicMsg ''invalid argument''))"

definition showNodeKey :: "(string \<Rightarrow> string + string) \<Rightarrow> string \<Rightarrow> string go" where
  "showNodeKey LoadNodeKey fname =
     (case LoadNodeKey fname of Inl e \<Rightarrow> Inl PanicErr | Inr nodeID \<Rightarrow> Inr (''P2P Node ID is '' @ nodeID))"

section \<open>Reports\<close>

definition show_balance ::
  "('c, 'a, 'e, 'x, 'u, 'k, 't) stress \<Rightarrow> ('c, 'x) TestApp \<Rightarrow> string \<Rightarrow> address \<Rightarrow> string" where
  "show_balance S app pre addr =
     (case test_account (st_lib S) app addr of
        Some acc \<Rightarrow> pre @ '' '' @ Address_Hex (st_keylib S) addr @ '' : '' @ show_nat (unat (Balance (lib_evm (st_lib S)) acc))
      | None \<Rightarrow> pre @ '' '' @ Address_Hex (st_keylib S) addr @ '' : ZERO'')"

definition ShowBalances ::
  "('c, 'a, 'e, 'x, 'u, 'k, 't) stress \<Rightarrow> ('c, 'x) TestApp \<Rightarrow> string list \<Rightarrow> address list \<Rightarrow> string list go" where
  "ShowBalances S app fromKeys toAddrs =
     bindG (foldG (\<lambda>out (i, key). bindG (KeyToAddr S key) (\<lambda>addr.
         Inr (out @ [show_balance S app (''FROM-'' @ show_nat i) addr]))) [] (enumerate 0 fromKeys)) (\<lambda>out.
       Inr (out @ map (\<lambda>(i, addr). show_balance S app (''TO-'' @ show_nat i) addr) (enumerate 0 toAddrs)))"

text \<open>\<open>call\<close> is \<open>ta_Call\<close> of the application; a result is shown as the signed 64 bits of its end.\<close>

definition ShowSlots ::
  "(address \<Rightarrow> address \<Rightarrow> bytes \<Rightarrow> (int \<times> string \<times> bytes) go) \<Rightarrow> (string \<Rightarrow> uint32 \<Rightarrow> bytes) \<Rightarrow> (address \<Rightarrow> string) \<Rightarrow>
   address \<Rightarrow> address list \<Rightarrow> nat \<Rightarrow> string list go" where
  "ShowSlots call MustPack hex caller contractAddrs fanoutSize =
     foldG (\<lambda>out (addrSN, addr).
       foldG (\<lambda>out i.
         bindG (call caller addr (MustPack ''get'' (of_nat i))) (\<lambda>(status, statusStr, retData).
           if status \<noteq> 0 \<or> statusStr \<noteq> ''success'' then Inl (PanicMsg ''invalid status'')
           else Inr (out @ [''Slot '' @ hex addr @ ''('' @ show_nat addrSN @ '') '' @ show_nat i @ '' '' @
                  show_int64 (of_nat (be_nat retData))]))) out [0..<fanoutSize * 2]) [] (enumerate 0 contractAddrs)"

section \<open>Calls of the backend\<close>

definition backend_Call ::
  "('t \<Rightarrow> address \<Rightarrow> uint64 \<Rightarrow> 'r) \<Rightarrow> ('r, 'c) rpc_runner \<Rightarrow> ('c, 'x) App \<Rightarrow> 't \<Rightarrow> address \<Rightarrow> (int \<times> bytes) go" where
  "backend_Call FromGethTx runTx app tx sender =
     bindG (App_RunTxForRpc FromGethTx runTx app tx sender False) (\<lambda>(runner, _). Inr runner)"

definition backend_EstimateGas ::
  "('t \<Rightarrow> address \<Rightarrow> uint64 \<Rightarrow> 'r) \<Rightarrow> ('r, 'c) rpc_runner \<Rightarrow> ('c, 'x) App \<Rightarrow> 't \<Rightarrow> address \<Rightarrow> (int \<times> bytes \<times> int64) go" where
  "backend_EstimateGas FromGethTx runTx app tx sender =
     bindG (App_RunTxForRpc FromGethTx runTx app tx sender True) (\<lambda>((status, out), gas). Inr (status, out, gas))"

section \<open>Lemmas\<close>

text \<open>The file of keys that a recording and a replay read is one that no command writes.\<close>

lemma keys_file_not_made:
  "stress_main args = Inr (GenKeys made n) \<Longrightarrow> stress_main args' \<in> {Inr (Gen b f t x used), Inr (Replay f used)} \<Longrightarrow> made \<noteq> used"
  by (auto simp: stress_main_def Let_def split: if_splits)

text \<open>A call and an estimate of the gas of the same transaction are served or panic together.\<close>

lemma call_and_estimate_ready:
  "(\<exists>r. backend_Call FromGethTx runTx app tx sender = Inr r) \<longleftrightarrow>
   (\<exists>r. backend_EstimateGas FromGethTx runTx' app tx' sender' = Inr r)"
  by (cases "blockInfo app") (auto simp: backend_Call_def backend_EstimateGas_def App_RunTxForRpc_def Let_def split: prod.splits)

text \<open>The report on slots ends with a line for every slot, when every call of it succeeds.\<close>

lemma ShowSlots_lines:
  assumes "\<And>addr i. \<exists>ret. call caller addr (MustPack ''get'' i) = Inr (0, ''success'', ret)"
  shows "\<exists>out. ShowSlots call MustPack hex caller addrs n = Inr out \<and> length out = 2 * n * length addrs"
proof -
  have slots: "\<exists>out'. foldG (\<lambda>out i. bindG (call caller addr (MustPack ''get'' (of_nat i))) (\<lambda>(status, statusStr, retData).
       if status \<noteq> 0 \<or> statusStr \<noteq> ''success'' then Inl (PanicMsg ''invalid status'') else Inr (out @ [line addr sn i retData])))
       out is = Inr out' \<and> length out' = length out + length is" for addr sn out "is" and line :: "address \<Rightarrow> nat \<Rightarrow> nat \<Rightarrow> bytes \<Rightarrow> string"
  proof (induction "is" arbitrary: out)
    case Nil
    then show ?case by simp
  next
    case (Cons i "is")
    from assms obtain ret where "call caller addr (MustPack ''get'' (of_nat i)) = Inr (0, ''success'', ret)" by blast
    with Cons.IH [of "out @ [line addr sn i ret]"] show ?case by simp
  qed
  have "\<exists>out'. foldG (\<lambda>out (sn, addr). foldG (\<lambda>out i. bindG (call caller addr (MustPack ''get'' (of_nat i))) (\<lambda>(status, statusStr, retData).
       if status \<noteq> 0 \<or> statusStr \<noteq> ''success'' then Inl (PanicMsg ''invalid status'') else Inr (out @ [line addr sn i retData])))
       out [0..<n * 2]) out xs = Inr out' \<and> length out' = length out + 2 * n * length xs"
    for out xs and line :: "address \<Rightarrow> nat \<Rightarrow> nat \<Rightarrow> bytes \<Rightarrow> string"
  proof (induction xs arbitrary: out)
    case Nil
    then show ?case by simp
  next
    case (Cons x xs)
    obtain sn addr where x: "x = (sn, addr)" by fastforce
    from slots [of addr line sn out "[0..<n * 2]"] obtain o1 where o1: "foldG (\<lambda>out i. bindG (call caller addr (MustPack ''get'' (of_nat i))) (\<lambda>(status, statusStr, retData).
       if status \<noteq> 0 \<or> statusStr \<noteq> ''success'' then Inl (PanicMsg ''invalid status'') else Inr (out @ [line addr sn i retData])))
       out [0..<n * 2] = Inr o1" "length o1 = length out + n * 2" by auto
    from Cons.IH [of o1] o1 show ?case by (auto simp: x)
  qed
  from this [where out = "[]" and xs = "enumerate 0 addrs" and line = "\<lambda>addr sn i retData.
      ''Slot '' @ hex addr @ ''('' @ show_nat sn @ '') '' @ show_nat i @ '' '' @ show_int64 (of_nat (be_nat retData))"]
  show ?thesis unfolding ShowSlots_def by simp
qed

end
