(* ===== verification/Spec2Isabelle.thy ===== *)
theory Spec2Isabelle
  imports Watcher_Progress Bch_Rpc Event_System App_Blocks Eth_Api Replay_Ws Start_Node Big_Utils Test_Blocks Rpc_Schema Mock_Node Key_Tools Stress_Main
begin

text \<open>
  A verification of smartBCH, the side chain of Bitcoin Cash in Go. An EVM chain runs on tendermint;
  miners of the main chain nominate its validators, and a system contract keeps their stakes and
  rewards. This theory holds the properties that span components; the other theories hold one
  component each.

  \<^bold>\<open>The parts of the program and where they are.\<close>

  \<^item> \<open>Go_Base\<close>: what the components share: machine integers as words of their width
    (\<^verbatim>\<open>[20]byte\<close> and \<^verbatim>\<open>[32]byte\<close> are words too), panics as the left values of \<open>'a go\<close>, big-endian
    bytes, \<^verbatim>\<open>copy\<close> into arrays, folds that may panic, and the locale \<open>machine\<close> of a step function
    with an invariant.
  \<^item> \<open>Staking_Types\<close> (\<^verbatim>\<open>staking/types/types.go\<close>): validators, pending rewards, the staking
    information and its queries, with their well-formedness \<open>wf_info\<close> and the sum \<open>owed\<close> of the
    coins the contract owes its validators.
  \<^item> \<open>Msgp\<close>, \<open>Staking_Codec\<close> (\<^verbatim>\<open>staking/types/types_gen.go\<close>): the generated codecs over the
    MessagePack library, which is a record of functions with laws and a concrete instance.
  \<^item> \<open>Evm_World\<close>, \<open>Staking_Store\<close>: accounts and storage of the EVM library (a record of functions
    with laws and an instance in memory) and the slots of the staking contract in it; the locales
    \<open>ledger\<close>, \<open>cell\<close> and \<open>two_cells\<close> state what the operations rely on.
  \<^item> \<open>Staking_Contract\<close>, \<open>Staking_Rewards\<close>, \<open>Staking_Epoch\<close> (\<^verbatim>\<open>staking/staking.go\<close>): what
    transactions call, slashing and the distribution of fees, and the switch to a new epoch. Their
    common invariant \<open>staking_inv\<close> says that the stored information is well-formed and that the
    contract's balance covers what it owes.
  \<^item> \<open>Watcher\<close>, \<open>Watcher_Progress\<close> (\<^verbatim>\<open>staking/watcher.go\<close>) and \<open>Bch_Rpc\<close> (\<^verbatim>\<open>staking/rpcclient.go\<close>):
    the loop that follows the main chain and makes epochs, and the client it reads blocks with. The
    channel from the watcher to the application has room for one epoch: it is the list of all epochs
    sent with the number of those received, and a send when one is waiting does not return.
  \<^item> \<open>App_Mempool\<close>, \<open>App_Blocks\<close> (\<^verbatim>\<open>app/app.go\<close>): the application's state as one record,
    \<^verbatim>\<open>CheckTx\<close>, and the life of a block from \<^verbatim>\<open>InitChain\<close> and \<^verbatim>\<open>BeginBlock\<close> to \<^verbatim>\<open>Commit\<close>, \<^verbatim>\<open>refresh\<close> and
    \<^verbatim>\<open>postCommit\<close>. A commit loads the staking information, may switch epochs, slashes, pays fees,
    prepares transactions, records the previous block and publishes it.
  \<^item> \<open>Chain_Types\<close>, \<open>Log_Filters\<close>, \<open>Api_Backend\<close>, \<open>Event_System\<close> (\<^verbatim>\<open>rpc/api/filters\<close>,
    \<^verbatim>\<open>api/backend.go\<close>): searching logs with Bloom filters against the interface \<open>log_service\<close>, which
    the backend implements, and the installed filters, whose event loop, goroutines, timeout loop
    and polls are an interleaving of steps, \<open>step\<close>.
  \<^item> \<open>Eth_Api\<close> (\<^verbatim>\<open>rpc/api/eth_api.go\<close>, \<^verbatim>\<open>eth_api_utils.go\<close>, \<^verbatim>\<open>sbch_api.go\<close>, \<^verbatim>\<open>errors.go\<close>,
    \<^verbatim>\<open>internal/ethutils\<close>): the handlers of the JSON-RPC namespaces \<^verbatim>\<open>eth\<close> and \<^verbatim>\<open>sbch\<close>, which read through
    the backend and send transactions to the mempool, and so to \<^verbatim>\<open>CheckTx\<close>.
    \<open>Rpc_Schema\<close> gives the objects they answer with a schema: the fields and the type of each.
  \<^item> \<open>App_Node\<close>, \<open>App_Run\<close> (\<^verbatim>\<open>app/app.go\<close>, \<^verbatim>\<open>param/config.go\<close>): starting the application on a stored
    world, \<^verbatim>\<open>NewApp\<close>, its contexts and calls for the RPC service; and every sequence of the calls tendermint
    makes, \<open>run\<close>, with what the history store and the chain feed get.
  \<^item> \<open>Rpc_Server\<close> (\<^verbatim>\<open>rpc/server.go\<close>, \<^verbatim>\<open>rpc/api\<close>): the namespaces \<^verbatim>\<open>web3\<close>, \<^verbatim>\<open>net\<close>, \<^verbatim>\<open>txpool\<close>, \<^verbatim>\<open>evm\<close> and
    \<^verbatim>\<open>tm\<close>, and starting and stopping the server over a network of listeners.
  \<^item> \<open>Command_Line\<close>, \<open>Key_Tools\<close>, \<open>Start_Node\<close> (\<^verbatim>\<open>cmd/smartbchd\<close>): the commands that make keys, make and
    change the genesis file, sign staking transactions and start a node; \<open>startInProcess\<close> puts the genesis file of \<^verbatim>\<open>init\<close>,
    \<^verbatim>\<open>NewApp\<close> and the RPC server together.
  \<^item> \<open>Test_App\<close>, \<open>Stress_Test\<close>, \<open>Replay_Ws\<close>, \<open>Stress_Main\<close> (\<^verbatim>\<open>internal/testutils/app.go\<close>, \<^verbatim>\<open>cmd/stresstest\<close>): an
    application driven block by block, the random transactions and recorded chains of the stress test,
    and the clients that send a recorded chain to a node and query it.
  \<^item> \<open>Test_Blocks\<close>, \<open>Big_Utils\<close>, \<open>Mock_Node\<close> (\<^verbatim>\<open>internal/testutils\<close>, \<^verbatim>\<open>internal/bigutils\<close>,
    \<^verbatim>\<open>staking/mocknode\<close>): the builders of blocks and filters, the conversions of numbers, and the
    stand-in for a main chain node, which answers from its files.

  \<^bold>\<open>What the theorems show.\<close>

  \<^item> Coins: distributing a fee, paying the fees in a commit, the operations of the contract and the
    switch of epochs keep \<open>staking_inv\<close> and neither make nor lose coins, except that the fees paid at
    height one are lost; slashing and the genesis state do not keep it, and it is shown how.
  \<^item> Results: who gets which share of a fee, which validators are active, what an epoch switch does
    to powers, rewards and stakes, when a gas price may change, when a transaction enters the
    mempool. The switch does not depend on the order in which Go iterates over maps.
  \<^item> Codecs: round trips, the two encoders agree, the size estimate is a bound.
  \<^item> The watcher: epochs are consecutive, finalized blocks stay, it makes progress on a chain exactly as
    long as the application receives its epochs, and all the ways in which it panics; with the RPC client, its epochs never have nominations.
  \<^item> Filters: a search returns exactly the matching logs of the blocks whose Bloom filters admit the
    criteria, which for the empty filters that the application stores are none; an installed filter gets every matching
    log, or the hash of every block, once and in order, in every interleaving (the locale \<open>delivery\<close>,
    proved once for both kinds of filters), and it can always get on while no timeout is being
    handled; a deadlock with the timeout loop; logs that filters miss.
  \<^item> The API: a transaction is accepted only after all checks of the mempool; the different ways to ask
    for a block and its transactions agree; ranges of heights are inclusive as asked.
    Objects answered are well typed, whatever is stored.
  \<^item> Runs: in every sequence of calls the history gets each committed block once and in order, and
    what \<^verbatim>\<open>CheckTx\<close> does is not seen on the other connections.
  \<^item> Restart: a restarted node has the committed state, but executes pending transactions with other block
    information, takes its validators from the state after them and has lost the epochs it was waiting for. A recorded chain can always be replayed.
  \<^item> Start and stop: a node starts on what \<^verbatim>\<open>init\<close> made only when the chain id was given as a
    number, and lists the accounts with coins; stopping leaves listeners open. Keys and
    genesis validators printed by one command are those the next one uses.
  \<^item> Termination: the generator of random transactions, waiting for a block, replaying and sending a
    recorded chain and counting its blocks end, under stated conditions on the random source or the store.

  \<^bold>\<open>Conventions.\<close> State is passed explicitly. A context that stays open while the store below it changes, the
  one of \<^verbatim>\<open>NewApp\<close>, reads the store as it is at the time of the read. The epochs the application finds in
  the watcher's channel are a list of its state that may have any length, which covers the channel. Third-party code (\<^verbatim>\<open>moeingevm\<close>, \<^verbatim>\<open>moeingads\<close>,
  \<^verbatim>\<open>moeingdb\<close>, \<^verbatim>\<open>msgp\<close>, go-ethereum, tendermint, HTTP, JSON) is a record of functions that the
  definitions take as an argument, with what the code relies on as predicates named \<open>_laws\<close>; each has
  an instance for which the laws hold. Iteration over a Go map takes the order as an argument.
  Loops that always end are total functions; loops over \<^verbatim>\<open>int64\<close> heights end at their last height.
  Loops that may run for ever are \<open>partial_function (option)\<close>, so that not returning is the value
  \<open>None\<close>: \<open>replay_loop\<close>, \<open>fresh_sender\<close>, \<open>skip_taken\<close>, \<open>total_loop\<close> and \<open>replay_blocks\<close>; where they are
  used, it is shown when they return. The endless loop of the watcher is the fold of its body over the
  answers of the client, and the endless loops of the event system are steps. The only fuel is that of
  \<^verbatim>\<open>trace_back\<close>, of \<^verbatim>\<open>evm_mine\<close> and of the retries of \<open>Replay_Ws\<close>: ten, a hundred and a million steps
  as in the code.

  \<^bold>\<open>Not modelled.\<close> Execution of transactions is \<^verbatim>\<open>moeingevm\<close>'s and a parameter, and so are the stores, the encoding
  of JSON, HTTP and websockets, key generation and signatures. Of the application: opening
  databases, snapshots, which are constants, and logging. Of the commands: the declaration of flags, configuration
  files of tendermint, signals, and commands that only print. Of the test tools: the
  compiler, ABI encoding, literals and the HTML of the charts. The handlers of websocket subscriptions
  are commented out in the code.
\<close>

section \<open>Main chain blocks, epochs and validators\<close>

text \<open>
  A client of the watcher whose answers are answers of the RPC client of \<^verbatim>\<open>staking/rpcclient.go\<close>,
  from whatever node.
\<close>

definition rpc_answers :: "client \<Rightarrow> bool" where
  "rpc_answers cl \<longleftrightarrow>
     (\<forall>h b. GetBlockByHeight cl h = Some b \<longrightarrow>
        (\<exists>(N :: string node) c c'. RpcClient_GetBlockByHeight N c h = Inr (Some b, c'))) \<and>
     (\<forall>k b. GetBlockByHash cl k = Some b \<longrightarrow>
        (\<exists>(N :: string node) c c'. RpcClient_GetBlockByHash N c k = Inr (Some b, c')))"

text \<open>
  A block without nominations and with a time of at most \<open>T\<close>, a watcher that has only such blocks, and a
  client that answers with no others.
\<close>

definition plain :: "int \<Rightarrow> BCHBlock \<Rightarrow> bool" where
  "plain T b \<longleftrightarrow> Nominations b = [] \<and> sint (Timestamp b) \<le> T"

definition plain_epoch :: "int \<Rightarrow> Epoch \<Rightarrow> bool" where
  "plain_epoch T e \<longleftrightarrow> ValMapByPubkey e = [] \<and> 0 \<le> sint (EndTime e) \<and> sint (EndTime e) \<le> T"

definition plain_watcher :: "int \<Rightarrow> Watcher \<Rightarrow> bool" where
  "plain_watcher T w \<longleftrightarrow> 0 \<le> T \<and> (\<forall>k b. hashToBlock w k = Some b \<longrightarrow> plain T b) \<and>
     (\<forall>h b. heightToFinalizedBlock w h = Some b \<longrightarrow> plain T b) \<and> list_all (plain_epoch T) (EpochChan w)"

definition plain_client :: "int \<Rightarrow> client \<Rightarrow> bool" where
  "plain_client T cl \<longleftrightarrow> (\<forall>h b. GetBlockByHeight cl h = Some b \<longrightarrow> plain T b) \<and>
     (\<forall>k b. GetBlockByHash cl k = Some b \<longrightarrow> plain T b)"

lemma rpc_answers_plain: "rpc_answers cl \<Longrightarrow> plain_client (2 ^ 63) cl"
proof -
  have "sint (t :: int64) \<le> 2 ^ 63" for t using sint_lt [of t] by simp
  moreover assume "rpc_answers cl"
  ultimately show ?thesis
    using GetBlock_no_nominations unfolding rpc_answers_def plain_client_def plain_def by metis
qed

definition plain_scan :: "int \<Rightarrow> epoch_scan \<Rightarrow> bool" where
  "plain_scan T s \<longleftrightarrow> snd (sc_noms s) = [] \<and> 0 \<le> sint (sc_end s) \<and> sint (sc_end s) \<le> T"

lemma scan_block_plain: "plain T b \<Longrightarrow> plain_scan T s \<Longrightarrow> plain_scan T (scan_block s b)"
  by (cases "sc_noms s") (auto simp: plain_scan_def scan_block_def count_block_def plain_def word_sless_alt)

lemma scan_heights_plain:
  assumes "scan_heights fin i final s = Inr s'" and "plain_scan T s" and "\<And>h b. fin h = Some b \<Longrightarrow> plain T b"
  shows "plain_scan T s'"
  using assms
proof (induction fin i final s rule: scan_heights.induct)
  case (1 fin i final s)
  show ?case
  proof (cases "i \<le>s final \<and> fin i \<noteq> None")
    case False
    with "1.prems" show ?thesis by (subst (asm) scan_heights.simps) (auto split: if_splits)
  next
    case True
    then obtain b where b: "fin i = Some b" by auto
    have s: "plain_scan T (scan_block s b)" by (rule scan_block_plain [OF "1.prems"(3) [OF b] "1.prems"(2)])
    show ?thesis
    proof (cases "i = final")
      case True
      with b "1.prems"(1) s \<open>i \<le>s final \<and> _\<close> show ?thesis by (subst (asm) scan_heights.simps) simp
    next
      case False
      with b "1.prems"(1) True have "scan_heights fin (i + 1) final (scan_block s b) = Inr s'"
        by (subst (asm) scan_heights.simps) simp
      from "1.IH" [OF _ b False this s] "1.prems"(3) True show ?thesis by blast
    qed
  qed
qed

lemma plain_clientD:
  assumes "plain_client T cl"
  shows "GetBlockByHeight cl h = Some b \<Longrightarrow> plain T b" and "GetBlockByHash cl k = Some b \<Longrightarrow> plain T b"
  using assms by (simp_all add: plain_client_def)

lemma generateNewEpoch_plain:
  assumes "generateNewEpoch w = Inr w'" and "plain_watcher T w"
  shows "plain_watcher T w'"
proof -
  let ?e = "\<lambda>s. \<lparr>StartHeight = lastEpochEndHeight w + 1, EndTime = sc_end s,
    Duration = (if epochList w \<noteq> [] then sc_end s - EndTime (last (epochList w)) else sc_end s - sc_start s),
    ValMapByPubkey = map (\<lambda>(k, p). (k, fst (sc_noms s) ! p)) (snd (sc_noms s))\<rparr>"
  from assms(1) obtain s where
    scan: "scan_heights (heightToFinalizedBlock w) (lastEpochEndHeight w + 1) (latestFinalizedHeight w)
      \<lparr>sc_end = 0, sc_start = 0x4000000000000000, sc_noms = ([], [])\<rparr> = Inr s"
    and w': "w' = ClearOldData (w\<lparr>epochList := epochList w @ [?e s], EpochChan := EpochChan w @ [?e s],
      lastEpochEndHeight := latestFinalizedHeight w\<rparr>)"
    by (auto simp: generateNewEpoch_def Let_def send_epoch_eq split: prod.splits if_splits)
  define e where "e = ?e s"
  have "plain_scan T s"
    by (rule scan_heights_plain [OF scan]) (use assms(2) in \<open>auto simp: plain_watcher_def plain_scan_def\<close>)
  then have "plain_epoch T e" by (simp add: e_def plain_scan_def plain_epoch_def)
  with ClearOldData_eq [of "w\<lparr>epochList := epochList w @ [e], EpochChan := EpochChan w @ [e],
      lastEpochEndHeight := latestFinalizedHeight w\<rparr>"] assms(2) w' [folded e_def]
  show ?thesis by (auto simp: plain_watcher_def dest: map_leD)
qed

lemma finalize_plain:
  assumes "finalize w b = Inr w'" and "plain_watcher T w" and "plain T b"
  shows "plain_watcher T w'"
proof -
  have "plain_watcher T (extended w b)" using assms(2,3) by (auto simp: plain_watcher_def extended_def)
  with assms(1,2) generateNewEpoch_plain [of "extended w b" w'] show ?thesis
    by (auto simp: finalize_eq split: option.splits if_splits)
qed

lemma addBlock_plain:
  assumes "addBlock w (Some b) = Inr (w', m)" and "plain_watcher T w" and "plain T b"
  shows "plain_watcher T w'"
proof -
  let ?w = "w\<lparr>hashToBlock := (hashToBlock w)(HashId b \<mapsto> b)\<rparr>"
  have w: "plain_watcher T ?w" using assms(2,3) by (auto simp: plain_watcher_def)
  then have blk: "plain T c" if "hashToBlock ?w k = Some c" for k c using that unfolding plain_watcher_def by blast
  have "plain T c" if "confirm (hashToBlock ?w) n p = Inr c" "plain T p" for n p c
    using that blk by (induction n arbitrary: p) (auto split: option.splits)
  with finalize_plain [OF _ w] blk w assms(1) show ?thesis
    by (auto simp: addBlock_def Let_def split: option.splits sum.splits)
qed

lemma trace_back_plain:
  assumes "plain_client T cl" and "trace_back cl n w m = Inr w'" and "plain_watcher T w"
  shows "plain_watcher T w'"
  using assms(2,3)
proof (induction n arbitrary: w m)
  case 0
  then show ?case by simp
next
  case (Suc n)
  show ?case
  proof (cases m)
    case None
    with Suc.prems show ?thesis by simp
  next
    case (Some h)
    with Suc.prems(1) obtain b w1 m1 where b: "GetBlockByHash cl h = Some b"
      and add: "addBlock w (Some b) = Inr (w1, m1)" and rest: "trace_back cl n w1 m1 = Inr w'"
      by (auto split: option.splits)
    from Suc.IH [OF rest addBlock_plain [OF add Suc.prems(2) plain_clientD(2) [OF assms(1) b]]] show ?thesis .
  qed
qed

lemma run_step_plain:
  assumes "plain_client T cl" and "run_step (w, h) cl = Inr (w', h')" and "plain_watcher T w"
  shows "plain_watcher T w'"
proof -
  let ?w = "receive_epochs (EpochsTaken cl) w"
  from assms(2) obtain w1 m where add: "addBlock ?w (GetBlockByHeight cl (h + 1)) = Inr (w1, m)"
    by (auto simp: run_step_def Let_def)
  then obtain b where b: "GetBlockByHeight cl (h + 1) = Some b"
    by (cases "GetBlockByHeight cl (h + 1)") (auto simp: addBlock_def)
  have w0: "plain_watcher T ?w" using assms(3) by (simp add: plain_watcher_def)
  have w1: "plain_watcher T w1" by (rule addBlock_plain [OF _ w0 plain_clientD(1) [OF assms(1) b]]) (use add b in simp)
  from assms(2) add obtain w2 where "w2 = w1 \<or> w2 = w1\<lparr>hashToBlock := Map.empty\<rparr>" and "trace_back cl 10 w2 m = Inr w'"
    by (auto simp: run_step_def Let_def split: if_splits)
  moreover from this w1 have "plain_watcher T w2" by (auto simp: plain_watcher_def)
  ultimately show ?thesis using trace_back_plain [OF assms(1)] by blast
qed

interpretation plain_watcher: machine run_step "plain_client T" "\<lambda>(w, h). plain_watcher T w" for T
proof
  fix s i s'
  assume "case s of (w, h) \<Rightarrow> plain_watcher T w" and "plain_client T i" and "run_step s i = Inr s'"
  then show "case s' of (w, h) \<Rightarrow> plain_watcher T w" by (cases s, cases s') (auto dest: run_step_plain)
qed

lemma watch_plain:
  assumes "watch h0 cls = Inr (w, h)" and "list_all (plain_client T) cls" and "0 \<le> T"
  shows "plain_watcher T w"
  using plain_watcher.run_invar [OF assms(1) [unfolded watch_def] _ assms(2)] assms(3)
  by (simp add: plain_watcher_def NewWatcher_def)

text \<open>An epoch without nominations leaves no validator with voting power.\<close>

lemma delete_step_subset: "delete_step U (a, m) i = Inr (a', m') \<Longrightarrow> set a' \<subseteq> set a"
  by (auto simp: delete_step_def split: if_splits) (metis in_set_takeD in_set_dropD)+

lemma delete_useless_subset:
  assumes "delete_useless U vals = Inr vals'"
  shows "set vals' \<subseteq> set vals"
proof -
  from assms obtain a m where run: "foldG (delete_step U) (vals, length vals) [0..<length vals] = Inr (a, m)"
    and vals': "vals' = take m a" by (auto simp: delete_useless_def)
  have "case (a, m) of (a, m) \<Rightarrow> set a \<subseteq> set vals"
    by (rule foldG_invariant [OF run]) (use delete_step_subset in fastforce)+
  then show ?thesis using vals' by (auto dest: in_set_takeD)
qed

lemma SwitchEpoch_without_nominations:
  assumes "orders_ok q" and "ValMapByPubkey epoch = []" and "SwitchEpoch E M q ctx epoch = Inr (ctx', vals)"
  shows "vals = []"
proof -
  have none: "ord_nominations q [] = []" "ord_powers q [] = []"
    using assms(1) unfolding orders_ok_def by (metis mset_zero_iff)+
  let ?z = "\<lambda>info. info\<lparr>Validators := map (\<lambda>val. val\<lparr>VotingPower := 0\<rparr>) (Validators info)\<rparr>"
  have "updateVotingPower q info [] = ?z info" for info by (simp add: updateVotingPower_def none Let_def)
  with assms(2,3) obtain info ctx1 acc1 ctx2 acc2 info2 where
    clear: "clearUp E q ctx1 acc1 (?z info) = Inr (ctx2, acc2, info2)"
    and vals: "vals = GetActiveValidators info2 MinimumStakingAmount"
    by (auto simp: SwitchEpoch_def none Let_def)
  from clear have "delete_useless (GetUselessValidators (?z info)) (Validators (?z info)) = Inr (Validators info2)"
    by (auto simp: clearUp_def Let_def)
  from delete_useless_subset [OF this] have "\<forall>v \<in> set (Validators info2). VotingPower v = 0" by auto
  then have "filter (eligible MinimumStakingAmount) (Validators info2) = []"
    by (auto simp: filter_empty_conv eligible_def)
  then show ?thesis by (simp add: vals GetActiveValidators_def)
qed

lemma receive_epoch_queue:
  assumes "epochQueue app = epoch # epochs"
  shows "\<exists>es chan. receive_epoch app = app\<lparr>watcherChan := chan, epochQueue := epoch # es\<rparr>"
proof (cases "watcherChan app")
  case Nil
  with assms have "receive_epoch app = app\<lparr>watcherChan := [], epochQueue := epoch # epochs\<rparr>"
    by (simp add: receive_epoch_def)
  then show ?thesis by blast
next
  case (Cons e es)
  with assms have "receive_epoch app = app\<lparr>watcherChan := es, epochQueue := epoch # epochs @ [e]\<rparr>"
    by (simp add: receive_epoch_def)
  then show ?thesis by blast
qed

text \<open>
  (C5) The main chain never gives the side chain its validators: the RPC client reports no
  nomination, so every epoch that a watcher with this client sends, whatever the nodes and their
  blocks are, has no nominations; and the commit that switches to such an epoch leaves the
  chain without validators, so that \<^verbatim>\<open>EndBlock\<close> announces an empty validator set.
\<close>

theorem watched_epochs_dismiss_validators:
  assumes "watch h0 cls = Inr (w, h)" and "list_all rpc_answers cls" and "epoch \<in> set (EpochChan w)"
    and "orders_ok (lib_orders L)" and "epochQueue app = epoch # epochs"
    and "EndTime epoch + 60000 <s blk_Timestamp (block app)" and "commit_epoch L info app = Inr app'"
  shows "ValMapByPubkey epoch = [] \<and> currValidators app' = [] \<and> EndBlock app' = []"
proof -
  have "list_all (plain_client (2 ^ 63)) cls"
    using assms(2) rpc_answers_plain unfolding list_all_iff by blast
  from watch_plain [OF assms(1) this] assms(3) have none: "ValMapByPubkey epoch = []"
    by (auto simp: plain_watcher_def list_all_iff plain_epoch_def)
  obtain es chan where rcv: "receive_epoch app = app\<lparr>watcherChan := chan, epochQueue := epoch # es\<rparr>"
    using receive_epoch_queue [OF assms(5)] by blast
  have due: "EndTime epoch + 100 * 10 * 60 <s blk_Timestamp (block app)" using assms(6) by simp
  have "commit_epoch L info app = bindG (SwitchEpoch (lib_evm L) (lib_codec L) (lib_orders L) (trunk app) epoch)
      (\<lambda>(ctx, vals). Inr (app\<lparr>watcherChan := chan, trunk := ctx, currValidators := vals, epochQueue := es\<rparr>))"
    unfolding commit_epoch_def rcv Let_def using due by simp
  then have "currValidators app' = []"
    using assms(7) SwitchEpoch_without_nominations [OF assms(4) none, of "lib_evm L" "lib_codec L" "trunk app"]
    by (cases "SwitchEpoch (lib_evm L) (lib_codec L) (lib_orders L) (trunk app) epoch") auto
  with none show ?thesis by (simp add: EndBlock_def validator_updates_def)
qed

text \<open>A node that has one block, whatever it is asked for, and a chain of blocks from such nodes.\<close>

definition block_info :: "BCHBlock \<Rightarrow> BlockInfo" where
  "block_info b = zero_BlockInfo\<lparr>BI_Hash := hex_EncodeToString (be_bytes 32 (HashId b)),
     PreviousBlockhash := hex_EncodeToString (be_bytes 32 (ParentBlk b)),
     BI_Height := Height b, BI_Time := Timestamp b, BI_Tx := [''t'']\<rparr>"

definition block_node :: "BCHBlock \<Rightarrow> string node" where
  "block_node b = witness_node\<lparr>
     Unmarshal_BlockHashResp := (\<lambda>_. Inr \<lparr>BHR_Result = ''b'', BHR_Error = None, BHR_Id = ''smartbch''\<rparr>),
     Unmarshal_BlockInfoResp := (\<lambda>_. Inr \<lparr>BIR_Result = block_info b, BIR_Error = None, BIR_Id = ''smartbch''\<rparr>)\<rparr>"

lemma block_node_answer:
  assumes "Nominations b = []"
  shows "RpcClient_GetBlockByHeight (block_node b) c h = Inr (Some b, c\<lparr>err := None\<rparr>)"
proof -
  have "getBlockHashOfHeight (block_node b) c' h = Inr ''b''" "getBlock (block_node b) c' s = Inr (block_info b)"
    "getTx (block_node b) c' s = Inr witness_coinbase" for c' s
    by (simp_all add: getBlockHashOfHeight_def getBlock_def getTx_def sendRequest_def block_node_def witness_node_def
        http_NewRequest_def)
  moreover have "copy_array 32 0 (be_bytes 32 x) = x" for x :: bytes32 by (rule copy_array_be_bytes) simp
  ultimately show ?thesis
    using assms
    by (simp add: RpcClient_GetBlockByHeight_def getBCHBlock_def block_info_def hex_decode_encode GetValidatorPubKey_def Let_def)
qed

lemma witness_chain_rpc: "rpc_answers (chain_client N witness_chain)"
proof -
  have "RpcClient_GetBlockByHeight (block_node (witness_chain i)) c h = Inr (Some (witness_chain i), c\<lparr>err := None\<rparr>)" for i c h
    by (rule block_node_answer) (simp add: witness_chain_def)
  then show ?thesis unfolding rpc_answers_def chain_client_def by (fastforce split: if_splits)
qed

text \<open>An epoch of that chain, and an application for which it is due.\<close>

definition epoch_app :: "Epoch \<Rightarrow> (mem_world, exec_info option) App" where
  "epoch_app epoch = fees_app\<lparr>epochQueue := [epoch], block := zero_Block\<lparr>blk_Timestamp := 2000000\<rparr>\<rparr>"

lemma witness_chain_epoch:
  "\<exists>w epoch. watch 0 (replicate 2026 (chain_client 2026 witness_chain)) = Inr (w, 2026) \<and> epoch \<in> set (EpochChan w) \<and>
     plain_epoch 1300000 epoch"
proof -
  let ?cls = "replicate 2026 (chain_client 2026 witness_chain)"
  have ch: "chain 2026 witness_chain" by (rule witness_chain_ok) simp
  from chain_client_serves [OF this] have "list_all (serves 2026 witness_chain) ?cls" by (simp add: list_all_iff)
  with watch_chain [OF ch this] obtain w where w: "watch 0 ?cls = Inr (w, 2026)" and f: "follows 2026 witness_chain 2026 w"
    by (auto simp: keeps_up_def)
  from follows_sent(1) [OF ch f] have one: "length (EpochChan w) = 1" by simp
  have "sint (600 * of_nat i :: int64) \<le> 1300000" if "i \<le> 2026" for i
  proof -
    have "600 * of_nat i = (of_nat (600 * i) :: int64)" by simp
    then show ?thesis using that by (simp only:) (simp add: signed_of_nat signed_take_bit_int_eq_self del: of_nat_mult)
  qed
  then have "plain_client 1300000 (chain_client 2026 witness_chain)"
    by (auto simp: plain_client_def chain_client_def plain_def witness_chain_def simp del: of_nat_unat split: if_splits)
  then have "list_all (plain_client 1300000) ?cls" by (simp add: list_all_iff)
  from watch_plain [OF w this] have "list_all (plain_epoch 1300000) (EpochChan w)" by (simp add: plain_watcher_def)
  with w one show ?thesis by (cases "EpochChan w") auto
qed

theorem watched_epochs_dismiss_validators_witness:
  "\<exists>w epoch app'. watch 0 (replicate 2026 (chain_client 2026 witness_chain)) = Inr (w, 2026) \<and>
     epoch \<in> set (EpochChan w) \<and> commit_epoch witness_lib active_witness (epoch_app epoch) = Inr app' \<and>
     GetActiveValidators active_witness MinimumStakingAmount \<noteq> [] \<and> EndBlock app' = []"
proof -
  from witness_chain_epoch obtain w epoch where
    w: "watch 0 (replicate 2026 (chain_client 2026 witness_chain)) = Inr (w, 2026)" "epoch \<in> set (EpochChan w)"
    and e: "plain_epoch 1300000 epoch" by blast
  have lib: "lib_evm witness_lib = mem_evm" "lib_codec witness_lib = mp_codec" "lib_orders witness_lib = id_orders"
    by (simp_all add: witness_lib_def)
  have queue: "epochQueue (epoch_app epoch) = [epoch]" "receive_epoch (epoch_app epoch) = epoch_app epoch"
    "trunk (epoch_app epoch) = witness_world active_witness active_funds" "blk_Timestamp (block (epoch_app epoch)) = 2000000"
    by (simp_all add: epoch_app_def receive_epoch_def fees_app_def start_app_def)
  have due: "EndTime epoch + 60000 <s blk_Timestamp (block (epoch_app epoch))"
    using e sint_add64 [of "EndTime epoch" 60000] by (simp add: queue word_sless_alt plain_epoch_def)
  have "GetUselessValidators (powered active_witness epoch) = [2]" "epoch_ok epoch"
    using e by (simp_all add: GetUselessValidators_def power_val_def nominated_def active_witness_def plain_epoch_def
      witness_validator_def immature_def next_epoch_def EpochCountBeforeRewardMature_def epoch_ok_def)
  with SwitchEpoch_run [OF mem_evm_laws mp_codec_laws witness_orders(1) _ witness_world_load [OF active_witness_inv(2)]
      active_witness_inv(1,2) witness_epoch_small(1), of epoch active_funds]
  obtain ctx vals where "SwitchEpoch mem_evm mp_codec id_orders (witness_world active_witness active_funds) epoch = Inr (ctx, vals)"
    by (metis One_nat_def le_numeral_extra(4) length_Cons list.size(3))
  then obtain app' where app': "commit_epoch witness_lib active_witness (epoch_app epoch) = Inr app'"
    using due by (simp add: commit_epoch_def queue lib Let_def)
  have "list_all rpc_answers (replicate 2026 (chain_client 2026 witness_chain))"
    using witness_chain_rpc by (simp add: list_all_iff)
  from watched_epochs_dismiss_validators [OF w(1) this w(2) _ queue(1) due app'] have "EndBlock app' = []"
    by (simp add: lib witness_orders)
  then show ?thesis using w app' by (auto simp: active_witness_active)
qed

section \<open>Published logs and filters\<close>

text \<open>
  (C17) A log filter with a first block greater than zero (and below \<open>2 ^ 63\<close>) and no last block never
  gets a log of a new block. The API accepts such a filter, but the logs that a commit publishes
  carry no block number, so the event system takes them for logs of block zero and drops all of
  them, whatever the block, its logs and the other criteria are; the committed block and its
  header are published as they should.
\<close>

theorem published_logs_miss_bounded_filters:
  assumes "FromBlock (logsCrit sub) = Some f" and "ToBlock (logsCrit sub) = None" and "0 < f" and "f < 2 ^ 63"
  shows "SubscribeLogs (logsCrit sub) = Inr () \<and>
    list_all (\<lambda>ev. send_logs ev sub = []) (drop (length (logsFeed app)) (logsFeed (publishNewBlock b app))) \<and>
    (\<exists>ev. chainFeed (publishNewBlock b app) = chainFeed app @ [ev] \<and> ev_Block ev = b \<and>
       hdr_Number (ev_Header ev) = mdb_Height b)"
proof -
  have f: "0 \<le>s big_Int64 f" "0 < big_Uint64 f"
    using assms(3,4)
    by (simp_all add: big_Int64_def big_Uint64_def word_sle_eq word_less_alt signed_of_int unsigned_of_int
        signed_take_bit_int_eq_self take_bit_int_eq_self)
  have "log_BlockNumber l = 0" if "l \<in> set (collectAllGethLogs b)" for l
    using that by (auto simp: collectAllGethLogs_def)
  with f have "filter (log_selected (Some f) to as ts) (collectAllGethLogs b) = []" for to as ts
    by (auto simp: filter_empty_conv log_selected_def)
  then have "send_logs (collectAllGethLogs b) sub = []"
    by (simp add: send_logs_def crit_logs_def filterLogs_eq assms(1) Let_def)
  moreover have "SubscribeLogs (logsCrit sub) = Inr ()"
    using f(1) assms(1,2) by (auto simp: SubscribeLogs_def Let_def)
  ultimately show ?thesis by (simp add: publishNewBlock_def Let_def)
qed

theorem published_logs_miss_bounded_filters_witness:
  "(let sub = subscribeLogs ''1'' (no_criteria\<lparr>FromBlock := Some 1\<rparr>);
        b = \<lparr>mdb_Height = 7, mdb_BlockHash = 7, mdb_BlockInfo = [], mdb_TxList = [\<lparr>mtx_HashId = 1, mtx_SrcAddr = 1,
              mtx_DstAddr = 2, mtx_Content = [], mtx_LogList = [(3, [])]\<rparr>]\<rparr>;
        feed = logsFeed (publishNewBlock b fees_app)
    in length feed = 1 \<and> send_logs (feed ! 0) sub = [] \<and>
       send_logs (feed ! 0) (subscribeLogs ''1'' no_criteria) \<noteq> [])"
proof -
  let ?b = "\<lparr>mdb_Height = 7, mdb_BlockHash = 7, mdb_BlockInfo = [], mdb_TxList = [\<lparr>mtx_HashId = 1, mtx_SrcAddr = 1,
              mtx_DstAddr = 2, mtx_Content = [], mtx_LogList = [(3, [])]\<rparr>]\<rparr>"
  have feed: "logsFeed (publishNewBlock ?b fees_app) =
      [[\<lparr>log_Address = 3, log_Topics = [], log_BlockNumber = 0, log_TxHash = 0\<rparr>]]" "logsFeed fees_app = []"
    by (simp_all add: publishNewBlock_def collectAllGethLogs_def fees_app_def start_app_def Let_def)
  have "send_logs [\<lparr>log_Address = 3, log_Topics = [], log_BlockNumber = 0, log_TxHash = 0\<rparr>]
      (subscribeLogs ''1'' no_criteria) \<noteq> []"
    by (simp add: send_logs_def crit_logs_def filterLogs_eq subscribeLogs_def no_criteria_def log_selected_def criteria_ok_def Let_def)
  with published_logs_miss_bounded_filters [of "subscribeLogs ''1'' (no_criteria\<lparr>FromBlock := Some 1\<rparr>)" 1 fees_app ?b]
  show ?thesis unfolding Let_def feed by (simp add: subscribeLogs_def no_criteria_def)
qed

end
